(* ===== verification/Kepler_Prelude.thy ===== *)
theory Kepler_Prelude
  imports Main "HOL-Library.Word" "HOL-Library.List_Lexorder" "HOL-Library.Char_ord"
begin

text \<open>
  What the components share: the result type of fallible Rust code, the parts of
  \<^verbatim>\<open>str\<close> and of integer parsing and printing that the daemon uses, the reading of a
  \<^verbatim>\<open>HashMap\<close> as an association list in iteration order, and generic lemmas on lists.

  A Rust \<^verbatim>\<open>str\<close> is a sequence of UTF-8 bytes and is modelled as such: a \<^typ>\<open>char\<close> is
  one byte. Searching and splitting at ASCII characters works on bytes in the same way as on
  Unicode characters; trimming is by Unicode white space, whose UTF-8 encodings
  \<open>ws_len\<close> lists. \<^verbatim>\<open>Ord\<close> on \<^verbatim>\<open>str\<close> is the lexicographic order of the bytes, which
  is the order of the imported theories.
\<close>

named_theorems str_simps \<open>facts on the string functions of the standard library\<close>
named_theorems amap_simps \<open>facts on association lists read as hash maps\<close>

subsection \<open>Results\<close>

type_synonym ('e, 'a) result = "'e + 'a"

abbreviation Err :: "'e \<Rightarrow> ('e, 'a) result" where "Err \<equiv> Inl"
abbreviation Ok :: "'a \<Rightarrow> ('e, 'a) result" where "Ok \<equiv> Inr"

text \<open>The question mark operator of Rust: an error ends the function, a value goes on.\<close>

definition bind_res :: "('e, 'a) result \<Rightarrow> ('a \<Rightarrow> ('e, 'b) result) \<Rightarrow> ('e, 'b) result" where
  "bind_res r f = (case r of Inl e \<Rightarrow> Inl e | Inr x \<Rightarrow> f x)"

lemma bind_res_simps [simp]: "bind_res (Err e) f = Err e" "bind_res (Ok x) f = f x"
  by (simp_all add: bind_res_def)

lemma bind_res_Ok_iff: "bind_res r f = Ok y \<longleftrightarrow> (\<exists>x. r = Ok x \<and> f x = Ok y)"
  by (auto simp: bind_res_def split: sum.splits)

lemma bind_res_Err_iff: "bind_res r f = Err e \<longleftrightarrow> r = Err e \<or> (\<exists>x. r = Ok x \<and> f x = Err e)"
  by (auto simp: bind_res_def split: sum.splits)

definition map_err :: "('e \<Rightarrow> 'f) \<Rightarrow> ('e, 'a) result \<Rightarrow> ('f, 'a) result" where
  "map_err g r = (case r of Inl e \<Rightarrow> Inl (g e) | Inr x \<Rightarrow> Inr x)"

lemma map_err_simps [simp]: "map_err g (Err e) = Err (g e)" "map_err g (Ok x) = Ok x"
  by (simp_all add: map_err_def)

lemma map_err_Ok_iff [simp]: "map_err g r = Ok x \<longleftrightarrow> r = Ok x"
  by (simp add: map_err_def split: sum.splits)

definition is_ok :: "('e, 'a) result \<Rightarrow> bool" where
  "is_ok r = (case r of Inl _ \<Rightarrow> False | Inr _ \<Rightarrow> True)"

lemma is_ok_simps [simp]: "\<not> is_ok (Err e)" "is_ok (Ok x)"
  by (simp_all add: is_ok_def)

lemma is_ok_iff: "is_ok r \<longleftrightarrow> (\<exists>x. r = Ok x)"
  by (simp add: is_ok_def split: sum.splits)

definition ok_or :: "'e \<Rightarrow> 'a option \<Rightarrow> ('e, 'a) result" where
  "ok_or e x = (case x of None \<Rightarrow> Inl e | Some y \<Rightarrow> Inr y)"

lemma ok_or_simps [simp]: "ok_or e None = Err e" "ok_or e (Some x) = Ok x"
  by (simp_all add: ok_or_def)

definition res_ok :: "('e, 'a) result \<Rightarrow> 'a option" where
  "res_ok r = (case r of Inl _ \<Rightarrow> None | Inr x \<Rightarrow> Some x)"

lemma res_ok_simps [simp]: "res_ok (Err e) = None" "res_ok (Ok x) = Some x"
  by (simp_all add: res_ok_def)

text \<open>A \<^verbatim>\<open>for\<close> loop whose body may leave the function with an error.\<close>

fun try_fold :: "('s \<Rightarrow> 'a \<Rightarrow> ('e, 's) result) \<Rightarrow> 's \<Rightarrow> 'a list \<Rightarrow> ('e, 's) result" where
  "try_fold f s [] = Ok s"
| "try_fold f s (x # xs) = (case f s x of Inl e \<Rightarrow> Inl e | Inr s' \<Rightarrow> try_fold f s' xs)"

lemma try_fold_append:
  "try_fold f s (xs @ ys) = bind_res (try_fold f s xs) (\<lambda>s'. try_fold f s' ys)"
  by (induction xs arbitrary: s) (auto split: sum.splits)

lemma try_fold_inv:
  assumes "try_fold f s xs = Ok s'" "I s"
    and "\<And>s x s'. x \<in> set xs \<Longrightarrow> I s \<Longrightarrow> f s x = Ok s' \<Longrightarrow> I s'"
  shows "I s'"
  using assms
proof (induction xs arbitrary: s)
  case (Cons x xs)
  then obtain t where t: "f s x = Ok t" "try_fold f t xs = Ok s'"
    by (auto split: sum.splits)
  have "I t" using Cons.prems(3) [of x s t] Cons.prems(2) t(1) by simp
  with t(2) show ?case
  proof (rule Cons.IH)
    fix u y u' assume "y \<in> set xs" "I u" "f u y = Ok u'"
    then show "I u'" using Cons.prems(3) [of y u u'] by simp
  qed
qed simp

lemma try_fold_unit_Ok_iff:
  "try_fold (\<lambda>_. f) () xs = Ok () \<longleftrightarrow> (\<forall>x \<in> set xs. f x = Ok ())"
  by (induction xs) (auto split: sum.splits)

lemma try_fold_unit_Err:
  "try_fold (\<lambda>_. f) () xs = Err e \<Longrightarrow> \<exists>x \<in> set xs. f x = Err e"
  by (induction xs) (auto split: sum.splits)

subsection \<open>Hash maps\<close>

text \<open>
  A \<^verbatim>\<open>HashMap\<close> that the code iterates over is an association list with distinct keys;
  the list is the order in which this run of the program meets the entries. The order is not
  specified by Rust, so the theorems are for every list. A map that is only looked up and
  updated is a partial function.
\<close>

type_synonym ('k, 'v) hmap = "('k \<times> 'v) list"

definition hm_keys :: "('k, 'v) hmap \<Rightarrow> 'k list" where
  "hm_keys m = map fst m"

definition hm_get :: "('k, 'v) hmap \<Rightarrow> 'k \<Rightarrow> 'v option" where
  "hm_get m k = map_of m k"

definition hm_contains :: "('k, 'v) hmap \<Rightarrow> 'k \<Rightarrow> bool" where
  "hm_contains m k = (k \<in> set (hm_keys m))"

definition hm_wf :: "('k, 'v) hmap \<Rightarrow> bool" where
  "hm_wf m = distinct (hm_keys m)"

lemma hm_get_None_iff [amap_simps]: "hm_get m k = None \<longleftrightarrow> \<not> hm_contains m k"
  by (simp add: hm_get_def hm_contains_def hm_keys_def map_of_eq_None_iff)

lemma hm_get_Some_contains: "hm_get m k = Some v \<Longrightarrow> hm_contains m k"
  using hm_get_None_iff [of m k] by auto

lemma hm_contains_get: "hm_contains m k \<Longrightarrow> \<exists>v. hm_get m k = Some v"
  using hm_get_None_iff [of m k] by (cases "hm_get m k") auto

lemma hm_get_in_set: "hm_get m k = Some v \<Longrightarrow> (k, v) \<in> set m"
  by (simp add: hm_get_def map_of_SomeD)

lemma hm_in_set_get: "hm_wf m \<Longrightarrow> (k, v) \<in> set m \<Longrightarrow> hm_get m k = Some v"
  by (simp add: hm_get_def hm_wf_def hm_keys_def)

lemma hm_get_set_iff: "hm_wf m \<Longrightarrow> hm_get m k = Some v \<longleftrightarrow> (k, v) \<in> set m"
  by (auto intro: hm_in_set_get hm_get_in_set)

lemma hm_filter_wf: "hm_wf m \<Longrightarrow> hm_wf (filter P m)"
  by (simp add: hm_wf_def hm_keys_def distinct_map_filter)

subsection \<open>Strings: characters\<close>

definition is_ascii_digit :: "char \<Rightarrow> bool" where
  "is_ascii_digit c = (48 \<le> (of_char c :: nat) \<and> (of_char c :: nat) \<le> 57)"

definition digit_char :: "nat \<Rightarrow> char" where
  "digit_char d = char_of (48 + d)"

definition digit_val :: "char \<Rightarrow> nat" where
  "digit_val c = of_char c - 48"

lemma of_char_digit_char: "d < 10 \<Longrightarrow> of_char (digit_char d) = 48 + d"
  by (simp add: digit_char_def)

lemma digit_char_digit [simp, str_simps]: "d < 10 \<Longrightarrow> is_ascii_digit (digit_char d)"
  by (simp add: is_ascii_digit_def of_char_digit_char)

lemma digit_val_char [simp, str_simps]: "d < 10 \<Longrightarrow> digit_val (digit_char d) = d"
  by (simp add: digit_val_def of_char_digit_char)

lemma digit_val_less: "is_ascii_digit c \<Longrightarrow> digit_val c < 10"
  unfolding is_ascii_digit_def digit_val_def by linarith

text \<open>\<^verbatim>\<open>to_ascii_lowercase\<close> and \<^verbatim>\<open>to_ascii_uppercase\<close> of one byte.\<close>

definition lower_char :: "char \<Rightarrow> char" where
  "lower_char c = (if 65 \<le> (of_char c :: nat) \<and> (of_char c :: nat) \<le> 90
     then char_of (of_char c + 32 :: nat) else c)"

definition upper_char :: "char \<Rightarrow> char" where
  "upper_char c = (if 97 \<le> (of_char c :: nat) \<and> (of_char c :: nat) \<le> 122
     then char_of (of_char c - 32 :: nat) else c)"

definition to_ascii_lowercase :: "string \<Rightarrow> string" where
  "to_ascii_lowercase s = map lower_char s"

definition to_ascii_uppercase :: "string \<Rightarrow> string" where
  "to_ascii_uppercase s = map upper_char s"

definition eq_ignore_ascii_case :: "string \<Rightarrow> string \<Rightarrow> bool" where
  "eq_ignore_ascii_case s t = (to_ascii_lowercase s = to_ascii_lowercase t)"

subsection \<open>Strings: white space\<close>

text \<open>
  The number of bytes of the white-space character at the front of a string, 0 if there is
  none: the 25 code points with the Unicode property \<^verbatim>\<open>White_Space\<close>, in UTF-8.
\<close>

definition ascii_ws :: "char \<Rightarrow> bool" where
  "ascii_ws c = (c = CHR '' '' \<or> (9 \<le> (of_char c :: nat) \<and> (of_char c :: nat) \<le> 13))"

definition ws3 :: "char \<Rightarrow> char \<Rightarrow> char \<Rightarrow> bool" where
  "ws3 a b c =
     (a = CHR 0xE1 \<and> b = CHR 0x9A \<and> c = CHR 0x80 \<or>
      a = CHR 0xE2 \<and> b = CHR 0x80 \<and>
        (128 \<le> (of_char c :: nat) \<and> (of_char c :: nat) \<le> 138 \<or> c = CHR 0xA8 \<or> c = CHR 0xA9 \<or> c = CHR 0xAF) \<or>
      a = CHR 0xE2 \<and> b = CHR 0x81 \<and> c = CHR 0x9F \<or>
      a = CHR 0xE3 \<and> b = CHR 0x80 \<and> c = CHR 0x80)"

definition ws2 :: "char \<Rightarrow> char \<Rightarrow> bool" where
  "ws2 a b = (a = CHR 0xC2 \<and> (b = CHR 0x85 \<or> b = CHR 0xA0))"

fun ws_len :: "string \<Rightarrow> nat" where
  "ws_len [] = 0"
| "ws_len (a # s) =
     (if ascii_ws a then 1
      else case s of [] \<Rightarrow> 0
      | b # t \<Rightarrow> (if ws2 a b then 2
          else case t of [] \<Rightarrow> 0 | c # _ \<Rightarrow> (if ws3 a b c then 3 else 0)))"

text \<open>The same for the white-space character at the end, on the reversed string.\<close>

fun ws_len_rev :: "string \<Rightarrow> nat" where
  "ws_len_rev [] = 0"
| "ws_len_rev (c # s) =
     (if ascii_ws c then 1
      else case s of [] \<Rightarrow> 0
      | b # t \<Rightarrow> (if ws2 b c then 2
          else case t of [] \<Rightarrow> 0 | a # _ \<Rightarrow> (if ws3 a b c then 3 else 0)))"

lemma ws_len_le: "ws_len s \<le> length s"
  by (cases s rule: ws_len.cases) (auto split: list.splits)

lemma ws_len_rev_le: "ws_len_rev s \<le> length s"
  by (cases s rule: ws_len_rev.cases) (auto split: list.splits)

function trim_start :: "string \<Rightarrow> string" where
  "trim_start s = (if ws_len s = 0 then s else trim_start (drop (ws_len s) s))"
  by pat_completeness auto
termination
proof (relation "measure length")
  fix s assume "ws_len s \<noteq> 0"
  then show "(drop (ws_len s) s, s) \<in> measure length"
    by (cases s) auto
qed simp

function trim_rev :: "string \<Rightarrow> string" where
  "trim_rev s = (if ws_len_rev s = 0 then s else trim_rev (drop (ws_len_rev s) s))"
  by pat_completeness auto
termination
proof (relation "measure length")
  fix s assume "ws_len_rev s \<noteq> 0"
  then show "(drop (ws_len_rev s) s, s) \<in> measure length"
    by (cases s) auto
qed simp

declare trim_start.simps [simp del] trim_rev.simps [simp del]

definition trim_end :: "string \<Rightarrow> string" where
  "trim_end s = rev (trim_rev (rev s))"

definition trim :: "string \<Rightarrow> string" where
  "trim s = trim_end (trim_start s)"

lemma trim_start_id [str_simps]: "ws_len s = 0 \<Longrightarrow> trim_start s = s"
  by (subst trim_start.simps) simp

lemma trim_rev_id: "ws_len_rev s = 0 \<Longrightarrow> trim_rev s = s"
  by (subst trim_rev.simps) simp

lemma trim_Nil [simp, str_simps]: "trim [] = []"
  by (simp add: trim_def trim_end_def trim_start_id trim_rev_id)

text \<open>A string that starts and ends with printable ASCII is not changed by trimming.\<close>

definition printable :: "char \<Rightarrow> bool" where
  "printable c = (33 \<le> (of_char c :: nat) \<and> (of_char c :: nat) \<le> 126)"

lemma printable_not_ws:
  assumes "printable c"
  shows "\<not> ascii_ws c" "\<not> ws2 c b" "\<not> ws2 a c" "\<not> ws3 c b d" "\<not> ws3 a b c"
  using assms by (auto simp: printable_def ascii_ws_def ws2_def ws3_def)

lemma ws_len_printable: "printable c \<Longrightarrow> ws_len (c # s) = 0"
  by (auto simp: printable_not_ws split: list.splits)

lemma ws_len_rev_printable: "printable c \<Longrightarrow> ws_len_rev (c # s) = 0"
  by (auto simp: printable_not_ws split: list.splits)

lemma trim_printable [str_simps]:
  assumes "s \<noteq> []" "printable (hd s)" "printable (last s)"
  shows "trim s = s"
proof -
  have 1: "trim_start s = s"
    using assms by (cases s) (simp_all add: trim_start_id ws_len_printable del: ws_len.simps)
  obtain r c where "s = r @ [c]" "printable c"
    using assms by (cases s rule: rev_cases) auto
  then have "trim_rev (rev s) = rev s"
    by (simp add: trim_rev_id ws_len_rev_printable del: ws_len_rev.simps)
  then show ?thesis by (simp add: trim_def 1 trim_end_def)
qed

lemma trim_start_no_ws: "ws_len (trim_start s) = 0"
  by (induction s rule: trim_start.induct) (subst trim_start.simps, simp)

lemma trim_rev_no_ws: "ws_len_rev (trim_rev s) = 0"
  by (induction s rule: trim_rev.induct) (subst trim_rev.simps, simp)

subsection \<open>Strings: splitting and joining\<close>

text \<open>\<^verbatim>\<open>str::split\<close> at one ASCII character: always at least one piece.\<close>

fun split_on :: "char \<Rightarrow> string \<Rightarrow> string list" where
  "split_on c [] = [[]]"
| "split_on c (x # xs) =
     (if x = c then [] # split_on c xs
      else case split_on c xs of [] \<Rightarrow> [[x]] | p # ps \<Rightarrow> (x # p) # ps)"

fun join :: "string \<Rightarrow> string list \<Rightarrow> string" where
  "join sep [] = []"
| "join sep [p] = p"
| "join sep (p # q # ps) = p @ sep @ join sep (q # ps)"

lemma split_on_not_Nil [simp]: "split_on c s \<noteq> []"
  by (cases s) (auto split: list.splits)

lemma split_on_no_sep: "c \<notin> set s \<Longrightarrow> split_on c s = [s]"
  by (induction s) auto

lemma split_on_append_sep:
  "c \<notin> set p \<Longrightarrow> split_on c (p @ c # s) = p # split_on c s"
  by (induction p) auto

lemma split_on_join:
  "ps \<noteq> [] \<Longrightarrow> (\<And>p. p \<in> set ps \<Longrightarrow> c \<notin> set p) \<Longrightarrow> split_on c (join [c] ps) = ps"
  by (induction "[c]" ps rule: join.induct) (simp_all add: split_on_no_sep split_on_append_sep)

text \<open>\<^verbatim>\<open>split_once(c)\<close>, which is also \<^verbatim>\<open>splitn(2, c)\<close> when there are two pieces.\<close>

fun split_once :: "char \<Rightarrow> string \<Rightarrow> (string \<times> string) option" where
  "split_once c [] = None"
| "split_once c (x # xs) =
     (if x = c then Some ([], xs)
      else case split_once c xs of None \<Rightarrow> None | Some (p, q) \<Rightarrow> Some (x # p, q))"

lemma split_once_append: "c \<notin> set p \<Longrightarrow> split_once c (p @ c # q) = Some (p, q)"
  by (induction p) auto

text \<open>\<^verbatim>\<open>str::find\<close> of a substring: the first position at which it occurs.\<close>

fun starts_with :: "string \<Rightarrow> string \<Rightarrow> bool" where
  "starts_with [] s = True"
| "starts_with (p # ps) [] = False"
| "starts_with (p # ps) (x # xs) = (p = x \<and> starts_with ps xs)"

fun find_sub :: "string \<Rightarrow> string \<Rightarrow> nat option" where
  "find_sub pat [] = (if pat = [] then Some 0 else None)"
| "find_sub pat (x # xs) =
     (if starts_with pat (x # xs) then Some 0 else map_option Suc (find_sub pat xs))"

lemma starts_with_iff: "starts_with p s \<longleftrightarrow> (\<exists>t. s = p @ t)"
  by (induction p s rule: starts_with.induct) auto

lemma find_sub_Some_split: "find_sub pat s = Some i \<Longrightarrow> \<exists>u v. s = u @ pat @ v \<and> length u = i"
proof (induction s arbitrary: i)
  case (Cons x xs)
  show ?case
  proof (cases "starts_with pat (x # xs)")
    case True
    with Cons.prems obtain t where "x # xs = pat @ t" "i = 0"
      by (auto simp: starts_with_iff)
    then have "x # xs = [] @ pat @ t \<and> length ([] :: string) = i" by simp
    then show ?thesis by blast
  next
    case False
    with Cons.prems obtain j where "find_sub pat xs = Some j" "i = Suc j" by auto
    with Cons.IH obtain u v where "xs = u @ pat @ v" "length u = j" by blast
    then have "x # xs = (x # u) @ pat @ v \<and> length (x # u) = i" using \<open>i = Suc j\<close> by simp
    then show ?thesis by blast
  qed
qed (auto split: if_splits)

lemma find_sub_bound: "find_sub pat s = Some i \<Longrightarrow> i + length pat \<le> length s"
  using find_sub_Some_split by fastforce

definition contains_sub :: "string \<Rightarrow> string \<Rightarrow> bool" where
  "contains_sub pat s = (find_sub pat s \<noteq> None)"

definition replace_char :: "char \<Rightarrow> string \<Rightarrow> string \<Rightarrow> string" where
  "replace_char c r s = concat (map (\<lambda>x. if x = c then r else [x]) s)"

subsection \<open>Searching\<close>

lemma find_sub_None_iff: "find_sub pat s = None \<longleftrightarrow> (\<nexists>u v. s = u @ pat @ v)"
proof (induction s)
  case (Cons x xs)
  have "(\<exists>u v. x # xs = u @ pat @ v) \<longleftrightarrow> starts_with pat (x # xs) \<or> (\<exists>u v. xs = u @ pat @ v)"
    (is "?l \<longleftrightarrow> ?r")
  proof
    assume ?l
    then obtain u v where "x # xs = u @ pat @ v" by blast
    then show ?r by (cases u) (auto simp: starts_with_iff)
  next
    assume ?r
    then show ?l
    proof
      assume "starts_with pat (x # xs)"
      then obtain t where "x # xs = [] @ pat @ t" by (auto simp: starts_with_iff)
      then show ?l by blast
    next
      assume "\<exists>u v. xs = u @ pat @ v"
      then obtain u v where "x # xs = (x # u) @ pat @ v" by auto
      then show ?l by blast
    qed
  qed
  with Cons.IH show ?case by auto
qed auto

lemma contains_sub_iff: "contains_sub pat s \<longleftrightarrow> (\<exists>u v. s = u @ pat @ v)"
  using find_sub_None_iff [of pat s] by (simp add: contains_sub_def)

lemma contains_sub_mono: "contains_sub pat s \<Longrightarrow> contains_sub pat (u @ s @ v)"
  by (metis append.assoc contains_sub_iff)

text \<open>What comes before the first occurrence does not contain the pattern.\<close>

lemma find_sub_first: "find_sub pat s = Some i \<Longrightarrow> pat \<noteq> [] \<Longrightarrow> \<not> contains_sub pat (take i s)"
proof (induction s arbitrary: i)
  case (Cons x xs)
  show ?case
  proof (cases "starts_with pat (x # xs)")
    case False
    with Cons.prems obtain j where j: "find_sub pat xs = Some j" "i = Suc j" by auto
    then have "\<not> contains_sub pat (take j xs)" using Cons by blast
    moreover have "\<not> starts_with pat (x # take j xs)"
      using False by (metis append_Cons append_take_drop_id starts_with_iff append.assoc)
    ultimately show ?thesis using j by (simp add: contains_sub_def)
  qed (use Cons.prems in \<open>simp add: contains_sub_def\<close>)
qed (simp add: contains_sub_def)

text \<open>A pattern no proper prefix of which is also a suffix is found at its first copy.\<close>

definition unbordered :: "string \<Rightarrow> bool" where
  "unbordered p = (p \<noteq> [] \<and> list_all (\<lambda>k. take k p \<noteq> drop (length p - k) p) [1..<length p])"

lemma find_sub_unbordered:
  assumes "unbordered pat" "\<not> contains_sub pat u"
  shows "find_sub pat (u @ pat @ v) = Some (length u)"
  using assms(2)
proof (induction u)
  case Nil
  have "starts_with pat (pat @ v)" by (auto simp: starts_with_iff)
  with assms(1) show ?case by (cases pat) (auto simp: unbordered_def)
next
  case (Cons x u)
  have "\<not> starts_with pat (x # u @ pat @ v)"
  proof
    assume "starts_with pat (x # u @ pat @ v)"
    then obtain t where t: "(x # u) @ pat @ v = pat @ t" by (auto simp: starts_with_iff)
    show False
    proof (cases "length pat \<le> length (x # u)")
      case True
      with t have "x # u = [] @ pat @ drop (length pat) (x # u)"
        by (metis append_Nil append_eq_append_conv_if append_take_drop_id)
      with Cons.prems show False unfolding contains_sub_iff by blast
    next
      case False
      define k where "k = length pat - length (x # u)"
      have "take k pat = drop (length pat - k) pat"
      proof -
        have "drop (length (x # u)) (pat @ t) = pat @ v" using t by (metis append_eq_conv_conj)
        then have "drop (length (x # u)) pat @ t = pat @ v" using False by simp
        then have "drop (length (x # u)) pat = take k pat"
          using False by (metis append_eq_append_conv_if append_eq_conv_conj k_def length_drop diff_le_self)
        moreover have "length pat - k = length (x # u)" using False by (simp add: k_def)
        ultimately show ?thesis by simp
      qed
      moreover have "1 \<le> k" "k < length pat" using False by (auto simp: k_def)
      ultimately show False using assms(1) by (auto simp: unbordered_def list_all_iff)
    qed
  qed
  moreover have "\<not> contains_sub pat u" using Cons.prems contains_sub_mono [of pat u "[x]" "[]"] by auto
  ultimately show ?case using Cons.IH by simp
qed

subsection \<open>Trimming twice\<close>

lemma ws_len_append: "ws_len s \<noteq> 0 \<Longrightarrow> ws_len (s @ t) = ws_len s"
  by (cases s rule: ws_len.cases) (auto split: list.splits if_splits)

lemma ws_len_rev_append: "ws_len_rev s \<noteq> 0 \<Longrightarrow> ws_len_rev (s @ t) = ws_len_rev s"
  by (cases s rule: ws_len_rev.cases) (auto split: list.splits if_splits)

lemma trim_start_suffix: "\<exists>p. s = p @ trim_start s"
proof (induction s rule: trim_start.induct)
  case (1 s)
  show ?case
  proof (cases "ws_len s = 0")
    case False
    with 1 obtain p where "drop (ws_len s) s = p @ trim_start (drop (ws_len s) s)" by blast
    moreover have "trim_start s = trim_start (drop (ws_len s) s)"
      using False by (subst trim_start.simps) simp
    ultimately have "s = (take (ws_len s) s @ p) @ trim_start s"
      by (metis append.assoc append_take_drop_id)
    then show ?thesis by blast
  qed (simp add: trim_start_id)
qed

lemma trim_rev_suffix: "\<exists>p. s = p @ trim_rev s"
proof (induction s rule: trim_rev.induct)
  case (1 s)
  show ?case
  proof (cases "ws_len_rev s = 0")
    case False
    with 1 obtain p where "drop (ws_len_rev s) s = p @ trim_rev (drop (ws_len_rev s) s)" by blast
    moreover have "trim_rev s = trim_rev (drop (ws_len_rev s) s)"
      using False by (subst trim_rev.simps) simp
    ultimately have "s = (take (ws_len_rev s) s @ p) @ trim_rev s"
      by (metis append.assoc append_take_drop_id)
    then show ?thesis by blast
  qed (simp add: trim_rev_id)
qed

lemma trim_end_prefix: "\<exists>q. s = trim_end s @ q"
  using trim_rev_suffix [of "rev s"] by (metis rev_append rev_rev_ident trim_end_def)

lemma trim_infix: "\<exists>p q. s = p @ trim s @ q"
  using trim_start_suffix [of s] trim_end_prefix [of "trim_start s"] by (metis trim_def)

lemma trim_no_ws: "ws_len (trim s) = 0" "ws_len_rev (rev (trim s)) = 0"
proof -
  obtain q where "trim_start s = trim s @ q" using trim_end_prefix by (metis trim_def)
  then show "ws_len (trim s) = 0" using trim_start_no_ws ws_len_append by metis
  show "ws_len_rev (rev (trim s)) = 0" by (simp add: trim_def trim_end_def trim_rev_no_ws)
qed

lemma trim_id: "ws_len s = 0 \<Longrightarrow> ws_len_rev (rev s) = 0 \<Longrightarrow> trim s = s"
  by (simp add: trim_def trim_start_id trim_end_def trim_rev_id)

lemma trim_trim [simp]: "trim (trim s) = trim s"
  by (intro trim_id trim_no_ws)

lemma trim_eq_iff: "trim s = s \<longleftrightarrow> ws_len s = 0 \<and> ws_len_rev (rev s) = 0"
  using trim_no_ws [of s] trim_id [of s] by metis

lemma ws_len_space_end: "s \<noteq> [] \<Longrightarrow> ws_len s = 0 \<Longrightarrow> ws_len (s @ [CHR '' '']) = 0"
  by (cases s rule: ws_len.cases) (auto simp: ws2_def ws3_def split: list.splits if_splits)

lemma trim_padded: "trim s = s \<Longrightarrow> trim (CHR '' '' # s @ [CHR '' '']) = s"
proof -
  assume s: "trim s = s"
  have at_start: "trim_start (CHR '' '' # t) = trim_start t" for t
    by (subst trim_start.simps) (simp add: ascii_ws_def)
  have at_end: "trim_rev (CHR '' '' # t) = trim_rev t" for t
    by (subst trim_rev.simps) (simp add: ascii_ws_def)
  show ?thesis
  proof (cases "s = []")
    case True
    then show ?thesis by (simp add: trim_def at_start trim_start_id trim_end_def trim_rev_id at_end)
  next
    case False
    with s have "trim_start (s @ [CHR '' '']) = s @ [CHR '' '']"
      by (intro trim_start_id ws_len_space_end) (simp_all add: trim_eq_iff)
    with s show ?thesis
      by (simp add: trim_def [of "CHR '' '' # _"] at_start trim_end_def at_end trim_rev_id trim_eq_iff)
  qed
qed

subsection \<open>Numbers in strings\<close>

text \<open>Decimal printing, as \<^verbatim>\<open>Display\<close> does for the integer types.\<close>

fun show_nat :: "nat \<Rightarrow> string" where
  "show_nat n = (if n < 10 then [digit_char n] else show_nat (n div 10) @ [digit_char (n mod 10)])"

declare show_nat.simps [simp del]

definition show_int :: "int \<Rightarrow> string" where
  "show_int i = (if i < 0 then CHR ''-'' # show_nat (nat (- i)) else show_nat (nat i))"

fun digits_val :: "nat \<Rightarrow> string \<Rightarrow> nat" where
  "digits_val acc [] = acc"
| "digits_val acc (c # cs) = digits_val (10 * acc + digit_val c) cs"

text \<open>
  \<^verbatim>\<open>parse::<uN>()\<close> and \<^verbatim>\<open>parse::<iN>()\<close>: an optional sign (a minus only for a signed type), at
  least one decimal digit, nothing else, and a value of the type.
\<close>

definition parse_unsigned :: "nat \<Rightarrow> string \<Rightarrow> nat option" where
  "parse_unsigned w s =
     (let ds = (case s of c # cs \<Rightarrow> (if c = CHR ''+'' then cs else s) | [] \<Rightarrow> [])
      in if ds \<noteq> [] \<and> list_all is_ascii_digit ds \<and> digits_val 0 ds < 2 ^ w
         then Some (digits_val 0 ds) else None)"

definition parse_signed :: "nat \<Rightarrow> string \<Rightarrow> int option" where
  "parse_signed w s =
     (let neg = (case s of c # _ \<Rightarrow> c = CHR ''-'' | [] \<Rightarrow> False);
          ds = (case s of c # cs \<Rightarrow> (if c = CHR ''+'' \<or> c = CHR ''-'' then cs else s) | [] \<Rightarrow> []);
          v = (if neg then - int (digits_val 0 ds) else int (digits_val 0 ds))
      in if ds \<noteq> [] \<and> list_all is_ascii_digit ds \<and> - (2 ^ (w - 1)) \<le> v \<and> v < 2 ^ (w - 1)
         then Some v else None)"

lemma digits_val_append [str_simps]: "digits_val a (s @ t) = digits_val (digits_val a s) t"
  by (induction s arbitrary: a) auto

lemma show_nat_not_Nil [simp]: "show_nat n \<noteq> []"
  by (subst show_nat.simps) simp

lemma show_nat_digits [str_simps]: "list_all is_ascii_digit (show_nat n)"
proof (induction n rule: show_nat.induct)
  case (1 n)
  then show ?case by (subst show_nat.simps) auto
qed

lemma digits_val_show_nat [str_simps]: "digits_val 0 (show_nat n) = n"
proof (induction n rule: show_nat.induct)
  case (1 n)
  show ?case
  proof (cases "n < 10")
    case False
    then have "digits_val 0 (show_nat n) = 10 * digits_val 0 (show_nat (n div 10)) + n mod 10"
      by (subst show_nat.simps) (simp add: digits_val_append)
    with 1 [OF False] show ?thesis by simp
  qed (simp add: show_nat.simps [of n])
qed

lemma show_nat_Cons: "\<exists>c cs. show_nat n = c # cs \<and> is_ascii_digit c"
  using show_nat_digits [of n] by (cases "show_nat n") auto

lemma digit_not_sign: "is_ascii_digit c \<Longrightarrow> c \<noteq> CHR ''+'' \<and> c \<noteq> CHR ''-'' \<and> c \<noteq> CHR '':'' \<and> c \<noteq> CHR ''?''"
  by (auto simp: is_ascii_digit_def)

lemma parse_show_unsigned [str_simps]: "n < 2 ^ w \<Longrightarrow> parse_unsigned w (show_nat n) = Some n"
  using show_nat_Cons [of n] show_nat_digits [of n] digits_val_show_nat [of n]
  by (auto simp: parse_unsigned_def digit_not_sign)

lemma parse_show_signed [str_simps]:
  assumes "- (2 ^ (w - 1)) \<le> i" "i < 2 ^ (w - 1)"
  shows "parse_signed w (show_int i) = Some i"
proof (cases "i < 0")
  case True
  with assms show ?thesis
    by (simp add: parse_signed_def show_int_def Let_def str_simps)
next
  case False
  then show ?thesis using assms show_nat_Cons [of "nat i"] show_nat_digits [of "nat i"]
      digits_val_show_nat [of "nat i"]
    by (auto simp: parse_signed_def show_int_def Let_def digit_not_sign)
qed

lemma digit_printable: "is_ascii_digit c \<Longrightarrow> printable c"
  by (simp add: is_ascii_digit_def printable_def)

lemma show_nat_hd_printable: "printable (hd (show_nat n))"
  using show_nat_Cons [of n] digit_printable by force

lemma show_nat_no_char: "\<not> is_ascii_digit c \<Longrightarrow> c \<notin> set (show_nat n)"
  using show_nat_digits [of n] by (auto simp: list_all_iff)

text \<open>The split of a string where its leading digits end.\<close>

definition split_digits :: "string \<Rightarrow> string \<times> string" where
  "split_digits s = (takeWhile is_ascii_digit s, dropWhile is_ascii_digit s)"

lemma split_digits_show_nat:
  assumes "u \<noteq> []" "\<not> is_ascii_digit (hd u)"
  shows "split_digits (show_nat n @ u) = (show_nat n, u)"
proof -
  have "\<forall>c \<in> set (show_nat n). is_ascii_digit c"
    using show_nat_digits [of n] by (simp add: list_all_iff)
  with assms show ?thesis
    by (cases u) (simp_all add: split_digits_def)
qed

end
