(* ===== verification/Durations.thy ===== *)
theory Durations
  imports Kepler_Prelude
begin

text \<open>
  Durations and memory limits of the configuration files
  (\<^verbatim>\<open>kepler-daemon/src/config/duration.rs\<close>, \<^verbatim>\<open>config/resources.rs\<close>): the two parsers with every
  error they raise, the printer, and that printing a duration and parsing it back loses
  nothing above the millisecond. A \<^verbatim>\<open>std::time::Duration\<close> is its number of nanoseconds.

  The unit is compared after \<^verbatim>\<open>to_lowercase\<close> or \<^verbatim>\<open>to_uppercase\<close>. No character outside ASCII
  maps to one of the letters of a unit there, so the ASCII mapping decides the same units.
\<close>

type_synonym duration = nat

definition from_millis :: "nat \<Rightarrow> duration" where
  "from_millis ms = ms * 1000000"

definition as_millis :: "duration \<Rightarrow> nat" where
  "as_millis d = d div 1000000"

datatype duration_error =
    EmptyDuration
  | InvalidDurationNumber string
  | UnknownDurationUnit string
  | DurationTooLarge string

definition duration_unit :: "string \<Rightarrow> nat option" where
  "duration_unit unit =
     (let u = to_ascii_lowercase unit in
      if u = ''ms'' then Some 1
      else if u = ''s'' \<or> u = '''' then Some 1000
      else if u = ''m'' then Some (60 * 1000)
      else if u = ''h'' then Some (60 * 60 * 1000)
      else if u = ''d'' then Some (24 * 60 * 60 * 1000)
      else None)"

definition parse_duration :: "string \<Rightarrow> (duration_error, duration) result" where
  "parse_duration s0 =
     (let s = trim s0 in
      if s = [] then Err EmptyDuration
      else
        let (num_str, unit) =
          (case split_digits s of (n, u) \<Rightarrow> if u = [] then (s, ''s'') else (n, u)) in
        case parse_unsigned 64 num_str of
          None \<Rightarrow> Err (InvalidDurationNumber num_str)
        | Some num \<Rightarrow>
            (case duration_unit unit of
               None \<Rightarrow> Err (UnknownDurationUnit unit)
             | Some multiplier \<Rightarrow>
                 if num * multiplier < 2 ^ 64 then Ok (from_millis (num * multiplier))
                 else Err (DurationTooLarge s)))"

definition format_duration :: "duration \<Rightarrow> string" where
  "format_duration d =
     (let millis = as_millis d mod 2 ^ 64 in
      if millis = 0 then ''0s''
      else if millis mod (24 * 60 * 60 * 1000) = 0 then show_nat (millis div (24 * 60 * 60 * 1000)) @ ''d''
      else if millis mod (60 * 60 * 1000) = 0 then show_nat (millis div (60 * 60 * 1000)) @ ''h''
      else if millis mod (60 * 1000) = 0 then show_nat (millis div (60 * 1000)) @ ''m''
      else if millis mod 1000 = 0 then show_nat (millis div 1000) @ ''s''
      else show_nat millis @ ''ms'')"

datatype memory_error =
    EmptyMemoryLimit
  | InvalidMemoryNumber string
  | UnknownMemoryUnit string
  | MemoryOverflow nat nat

definition memory_unit :: "string \<Rightarrow> nat option" where
  "memory_unit unit =
     (let u = to_ascii_uppercase unit in
      if u = ''B'' \<or> u = '''' then Some 1
      else if u = ''K'' \<or> u = ''KB'' then Some 1024
      else if u = ''M'' \<or> u = ''MB'' then Some (1024 * 1024)
      else if u = ''G'' \<or> u = ''GB'' then Some (1024 * 1024 * 1024)
      else None)"

definition parse_memory_limit :: "string \<Rightarrow> (memory_error, nat) result" where
  "parse_memory_limit s0 =
     (let s = trim s0 in
      if s = [] then Err EmptyMemoryLimit
      else
        let (num_str, unit) =
          (case split_digits s of (n, u) \<Rightarrow> if u = [] then (s, ''B'') else (n, u)) in
        if num_str = [] then Err (InvalidMemoryNumber s)
        else case parse_unsigned 64 num_str of
          None \<Rightarrow> Err (InvalidMemoryNumber num_str)
        | Some num \<Rightarrow>
            (case memory_unit unit of
               None \<Rightarrow> Err (UnknownMemoryUnit unit)
             | Some multiplier \<Rightarrow>
                 if num * multiplier < 2 ^ 64 then Ok (num * multiplier)
                 else Err (MemoryOverflow num multiplier)))"

subsection \<open>Printing and parsing back\<close>

lemma trim_number_unit:
  assumes "u \<noteq> []" "printable (last u)"
  shows "trim (show_nat n @ u) = show_nat n @ u"
  using assms show_nat_hd_printable [of n]
  by (intro trim_printable) simp_all

text \<open>A number with its unit is read back as number times unit, unless that exceeds 64 bits.\<close>

lemma parse_duration_number_unit:
  assumes "u \<noteq> []" "printable (last u)" "\<not> is_ascii_digit (hd u)" "duration_unit u = Some k"
    and "n < 2 ^ 64"
  shows "parse_duration (show_nat n @ u) =
    (if n * k < 2 ^ 64 then Ok (from_millis (n * k)) else Err (DurationTooLarge (show_nat n @ u)))"
  using assms
  by (simp add: parse_duration_def trim_number_unit split_digits_show_nat parse_show_unsigned)

lemma parse_duration_whole_unit:
  assumes "u \<noteq> []" "printable (last u)" "\<not> is_ascii_digit (hd u)" "duration_unit u = Some k"
    and "m < 2 ^ 64" "m mod k = 0"
  shows "parse_duration (show_nat (m div k) @ u) = Ok (from_millis m)"
proof -
  have "m div k * k = m" using assms(6) by (metis add.right_neutral div_mult_mod_eq)
  moreover have "m div k < 2 ^ 64"
    using assms(5) div_le_dividend [of m k] by linarith
  ultimately show ?thesis
    using assms by (simp add: parse_duration_number_unit)
qed

lemma duration_units:
  "duration_unit ''ms'' = Some 1" "duration_unit ''s'' = Some 1000"
  "duration_unit ''m'' = Some (60 * 1000)" "duration_unit ''h'' = Some (60 * 60 * 1000)"
  "duration_unit ''d'' = Some (24 * 60 * 60 * 1000)"
  by (simp_all add: duration_unit_def to_ascii_lowercase_def lower_char_def Let_def)

lemma unit_chars:
  "printable (CHR ''s'')" "printable (CHR ''m'')" "printable (CHR ''h'')" "printable (CHR ''d'')"
  "\<not> is_ascii_digit (CHR ''s'')" "\<not> is_ascii_digit (CHR ''m'')"
  "\<not> is_ascii_digit (CHR ''h'')" "\<not> is_ascii_digit (CHR ''d'')"
  by (simp_all add: printable_def is_ascii_digit_def)

lemma parse_duration_zero: "parse_duration ''0s'' = Ok (from_millis 0)"
proof -
  have "show_nat 0 = ''0''" by code_simp
  then show ?thesis
    using parse_duration_number_unit [of "''s''" 1000 0] by (simp add: duration_units unit_chars)
qed

text \<open>
  Parsing a printed duration gives the duration back, cut to whole milliseconds and to
  the 64 bits that \<^verbatim>\<open>format_duration\<close> keeps of them; for every duration.
\<close>

lemma parse_format_duration:
  "parse_duration (format_duration d) = Ok (from_millis (as_millis d mod 2 ^ 64))"
proof -
  define m where "m = as_millis d mod 2 ^ 64"
  have m: "m < 2 ^ 64" by (simp add: m_def)
  note unit = parse_duration_whole_unit [OF _ _ _ _ m] duration_units unit_chars
  show ?thesis
    unfolding format_duration_def Let_def m_def [symmetric]
    using parse_duration_zero unit(1) [of "''d''"] unit(1) [of "''h''"] unit(1) [of "''m''"]
      unit(1) [of "''s''"] unit(1) [of "''ms''" 1] duration_units unit_chars
    by auto
qed

text \<open>Every parsed duration is a whole number of milliseconds that fits 64 bits.\<close>

lemma parse_duration_bound:
  assumes "parse_duration s = Ok d"
  shows "\<exists>ms < 2 ^ 64. d = from_millis ms"
  using assms
  by (auto simp: parse_duration_def Let_def split: if_splits option.splits prod.splits)

text \<open>
  \<^verbatim>\<open>parse_memory_limit\<close> accepts a decimal number with one of its units exactly when the
  number of bytes fits 64 bits, and then returns that number of bytes.
\<close>

lemma parse_memory_limit_exact:
  assumes "n < 2 ^ 64" and "u \<in> {''B'', ''K'', ''KB'', ''M'', ''MB'', ''G'', ''GB''}"
  shows "parse_memory_limit (show_nat n @ u) =
    (if n * the (memory_unit u) < 2 ^ 64 then Ok (n * the (memory_unit u))
     else Err (MemoryOverflow n (the (memory_unit u))))"
proof -
  have u: "u \<noteq> []" "printable (last u)" "\<not> is_ascii_digit (hd u)" "\<exists>k. memory_unit u = Some k"
    using assms(2)
    by (auto simp: printable_def is_ascii_digit_def memory_unit_def to_ascii_uppercase_def
        upper_char_def Let_def)
  then show ?thesis
    using assms(1)
    by (auto simp: parse_memory_limit_def trim_number_unit split_digits_show_nat parse_show_unsigned)
qed

lemma parse_memory_limit_exact_example:
  "parse_memory_limit (show_nat 512 @ ''M'') = Ok 536870912 \<and>
   parse_memory_limit (show_nat 17179869184 @ ''GB'') = Err (MemoryOverflow 17179869184 1073741824)"
  using parse_memory_limit_exact [of 512 "''M''"] parse_memory_limit_exact [of 17179869184 "''GB''"]
  by (simp add: memory_unit_def to_ascii_uppercase_def upper_char_def Let_def)

end
