(* ===== verification/Expr_Tokens.thy ===== *)
theory Expr_Tokens
  imports Kepler_Prelude
begin

text \<open>
  Dynamic values of the configuration files: the tokenizer of \<^verbatim>\<open>${{ expr }}$\<close> markers
  (\<^verbatim>\<open>config/expand.rs\<close>), the pre-parsed expressions with their evaluation and their printing
  (\<^verbatim>\<open>config/expr.rs\<close>), the conversion of Lua values (\<^verbatim>\<open>config/lua.rs\<close>), the evaluation of a
  YAML tree, and the entries of an \<^verbatim>\<open>environment\<close> mapping (\<^verbatim>\<open>config/mod.rs\<close>).

  The Lua virtual machine is a parameter: a record of its three entry points, which return
  an error message or a value and a new interpreter state. The type variable \<open>'f\<close> stands
  for the floating point numbers that pass through.
\<close>

datatype expr_token =
    TokString string
  | TokExpression string

text \<open>
  The loop keeps \<^verbatim>\<open>remaining = &s[offset..]\<close>, so one argument stands for both; the text
  before a marker is pushed, and an unclosed marker pushes \<^verbatim>\<open>s[offset..offset + start + 3]\<close>.
\<close>

function parse_expr_tokens :: "string \<Rightarrow> expr_token list" where
  "parse_expr_tokens remaining =
     (case find_sub ''${{'' remaining of
        None \<Rightarrow> (if remaining = [] then [] else [TokString remaining])
      | Some start \<Rightarrow>
          (if start > 0 then [TokString (take start remaining)] else []) @
          (let after_open = drop (start + 3) remaining in
           case find_sub ''}}$'' after_open of
             Some e \<Rightarrow> TokExpression (trim (take e after_open)) #
                 parse_expr_tokens (drop (start + 3 + e + 3) remaining)
           | None \<Rightarrow> TokString (take (start + 3) remaining) #
                 parse_expr_tokens (drop (start + 3) remaining)))"
  by pat_completeness auto
termination
  by (relation "measure length") (auto dest!: find_sub_bound)

declare parse_expr_tokens.simps [simp del]

fun is_standalone_tokens_loop :: "bool \<Rightarrow> expr_token list \<Rightarrow> bool" where
  "is_standalone_tokens_loop found_expr [] = found_expr"
| "is_standalone_tokens_loop found_expr (TokExpression _ # ts) =
     (if found_expr then False else is_standalone_tokens_loop True ts)"
| "is_standalone_tokens_loop found_expr (TokString s # ts) =
     (if trim s \<noteq> [] then False else is_standalone_tokens_loop found_expr ts)"

definition is_standalone_tokens :: "expr_token list \<Rightarrow> bool" where
  "is_standalone_tokens tokens = is_standalone_tokens_loop False tokens"

text \<open>\<^const>\<open>None\<close> is the \<^verbatim>\<open>unreachable!\<close> at the end.\<close>

fun extract_expr_from_standalone :: "expr_token list \<Rightarrow> string option" where
  "extract_expr_from_standalone [] = None"
| "extract_expr_from_standalone (TokExpression e # ts) = Some e"
| "extract_expr_from_standalone (TokString s # ts) = extract_expr_from_standalone ts"

subsection \<open>Lua values and YAML values\<close>

text \<open>
  A Lua table is the list of its pairs in iteration order, with distinct keys; the values are
  finite trees. Functions, userdata and the other types that no conversion accepts are
  \<open>LuaOther\<close> with their type name.
\<close>

datatype 'f lua_value =
    LuaNil
  | LuaBoolean bool
  | LuaInteger int
  | LuaNumber 'f
  | LuaString string
  | LuaTable "('f lua_value \<times> 'f lua_value) list"
  | LuaOther string

datatype 'f yaml =
    YNull
  | YBool bool
  | YInt int
  | YFloat 'f
  | YString string
  | YSequence "'f yaml list"
  | YMapping "('f yaml \<times> 'f yaml) list"
  | YTagged string "'f yaml"

datatype lua_error =
    EnvBuildError string
  | EvalError string string
  | LuaCodeError string
  | LuaTagNotString
  | UnreachableNotStandalone
  | InvalidUtf8String
  | InvalidUtf8Key
  | BadTableKey string
  | CannotConvert string

definition show_bool :: "bool \<Rightarrow> string" where
  "show_bool b = (if b then ''true'' else ''false'')"

definition lua_type_name :: "'f lua_value \<Rightarrow> string" where
  "lua_type_name v = (case v of LuaNil \<Rightarrow> ''nil'' | LuaBoolean _ \<Rightarrow> ''boolean''
     | LuaInteger _ \<Rightarrow> ''integer'' | LuaNumber _ \<Rightarrow> ''number'' | LuaString _ \<Rightarrow> ''string''
     | LuaTable _ \<Rightarrow> ''table'' | LuaOther n \<Rightarrow> n)"

text \<open>Printing of floats and the lossy reading of invalid UTF-8 are parameters.\<close>

definition lua_value_to_string ::
    "('f \<Rightarrow> string) \<Rightarrow> (string \<Rightarrow> string) \<Rightarrow> 'f lua_value \<Rightarrow> string" where
  "lua_value_to_string show_f lossy value = (case value of
      LuaNil \<Rightarrow> []
    | LuaBoolean b \<Rightarrow> show_bool b
    | LuaInteger i \<Rightarrow> show_int i
    | LuaNumber n \<Rightarrow> show_f n
    | LuaString s \<Rightarrow> lossy s
    | other \<Rightarrow> ''<'' @ lua_type_name other @ ''>'')"

text \<open>UTF-8 validity, as \<^verbatim>\<open>to_str\<close> checks it (the table of the Unicode standard).\<close>

definition utf8_cont :: "char \<Rightarrow> bool" where
  "utf8_cont c = (128 \<le> (of_char c :: nat) \<and> (of_char c :: nat) \<le> 191)"

definition utf8_second :: "nat \<Rightarrow> char \<Rightarrow> bool" where
  "utf8_second a c = (utf8_cont c \<and>
     (a = 224 \<longrightarrow> 160 \<le> (of_char c :: nat)) \<and> (a = 237 \<longrightarrow> (of_char c :: nat) \<le> 159) \<and>
     (a = 240 \<longrightarrow> 144 \<le> (of_char c :: nat)) \<and> (a = 244 \<longrightarrow> (of_char c :: nat) \<le> 143))"

fun utf8_valid :: "string \<Rightarrow> bool" where
  "utf8_valid [] = True"
| "utf8_valid (c # s) =
     (let a = (of_char c :: nat) in
      if a < 128 then utf8_valid s
      else if 194 \<le> a \<and> a \<le> 223 then
        (case s of b # t \<Rightarrow> utf8_cont b \<and> utf8_valid t | _ \<Rightarrow> False)
      else if 224 \<le> a \<and> a \<le> 239 then
        (case s of b # d # t \<Rightarrow> utf8_second a b \<and> utf8_cont d \<and> utf8_valid t | _ \<Rightarrow> False)
      else if 240 \<le> a \<and> a \<le> 244 then
        (case s of b # d # e # t \<Rightarrow> utf8_second a b \<and> utf8_cont d \<and> utf8_cont e \<and> utf8_valid t
         | _ \<Rightarrow> False)
      else False)"

text \<open>\<^verbatim>\<open>Mapping::insert\<close>: the value of a present key is replaced in its place.\<close>

fun ymap_insert :: "('f yaml \<times> 'f yaml) list \<Rightarrow> 'f yaml \<Rightarrow> 'f yaml \<Rightarrow> ('f yaml \<times> 'f yaml) list" where
  "ymap_insert [] k v = [(k, v)]"
| "ymap_insert ((k', v') # m) k v =
     (if k' = k then (k', v) # m else (k', v') # ymap_insert m k v)"

definition positive_index :: "'f lua_value \<Rightarrow> bool" where
  "positive_index k = (case k of LuaInteger i \<Rightarrow> i > 0 | _ \<Rightarrow> False)"

definition index_of :: "'f lua_value \<Rightarrow> int" where
  "index_of k = (case k of LuaInteger i \<Rightarrow> i | _ \<Rightarrow> 0)"

text \<open>The first loop over a table: is it an array, and what is its highest index.\<close>

definition table_is_array :: "('f lua_value \<times> 'v) list \<Rightarrow> bool" where
  "table_is_array ps = list_all (positive_index \<circ> fst) ps"

definition max_index_step :: "int \<Rightarrow> 'f lua_value \<times> 'v \<Rightarrow> int" where
  "max_index_step m p = (if positive_index (fst p) then max m (index_of (fst p)) else m)"

definition table_max_index :: "('f lua_value \<times> 'v) list \<Rightarrow> int" where
  "table_max_index ps = foldl max_index_step 0 ps"

definition table_key :: "'f lua_value \<Rightarrow> (lua_error, 'f yaml) result" where
  "table_key k = (case k of
      LuaString s \<Rightarrow> (if utf8_valid s then Ok (YString s) else Err InvalidUtf8Key)
    | LuaInteger i \<Rightarrow> Ok (YInt i)
    | _ \<Rightarrow> Err (BadTableKey (lua_type_name k)))"

text \<open>
  \<^verbatim>\<open>lua_to_yaml\<close>. The elements of a table are converted first (\<open>lua_pairs\<close>, in the order of the
  pairs); an array then reads them by index, \<^verbatim>\<open>for i in 1..=max_index\<close>, a missing index being nil,
  and stops at the first error in index order; a map reads key and value of one pair after the
  other.
\<close>

definition array_elements ::
    "(int \<times> (lua_error, 'f yaml) result) list \<Rightarrow> int \<Rightarrow> (lua_error, 'f yaml list) result" where
  "array_elements rs max_index = try_fold (\<lambda>seq i.
      case map_of rs i of
        None \<Rightarrow> Ok (seq @ [YNull])
      | Some r \<Rightarrow> bind_res r (\<lambda>v. Ok (seq @ [v]))) [] [1..max_index]"

definition map_entries ::
    "('f lua_value \<times> (lua_error, 'f yaml) result) list \<Rightarrow>
     (lua_error, ('f yaml \<times> 'f yaml) list) result" where
  "map_entries rs = try_fold (\<lambda>m p. bind_res (table_key (fst p)) (\<lambda>k.
      bind_res (snd p) (\<lambda>v. Ok (ymap_insert m k v)))) [] rs"

fun lua_to_yaml :: "'f lua_value \<Rightarrow> (lua_error, 'f yaml) result" where
  "lua_to_yaml LuaNil = Ok YNull"
| "lua_to_yaml (LuaBoolean b) = Ok (YBool b)"
| "lua_to_yaml (LuaInteger i) = Ok (YInt i)"
| "lua_to_yaml (LuaNumber n) = Ok (YFloat n)"
| "lua_to_yaml (LuaString s) = (if utf8_valid s then Ok (YString s) else Err InvalidUtf8String)"
| "lua_to_yaml (LuaTable ps) =
     (let rs = map (\<lambda>p. (fst p, lua_to_yaml (snd p))) ps in
      if length ps = 0 \<or> table_is_array ps \<and> table_max_index ps = int (length ps)
      then bind_res (array_elements (map (\<lambda>p. (index_of (fst p), snd p)) rs) (table_max_index ps))
             (\<lambda>seq. Ok (YSequence seq))
      else bind_res (map_entries rs) (\<lambda>m. Ok (YMapping m)))"
| "lua_to_yaml (LuaOther n) = Err (CannotConvert n)"

subsection \<open>Evaluation\<close>

text \<open>
  The entry points of the Lua evaluator: building the environment table of a context, an inline
  expression and a block of code, both run under a chunk name. \<open>'env\<close> is the environment table and
  \<open>'l\<close> the state of the interpreter.
\<close>

record ('f, 'env, 'l) lua_evaluator =
  prepare_env :: "'l \<Rightarrow> (string, 'env \<times> 'l) result"
  eval_inline_expr_with_env :: "string \<Rightarrow> 'env \<Rightarrow> string \<Rightarrow> 'l \<Rightarrow> (string, 'f lua_value \<times> 'l) result"
  eval_with_env :: "string \<Rightarrow> 'env \<Rightarrow> string \<Rightarrow> 'l \<Rightarrow> (string, 'f lua_value \<times> 'l) result"
  show_number :: "'f \<Rightarrow> string"
  lossy_string :: "string \<Rightarrow> string"

abbreviation to_text :: "('f, 'env, 'l) lua_evaluator \<Rightarrow> 'f lua_value \<Rightarrow> string" where
  "to_text ev \<equiv> lua_value_to_string (show_number ev) (lossy_string ev)"

definition eval_inline ::
    "('f, 'env, 'l) lua_evaluator \<Rightarrow> string \<Rightarrow> 'env \<Rightarrow> string \<Rightarrow> 'l \<Rightarrow> (lua_error, 'f lua_value \<times> 'l) result" where
  "eval_inline ev expr env chunk l =
     map_err (EvalError expr) (eval_inline_expr_with_env ev expr env chunk l)"

definition evaluate_tokens_to_string ::
    "string \<Rightarrow> ('f, 'env, 'l) lua_evaluator \<Rightarrow> 'env \<Rightarrow> string \<Rightarrow> 'l \<Rightarrow> (lua_error, string \<times> 'l) result" where
  "evaluate_tokens_to_string s ev env chunk l = try_fold (\<lambda>(r, l) token.
      case token of
        TokString text \<Rightarrow> Ok (r @ text, l)
      | TokExpression expr \<Rightarrow> bind_res (eval_inline ev expr env chunk l)
          (\<lambda>(v, l'). Ok (r @ to_text ev v, l'))) ([], l) (parse_expr_tokens s)"

text \<open>\<^verbatim>\<open>get_or_build_env\<close>: the environment table is built at the first expression and kept.\<close>

definition get_or_build_env ::
    "('f, 'env, 'l) lua_evaluator \<Rightarrow> 'env option \<times> 'l \<Rightarrow> (lua_error, 'env \<times> ('env option \<times> 'l)) result" where
  "get_or_build_env ev st = (case st of
      (Some env, l) \<Rightarrow> Ok (env, (Some env, l))
    | (None, l) \<Rightarrow> bind_res (map_err EnvBuildError (prepare_env ev l))
        (\<lambda>(env, l'). Ok (env, (Some env, l'))))"

text \<open>\<^verbatim>\<open>Value::as_str\<close> and \<^verbatim>\<open>Value::as_mapping\<close> look through tags.\<close>

fun yaml_as_str :: "'f yaml \<Rightarrow> string option" where
  "yaml_as_str (YString s) = Some s"
| "yaml_as_str (YTagged tag v) = yaml_as_str v"
| "yaml_as_str v = None"

fun yaml_as_mapping :: "'f yaml \<Rightarrow> ('f yaml \<times> 'f yaml) list option" where
  "yaml_as_mapping (YMapping m) = Some m"
| "yaml_as_mapping (YTagged tag v) = yaml_as_mapping v"
| "yaml_as_mapping v = None"

definition child_path :: "string \<Rightarrow> 'f yaml \<Rightarrow> string" where
  "child_path field_path key = (case yaml_as_str key of
      Some k \<Rightarrow> (if field_path = [] then k else field_path @ ''.'' @ k)
    | None \<Rightarrow> field_path)"

definition deferred_key :: "'f yaml \<Rightarrow> bool" where
  "deferred_key key = (yaml_as_str key = Some ''depends_on'' \<or> yaml_as_str key = Some ''outputs'')"

definition evaluate_string_value ::
    "('f, 'env, 'l) lua_evaluator \<Rightarrow> string \<Rightarrow> string \<Rightarrow> 'env option \<times> 'l \<Rightarrow>
     (lua_error, 'f yaml \<times> ('env option \<times> 'l)) result" where
  "evaluate_string_value ev s field_path st =
     bind_res (get_or_build_env ev st) (\<lambda>(env, (cached, l)).
       let tokens = parse_expr_tokens s in
       if is_standalone_tokens tokens then
         (case extract_expr_from_standalone tokens of
            None \<Rightarrow> Err UnreachableNotStandalone
          | Some expr \<Rightarrow> bind_res (eval_inline ev expr env field_path l) (\<lambda>(v, l').
              bind_res (lua_to_yaml v) (\<lambda>y. Ok (y, (cached, l')))))
       else bind_res (evaluate_tokens_to_string s ev env field_path l)
              (\<lambda>(r, l'). Ok (YString r, (cached, l'))))"

definition evaluate_lua_tag ::
    "('f, 'env, 'l) lua_evaluator \<Rightarrow> 'f yaml \<Rightarrow> string \<Rightarrow> 'env option \<times> 'l \<Rightarrow>
     (lua_error, 'f yaml \<times> ('env option \<times> 'l)) result" where
  "evaluate_lua_tag ev inner field_path st =
     bind_res (ok_or LuaTagNotString (yaml_as_str inner)) (\<lambda>code.
     bind_res (get_or_build_env ev st) (\<lambda>(env, (cached, l)).
     bind_res (map_err LuaCodeError (eval_with_env ev code env field_path l)) (\<lambda>(v, l').
     bind_res (lua_to_yaml v) (\<lambda>y. Ok (y, (cached, l'))))))"

fun evaluate_value_tree_inner ::
    "('f, 'env, 'l) lua_evaluator \<Rightarrow> 'f yaml \<Rightarrow> string \<Rightarrow> bool \<Rightarrow> 'env option \<times> 'l \<Rightarrow>
     (lua_error, 'f yaml \<times> ('env option \<times> 'l)) result"
  and evaluate_mapping ::
    "('f, 'env, 'l) lua_evaluator \<Rightarrow> ('f yaml \<times> 'f yaml) list \<Rightarrow> string \<Rightarrow> 'env option \<times> 'l \<Rightarrow>
     (lua_error, ('f yaml \<times> 'f yaml) list \<times> ('env option \<times> 'l)) result"
  and evaluate_sequence ::
    "('f, 'env, 'l) lua_evaluator \<Rightarrow> 'f yaml list \<Rightarrow> string \<Rightarrow> bool \<Rightarrow> 'env option \<times> 'l \<Rightarrow>
     (lua_error, 'f yaml list \<times> ('env option \<times> 'l)) result" where
  "evaluate_value_tree_inner ev (YString s) field_path deferred st =
     (if \<not> deferred \<and> contains_sub ''${{'' s then evaluate_string_value ev s field_path st
      else Ok (YString s, st))"
| "evaluate_value_tree_inner ev (YTagged tag inner) field_path deferred st =
     (if tag = ''!lua'' then evaluate_lua_tag ev inner field_path st
      else bind_res (evaluate_value_tree_inner ev inner field_path deferred st)
             (\<lambda>(inner', st'). Ok (YTagged tag inner', st')))"
| "evaluate_value_tree_inner ev (YMapping m) field_path deferred st =
     bind_res (evaluate_mapping ev m field_path st) (\<lambda>(m', st'). Ok (YMapping m', st'))"
| "evaluate_value_tree_inner ev (YSequence xs) field_path deferred st =
     bind_res (evaluate_sequence ev xs field_path deferred st)
       (\<lambda>(xs', st'). Ok (YSequence xs', st'))"
| "evaluate_value_tree_inner ev YNull field_path deferred st = Ok (YNull, st)"
| "evaluate_value_tree_inner ev (YBool b) field_path deferred st = Ok (YBool b, st)"
| "evaluate_value_tree_inner ev (YInt i) field_path deferred st = Ok (YInt i, st)"
| "evaluate_value_tree_inner ev (YFloat n) field_path deferred st = Ok (YFloat n, st)"
| "evaluate_mapping ev [] field_path st = Ok ([], st)"
| "evaluate_mapping ev ((key, v) # m) field_path st =
     bind_res (evaluate_value_tree_inner ev v (child_path field_path key) (deferred_key key) st)
       (\<lambda>(v', st'). bind_res (evaluate_mapping ev m field_path st')
         (\<lambda>(m', st''). Ok ((key, v') # m', st'')))"
| "evaluate_sequence ev [] field_path deferred st = Ok ([], st)"
| "evaluate_sequence ev (x # xs) field_path deferred st =
     bind_res (evaluate_value_tree_inner ev x field_path deferred st)
       (\<lambda>(x', st'). bind_res (evaluate_sequence ev xs field_path deferred st')
         (\<lambda>(xs', st''). Ok (x' # xs', st'')))"

definition evaluate_value_tree ::
    "('f, 'env, 'l) lua_evaluator \<Rightarrow> 'f yaml \<Rightarrow> string \<Rightarrow> 'l \<Rightarrow> (lua_error, 'f yaml \<times> 'l) result" where
  "evaluate_value_tree ev value field_path l =
     bind_res (evaluate_value_tree_inner ev value field_path False (None, l))
       (\<lambda>(v, (cached, l')). Ok (v, l'))"

subsection \<open>Pre-parsed expressions\<close>

datatype owned_expr_token =
    Literal string
  | OwnedExpression string

datatype dynamic_expr =
    Expression string
  | Interpolated "owned_expr_token list"
  | Lua string

fun own_token :: "expr_token \<Rightarrow> owned_expr_token" where
  "own_token (TokString s) = Literal s"
| "own_token (TokExpression s) = OwnedExpression s"

definition classify :: "'f yaml \<Rightarrow> dynamic_expr option" where
  "classify value = (case value of
      YTagged tag inner \<Rightarrow> (if tag = ''!lua'' then map_option Lua (yaml_as_str inner) else None)
    | YString s \<Rightarrow>
        (if contains_sub ''${{'' s then
           (let tokens = parse_expr_tokens s in
            if is_standalone_tokens tokens then map_option Expression (extract_expr_from_standalone tokens)
            else Some (Interpolated (map own_token tokens)))
         else None)
    | _ \<Rightarrow> None)"

definition evaluate_dynamic ::
    "dynamic_expr \<Rightarrow> ('f, 'env, 'l) lua_evaluator \<Rightarrow> 'env \<Rightarrow> string \<Rightarrow> 'l \<Rightarrow> (lua_error, 'f yaml \<times> 'l) result" where
  "evaluate_dynamic e ev env field_path l = (case e of
      Expression expr \<Rightarrow> bind_res (eval_inline ev expr env field_path l)
        (\<lambda>(v, l'). bind_res (lua_to_yaml v) (\<lambda>y. Ok (y, l')))
    | Interpolated tokens \<Rightarrow>
        bind_res (try_fold (\<lambda>(r, l) token. case token of
            Literal s \<Rightarrow> Ok (r @ s, l)
          | OwnedExpression expr \<Rightarrow> bind_res (eval_inline ev expr env field_path l)
              (\<lambda>(v, l'). Ok (r @ to_text ev v, l'))) ([], l) tokens)
          (\<lambda>(r, l'). Ok (YString r, l'))
    | Lua code \<Rightarrow> bind_res (map_err LuaCodeError (eval_with_env ev code env field_path l))
        (\<lambda>(v, l'). bind_res (lua_to_yaml v) (\<lambda>y. Ok (y, l'))))"

fun render_token :: "owned_expr_token \<Rightarrow> string" where
  "render_token (Literal lit) = lit"
| "render_token (OwnedExpression expr) = ''${{ '' @ expr @ '' }}$''"

definition to_yaml_value :: "dynamic_expr \<Rightarrow> 'f yaml" where
  "to_yaml_value e = (case e of
      Expression expr \<Rightarrow> YString (''${{ '' @ expr @ '' }}$'')
    | Interpolated tokens \<Rightarrow> YString (concat (map render_token tokens))
    | Lua code \<Rightarrow> YTagged ''!lua'' (YString code))"

text \<open>A configuration field: known when the file is read, or an expression.\<close>

datatype 'a config_value =
    Static 'a
  | Dynamic dynamic_expr

definition as_static :: "'a config_value \<Rightarrow> 'a option" where
  "as_static v = (case v of Static x \<Rightarrow> Some x | Dynamic _ \<Rightarrow> None)"

definition is_dynamic :: "'a config_value \<Rightarrow> bool" where
  "is_dynamic v = (case v of Static _ \<Rightarrow> False | Dynamic _ \<Rightarrow> True)"

definition map_static :: "('a \<Rightarrow> 'b) \<Rightarrow> 'a config_value \<Rightarrow> 'b config_value" where
  "map_static f v = (case v of Static x \<Rightarrow> Static (f x) | Dynamic e \<Rightarrow> Dynamic e)"

text \<open>
  Reading and writing a field. \<open>from_value\<close> and \<open>to_value\<close> are the serializer's own conversions
  for the type of the field.
\<close>

definition config_value_deserialize ::
    "('f yaml \<Rightarrow> (string, 'a) result) \<Rightarrow> 'f yaml \<Rightarrow> (string, 'a config_value) result" where
  "config_value_deserialize from_value value = (case classify value of
      Some expr \<Rightarrow> Ok (Dynamic expr)
    | None \<Rightarrow> bind_res (from_value value) (\<lambda>x. Ok (Static x)))"

definition config_value_serialize :: "('a \<Rightarrow> 'f yaml) \<Rightarrow> 'a config_value \<Rightarrow> 'f yaml" where
  "config_value_serialize to_value v = (case v of
      Static x \<Rightarrow> to_value x
    | Dynamic expr \<Rightarrow> to_yaml_value expr)"

subsection \<open>The environment field\<close>

datatype env_error =
    EnvKeyNotString
  | EnvLuaNotString string
  | EnvUnsupported string
  | EnvNotCollection
  | EnvElement string

text \<open>The text of a YAML number: integers in decimal, floats as the parameter prints them.\<close>

definition environment_map_entry ::
    "('f \<Rightarrow> string) \<Rightarrow> string \<Rightarrow> 'f yaml \<Rightarrow> (env_error, string config_value) result" where
  "environment_map_entry show_f prefix value = (case value of
      YNull \<Rightarrow> Ok (Static prefix)
    | YBool b \<Rightarrow> Ok (Static (prefix @ show_bool b))
    | YInt i \<Rightarrow> Ok (Static (prefix @ show_int i))
    | YFloat n \<Rightarrow> Ok (Static (prefix @ show_f n))
    | YString s \<Rightarrow>
        (case classify value of
           None \<Rightarrow> Ok (Static (prefix @ s))
         | Some (Expression expr) \<Rightarrow>
             Ok (Dynamic (Interpolated [Literal prefix, OwnedExpression expr]))
         | Some (Interpolated tokens) \<Rightarrow> Ok (Dynamic (Interpolated (Literal prefix # tokens)))
         | Some (Lua _) \<Rightarrow> Err (EnvUnsupported prefix))
    | YTagged tag inner \<Rightarrow>
        (if tag = ''!lua'' then
           (case yaml_as_str inner of
              Some code \<Rightarrow> Ok (Dynamic (Interpolated [Literal prefix,
                 OwnedExpression (''(function() '' @ code @ '' end)()'')]))
            | None \<Rightarrow> Err (EnvLuaNotString prefix))
         else Err (EnvUnsupported prefix))
    | _ \<Rightarrow> Err (EnvUnsupported prefix))"

definition environment_key :: "('f \<Rightarrow> string) \<Rightarrow> 'f yaml \<Rightarrow> (env_error, string) result" where
  "environment_key show_f k = (case k of
      YString s \<Rightarrow> Ok s
    | YInt i \<Rightarrow> Ok (show_int i)
    | YFloat n \<Rightarrow> Ok (show_f n)
    | YBool b \<Rightarrow> Ok (show_bool b)
    | _ \<Rightarrow> Err EnvKeyNotString)"

text \<open>
  \<^verbatim>\<open>EnvironmentEntries::deserialize\<close>; \<open>from_value\<close> is \<^verbatim>\<open>serde_yaml::from_value::<String>\<close>, used
  for the elements of a sequence that are not dynamic.
\<close>

definition environment_entries ::
    "('f \<Rightarrow> string) \<Rightarrow> ('f yaml \<Rightarrow> (string, string) result) \<Rightarrow> 'f yaml \<Rightarrow>
     (env_error, string config_value list) result" where
  "environment_entries show_f from_value value = (case value of
      YNull \<Rightarrow> Ok []
    | YSequence xs \<Rightarrow> try_fold (\<lambda>es x. case classify x of
          Some e \<Rightarrow> Ok (es @ [Dynamic e])
        | None \<Rightarrow> bind_res (map_err EnvElement (from_value x)) (\<lambda>s. Ok (es @ [Static s]))) [] xs
    | YMapping m \<Rightarrow> try_fold (\<lambda>es (k, v).
          bind_res (environment_key show_f k) (\<lambda>key.
          bind_res (environment_map_entry show_f (key @ ''='') v) (\<lambda>e. Ok (es @ [e])))) [] m
    | _ \<Rightarrow> Err EnvNotCollection)"

definition resolve_inherit_env :: "bool option \<Rightarrow> bool option \<Rightarrow> bool option \<Rightarrow> bool" where
  "resolve_inherit_env local service global = (case local of Some b \<Rightarrow> b | None \<Rightarrow>
     (case service of Some b \<Rightarrow> b | None \<Rightarrow> (case global of Some b \<Rightarrow> b | None \<Rightarrow> True)))"

definition insert_env_entries :: "(string \<rightharpoonup> string) \<Rightarrow> string list \<Rightarrow> (string \<rightharpoonup> string)" where
  "insert_env_entries env entries = foldl (\<lambda>env entry.
      case split_once (CHR ''='') entry of
        Some (key, value) \<Rightarrow> env(key \<mapsto> value)
      | None \<Rightarrow> env) env entries"

text \<open>\<^verbatim>\<open>resolve_with_env\<close>; \<open>from_value\<close> is the deserializer of the field's type.\<close>

datatype resolve_error = ResolveLua lua_error | ResolveType string

definition resolve_with_env ::
    "('f yaml \<Rightarrow> (string, 'a) result) \<Rightarrow> 'a config_value \<Rightarrow> ('f, 'env, 'l) lua_evaluator \<Rightarrow> string \<Rightarrow>
     'env option \<times> 'l \<Rightarrow> (resolve_error, 'a \<times> ('env option \<times> 'l)) result" where
  "resolve_with_env from_value v ev field_path st = (case v of
      Static x \<Rightarrow> Ok (x, st)
    | Dynamic e \<Rightarrow>
        bind_res (map_err ResolveLua (get_or_build_env ev st)) (\<lambda>(env, (cached, l)).
        bind_res (map_err ResolveLua (evaluate_dynamic e ev env field_path l)) (\<lambda>(y, l').
        bind_res (map_err ResolveType (from_value y)) (\<lambda>x. Ok (x, (cached, l'))))))"

subsection \<open>Tokenizing what the printer writes\<close>

lemma markers_unbordered: "unbordered ''${{''" "unbordered ''}}$''"
  by (simp_all add: unbordered_def upt_rec)

lemma find_open: "\<not> contains_sub ''${{'' u \<Longrightarrow> find_sub ''${{'' (u @ ''${{'' @ v) = Some (length u)"
  by (rule find_sub_unbordered [OF markers_unbordered(1)])

lemma find_close: "\<not> contains_sub ''}}$'' u \<Longrightarrow> find_sub ''}}$'' (u @ ''}}$'' @ v) = Some (length u)"
  by (rule find_sub_unbordered [OF markers_unbordered(2)])

lemma parse_expr_tokens_literal:
  "\<not> contains_sub ''${{'' s \<Longrightarrow> parse_expr_tokens s = (if s = [] then [] else [TokString s])"
  by (subst parse_expr_tokens.simps) (simp add: contains_sub_def)

lemma parse_expr_tokens_closed:
  assumes "\<not> contains_sub ''${{'' u" "\<not> contains_sub ''}}$'' e"
  shows "parse_expr_tokens (u @ ''${{'' @ e @ ''}}$'' @ v) =
    (if u = [] then [] else [TokString u]) @ TokExpression (trim e) # parse_expr_tokens v"
proof -
  have f: "find_sub ''${{'' (u @ ''${{'' @ e @ ''}}$'' @ v) = Some (length u)"
    using assms(1) by (rule find_open)
  have g: "find_sub ''}}$'' (e @ ''}}$'' @ v) = Some (length e)"
    using assms(2) by (rule find_close)
  have "length (u @ ''${{'' @ e @ ''}}$'') = length u + 3 + length e + 3" by simp
  then have d: "drop (length u + 3 + length e + 3) (u @ ''${{'' @ e @ ''}}$'' @ v) = v"
    by (metis append.assoc append_eq_conv_conj)
  have h: "drop (length u + 3) (u @ ''${{'' @ e @ ''}}$'' @ v) = e @ ''}}$'' @ v" by simp
  show ?thesis
    by (subst parse_expr_tokens.simps, unfold f option.case Let_def h g d) simp
qed

lemma parse_expr_tokens_unclosed:
  assumes "\<not> contains_sub ''${{'' u" "\<not> contains_sub ''}}$'' v"
  shows "parse_expr_tokens (u @ ''${{'' @ v) =
    (if u = [] then [] else [TokString u]) @ TokString (u @ ''${{'') # parse_expr_tokens v"
proof -
  have f: "find_sub ''${{'' (u @ ''${{'' @ v) = Some (length u)"
    using assms(1) by (rule find_open)
  have g: "find_sub ''}}$'' v = None" using assms(2) by (simp add: contains_sub_def)
  show ?thesis
    by (subst parse_expr_tokens.simps, subst f) (use g in \<open>simp add: Let_def\<close>)
qed

text \<open>
  Token lists the printer can be trusted with: no two literals in a row, no empty literal, no
  marker inside a literal, trimmed expressions without a closing marker.
\<close>

definition lit_ok :: "string \<Rightarrow> bool" where
  "lit_ok s = (s \<noteq> [] \<and> \<not> contains_sub ''${{'' s)"

definition expr_ok :: "string \<Rightarrow> bool" where
  "expr_ok e = (trim e = e \<and> \<not> contains_sub ''}}$'' e)"

fun wf_tokens :: "owned_expr_token list \<Rightarrow> bool" where
  "wf_tokens [] = True"
| "wf_tokens (OwnedExpression e # ts) = (expr_ok e \<and> wf_tokens ts)"
| "wf_tokens [Literal s] = lit_ok s"
| "wf_tokens (Literal s # OwnedExpression e # ts) = (lit_ok s \<and> expr_ok e \<and> wf_tokens ts)"
| "wf_tokens (Literal s # Literal s' # ts) = False"

text \<open>Every opening marker that the tokenizer meets has a closing marker after it.\<close>

function markers_closed :: "string \<Rightarrow> bool" where
  "markers_closed s = (case find_sub ''${{'' s of
      None \<Rightarrow> True
    | Some start \<Rightarrow> (case find_sub ''}}$'' (drop (start + 3) s) of
          None \<Rightarrow> False
        | Some e \<Rightarrow> markers_closed (drop (start + 3 + e + 3) s)))"
  by pat_completeness auto
termination
  by (relation "measure length") (auto dest!: find_sub_bound)

declare markers_closed.simps [simp del]

lemma expr_ok_trim: "\<not> contains_sub ''}}$'' e \<Longrightarrow> expr_ok (trim e)"
  unfolding expr_ok_def by (metis contains_sub_mono trim_infix trim_trim)

lemma contains_sub_Cons:
  "contains_sub pat (c # s) \<longleftrightarrow> starts_with pat (c # s) \<or> contains_sub pat s"
  by (simp add: contains_sub_def)

lemma contains_sub_space_end:
  "contains_sub ''}}$'' (s @ [CHR '' '']) \<longleftrightarrow> contains_sub ''}}$'' s"
proof (induction s)
  case (Cons c s)
  have "starts_with ''}}$'' (c # s @ [CHR '' '']) \<longleftrightarrow> starts_with ''}}$'' (c # s)"
    by (cases s; cases "tl s") (auto split: list.splits)
  with Cons show ?case by (simp add: contains_sub_Cons)
qed (simp add: contains_sub_def)

lemma contains_sub_padded:
  "contains_sub ''}}$'' (CHR '' '' # s @ [CHR '' '']) \<longleftrightarrow> contains_sub ''}}$'' s"
  by (simp add: contains_sub_Cons contains_sub_space_end)

lemma parse_rendered_expr:
  assumes "\<not> contains_sub ''${{'' u" "expr_ok e"
  shows "parse_expr_tokens (u @ render_token (OwnedExpression e) @ v) =
    (if u = [] then [] else [TokString u]) @ TokExpression e # parse_expr_tokens v"
  using parse_expr_tokens_closed [of u "CHR '' '' # e @ [CHR '' '']" v] assms
  by (simp add: contains_sub_padded expr_ok_def trim_padded)

lemma parse_render_tokens:
  "wf_tokens ts \<Longrightarrow> map own_token (parse_expr_tokens (concat (map render_token ts))) = ts"
proof (induction ts rule: wf_tokens.induct)
  case (2 e ts)
  then show ?case
    using parse_rendered_expr [of "[]" e "concat (map render_token ts)"]
    by (simp add: contains_sub_def del: render_token.simps(2))
next
  case (4 s e ts)
  then show ?case
    using parse_rendered_expr [of s e "concat (map render_token ts)"]
    by (simp add: lit_ok_def del: render_token.simps(2))
qed (auto simp: parse_expr_tokens_literal lit_ok_def contains_sub_def)

lemma wf_tokens_parse: "markers_closed s \<Longrightarrow> wf_tokens (map own_token (parse_expr_tokens s))"
proof (induction s rule: markers_closed.induct)
  case (1 s)
  show ?case
  proof (cases "find_sub ''${{'' s")
    case None
    then show ?thesis
      by (subst parse_expr_tokens.simps) (simp add: lit_ok_def contains_sub_def)
  next
    case (Some start)
    obtain e where e: "find_sub ''}}$'' (drop (start + 3) s) = Some e"
      and c: "markers_closed (drop (start + 3 + e + 3) s)"
      using "1.prems" Some by (subst (asm) markers_closed.simps) (auto split: option.splits)
    have w: "wf_tokens (map own_token (parse_expr_tokens (drop (start + 3 + e + 3) s)))"
      using "1.IH" [OF Some e c] .
    have l: "start > 0 \<Longrightarrow> lit_ok (take start s)"
      using find_sub_first [OF Some] find_sub_bound [OF Some] by (auto simp: lit_ok_def)
    have x: "expr_ok (trim (take e (drop (start + 3) s)))"
      using find_sub_first [OF e] by (intro expr_ok_trim) simp
    show ?thesis
      by (subst parse_expr_tokens.simps, cases "start = 0") (use Some e w l x in \<open>simp_all add: Let_def\<close>)
  qed
qed

lemma own_token_inj: "map own_token ts = map own_token ts' \<longleftrightarrow> ts = ts'"
proof -
  have "inj own_token" unfolding inj_def by (metis own_token.elims owned_expr_token.inject owned_expr_token.distinct(1))
  then show ?thesis by (rule inj_map_eq_map)
qed

lemma parse_closed_has_expr:
  "markers_closed s \<Longrightarrow> contains_sub ''${{'' s \<Longrightarrow> \<exists>e. TokExpression e \<in> set (parse_expr_tokens s)"
  by (subst (asm) markers_closed.simps, subst parse_expr_tokens.simps)
    (auto simp: contains_sub_def Let_def split: option.splits)

lemma render_has_marker:
  assumes "OwnedExpression e \<in> set ts"
  shows "contains_sub ''${{'' (concat (map render_token ts))"
proof -
  obtain us vs where "ts = us @ OwnedExpression e # vs" using assms by (meson split_list)
  then have "concat (map render_token ts) =
      concat (map render_token us) @ ''${{'' @ ('' '' @ e @ '' }}$'' @ concat (map render_token vs))"
    by simp
  then show ?thesis unfolding contains_sub_iff by blast
qed

lemma standalone_extract:
  "is_standalone_tokens_loop False ts \<Longrightarrow>
   \<exists>e. extract_expr_from_standalone ts = Some e \<and> TokExpression e \<in> set ts"
proof (induction ts)
  case (Cons t ts)
  then show ?case by (cases t) (auto split: if_splits)
qed simp

lemma wf_tokens_expr_ok: "wf_tokens ts \<Longrightarrow> OwnedExpression e \<in> set ts \<Longrightarrow> expr_ok e"
  by (induction ts rule: wf_tokens.induct) auto

lemma classify_Expression:
  assumes "expr_ok e"
  shows "classify (to_yaml_value (Expression e)) = Some (Expression e)"
proof -
  have "parse_expr_tokens (render_token (OwnedExpression e)) = [TokExpression e]"
    using parse_rendered_expr [of "[]" e "[]"] assms
    by (simp add: contains_sub_def parse_expr_tokens_literal del: render_token.simps(2))
  moreover have "contains_sub ''${{'' (render_token (OwnedExpression e))"
    using render_has_marker [of e "[OwnedExpression e]"] by simp
  ultimately show ?thesis
    by (simp add: classify_def to_yaml_value_def Let_def is_standalone_tokens_def)
qed



text \<open>
  An unclosed marker after literal text: the text before the marker is emitted twice, so the
  evaluation of the string is not the string, although no expression occurs in it.
\<close>

lemma unclosed_marker_duplicates:
  assumes "u \<noteq> []" "\<not> contains_sub ''${{'' u" "\<not> contains_sub ''${{'' v" "\<not> contains_sub ''}}$'' v"
  shows "evaluate_tokens_to_string (u @ ''${{'' @ v) ev env chunk l = Ok (u @ u @ ''${{'' @ v, l)"
proof -
  have "parse_expr_tokens (u @ ''${{'' @ v) =
      TokString u # TokString (u @ ''${{'') # (if v = [] then [] else [TokString v])"
    using parse_expr_tokens_unclosed [of u v] assms by (simp add: parse_expr_tokens_literal)
  then show ?thesis unfolding evaluate_tokens_to_string_def by (auto simp only: try_fold.simps split: if_splits) simp_all
qed

lemma unclosed_marker_duplicates_example:
  "evaluate_tokens_to_string ''cost: ${{ 5'' (undefined :: (int, unit, unit) lua_evaluator) () [] () =
   Ok (''cost: cost: ${{ 5'', ())"
  using unclosed_marker_duplicates [of "''cost: ''" "'' 5''"] by (simp add: contains_sub_def)

subsection \<open>Trees without dynamic content\<close>

fun static_tree :: "bool \<Rightarrow> 'f yaml \<Rightarrow> bool" where
  "static_tree deferred (YString s) = (deferred \<or> \<not> contains_sub ''${{'' s)"
| "static_tree deferred (YTagged tag inner) = (tag \<noteq> ''!lua'' \<and> static_tree deferred inner)"
| "static_tree deferred (YMapping m) = list_all (\<lambda>p. static_tree (deferred_key (fst p)) (snd p)) m"
| "static_tree deferred (YSequence xs) = list_all (static_tree deferred) xs"
| "static_tree deferred _ = True"

lemma evaluate_static_inner:
  "static_tree d v \<Longrightarrow> evaluate_value_tree_inner ev v path d st = Ok (v, st)"
  "list_all (\<lambda>p. static_tree (deferred_key (fst p)) (snd p)) m \<Longrightarrow> evaluate_mapping ev m path st = Ok (m, st)"
  "list_all (static_tree d) xs \<Longrightarrow> evaluate_sequence ev xs path d st = Ok (xs, st)"
  by (induction ev v path d st and ev m path st and ev xs path d st
      rule: evaluate_value_tree_inner_evaluate_mapping_evaluate_sequence.induct) auto

subsection \<open>Lua arrays\<close>

lemma max_index_lower: "a \<le> foldl max_index_step a ps"
proof (induction ps arbitrary: a)
  case (Cons q ps)
  have "a \<le> max_index_step a q" by (simp add: max_index_step_def)
  then show ?case using Cons.IH [of "max_index_step a q"] by simp
qed simp

lemma max_index_ge:
  "p \<in> set ps \<Longrightarrow> positive_index (fst p) \<Longrightarrow> index_of (fst p) \<le> foldl max_index_step a ps"
proof (induction ps arbitrary: a)
  case (Cons q ps)
  show ?case
  proof (cases "p = q")
    case True
    have "index_of (fst p) \<le> max_index_step a q" using True Cons.prems by (simp add: max_index_step_def)
    then show ?thesis using max_index_lower [of "max_index_step a q" ps] by simp
  qed (use Cons in simp)
qed simp

lemma max_index_le:
  "a \<le> b \<Longrightarrow> (\<And>p. p \<in> set ps \<Longrightarrow> index_of (fst p) \<le> b) \<Longrightarrow> foldl max_index_step a ps \<le> b"
  by (induction ps arbitrary: a) (simp_all add: max_index_step_def)

text \<open>A table whose keys are 1 to n, in any iteration order, has n as its highest index.\<close>

lemma table_array_indices:
  fixes ps :: "('f lua_value \<times> 'v) list"
  assumes "distinct (map fst ps)" "set (map fst ps) = LuaInteger ` {1..int n}"
  shows "table_is_array ps" "table_max_index ps = int n" "length ps = n"
proof -
  have "card (LuaInteger ` {1..int n} :: 'f lua_value set) = n"
    by (subst card_image) (auto simp: inj_on_def)
  then show len: "length ps = n"
    using assms distinct_card by (metis length_map)
  have keys: "\<exists>i. fst p = LuaInteger i \<and> 1 \<le> i \<and> i \<le> int n" if "p \<in> set ps" for p
  proof -
    have "fst p \<in> set (map fst ps)" using that by simp
    then show ?thesis unfolding assms(2) by auto
  qed
  then show "table_is_array ps"
    by (force simp: table_is_array_def list_all_iff positive_index_def)
  have up: "index_of (fst p) \<le> int n" if "p \<in> set ps" for p
    using keys [OF that] by (auto simp: index_of_def)
  have "table_max_index ps \<le> int n"
    unfolding table_max_index_def by (rule max_index_le) (use up in auto)
  moreover have "int n \<le> table_max_index ps"
  proof (cases "n = 0")
    case False
    then have "(LuaInteger (int n) :: 'f lua_value) \<in> set (map fst ps)" using assms(2) by simp
    then obtain p where p: "p \<in> set ps" "fst p = LuaInteger (int n)" by auto
    show ?thesis
      using max_index_ge [OF p(1), of 0] p(2) False
      by (simp add: table_max_index_def positive_index_def index_of_def)
  qed (use max_index_lower [of 0 ps] in \<open>simp add: table_max_index_def\<close>)
  ultimately show "table_max_index ps = int n" by simp
qed

lemma array_elements_Ok:
  assumes "\<And>i. i \<in> set is \<Longrightarrow> map_of rs i = Some (Ok (g i))"
  shows "try_fold (\<lambda>seq i. case map_of rs i of None \<Rightarrow> Ok (seq @ [YNull])
      | Some r \<Rightarrow> bind_res r (\<lambda>v. Ok (seq @ [v]))) acc is = Ok (acc @ map g is)"
  using assms by (induction "is" arbitrary: acc) auto

text \<open>
  A Lua table with the keys 1 to n becomes the YAML sequence of its n converted elements in index
  order, whatever the order in which the interpreter iterates over the table.
\<close>

lemma lua_to_yaml_array:
  assumes "distinct (map fst ps)" "set (map fst ps) = LuaInteger ` {1..int n}"
    and "\<And>i v. (LuaInteger i, v) \<in> set ps \<Longrightarrow> lua_to_yaml v = Ok (g i)"
  shows "lua_to_yaml (LuaTable ps) = Ok (YSequence (map g [1..int n]))"
proof -
  define rs where "rs = map (\<lambda>p. (index_of (fst p), lua_to_yaml (snd p))) ps"
  note idx = table_array_indices [OF assms(1,2)]
  have "map_of rs i = Some (Ok (g i))" if i: "i \<in> set [1..int n]" for i
  proof -
    have "LuaInteger i \<in> set (map fst ps)" using assms(2) i by simp
    then obtain v where v: "(LuaInteger i, v) \<in> set ps" by auto
    have "inj_on index_of (set (map fst ps))"
      unfolding assms(2) by (auto simp: inj_on_def index_of_def)
    then have "distinct (map fst rs)"
      using assms(1) by (simp add: rs_def comp_def distinct_map inj_on_def)
    moreover have "(i, lua_to_yaml v) \<in> set rs"
      using v by (force simp: rs_def index_of_def)
    ultimately show ?thesis using assms(3) [OF v] by (simp add: rs_def)
  qed
  then have "array_elements rs (int n) = Ok (map g [1..int n])"
    using array_elements_Ok [of "[1..int n]" rs g "[]"] by (simp add: array_elements_def)
  then show ?thesis using idx by (simp add: rs_def comp_def)
qed

lemma lua_to_yaml_array_example:
  "lua_to_yaml (LuaTable [(LuaInteger 2, LuaString ''b''), (LuaInteger 1, LuaString ''a'')] :: int lua_value) =
   Ok (YSequence [YString ''a'', YString ''b''])"
proof -
  let ?g = "\<lambda>i :: int. if i = 1 then YString ''a'' else YString ''b'' :: int yaml"
  have "{1..int 2} = {1, 2}" by auto
  then have keys: "set (map fst [(LuaInteger 2, LuaString ''b''), (LuaInteger 1 :: int lua_value, LuaString ''a'' :: int lua_value)]) =
      LuaInteger ` {1..int 2}"
    by auto
  have "lua_to_yaml (LuaTable [(LuaInteger 2, LuaString ''b''), (LuaInteger 1, LuaString ''a'')] :: int lua_value) =
      Ok (YSequence (map ?g [1..int 2]))"
    by (rule lua_to_yaml_array [OF _ keys]) auto
  then show ?thesis by (simp add: upto.simps del: lua_to_yaml.simps)
qed

end
