(* ===== verification/Restart.thy ===== *)
theory Restart
  imports Complex_Main Durations Expr_Tokens
begin

text \<open>
  Restart policies (\<^verbatim>\<open>config/restart.rs\<close>): the bit set of policies with its parser and printer, the
  two forms of a restart configuration, and the delay with exponential backoff.

  A 64-bit float is a rational number, an infinity or NaN; the two zeros are not told apart (no
  operation used here does). Rounding of an exact result to a float is the parameter \<open>rnd\<close>, and
  \<^verbatim>\<open>powi\<close>, whose precision Rust leaves unspecified, is the parameter \<open>f64_powi\<close>.
\<close>

unbundle bit_operations_syntax

datatype restart_policy = RestartPolicy "8 word"

definition ON_FAILURE :: "8 word" where "ON_FAILURE = 1"
definition ON_SUCCESS :: "8 word" where "ON_SUCCESS = push_bit 1 1"
definition ON_UNHEALTHY :: "8 word" where "ON_UNHEALTHY = push_bit 2 1"

fun policy_bits :: "restart_policy \<Rightarrow> 8 word" where
  "policy_bits (RestartPolicy b) = b"

definition policy_no :: restart_policy where "policy_no = RestartPolicy 0"

definition policy_always :: restart_policy where
  "policy_always = RestartPolicy (ON_FAILURE OR ON_SUCCESS OR ON_UNHEALTHY)"

definition policy_contains :: "restart_policy \<Rightarrow> 8 word \<Rightarrow> bool" where
  "policy_contains p flag = (policy_bits p AND flag \<noteq> 0)"

definition is_no :: "restart_policy \<Rightarrow> bool" where
  "is_no p = (policy_bits p = 0)"

definition policy_restart_on_exit :: "restart_policy \<Rightarrow> int option \<Rightarrow> bool" where
  "policy_restart_on_exit p exit_code =
     (if exit_code = Some 0 then policy_contains p ON_SUCCESS else policy_contains p ON_FAILURE)"

definition policy_restart_on_unhealthy :: "restart_policy \<Rightarrow> bool" where
  "policy_restart_on_unhealthy p = policy_contains p ON_UNHEALTHY"

datatype policy_error = UnknownFlag string | NoCombined

text \<open>One token of the policy string updates the flags and \<^verbatim>\<open>has_no\<close>.\<close>

definition policy_token :: "8 word \<times> bool \<Rightarrow> string \<Rightarrow> (policy_error, 8 word \<times> bool) result" where
  "policy_token st token = (case st of (flags, has_no) \<Rightarrow>
     if token = ''no'' then Ok (flags, True)
     else if token = ''on-failure'' then Ok (flags OR ON_FAILURE, has_no)
     else if token = ''on-success'' then Ok (flags OR ON_SUCCESS, has_no)
     else if token = ''on-unhealthy'' then Ok (flags OR ON_UNHEALTHY, has_no)
     else if token = ''always'' then
       Ok (flags OR (ON_FAILURE OR ON_SUCCESS OR ON_UNHEALTHY), has_no)
     else Err (UnknownFlag token))"

definition policy_parse :: "string \<Rightarrow> (policy_error, restart_policy) result" where
  "policy_parse s =
     bind_res (try_fold policy_token (0, False) (map trim (split_on (CHR ''|'') s)))
       (\<lambda>(flags, has_no).
          if has_no \<and> flags \<noteq> 0 then Err NoCombined
          else if has_no then Ok (RestartPolicy 0)
          else Ok (RestartPolicy flags))"

definition to_string_repr :: "restart_policy \<Rightarrow> string" where
  "to_string_repr p =
     (if is_no p then ''no''
      else if policy_bits p = (ON_FAILURE OR ON_SUCCESS OR ON_UNHEALTHY) then ''always''
      else join ''|''
        ((if policy_contains p ON_FAILURE then [''on-failure''] else []) @
         (if policy_contains p ON_SUCCESS then [''on-success''] else []) @
         (if policy_contains p ON_UNHEALTHY then [''on-unhealthy''] else [])))"

subsection \<open>Floats\<close>

datatype f64 = F64 rat | F64_inf bool | F64_nan

fun f64_mul :: "(rat \<Rightarrow> f64) \<Rightarrow> f64 \<Rightarrow> f64 \<Rightarrow> f64" where
  "f64_mul rnd (F64 a) (F64 b) = rnd (a * b)"
| "f64_mul rnd (F64 a) (F64_inf n) = (if a = 0 then F64_nan else F64_inf (n \<noteq> (a < 0)))"
| "f64_mul rnd (F64_inf n) (F64 a) = (if a = 0 then F64_nan else F64_inf (n \<noteq> (a < 0)))"
| "f64_mul rnd (F64_inf n) (F64_inf m) = F64_inf (n \<noteq> m)"
| "f64_mul rnd F64_nan y = F64_nan"
| "f64_mul rnd x F64_nan = F64_nan"

fun f64_add :: "(rat \<Rightarrow> f64) \<Rightarrow> f64 \<Rightarrow> f64 \<Rightarrow> f64" where
  "f64_add rnd (F64 a) (F64 b) = rnd (a + b)"
| "f64_add rnd (F64 a) (F64_inf n) = F64_inf n"
| "f64_add rnd (F64_inf n) (F64 a) = F64_inf n"
| "f64_add rnd (F64_inf n) (F64_inf m) = (if n = m then F64_inf n else F64_nan)"
| "f64_add rnd F64_nan y = F64_nan"
| "f64_add rnd x F64_nan = F64_nan"

text \<open>\<^verbatim>\<open>x.max(0.0)\<close>; a NaN gives the other argument.\<close>

fun f64_max_zero :: "f64 \<Rightarrow> f64" where
  "f64_max_zero (F64 a) = F64 (max a 0)"
| "f64_max_zero (F64_inf neg) = (if neg then F64 0 else F64_inf False)"
| "f64_max_zero F64_nan = F64 0"

text \<open>\<^verbatim>\<open>Duration::as_secs_f64\<close>: whole seconds plus the quotient of the nanoseconds.\<close>

definition f64_div_const :: "(rat \<Rightarrow> f64) \<Rightarrow> f64 \<Rightarrow> rat \<Rightarrow> f64" where
  "f64_div_const rnd x k = (case x of F64 a \<Rightarrow> rnd (a / k) | y \<Rightarrow> y)"

definition as_secs_f64 :: "(rat \<Rightarrow> f64) \<Rightarrow> duration \<Rightarrow> f64" where
  "as_secs_f64 rnd d = f64_add rnd (rnd (of_nat (d div 1000000000)))
     (f64_div_const rnd (rnd (of_nat (d mod 1000000000))) 1000000000)"

text \<open>
  \<^verbatim>\<open>Duration::from_secs_f64\<close>: rounds to the nearest nanosecond, ties to even; panics
  (\<^const>\<open>None\<close>) if the value is negative, not finite or has 2^64 seconds or more.
\<close>

definition round_half_even :: "rat \<Rightarrow> int" where
  "round_half_even q = (let f = \<lfloor>q\<rfloor>; r = q - of_int f in
     if r < 1 / 2 then f else if r > 1 / 2 then f + 1 else if even f then f else f + 1)"

definition from_secs_f64 :: "f64 \<Rightarrow> duration option" where
  "from_secs_f64 x = (case x of
      F64 a \<Rightarrow> (if a < 0 then None
        else let ns = nat (round_half_even (a * 1000000000)) in
          if ns < 2 ^ 64 * 1000000000 then Some ns else None)
    | _ \<Rightarrow> None)"

subsection \<open>Restart configuration\<close>

datatype restart_config =
    RestartSimple restart_policy
  | RestartExtended restart_policy "string config_value list config_value"
      "string config_value" "string config_value" "f64 config_value" "string config_value"

definition default_grace_period :: "string config_value" where "default_grace_period = Static ''0s''"
definition default_delay :: "string config_value" where "default_delay = Static ''0s''"
definition default_backoff :: "f64 config_value" where "default_backoff = Static (F64 1)"

definition restart_config_default :: restart_config where
  "restart_config_default = RestartSimple policy_no"

text \<open>
  Deserialization. The conversions of plain strings, numbers and lists are the serializer's and
  arguments of the model; fields not named are ignored.
\<close>

definition yaml_field :: "('f yaml \<times> 'f yaml) list \<Rightarrow> string \<Rightarrow> 'f yaml option" where
  "yaml_field m k = map_of m (YString k)"

definition policy_deserialize :: "('f yaml \<Rightarrow> (string, string) result) \<Rightarrow> 'f yaml \<Rightarrow> (string, restart_policy) result" where
  "policy_deserialize str_of v = bind_res (str_of v) (\<lambda>s. map_err (\<lambda>e. case e of
      UnknownFlag t \<Rightarrow> ''unknown restart policy flag'' | NoCombined \<Rightarrow> ''`no` cannot be combined with other restart flags'')
      (policy_parse s))"

definition field_or_default ::
    "('f yaml \<Rightarrow> (string, 'a) result) \<Rightarrow> 'a \<Rightarrow> 'f yaml option \<Rightarrow> (string, 'a) result" where
  "field_or_default conv def v = (case v of None \<Rightarrow> Ok def | Some y \<Rightarrow> conv y)"

definition restart_config_deserialize ::
    "('f yaml \<Rightarrow> (string, string) result) \<Rightarrow> ('f yaml \<Rightarrow> (string, f64) result) \<Rightarrow>
     ('f yaml \<Rightarrow> (string, string config_value list) result) \<Rightarrow> 'f yaml \<Rightarrow> (string, restart_config) result" where
  "restart_config_deserialize str_of f64_of list_of value = (case value of
      YString _ \<Rightarrow> bind_res (policy_deserialize str_of value) (\<lambda>p. Ok (RestartSimple p))
    | YMapping m \<Rightarrow>
        bind_res (field_or_default (policy_deserialize str_of) policy_no (yaml_field m ''policy'')) (\<lambda>p.
        bind_res (field_or_default (config_value_deserialize list_of) (Static []) (yaml_field m ''watch'')) (\<lambda>w.
        bind_res (field_or_default (config_value_deserialize str_of) default_grace_period (yaml_field m ''grace_period'')) (\<lambda>g.
        bind_res (field_or_default (config_value_deserialize str_of) default_delay (yaml_field m ''delay'')) (\<lambda>d.
        bind_res (field_or_default (config_value_deserialize f64_of) default_backoff (yaml_field m ''backoff'')) (\<lambda>b.
        bind_res (field_or_default (config_value_deserialize str_of) default_delay (yaml_field m ''max_delay'')) (\<lambda>md.
          Ok (RestartExtended p w g d b md)))))))
    | _ \<Rightarrow> Err ''expected string or mapping for restart config'')"

fun policy :: "restart_config \<Rightarrow> restart_policy" where
  "policy (RestartSimple p) = p"
| "policy (RestartExtended p _ _ _ _ _) = p"

definition static_duration :: "string config_value \<Rightarrow> duration" where
  "static_duration v = (case as_static v of
      None \<Rightarrow> 0
    | Some s \<Rightarrow> (case parse_duration s of Inl _ \<Rightarrow> 0 | Inr d \<Rightarrow> d))"

fun grace_period :: "restart_config \<Rightarrow> duration" where
  "grace_period (RestartSimple _) = 0"
| "grace_period (RestartExtended _ _ g _ _ _) = static_duration g"

fun watch_patterns :: "restart_config \<Rightarrow> string list" where
  "watch_patterns (RestartSimple _) = []"
| "watch_patterns (RestartExtended _ w _ _ _ _) =
     (case as_static w of Some items \<Rightarrow> List.map_filter as_static items | None \<Rightarrow> [])"

fun delay :: "restart_config \<Rightarrow> duration" where
  "delay (RestartSimple _) = 0"
| "delay (RestartExtended _ _ _ d _ _) = static_duration d"

fun backoff_factor :: "restart_config \<Rightarrow> f64" where
  "backoff_factor (RestartSimple _) = F64 1"
| "backoff_factor (RestartExtended _ _ _ _ b _) = (case as_static b of Some x \<Rightarrow> x | None \<Rightarrow> F64 1)"

fun max_delay :: "restart_config \<Rightarrow> duration" where
  "max_delay (RestartSimple _) = 0"
| "max_delay (RestartExtended _ _ _ _ _ md) = static_duration md"

text \<open>\<^verbatim>\<open>n as i32\<close> for a \<^verbatim>\<open>u32\<close>. The result is \<^const>\<open>None\<close> where \<^verbatim>\<open>from_secs_f64\<close> panics.\<close>

definition as_i32 :: "nat \<Rightarrow> int" where
  "as_i32 n = (if n < 2 ^ 31 then int n else int n - 2 ^ 32)"

definition compute_restart_delay ::
    "(rat \<Rightarrow> f64) \<Rightarrow> (f64 \<Rightarrow> int \<Rightarrow> f64) \<Rightarrow> restart_config \<Rightarrow> nat \<Rightarrow> duration option" where
  "compute_restart_delay rnd f64_powi cfg restart_count_since_healthy =
     (let base = delay cfg in
      if base = 0 then Some 0
      else
        let multiplier = f64_powi (backoff_factor cfg) (as_i32 restart_count_since_healthy);
            delay_secs = f64_mul rnd (as_secs_f64 rnd base) multiplier
        in case from_secs_f64 (f64_max_zero delay_secs) of
             None \<Rightarrow> None
           | Some computed \<Rightarrow>
               (let cap = max_delay cfg in
                if cap \<noteq> 0 \<and> computed > cap then Some cap else Some computed))"

definition should_restart_on_exit :: "restart_config \<Rightarrow> int option \<Rightarrow> bool" where
  "should_restart_on_exit cfg exit_code = policy_restart_on_exit (policy cfg) exit_code"

definition should_restart_on_unhealthy :: "restart_config \<Rightarrow> bool" where
  "should_restart_on_unhealthy cfg = policy_restart_on_unhealthy (policy cfg)"

definition should_restart_on_file_change :: "restart_config \<Rightarrow> bool" where
  "should_restart_on_file_change cfg = (watch_patterns cfg \<noteq> [])"

datatype restart_error = WatchWithoutRestart

definition restart_validate :: "restart_config \<Rightarrow> (restart_error, unit) result" where
  "restart_validate cfg =
     (if watch_patterns cfg \<noteq> [] \<and> is_no (policy cfg) then Err WatchWithoutRestart else Ok ())"

subsection \<open>Policies\<close>

lemmas flag_defs = ON_FAILURE_def ON_SUCCESS_def ON_UNHEALTHY_def

lemma policy_token_flags:
  "policy_token (flags, n) t = Ok (flags', n') \<Longrightarrow> flags \<in> {0, 1, 2, 3, 4, 5, 6, 7} \<Longrightarrow>
   flags' \<in> {0, 1, 2, 3, 4, 5, 6, 7}"
  by (auto simp: policy_token_def flag_defs split: if_splits)

lemma policy_parse_flags:
  assumes "policy_parse s = Ok p"
  shows "policy_bits p \<in> {0, 1, 2, 3, 4, 5, 6, 7}"
proof -
  obtain flags has_no where
    t: "try_fold policy_token (0, False) (map trim (split_on (CHR ''|'') s)) = Ok (flags, has_no)"
    and p: "p = RestartPolicy 0 \<or> p = RestartPolicy flags"
    using assms by (auto simp: policy_parse_def bind_res_Ok_iff split: if_splits)
  from t have "fst (flags, has_no) \<in> {0, 1, 2, 3, 4, 5, 6, 7}"
    by (rule try_fold_inv) (auto dest!: policy_token_flags)
  with p show ?thesis by auto
qed

lemma policy_print_parse:
  "b \<in> {0, 1, 2, 3, 4, 5, 6, 7} \<Longrightarrow> policy_parse (to_string_repr (RestartPolicy b)) = Ok (RestartPolicy b)"
proof -
  have "list_all (\<lambda>b. policy_parse (to_string_repr (RestartPolicy b)) = Ok (RestartPolicy b)) [0, 1, 2, 3, 4, 5, 6, 7]"
    by code_simp
  then show "b \<in> {0, 1, 2, 3, 4, 5, 6, 7} \<Longrightarrow> ?thesis" by auto
qed

text \<open>
  Every policy that the parser accepts is printed as a string that parses to the same policy,
  and uses the three flags only.
\<close>

lemma policy_roundtrip:
  assumes "policy_parse s = Ok p"
  shows "policy_parse (to_string_repr p) = Ok p \<and> policy_bits p \<le> 7"
proof -
  have b: "policy_bits p \<in> {0, 1, 2, 3, 4, 5, 6, 7}" using assms by (rule policy_parse_flags)
  then have "policy_bits p \<le> 7" by (auto simp: word_le_nat_alt)
  moreover have "RestartPolicy (policy_bits p) = p" by (cases p) simp
  ultimately show ?thesis using policy_print_parse [OF b] by simp
qed

lemma policy_roundtrip_example:
  "policy_parse (to_string_repr (RestartPolicy 5)) = Ok (RestartPolicy 5) \<and> policy_bits (RestartPolicy 5) \<le> 7"
  by (rule policy_roundtrip [of "''on-unhealthy | on-failure''"]) code_simp

text \<open>The policy \<^verbatim>\<open>no\<close> restarts nothing, the policy \<^verbatim>\<open>always\<close> everything.\<close>

lemma policy_no_never: "is_no p \<Longrightarrow> \<not> policy_restart_on_exit p c \<and> \<not> policy_restart_on_unhealthy p"
  by (simp add: is_no_def policy_restart_on_exit_def policy_contains_def policy_restart_on_unhealthy_def)

lemma policy_always_restarts: "policy_restart_on_exit policy_always c"
  by (simp add: policy_always_def policy_restart_on_exit_def policy_contains_def flag_defs)

subsection \<open>Delays\<close>

lemma compute_restart_delay_cap:
  "compute_restart_delay rnd p cfg n = Some d \<Longrightarrow> max_delay cfg \<noteq> 0 \<Longrightarrow> d \<le> max_delay cfg"
  by (auto simp: compute_restart_delay_def Let_def split: if_splits option.splits)

lemma round_half_even_of_int [simp]: "round_half_even (of_int i) = i"
  by (simp add: round_half_even_def Let_def)

lemma from_secs_f64_whole:
  "from_secs_f64 (F64 (of_nat n)) = (if n < 2 ^ 64 then Some (n * 1000000000) else None)"
proof -
  have "(of_nat n * 1000000000 :: rat) = of_int (int n * 1000000000)" by simp
  then have "round_half_even (of_nat n * 1000000000) = int n * 1000000000"
    by (simp only: round_half_even_of_int)
  moreover have "nat (int n * 1000000000) = n * 1000000000" by simp
  ultimately show ?thesis by (simp add: from_secs_f64_def Let_def)
qed

lemma as_secs_f64_whole:
  assumes "rnd 0 = F64 0" "rnd (of_nat n) = F64 (of_nat n)"
  shows "as_secs_f64 rnd (n * 1000000000) = F64 (of_nat n)"
  using assms by (simp add: as_secs_f64_def f64_div_const_def)

lemma compute_restart_delay_whole:
  assumes "delay cfg = s * 1000000000" "s \<noteq> 0"
    and "f64_powi (backoff_factor cfg) (as_i32 n) = F64 (of_nat m)"
    and "rnd 0 = F64 0" "rnd (of_nat s) = F64 (of_nat s)" "rnd (of_nat (s * m)) = F64 (of_nat (s * m))"
  shows "compute_restart_delay rnd f64_powi cfg n =
    (if s * m < 2 ^ 64 then
       Some (if max_delay cfg \<noteq> 0 then min (s * m * 1000000000) (max_delay cfg) else s * m * 1000000000)
     else None)"
proof -
  have "f64_mul rnd (F64 (of_nat s)) (F64 (of_nat m)) = F64 (of_nat (s * m))"
    using assms(6) by simp
  moreover have "f64_max_zero (F64 (of_nat (s * m))) = F64 (of_nat (s * m))" by simp
  ultimately show ?thesis
    using assms(1-3) from_secs_f64_whole [of "s * m"] as_secs_f64_whole [OF assms(4,5)]
    by (simp add: compute_restart_delay_def Let_def min_def del: of_nat_mult)
qed


lemma parse_duration_1s: "parse_duration ''1s'' = Ok (from_millis 1000)"
proof -
  have "show_nat 1 = ''1''" by code_simp
  then show ?thesis using parse_duration_number_unit [of "''s''" 1000 1] by (simp add: duration_units unit_chars)
qed

lemma parse_duration_1m: "parse_duration ''1m'' = Ok (from_millis 60000)"
proof -
  have "show_nat 1 = ''1''" by code_simp
  then show ?thesis using parse_duration_number_unit [of "''m''" 60000 1] by (simp add: duration_units unit_chars)
qed


end
