(* ===== verification/Dep_Config.thy ===== *)
theory Dep_Config
  imports Durations
begin

text \<open>
  The \<^verbatim>\<open>depends_on\<close> section of a service (\<^verbatim>\<open>config/deps.rs\<close>): conditions, exit code filters with
  their text form, and the lookups on the list and map notations. A map notation is a hash map and
  therefore an association list in iteration order.
\<close>

datatype dependency_condition =
    ServiceStarted
  | ServiceHealthy
  | ServiceCompletedSuccessfully
  | ServiceUnhealthy
  | ServiceFailed
  | ServiceStopped

fun condition_as_str :: "dependency_condition \<Rightarrow> string" where
  "condition_as_str ServiceStarted = ''service_started''"
| "condition_as_str ServiceHealthy = ''service_healthy''"
| "condition_as_str ServiceCompletedSuccessfully = ''service_completed_successfully''"
| "condition_as_str ServiceUnhealthy = ''service_unhealthy''"
| "condition_as_str ServiceFailed = ''service_failed''"
| "condition_as_str ServiceStopped = ''service_stopped''"

text \<open>An entry of the filter as it is written in the file: a range string or one integer.\<close>

datatype exit_code_entry = RangeEntry string | SingleEntry int

record exit_code_range =
  range_start :: int
  range_end :: int

type_synonym exit_code_filter = "exit_code_range list"

definition filter_matches :: "exit_code_filter \<Rightarrow> int \<Rightarrow> bool" where
  "filter_matches f code =
     (f = [] \<or> list_ex (\<lambda>r. code \<ge> range_start r \<and> code \<le> range_end r) f)"

definition filter_serialize :: "exit_code_filter \<Rightarrow> exit_code_entry list" where
  "filter_serialize f = map (\<lambda>r.
     if range_start r = range_end r then SingleEntry (range_start r)
     else RangeEntry (show_int (range_start r) @ '':'' @ show_int (range_end r))) f"

datatype filter_error =
    ExpectedRange string
  | BadStart string
  | BadEnd string
  | StartAfterEnd string int int

definition parse_range :: "string \<Rightarrow> (filter_error, exit_code_range) result" where
  "parse_range s = (case split_once (CHR '':'') s of
      None \<Rightarrow> Err (ExpectedRange s)
    | Some (a, b) \<Rightarrow>
        (case parse_signed 32 (trim a) of
           None \<Rightarrow> Err (BadStart s)
         | Some st \<Rightarrow>
             (case parse_signed 32 (trim b) of
                None \<Rightarrow> Err (BadEnd s)
              | Some en \<Rightarrow>
                  if st > en then Err (StartAfterEnd s st en)
                  else Ok \<lparr>range_start = st, range_end = en\<rparr>)))"

definition filter_deserialize :: "exit_code_entry list \<Rightarrow> (filter_error, exit_code_filter) result" where
  "filter_deserialize entries = try_fold (\<lambda>ranges entry. case entry of
      SingleEntry n \<Rightarrow> Ok (ranges @ [\<lparr>range_start = n, range_end = n\<rparr>])
    | RangeEntry s \<Rightarrow> bind_res (parse_range s) (\<lambda>r. Ok (ranges @ [r]))) [] entries"

record dependency_config =
  dc_condition :: dependency_condition
  dc_timeout :: "duration option"
  dc_restart :: bool
  dc_exit_code :: exit_code_filter
  dc_allow_skipped :: bool

definition dependency_config_default :: dependency_config where
  "dependency_config_default = \<lparr>dc_condition = ServiceStarted, dc_timeout = None, dc_restart = False,
     dc_exit_code = [], dc_allow_skipped = False\<rparr>"

datatype dependency_entry =
    DepSimple string
  | DepExtended "(string, dependency_config) hmap"

datatype depends_on_format =
    ListFormat "dependency_entry list"
  | MapFormat "(string, dependency_config) hmap"

type_synonym depends_on = "dependency_entry list"

definition depends_on_deserialize :: "depends_on_format \<Rightarrow> depends_on" where
  "depends_on_deserialize f = (case f of
      ListFormat entries \<Rightarrow> entries
    | MapFormat m \<Rightarrow> [DepExtended m])"

definition names :: "depends_on \<Rightarrow> string list" where
  "names d = concat (map (\<lambda>e. case e of DepSimple n \<Rightarrow> [n] | DepExtended m \<Rightarrow> hm_keys m) d)"

fun dep_get :: "depends_on \<Rightarrow> string \<Rightarrow> dependency_config option" where
  "dep_get [] name = None"
| "dep_get (DepSimple n # d) name =
     (if n = name then Some dependency_config_default else dep_get d name)"
| "dep_get (DepExtended m # d) name =
     (case hm_get m name of Some c \<Rightarrow> Some c | None \<Rightarrow> dep_get d name)"

definition dep_iter :: "depends_on \<Rightarrow> (string \<times> dependency_config) list" where
  "dep_iter d = concat (map (\<lambda>e. case e of
      DepSimple n \<Rightarrow> [(n, dependency_config_default)] | DepExtended m \<Rightarrow> m) d)"

definition should_restart_on_dependency :: "depends_on \<Rightarrow> string \<Rightarrow> bool" where
  "should_restart_on_dependency d name =
     (case dep_get d name of Some c \<Rightarrow> dc_restart c | None \<Rightarrow> False)"

definition dependencies_with_restart :: "depends_on \<Rightarrow> string list" where
  "dependencies_with_restart d = map fst (filter (\<lambda>(_, c). dc_restart c) (dep_iter d))"

definition depends_on_of_names :: "string list \<Rightarrow> depends_on" where
  "depends_on_of_names ns = map DepSimple ns"

subsection \<open>Lookups\<close>

lemma names_iter: "names d = map fst (dep_iter d)"
proof -
  have "(case e of DepSimple n \<Rightarrow> [n] | DepExtended m \<Rightarrow> hm_keys m) =
      map fst (case e of DepSimple n \<Rightarrow> [(n, dependency_config_default)] | DepExtended m \<Rightarrow> m)" for e
    by (cases e) (simp_all add: hm_keys_def)
  then show ?thesis by (simp add: names_def dep_iter_def map_concat comp_def)
qed

lemma dep_get_iter: "dep_get d name = map_of (dep_iter d) name"
  by (induction d name rule: dep_get.induct)
    (auto simp: dep_iter_def hm_get_def map_add_def split: option.splits)

lemma dep_get_None_iff: "dep_get d name = None \<longleftrightarrow> name \<notin> set (names d)"
  by (simp add: dep_get_iter names_iter map_of_eq_None_iff)

subsection \<open>Exit code filters\<close>

definition i32 :: "int \<Rightarrow> bool" where
  "i32 i = (- (2 ^ 31) \<le> i \<and> i < 2 ^ 31)"

definition range_ok :: "exit_code_range \<Rightarrow> bool" where
  "range_ok r = (i32 (range_start r) \<and> i32 (range_end r) \<and> range_start r \<le> range_end r)"

lemma show_int_no_colon: "CHR '':'' \<notin> set (show_int i)"
  using show_nat_no_char [of "CHR '':''"] by (auto simp: show_int_def is_ascii_digit_def)

lemma show_nat_last_printable: "printable (last (show_nat n))"
  using show_nat_digits [of n] digit_printable by (auto simp: list_all_iff)

lemma trim_show_int: "trim (show_int i) = show_int i"
proof -
  have "printable (CHR ''-'')" by (simp add: printable_def)
  then show ?thesis
    by (intro trim_printable) (simp_all add: show_int_def show_nat_hd_printable show_nat_last_printable)
qed

lemma parse_range_show:
  assumes "range_ok r"
  shows "parse_range (show_int (range_start r) @ '':'' @ show_int (range_end r)) = Ok r"
  using assms
  by (simp add: parse_range_def split_once_append show_int_no_colon trim_show_int
      parse_show_signed range_ok_def i32_def)

lemma filter_deserialize_fold:
  assumes "list_all range_ok f"
  shows "try_fold (\<lambda>ranges entry. case entry of
      SingleEntry n \<Rightarrow> Ok (ranges @ [\<lparr>range_start = n, range_end = n\<rparr>])
    | RangeEntry s \<Rightarrow> bind_res (parse_range s) (\<lambda>r. Ok (ranges @ [r]))) acc (filter_serialize f) = Ok (acc @ f)"
  using assms
proof (induction f arbitrary: acc)
  case (Cons r f)
  have "r = \<lparr>range_start = range_start r, range_end = range_end r\<rparr>" by simp
  then show ?case
    using Cons parse_range_show [of r] by (auto simp: filter_serialize_def)
qed (simp add: filter_serialize_def)

lemma parse_range_ok:
  assumes "parse_range s = Ok r"
  shows "range_ok r"
proof -
  have "parse_signed 32 x = Some i \<Longrightarrow> i32 i" for x i
    by (auto simp: parse_signed_def i32_def Let_def split: if_splits)
  with assms show ?thesis
    by (auto simp: parse_range_def range_ok_def split: option.splits if_splits)
qed

lemma filter_deserialize_ok:
  assumes "filter_deserialize entries = Ok f" and "\<And>n. SingleEntry n \<in> set entries \<Longrightarrow> i32 n"
  shows "list_all range_ok f"
  using assms(1) unfolding filter_deserialize_def
proof (rule try_fold_inv)
  fix s x s'
  assume "x \<in> set entries" "list_all range_ok s"
    and "(case x of SingleEntry n \<Rightarrow> Ok (s @ [\<lparr>range_start = n, range_end = n\<rparr>])
      | RangeEntry t \<Rightarrow> bind_res (parse_range t) (\<lambda>r. Ok (s @ [r]))) = Ok s'"
  then show "list_all range_ok s'"
    using assms(2) by (cases x rule: exit_code_entry.exhaust) (auto simp: bind_res_Ok_iff range_ok_def dest!: parse_range_ok)
qed simp

text \<open>
  Every exit code filter that can be read from a file (with 32-bit integers) is written in a
  form that is read as the same filter.
\<close>

lemma exit_code_filter_roundtrip:
  assumes "filter_deserialize entries = Ok f" and "\<And>n. SingleEntry n \<in> set entries \<Longrightarrow> i32 n"
  shows "filter_deserialize (filter_serialize f) = Ok f"
  using filter_deserialize_fold [OF filter_deserialize_ok [OF assms], of "[]"]
  by (simp add: filter_deserialize_def)

lemma exit_code_filter_roundtrip_example:
  "filter_deserialize (filter_serialize [\<lparr>range_start = 1, range_end = 1\<rparr>, \<lparr>range_start = -5, range_end = 7\<rparr>]) =
   Ok [\<lparr>range_start = 1, range_end = 1\<rparr>, \<lparr>range_start = -5, range_end = 7\<rparr>]"
proof (rule exit_code_filter_roundtrip [of "[SingleEntry 1, RangeEntry '' -5 : 7'']"])
  show "filter_deserialize [SingleEntry 1, RangeEntry '' -5 : 7''] =
      Ok [\<lparr>range_start = 1, range_end = 1\<rparr>, \<lparr>range_start = -5, range_end = 7\<rparr>]"
    by code_simp
qed (simp add: i32_def)

end
