(* ===== verification/Service_Config.thy ===== *)
theory Service_Config
  imports Restart Dep_Config
begin

text \<open>
  The configuration of a service and of the daemon as it is after reading the file
  (\<^verbatim>\<open>config/mod.rs\<close>, \<^verbatim>\<open>config/logs.rs\<close>, \<^verbatim>\<open>config/health.rs\<close>, \<^verbatim>\<open>config/resources.rs\<close>), with
  the accessors and the resolution of defaults. A path is a string. The \<^verbatim>\<open>hooks\<close> of a service, which no
  definition here reads, are left out of its record.
\<close>

subsection \<open>Logs\<close>

datatype log_retention = Clear | Retain

datatype log_store_config =
    StoreSimple bool
  | StoreExtended bool bool

definition log_store_default :: log_store_config where
  "log_store_default = StoreSimple True"

fun store_stdout :: "log_store_config \<Rightarrow> bool" where
  "store_stdout (StoreSimple v) = v"
| "store_stdout (StoreExtended out err) = out"

fun store_stderr :: "log_store_config \<Rightarrow> bool" where
  "store_stderr (StoreSimple v) = v"
| "store_stderr (StoreExtended out err) = err"

record log_retention_config =
  lr_on_stop :: "log_retention option"
  lr_on_start :: "log_retention option"
  lr_on_restart :: "log_retention option"
  lr_on_exit :: "log_retention option"
  lr_on_success :: "log_retention option"
  lr_on_failure :: "log_retention option"
  lr_on_skipped :: "log_retention option"

datatype retention_error = ExitAndSuccess | ExitAndFailure

definition retention_validate :: "log_retention_config \<Rightarrow> (retention_error, unit) result" where
  "retention_validate r =
     (if lr_on_exit r \<noteq> None \<and> lr_on_success r \<noteq> None then Err ExitAndSuccess
      else if lr_on_exit r \<noteq> None \<and> lr_on_failure r \<noteq> None then Err ExitAndFailure
      else Ok ())"

record log_config =
  log_store :: "log_store_config option"
  log_retention_cfg :: "log_retention_config option"
  log_flush :: "string option config_value"
  log_period :: "string option config_value"
  log_batch :: "nat option config_value"
  log_cleanup :: "string option config_value"

text \<open>\<^verbatim>\<open>a.or(b)\<close> on options.\<close>

definition opt_or :: "'a option \<Rightarrow> 'a option \<Rightarrow> 'a option" where
  "opt_or a b = (case a of Some x \<Rightarrow> Some x | None \<Rightarrow> b)"

definition retention_field :: "(log_retention_config \<Rightarrow> log_retention option) \<Rightarrow> log_config \<Rightarrow> log_retention option" where
  "retention_field f l = Option.bind (log_retention_cfg l) f"

definition get_on_stop :: "log_config \<Rightarrow> log_retention option" where
  "get_on_stop = retention_field lr_on_stop"

definition get_on_start :: "log_config \<Rightarrow> log_retention option" where
  "get_on_start = retention_field lr_on_start"

definition get_on_restart :: "log_config \<Rightarrow> log_retention option" where
  "get_on_restart = retention_field lr_on_restart"

definition get_on_exit :: "log_config \<Rightarrow> log_retention option" where
  "get_on_exit = retention_field lr_on_exit"

definition get_on_success :: "log_config \<Rightarrow> log_retention option" where
  "get_on_success = retention_field (\<lambda>r. opt_or (lr_on_success r) (lr_on_exit r))"

definition get_on_failure :: "log_config \<Rightarrow> log_retention option" where
  "get_on_failure = retention_field (\<lambda>r. opt_or (lr_on_failure r) (lr_on_exit r))"

definition get_on_skipped :: "log_config \<Rightarrow> log_retention option" where
  "get_on_skipped = retention_field lr_on_skipped"

definition static_opt_duration :: "string option config_value \<Rightarrow> duration option" where
  "static_opt_duration v = Option.bind (Option.bind (as_static v) (\<lambda>x. x)) (\<lambda>s. res_ok (parse_duration s))"

definition flush_interval :: "log_config \<Rightarrow> duration option" where
  "flush_interval l = static_opt_duration (log_flush l)"

definition retention_period :: "log_config \<Rightarrow> duration option" where
  "retention_period l = static_opt_duration (log_period l)"

definition batch_size :: "log_config \<Rightarrow> nat option" where
  "batch_size l = Option.bind (as_static (log_batch l)) (\<lambda>x. x)"

definition cleanup_interval :: "log_config \<Rightarrow> duration option" where
  "cleanup_interval l = static_opt_duration (log_cleanup l)"

definition resolve_log_retention ::
    "log_config option \<Rightarrow> log_config option \<Rightarrow> (log_config \<Rightarrow> log_retention option) \<Rightarrow> log_retention \<Rightarrow> log_retention" where
  "resolve_log_retention service_logs global_logs get_field def =
     (case opt_or (Option.bind service_logs get_field) (Option.bind global_logs get_field) of
        Some r \<Rightarrow> r | None \<Rightarrow> def)"

definition resolve_log_store :: "log_config option \<Rightarrow> log_config option \<Rightarrow> bool \<times> bool" where
  "resolve_log_store service_logs global_logs =
     (case opt_or (Option.bind service_logs log_store) (Option.bind global_logs log_store) of
        Some c \<Rightarrow> (store_stdout c, store_stderr c)
      | None \<Rightarrow> (True, True))"

subsection \<open>Services\<close>

record health_check =
  hc_command :: "string config_value list config_value"
  hc_run :: "string option config_value"
  hc_interval :: duration
  hc_timeout :: duration
  hc_retries :: "32 word"
  hc_start_period :: duration
  hc_user :: "string option config_value"
  hc_groups :: "string config_value list config_value"
  hc_user_identity :: "bool option"
  hc_no_new_privileges :: "bool option"

definition command_present :: "string config_value list config_value \<Rightarrow> bool" where
  "command_present c = (case c of Static v \<Rightarrow> v \<noteq> [] | Dynamic _ \<Rightarrow> True)"

definition run_present :: "string option config_value \<Rightarrow> bool" where
  "run_present r = (case r of Static v \<Rightarrow> v \<noteq> None | Dynamic _ \<Rightarrow> True)"

definition hc_has_command :: "health_check \<Rightarrow> bool" where
  "hc_has_command h = command_present (hc_command h)"

definition hc_has_run :: "health_check \<Rightarrow> bool" where
  "hc_has_run h = run_present (hc_run h)"

record resource_limits =
  rl_memory :: "string option"
  rl_cpu_time :: "nat option"
  rl_max_fds :: "nat option"

record acl_rule =
  rule_allow :: "string list"
  rule_authorize :: "string option"

record acl_config =
  acl_lua_code :: "string option"
  acl_aliases :: "(string, string list) hmap"
  acl_users :: "(string, acl_rule) hmap"
  acl_groups :: "(string, acl_rule) hmap"

record service_permissions =
  perm_allow :: "string list"
  perm_hardening :: "string option"
  perm_authorize :: "string option"

datatype permissions_helper =
    PermList "string list"
  | PermObject "string list" "string option" "string option"

fun permissions_deserialize :: "permissions_helper \<Rightarrow> service_permissions" where
  "permissions_deserialize (PermList a) = \<lparr>perm_allow = a, perm_hardening = None, perm_authorize = None\<rparr>"
| "permissions_deserialize (PermObject a h z) = \<lparr>perm_allow = a, perm_hardening = h, perm_authorize = z\<rparr>"

record raw_service_config =
  rs_condition :: "bool option config_value"
  rs_command :: "string config_value list config_value"
  rs_run :: "string option config_value"
  rs_working_dir :: "string option config_value"
  rs_environment :: "string config_value list config_value"
  rs_env_file :: "string option config_value"
  rs_inherit_env :: "bool option"
  rs_restart :: "restart_config config_value"
  rs_depends_on :: depends_on
  rs_healthcheck :: "health_check option config_value"
  rs_logs :: "log_config option config_value"
  rs_user :: "string option config_value"
  rs_groups :: "string config_value list config_value"
  rs_limits :: "resource_limits option config_value"
  rs_output :: "bool option config_value"
  rs_outputs :: "(string, string config_value) hmap option config_value"
  rs_user_identity :: "bool option"
  rs_no_new_privileges :: "bool option"
  rs_permissions :: "service_permissions option"

definition raw_service_config_default :: raw_service_config where
  "raw_service_config_default = \<lparr>rs_condition = Static None, rs_command = Static [], rs_run = Static None,
     rs_working_dir = Static None, rs_environment = Static [], rs_env_file = Static None,
     rs_inherit_env = None, rs_restart = Static restart_config_default, rs_depends_on = [],
     rs_healthcheck = Static None, rs_logs = Static None, rs_user = Static None, rs_groups = Static [],
     rs_limits = Static None, rs_output = Static None, rs_outputs = Static None,
     rs_user_identity = None, rs_no_new_privileges = None, rs_permissions = None\<rparr>"

definition has_healthcheck :: "raw_service_config \<Rightarrow> bool" where
  "has_healthcheck r = (case rs_healthcheck r of Static h \<Rightarrow> h \<noteq> None | Dynamic _ \<Rightarrow> True)"

definition has_command :: "raw_service_config \<Rightarrow> bool" where
  "has_command r = command_present (rs_command r)"

definition has_run :: "raw_service_config \<Rightarrow> bool" where
  "has_run r = run_present (rs_run r)"

text \<open>\<^verbatim>\<open>raw.restart.as_static().cloned().unwrap_or_default()\<close>\<close>

definition static_restart :: "raw_service_config \<Rightarrow> restart_config" where
  "static_restart r = (case as_static (rs_restart r) of Some c \<Rightarrow> c | None \<Rightarrow> restart_config_default)"

type_synonym services = "(string, raw_service_config) hmap"

datatype autostart_config =
    AutostartDisabled
  | AutostartEnabled
  | AutostartWithEnvironment "string config_value list config_value"

definition autostart_is_enabled :: "autostart_config \<Rightarrow> bool" where
  "autostart_is_enabled a = (a \<noteq> AutostartDisabled)"

fun autostart_env :: "autostart_config \<Rightarrow> string config_value list config_value option" where
  "autostart_env (AutostartWithEnvironment e) = Some e"
| "autostart_env _ = None"

record monitor_config =
  mon_interval :: duration
  mon_retention_period :: "duration option"
  mon_cleanup_interval :: "duration option"

datatype storage_mode = Local | Nfs

record kepler_global_config =
  kg_default_inherit_env :: "bool option"
  kg_storage :: storage_mode
  kg_logs :: "log_config option"
  kg_timeout :: "duration option"
  kg_output_max_size :: "string option"
  kg_autostart :: autostart_config
  kg_acl :: "acl_config option"
  kg_monitor :: "monitor_config option"

record kepler_config =
  kc_version :: "string option"
  kc_lua :: "string option"
  kc_kepler :: "kepler_global_config option"
  kc_services :: services

definition resolve_default_user :: "kepler_config \<Rightarrow> nat \<Rightarrow> nat \<Rightarrow> kepler_config" where
  "resolve_default_user c uid gid =
     (if uid = 0 then c
      else let user_str = show_nat uid @ '':'' @ show_nat gid in
        c\<lparr>kc_services := map (\<lambda>(n, raw). (n,
            if rs_user raw = Static None then raw\<lparr>rs_user := Static (Some user_str)\<rparr> else raw))
          (kc_services c)\<rparr>)"

definition global_logs :: "kepler_config \<Rightarrow> log_config option" where
  "global_logs c = Option.bind (kc_kepler c) kg_logs"

definition kc_storage_mode :: "kepler_config \<Rightarrow> storage_mode" where
  "kc_storage_mode c = (case kc_kepler c of Some k \<Rightarrow> kg_storage k | None \<Rightarrow> Local)"

definition unwrap_or :: "'a option \<Rightarrow> 'a \<Rightarrow> 'a" where
  "unwrap_or x d = (case x of Some y \<Rightarrow> y | None \<Rightarrow> d)"

definition log_flush_interval :: "kepler_config \<Rightarrow> duration" where
  "log_flush_interval c = unwrap_or (Option.bind (global_logs c) flush_interval) (from_millis 100)"

definition log_retention_period :: "kepler_config \<Rightarrow> duration option" where
  "log_retention_period c = Option.bind (global_logs c) retention_period"

definition log_batch_size :: "kepler_config \<Rightarrow> nat" where
  "log_batch_size c = unwrap_or (Option.bind (global_logs c) batch_size) 4096"

definition log_cleanup_interval :: "kepler_config \<Rightarrow> duration" where
  "log_cleanup_interval c = unwrap_or (Option.bind (global_logs c) cleanup_interval) (from_millis 60000)"

definition global_default_inherit_env :: "kepler_config \<Rightarrow> bool option" where
  "global_default_inherit_env c = Option.bind (kc_kepler c) kg_default_inherit_env"

definition global_autostart :: "kepler_config \<Rightarrow> bool" where
  "global_autostart c = (case kc_kepler c of Some k \<Rightarrow> autostart_is_enabled (kg_autostart k) | None \<Rightarrow> False)"

definition global_monitor :: "kepler_config \<Rightarrow> monitor_config option" where
  "global_monitor c = Option.bind (kc_kepler c) kg_monitor"

definition autostart_environment :: "kepler_config \<Rightarrow> string config_value list config_value option" where
  "autostart_environment c = Option.bind (kc_kepler c) (\<lambda>k. autostart_env (kg_autostart k))"

definition is_kepler_env_denied :: "kepler_config \<Rightarrow> bool" where
  "is_kepler_env_denied c = (global_autostart c \<and> autostart_environment c = None)"

definition output_max_size :: "kepler_config \<Rightarrow> nat" where
  "output_max_size c = unwrap_or
     (Option.bind (Option.bind (kc_kepler c) kg_output_max_size) (\<lambda>s. res_ok (parse_memory_limit s)))
     (1024 * 1024)"

subsection \<open>Facts\<close>

text \<open>A retention setting that passes validation means the same for success and failure when it is
  given by \<^verbatim>\<open>on_exit\<close>.\<close>

lemma on_exit_covers_both:
  assumes "log_retention_cfg l = Some r" "retention_validate r = Ok ()" "lr_on_exit r = Some x"
  shows "get_on_success l = Some x" "get_on_failure l = Some x"
  using assms
  by (auto simp: retention_validate_def get_on_success_def get_on_failure_def retention_field_def
      opt_or_def split: if_splits)

text \<open>Baking in the default user never overrides a user that is set and changes no other field.\<close>

lemma resolve_default_user_get:
  "hm_get (kc_services (resolve_default_user c uid gid)) n =
     map_option (\<lambda>raw. if uid \<noteq> 0 \<and> rs_user raw = Static None
        then raw\<lparr>rs_user := Static (Some (show_nat uid @ '':'' @ show_nat gid))\<rparr> else raw)
       (hm_get (kc_services c) n)"
  by (cases "uid = 0") (simp_all add: resolve_default_user_def hm_get_def Let_def map_of_map option.map_ident cong: if_cong)

end
