(* ===== verification/Service_State.thy ===== *)
theory Service_State
  imports Kepler_Prelude
begin

text \<open>
  The state of one service and its persisted form (\<^verbatim>\<open>state.rs\<close>). A point in time is a number of
  nanoseconds since the epoch; \<open>from_timestamp\<close>, the constructor of the time library from whole
  seconds, is an argument. Counters of type \<^verbatim>\<open>u32\<close> are 32-bit words.
\<close>

datatype service_status =
    Stopped | Waiting | Starting | Running | Stopping | Restarting
  | Failed | Healthy | Unhealthy | Exited | Killed | Skipped

fun status_as_str :: "service_status \<Rightarrow> string" where
  "status_as_str Stopped = ''stopped''"
| "status_as_str Waiting = ''waiting''"
| "status_as_str Starting = ''starting''"
| "status_as_str Running = ''running''"
| "status_as_str Stopping = ''stopping''"
| "status_as_str Restarting = ''restarting''"
| "status_as_str Failed = ''failed''"
| "status_as_str Healthy = ''healthy''"
| "status_as_str Unhealthy = ''unhealthy''"
| "status_as_str Exited = ''exited''"
| "status_as_str Killed = ''killed''"
| "status_as_str Skipped = ''skipped''"

definition is_running :: "service_status \<Rightarrow> bool" where
  "is_running s = (s = Running \<or> s = Healthy \<or> s = Unhealthy)"

definition is_active :: "service_status \<Rightarrow> bool" where
  "is_active s = (\<not> (s = Stopped \<or> s = Failed \<or> s = Exited \<or> s = Killed \<or> s = Skipped))"

type_synonym env_map = "string \<rightharpoonup> string"
type_synonym datetime = int

record service_state =
  ss_status :: service_status
  ss_pid :: "nat option"
  ss_started_at :: "datetime option"
  ss_stopped_at :: "datetime option"
  ss_exit_code :: "int option"
  ss_signal :: "int option"
  ss_health_check_failures :: "32 word"
  ss_restart_count :: "32 word"
  ss_restart_count_since_healthy :: "32 word"
  ss_initialized :: bool
  ss_computed_env :: env_map
  ss_working_dir :: string
  ss_env_file_vars :: env_map
  ss_was_healthy :: bool
  ss_skip_reason :: "string option"
  ss_fail_reason :: "string option"

definition service_state_default :: service_state where
  "service_state_default = \<lparr>ss_status = Stopped, ss_pid = None, ss_started_at = None, ss_stopped_at = None,
     ss_exit_code = None, ss_signal = None, ss_health_check_failures = 0, ss_restart_count = 0,
     ss_restart_count_since_healthy = 0, ss_initialized = False, ss_computed_env = Map.empty,
     ss_working_dir = [], ss_env_file_vars = Map.empty, ss_was_healthy = False,
     ss_skip_reason = None, ss_fail_reason = None\<rparr>"

definition timestamp :: "datetime \<Rightarrow> int" where
  "timestamp t = t div 1000000000"

record service_info =
  si_status :: string
  si_pid :: "nat option"
  si_started_at :: "int option"
  si_stopped_at :: "int option"
  si_health_check_failures :: "32 word"
  si_restart_count :: "32 word"
  si_exit_code :: "int option"
  si_signal :: "int option"
  si_initialized :: bool
  si_skip_reason :: "string option"
  si_fail_reason :: "string option"

definition to_service_info :: "service_state \<Rightarrow> service_info" where
  "to_service_info s = \<lparr>si_status = status_as_str (ss_status s), si_pid = ss_pid s,
     si_started_at = map_option timestamp (ss_started_at s),
     si_stopped_at = map_option timestamp (ss_stopped_at s),
     si_health_check_failures = ss_health_check_failures s, si_restart_count = ss_restart_count s,
     si_exit_code = ss_exit_code s, si_signal = ss_signal s, si_initialized = ss_initialized s,
     si_skip_reason = ss_skip_reason s, si_fail_reason = ss_fail_reason s\<rparr>"

datatype persisted_service_status =
    PStopped | PWaiting | PStarting | PRunning | PStopping | PRestarting
  | PFailed | PHealthy | PUnhealthy | PExited | PKilled | PSkipped

fun persist_status :: "service_status \<Rightarrow> persisted_service_status" where
  "persist_status Stopped = PStopped"
| "persist_status Waiting = PWaiting"
| "persist_status Starting = PStarting"
| "persist_status Running = PRunning"
| "persist_status Stopping = PStopping"
| "persist_status Restarting = PRestarting"
| "persist_status Failed = PFailed"
| "persist_status Healthy = PHealthy"
| "persist_status Unhealthy = PUnhealthy"
| "persist_status Exited = PExited"
| "persist_status Killed = PKilled"
| "persist_status Skipped = PSkipped"

fun restore_status :: "persisted_service_status \<Rightarrow> service_status" where
  "restore_status PStopped = Stopped"
| "restore_status PWaiting = Waiting"
| "restore_status PStarting = Starting"
| "restore_status PRunning = Running"
| "restore_status PStopping = Stopping"
| "restore_status PRestarting = Restarting"
| "restore_status PFailed = Failed"
| "restore_status PHealthy = Healthy"
| "restore_status PUnhealthy = Unhealthy"
| "restore_status PExited = Exited"
| "restore_status PKilled = Killed"
| "restore_status PSkipped = Skipped"

record persisted_service_state =
  ps_status :: persisted_service_status
  ps_pid :: "nat option"
  ps_started_at :: "int option"
  ps_stopped_at :: "int option"
  ps_exit_code :: "int option"
  ps_signal :: "int option"
  ps_health_check_failures :: "32 word"
  ps_restart_count :: "32 word"
  ps_restart_count_since_healthy :: "32 word"
  ps_initialized :: bool
  ps_was_healthy :: bool
  ps_skip_reason :: "string option"
  ps_fail_reason :: "string option"

definition persist_state :: "service_state \<Rightarrow> persisted_service_state" where
  "persist_state s = \<lparr>ps_status = persist_status (ss_status s), ps_pid = ss_pid s,
     ps_started_at = map_option timestamp (ss_started_at s),
     ps_stopped_at = map_option timestamp (ss_stopped_at s),
     ps_exit_code = ss_exit_code s, ps_signal = ss_signal s,
     ps_health_check_failures = ss_health_check_failures s,
     ps_restart_count = ss_restart_count s,
     ps_restart_count_since_healthy = ss_restart_count_since_healthy s,
     ps_initialized = ss_initialized s, ps_was_healthy = ss_was_healthy s,
     ps_skip_reason = ss_skip_reason s, ps_fail_reason = ss_fail_reason s\<rparr>"

definition to_service_state ::
    "(int \<Rightarrow> datetime option) \<Rightarrow> persisted_service_state \<Rightarrow> env_map \<Rightarrow> string \<Rightarrow> service_state" where
  "to_service_state from_timestamp p computed_env working_dir =
     \<lparr>ss_status = restore_status (ps_status p), ss_pid = ps_pid p,
      ss_started_at = Option.bind (ps_started_at p) from_timestamp,
      ss_stopped_at = Option.bind (ps_stopped_at p) from_timestamp,
      ss_exit_code = ps_exit_code p, ss_signal = ps_signal p,
      ss_health_check_failures = ps_health_check_failures p,
      ss_restart_count = 0, ss_restart_count_since_healthy = 0,
      ss_initialized = ps_initialized p, ss_computed_env = computed_env,
      ss_working_dir = working_dir, ss_env_file_vars = Map.empty,
      ss_was_healthy = ps_was_healthy p, ss_skip_reason = ps_skip_reason p,
      ss_fail_reason = ps_fail_reason p\<rparr>"

record persisted_config_state =
  pc_services :: "(string, persisted_service_state) hmap"
  pc_config_initialized :: bool
  pc_snapshot_time :: int
  pc_owner_uid :: "nat option"

subsection \<open>Facts\<close>

lemma restore_persist [simp]: "restore_status (persist_status s) = s"
  by (cases s) simp_all

lemma persist_restore [simp]: "persist_status (restore_status p) = p"
  by (cases p) simp_all

lemma running_active: "is_running s \<Longrightarrow> is_active s"
  by (auto simp: is_running_def is_active_def)

lemma status_as_str_inj: "status_as_str s = status_as_str t \<longleftrightarrow> s = t"
  by (cases s; cases t) simp_all

text \<open>A time cut to whole seconds, which is what the persisted form keeps of it.\<close>

definition whole_seconds :: "datetime \<Rightarrow> datetime" where
  "whole_seconds t = timestamp t * 1000000000"

text \<open>
  A state saved and restored with its environment and working directory is the same state except
  that times are cut to seconds, both restart counters are zero and the variables of the
  environment file are empty.
\<close>

lemma persist_state_roundtrip:
  assumes "\<And>t. t \<in> set_option (ss_started_at s) \<union> set_option (ss_stopped_at s) \<Longrightarrow>
    from_timestamp (timestamp t) = Some (timestamp t * 1000000000)"
  shows "to_service_state from_timestamp (persist_state s) (ss_computed_env s) (ss_working_dir s) =
    s\<lparr>ss_started_at := map_option whole_seconds (ss_started_at s),
      ss_stopped_at := map_option whole_seconds (ss_stopped_at s),
      ss_restart_count := 0, ss_restart_count_since_healthy := 0, ss_env_file_vars := Map.empty\<rparr>"
  using assms
  by (cases "ss_started_at s"; cases "ss_stopped_at s")
    (simp_all add: to_service_state_def persist_state_def whole_seconds_def)

lemma persist_state_roundtrip_example:
  "let s = service_state_default\<lparr>ss_status := Healthy, ss_pid := Some 7, ss_started_at := Some 5000000001\<rparr> in
   to_service_state (\<lambda>ts. Some (ts * 1000000000)) (persist_state s) (ss_computed_env s) (ss_working_dir s) =
   s\<lparr>ss_started_at := Some 5000000000\<rparr>"
proof -
  let ?s = "service_state_default\<lparr>ss_status := Healthy, ss_pid := Some 7, ss_started_at := Some 5000000001\<rparr>"
  show ?thesis
    using persist_state_roundtrip [of ?s "\<lambda>ts. Some (ts * 1000000000)"]
    by (simp add: service_state_default_def whole_seconds_def timestamp_def)
qed

end
