(* ===== verification/Deps.thy ===== *)
theory Deps
  imports Service_Config Service_State "HOL-Library.AList"
begin

text \<open>
  The dependency graph of the services (\<^verbatim>\<open>deps.rs\<close>): start and stop order by Kahn's algorithm, start
  levels by depth-first search, the services needed for one service, and the conditions on a
  dependency's state.

  The hash map of services is an association list in iteration order. \<open>pp\<close> is
  \<^verbatim>\<open>slice::partition_point\<close>, whose result is unspecified unless the slice is partitioned by the
  predicate: the theorems hold for every \<open>pp\<close>; \<open>std_partition_point\<close> is the binary search of the
  standard library.
\<close>

datatype deps_error =
    MissingDependency string string
  | DependencyCycle "string list"
  | ServiceNotFound string
  | InternalError string
  | DegreeUnderflow string

definition service_deps :: "services \<Rightarrow> string \<Rightarrow> string list" where
  "service_deps svs n = (case hm_get svs n of None \<Rightarrow> [] | Some raw \<Rightarrow> names (rs_depends_on raw))"

text \<open>The loop at the head of three functions: every dependency is a service.\<close>

definition check_deps_exist :: "services \<Rightarrow> (deps_error, unit) result" where
  "check_deps_exist svs = try_fold (\<lambda>_ (name, raw).
      try_fold (\<lambda>_ dep. if hm_contains svs dep then Ok () else Err (MissingDependency name dep))
        () (names (rs_depends_on raw))) () svs"

subsection \<open>Kahn's algorithm\<close>

type_synonym degrees = "(string \<times> nat) list"

text \<open>One edge: \<open>name\<close> depends on \<open>dep\<close>.\<close>

definition add_edge ::
    "string \<Rightarrow> degrees \<times> (string \<rightharpoonup> string list) \<Rightarrow> string \<Rightarrow>
     (deps_error, degrees \<times> (string \<rightharpoonup> string list)) result" where
  "add_edge name st dep = (case st of (in_degree, dependents) \<Rightarrow>
     (case map_of in_degree name of
        None \<Rightarrow> Err (InternalError name)
      | Some deg \<Rightarrow>
          (case dependents dep of
             None \<Rightarrow> Err (MissingDependency name dep)
           | Some ds \<Rightarrow> Ok (AList.update name (deg + 1) in_degree, dependents(dep \<mapsto> ds @ [name])))))"

definition build_graph :: "services \<Rightarrow> (deps_error, degrees \<times> (string \<rightharpoonup> string list)) result" where
  "build_graph svs = try_fold (\<lambda>st (name, raw). try_fold (add_edge name) st (names (rs_depends_on raw)))
     (map (\<lambda>n. (n, 0)) (hm_keys svs), map_of (map (\<lambda>n. (n, [])) (hm_keys svs))) svs"

definition insert_at :: "nat \<Rightarrow> 'a \<Rightarrow> 'a list \<Rightarrow> 'a list" where
  "insert_at pos x xs = take pos xs @ x # drop pos xs"

type_synonym partition_fn = "(string \<Rightarrow> bool) \<Rightarrow> string list \<Rightarrow> nat"

text \<open>The body of the inner loop; \<^verbatim>\<open>*deg -= 1\<close> of a zero would panic.\<close>

definition release_dependent ::
    "partition_fn \<Rightarrow> degrees \<times> string list \<Rightarrow> string \<Rightarrow> (deps_error, degrees \<times> string list) result" where
  "release_dependent pp st dep = (case st of (in_degree, queue) \<Rightarrow>
     (case map_of in_degree dep of
        None \<Rightarrow> Err (InternalError dep)
      | Some 0 \<Rightarrow> Err (DegreeUnderflow dep)
      | Some (Suc deg) \<Rightarrow>
          Ok (AList.update dep deg in_degree,
              if deg = 0 then insert_at (pp (\<lambda>x. x > dep) queue) dep queue else queue)))"

text \<open>The loop ends: a released dependent costs one degree and adds at most one queue entry.\<close>

definition kahn_measure :: "degrees \<times> string list \<Rightarrow> nat" where
  "kahn_measure st = 2 * sum_list (map snd (fst st)) + length (snd st)"

lemma sum_update_less:
  "map_of al k = Some (Suc d) \<Longrightarrow> Suc (sum_list (map snd (AList.update k d al))) = sum_list (map snd al)"
  by (induction al) (auto split: if_splits)

lemma length_insert_at [simp]: "length (insert_at pos x xs) = Suc (length xs)"
  by (simp add: insert_at_def)

lemma release_measure:
  assumes "release_dependent pp st dep = Ok st'"
  shows "kahn_measure st' \<le> kahn_measure st"
  using assms
  by (auto simp: release_dependent_def kahn_measure_def dest!: sum_update_less
      split: prod.splits option.splits nat.splits if_splits)

lemma release_all_measure:
  "try_fold (release_dependent pp) st ds = Ok st' \<Longrightarrow> kahn_measure st' \<le> kahn_measure st"
  by (rule try_fold_inv [where I = "\<lambda>s. kahn_measure s \<le> kahn_measure st"])
    (auto dest!: release_measure)

function kahn_loop ::
    "partition_fn \<Rightarrow> (string \<rightharpoonup> string list) \<Rightarrow> degrees \<Rightarrow> string list \<Rightarrow> string list \<Rightarrow>
     (deps_error, string list) result" where
  "kahn_loop pp dependents in_degree queue res =
     (if queue = [] then Ok res
      else
        let node = last queue;
            deps = (case dependents node of None \<Rightarrow> [] | Some ds \<Rightarrow> ds)
        in case try_fold (release_dependent pp) (in_degree, butlast queue) deps of
             Inl e \<Rightarrow> Err e
           | Inr (in_degree', queue') \<Rightarrow> kahn_loop pp dependents in_degree' queue' (res @ [node]))"
  by pat_completeness auto
termination
proof (relation "measure (\<lambda>(pp, ds, deg, q, r). kahn_measure (deg, q))", simp, goal_cases)
  case (1 pp dependents in_degree queue res node deps st in_degree' queue')
  then have "kahn_measure (in_degree', queue') \<le> kahn_measure (in_degree, butlast queue)"
    by (metis release_all_measure)
  also have "\<dots> < kahn_measure (in_degree, queue)"
    using 1(1) by (cases queue) (simp_all add: kahn_measure_def)
  finally show ?case by simp
qed

declare kahn_loop.simps [simp del]

definition topological_sort :: "partition_fn \<Rightarrow> services \<Rightarrow> (deps_error, string list) result" where
  "topological_sort pp svs =
     bind_res (check_deps_exist svs) (\<lambda>_.
     bind_res (build_graph svs) (\<lambda>(in_degree, dependents).
       let queue = sort (map fst (filter (\<lambda>(_, deg). deg = 0) in_degree)) in
       bind_res (kahn_loop pp dependents in_degree queue []) (\<lambda>res.
         if length res \<noteq> length svs
         then Err (DependencyCycle (filter (\<lambda>k. k \<notin> set res) (hm_keys svs)))
         else Ok res)))"

definition get_start_order :: "partition_fn \<Rightarrow> services \<Rightarrow> (deps_error, string list) result" where
  "get_start_order pp svs = topological_sort pp svs"

definition get_stop_order :: "partition_fn \<Rightarrow> services \<Rightarrow> (deps_error, string list) result" where
  "get_stop_order pp svs = bind_res (topological_sort pp svs) (\<lambda>order. Ok (rev order))"

definition detect_cycles :: "partition_fn \<Rightarrow> services \<Rightarrow> (deps_error, unit) result" where
  "detect_cycles pp svs = bind_res (check_deps_exist svs) (\<lambda>_.
     bind_res (topological_sort pp svs) (\<lambda>_. Ok ()))"

text \<open>The binary search behind \<^verbatim>\<open>partition_point\<close> in the standard library.\<close>

function pp_search :: "(string \<Rightarrow> bool) \<Rightarrow> string list \<Rightarrow> nat \<Rightarrow> nat \<Rightarrow> nat" where
  "pp_search pred xs base len =
     (if len > 1 then
        let half = len div 2; mid = base + half in
        pp_search pred xs (if pred (xs ! mid) then mid else base) (len - half)
      else base)"
  by pat_completeness auto
termination by (relation "measure (\<lambda>(p, xs, b, s). s)") auto

declare pp_search.simps [simp del]

definition std_partition_point :: partition_fn where
  "std_partition_point pred xs = (if xs = [] then 0
     else let base = pp_search pred xs 0 (length xs) in base + (if pred (xs ! base) then 1 else 0))"

subsection \<open>Start levels\<close>

text \<open>
  \<^verbatim>\<open>compute_level\<close>. The set \<^verbatim>\<open>stack\<close> is passed down: a call that succeeds removes what it
  inserted, and an error ends the whole computation. \<^verbatim>\<open>computed\<close> is only written and is left out.
\<close>

type_synonym levels = "(string \<times> nat) list"

function compute_level ::
    "services \<Rightarrow> string \<Rightarrow> levels \<Rightarrow> string list \<Rightarrow> (deps_error, nat \<times> levels) result"
  and compute_dep_levels ::
    "services \<Rightarrow> string list \<Rightarrow> nat \<Rightarrow> levels \<Rightarrow> string list \<Rightarrow> (deps_error, nat \<times> levels) result" where
  "compute_level svs name levels stack =
     (case map_of levels name of
        Some level \<Rightarrow> Ok (level, levels)
      | None \<Rightarrow>
          if name \<in> set stack then Err (DependencyCycle [name])
          else (case hm_get svs name of
             None \<Rightarrow> Err (ServiceNotFound name)
           | Some raw \<Rightarrow>
               (let dep_names = names (rs_depends_on raw) in
                if dep_names = [] then Ok (0, AList.update name 0 levels)
                else (case compute_dep_levels svs dep_names 0 levels (name # stack) of
                   Inl e \<Rightarrow> Err e
                 | Inr (max_dep_level, levels') \<Rightarrow>
                     Ok (max_dep_level + 1, AList.update name (max_dep_level + 1) levels')))))"
| "compute_dep_levels svs [] max_dep_level levels stack = Ok (max_dep_level, levels)"
| "compute_dep_levels svs (dep # deps) max_dep_level levels stack =
     (case compute_level svs dep levels stack of
        Inl e \<Rightarrow> Err e
      | Inr (dep_level, levels') \<Rightarrow>
          compute_dep_levels svs deps (max max_dep_level dep_level) levels' stack)"
  by pat_completeness auto
termination
proof (relation "inv_image (less_than <*lex*> less_than) (\<lambda>x. case x of
    Inl (svs, name, levels, stack) \<Rightarrow> (card (set (hm_keys svs) - set stack), 0)
  | Inr (svs, deps, m, levels, stack) \<Rightarrow> (card (set (hm_keys svs) - set stack), Suc (length deps)))", goal_cases)
  case (2 svs name levels stack raw dep_names)
  have "name \<in> set (hm_keys svs) - set stack"
    using 2 by (auto simp: hm_contains_def dest!: hm_get_Some_contains)
  then have "card (set (hm_keys svs) - set (name # stack)) < card (set (hm_keys svs) - set stack)"
    by (intro psubset_card_mono) auto
  then show ?case by simp
qed auto

declare compute_level.simps [simp del]

definition levels_of :: "services \<Rightarrow> (deps_error, levels) result" where
  "levels_of svs = try_fold (\<lambda>levels name. bind_res (compute_level svs name levels [])
     (\<lambda>(_, levels'). Ok levels')) [] (hm_keys svs)"

definition group_levels :: "levels \<Rightarrow> string list list" where
  "group_levels levels =
     (let max_level = foldr max (map snd levels) 0 in
      map (\<lambda>l. sort (map fst (filter (\<lambda>p. snd p = l) levels))) [0..<max_level + 1])"

definition get_start_levels :: "services \<Rightarrow> (deps_error, string list list) result" where
  "get_start_levels svs = bind_res (check_deps_exist svs) (\<lambda>_.
     bind_res (levels_of svs) (\<lambda>levels. Ok (group_levels levels)))"

subsection \<open>The services that one service needs\<close>

function (sequential) collect_deps :: "services \<Rightarrow> string \<Rightarrow> string list \<Rightarrow> (deps_error, string list) result"
  and collect_dep_list :: "services \<Rightarrow> string \<Rightarrow> string list \<Rightarrow> string list \<Rightarrow> (deps_error, string list) result" where
  "collect_deps svs service needed =
     (if service \<in> set needed then Ok needed
      else (case hm_get svs service of
         None \<Rightarrow> Ok (service # needed)
       | Some raw \<Rightarrow> collect_dep_list svs service (names (rs_depends_on raw)) (service # needed)))"
| "collect_dep_list svs service [] needed = Ok needed"
| "collect_dep_list svs service (dep # deps) needed =
     (if \<not> hm_contains svs dep then Err (MissingDependency service dep)
      else (case collect_deps svs dep needed of
         Inl e \<Rightarrow> Err e
       | Inr needed' \<Rightarrow> collect_dep_list svs service deps needed'))"
  by pat_completeness auto

termination
proof -
  have grows: "collect_deps_collect_dep_list_dom (Inl (svs, service, needed)) \<Longrightarrow>
      collect_deps svs service needed = Ok r \<Longrightarrow> set needed \<subseteq> set r"
    and "collect_deps_collect_dep_list_dom (Inr (svs, service, deps, needed)) \<Longrightarrow>
      collect_dep_list svs service deps needed = Ok r \<Longrightarrow> set needed \<subseteq> set r"
    for svs service deps needed r
  proof (induction svs service needed and svs service deps needed arbitrary: r and r
      rule: collect_deps_collect_dep_list.pinduct)
    case (1 svs service needed)
    then show ?case by (auto simp: collect_deps.psimps split: if_splits option.splits)
  next
    case (3 svs service dep deps needed)
    then show ?case
      by (auto simp: collect_dep_list.psimps split: if_splits sum.splits)
  qed (auto simp: collect_dep_list.psimps)
  show ?thesis
  proof (relation "inv_image (less_than <*lex*> less_than) (\<lambda>x. case x of
      Inl (svs, service, needed) \<Rightarrow> (card (set (hm_keys svs) - set needed), 0)
    | Inr (svs, service, deps, needed) \<Rightarrow> (card (set (hm_keys svs) - set needed), Suc (length deps)))", goal_cases)
    case (2 svs service needed raw)
    have "service \<in> set (hm_keys svs) - set needed"
      using 2 by (auto simp: hm_contains_def dest!: hm_get_Some_contains)
    then have "card (set (hm_keys svs) - set (service # needed)) < card (set (hm_keys svs) - set needed)"
      by (intro psubset_card_mono) auto
    then show ?case by simp
  next
    case (4 svs service dep deps needed needed')
    then have "set needed \<subseteq> set needed'" by (metis grows)
    then have "card (set (hm_keys svs) - set needed') \<le> card (set (hm_keys svs) - set needed)"
      by (intro card_mono) auto
    then show ?case by auto
  qed auto
qed

declare collect_deps.simps [simp del]

definition get_service_with_deps :: "partition_fn \<Rightarrow> string \<Rightarrow> services \<Rightarrow> (deps_error, string list) result" where
  "get_service_with_deps pp service svs =
     (if \<not> hm_contains svs service then Err (ServiceNotFound service)
      else bind_res (collect_deps svs service []) (\<lambda>needed.
        topological_sort pp (filter (\<lambda>(k, _). k \<in> set needed) svs)))"

subsection \<open>Conditions on a dependency\<close>

definition restart_follows :: "service_status \<Rightarrow> int option \<Rightarrow> restart_config \<Rightarrow> bool" where
  "restart_follows status exit_code cfg = (status \<noteq> Failed \<and> should_restart_on_exit cfg exit_code)"

definition is_transient_satisfaction :: "service_state \<Rightarrow> restart_config \<Rightarrow> bool" where
  "is_transient_satisfaction st cfg =
     ((ss_status st = Exited \<or> ss_status st = Killed) \<and>
      restart_follows (ss_status st) (ss_exit_code st) cfg)"

definition code_matches :: "dependency_config \<Rightarrow> service_state \<Rightarrow> bool" where
  "code_matches dc st = filter_matches (dc_exit_code dc) (case ss_exit_code st of Some c \<Rightarrow> c | None \<Rightarrow> -1)"

fun condition_holds :: "dependency_condition \<Rightarrow> dependency_config \<Rightarrow> service_state \<Rightarrow> bool" where
  "condition_holds ServiceStarted dc st =
     (ss_status st = Running \<or> ss_status st = Healthy \<or> ss_status st = Unhealthy)"
| "condition_holds ServiceHealthy dc st = (ss_status st = Healthy)"
| "condition_holds ServiceCompletedSuccessfully dc st =
     ((ss_status st = Stopped \<or> ss_status st = Exited) \<and> ss_exit_code st = Some 0)"
| "condition_holds ServiceUnhealthy dc st = (ss_status st = Unhealthy \<and> ss_was_healthy st)"
| "condition_holds ServiceFailed dc st =
     ((ss_status st = Failed \<or> ss_status st = Killed \<or>
       ss_status st = Exited \<and> ss_exit_code st \<noteq> Some 0) \<and> code_matches dc st)"
| "condition_holds ServiceStopped dc st =
     ((ss_status st = Stopped \<or> ss_status st = Exited \<or> ss_status st = Failed \<or> ss_status st = Killed) \<and>
      code_matches dc st)"

definition is_condition_met :: "service_state \<Rightarrow> dependency_config \<Rightarrow> restart_config option \<Rightarrow> bool" where
  "is_condition_met st dc dep_restart_config =
     (if ss_status st = Skipped \<and> dc_allow_skipped dc then True
      else if ss_status st = Skipped then False
      else if \<not> condition_holds (dc_condition dc) dc st then False
      else (case dep_restart_config of
          Some cfg \<Rightarrow> \<not> is_transient_satisfaction st cfg
        | None \<Rightarrow> True))"

text \<open>The state comes from the configuration actor; a service it does not know gives no state.\<close>

definition check_dependency_satisfied :: "dependency_config \<Rightarrow> service_state option \<Rightarrow> bool" where
  "check_dependency_satisfied dc st = (case st of None \<Rightarrow> False | Some s \<Rightarrow> is_condition_met s dc None)"

text \<open>The actor is asked twice, and the service may change in between: \<open>st\<close> is the first answer,
  \<open>st'\<close> the one that \<^verbatim>\<open>check_dependency_satisfied\<close> gets.\<close>

definition is_dependency_permanently_unsatisfied ::
    "dependency_config \<Rightarrow> service_state option \<Rightarrow> service_state option \<Rightarrow> restart_config \<Rightarrow> bool" where
  "is_dependency_permanently_unsatisfied dc st st' cfg = (case st of
      None \<Rightarrow> False
    | Some s \<Rightarrow>
        if ss_status s = Skipped then \<not> dc_allow_skipped dc
        else if \<not> (ss_status s = Stopped \<or> ss_status s = Exited \<or> ss_status s = Failed \<or> ss_status s = Killed)
        then False
        else if check_dependency_satisfied dc st' then False
        else ss_status s = Stopped \<or> \<not> restart_follows (ss_status s) (ss_exit_code s) cfg)"

text \<open>The reason is the condition that can never be met; the message names it and the service.\<close>

definition is_condition_unreachable_by_policy ::
    "string \<Rightarrow> dependency_condition \<Rightarrow> restart_policy \<Rightarrow> (string \<times> dependency_condition) option" where
  "is_condition_unreachable_by_policy dep_name c p =
     (let has_on_failure = policy_contains p ON_FAILURE;
          has_on_success = policy_contains p ON_SUCCESS
      in if c = ServiceFailed \<and> has_on_failure
           \<or> c = ServiceStopped \<and> has_on_failure \<and> has_on_success
           \<or> c = ServiceCompletedSuccessfully \<and> has_on_success
         then Some (dep_name, c) else None)"

definition is_failure_handled :: "string \<Rightarrow> services \<Rightarrow> bool" where
  "is_failure_handled failed_service svs = list_ex (\<lambda>(_, raw).
     list_ex (\<lambda>(dep_name, dc). dep_name = failed_service \<and>
       (dc_condition dc = ServiceFailed \<or> dc_condition dc = ServiceStopped)) (dep_iter (rs_depends_on raw))) svs"

end
