(* ===== verification/Deps_Order.thy ===== *)
theory Deps_Order
  imports Deps
begin

text \<open>
  Correctness of the graph functions of \<^verbatim>\<open>deps.rs\<close>: the start order is a permutation of the services
  with every dependency first, the start levels put every dependency on a lower level, both exist
  exactly when every dependency is a service and there is no cycle, and the services collected for
  one service are those it reaches.
\<close>

subsection \<open>What the graph functions compute\<close>

definition deps_closed :: "services \<Rightarrow> bool" where
  "deps_closed svs = list_all (\<lambda>n. list_all (hm_contains svs) (service_deps svs n)) (hm_keys svs)"

definition dep_rel :: "services \<Rightarrow> (string \<times> string) set" where
  "dep_rel svs = {(n, d). hm_contains svs n \<and> d \<in> set (service_deps svs n)}"

lemma service_deps_entry: "hm_wf svs \<Longrightarrow> (n, raw) \<in> set svs \<Longrightarrow> service_deps svs n = names (rs_depends_on raw)"
  by (simp add: service_deps_def hm_in_set_get)

lemma hm_keys_entry: "n \<in> set (hm_keys svs) \<longleftrightarrow> (\<exists>raw. (n, raw) \<in> set svs)"
  by (force simp: hm_keys_def)

definition entry_deps_ok :: "services \<Rightarrow> string \<times> raw_service_config \<Rightarrow> (deps_error, unit) result" where
  "entry_deps_ok svs = (\<lambda>(name, raw).
      try_fold (\<lambda>_ dep. if hm_contains svs dep then Ok () else Err (MissingDependency name dep))
        () (names (rs_depends_on raw)))"

lemma check_deps_exist_entries: "check_deps_exist svs = try_fold (\<lambda>_. entry_deps_ok svs) () svs"
  by (simp add: check_deps_exist_def entry_deps_ok_def)

lemma entry_deps_ok_iff:
  "entry_deps_ok svs (n, raw) = Ok () \<longleftrightarrow> list_all (hm_contains svs) (names (rs_depends_on raw))"
  unfolding entry_deps_ok_def prod.case
  by (subst try_fold_unit_Ok_iff) (auto simp: list_all_iff split: if_splits)

lemma check_deps_exist_iff:
  assumes "hm_wf svs"
  shows "check_deps_exist svs = Ok () \<longleftrightarrow> deps_closed svs"
proof -
  have "check_deps_exist svs = Ok () \<longleftrightarrow> (\<forall>x \<in> set svs. entry_deps_ok svs x = Ok ())"
    unfolding check_deps_exist_entries by (rule try_fold_unit_Ok_iff)
  also have "\<dots> \<longleftrightarrow> (\<forall>(n, raw) \<in> set svs. list_all (hm_contains svs) (service_deps svs n))"
    using assms by (auto simp: entry_deps_ok_iff service_deps_entry)
  also have "\<dots> \<longleftrightarrow> deps_closed svs"
    by (fastforce simp: deps_closed_def list_all_iff hm_keys_entry)
  finally show ?thesis .
qed

lemma check_deps_exist_cases:
  assumes "hm_wf svs"
  obtains "deps_closed svs" "check_deps_exist svs = Ok ()"
  | n d where "\<not> deps_closed svs" "check_deps_exist svs = Err (MissingDependency n d)"
      "hm_contains svs n" "d \<in> set (service_deps svs n)" "\<not> hm_contains svs d"
proof (cases "check_deps_exist svs")
  case (Inr u)
  then show ?thesis using that(1) check_deps_exist_iff [OF assms] by simp
next
  case (Inl e)
  then obtain n raw where x: "(n, raw) \<in> set svs" "entry_deps_ok svs (n, raw) = Err e"
    unfolding check_deps_exist_entries by (metis surj_pair try_fold_unit_Err)
  from x(2) obtain d where "d \<in> set (names (rs_depends_on raw))" "\<not> hm_contains svs d" "e = MissingDependency n d"
    unfolding entry_deps_ok_def prod.case
    by (auto dest!: try_fold_unit_Err split: if_splits)
  moreover have "hm_contains svs n" using x(1) by (auto simp: hm_contains_def hm_keys_entry)
  moreover have "\<not> deps_closed svs" using check_deps_exist_iff [OF assms] Inl by auto
  ultimately show ?thesis using that(2) [of n d] x(1) Inl assms by (simp add: service_deps_entry)
qed

subsubsection \<open>Building the graph\<close>

definition edges :: "services \<Rightarrow> (string \<times> string) list" where
  "edges svs = concat (map (\<lambda>(n, raw). map (Pair n) (names (rs_depends_on raw))) svs)"

lemma try_fold_concat_map:
  "try_fold f st (map g xs) = try_fold (\<lambda>st x. f st (g x)) st xs"
  by (induction xs arbitrary: st) (auto split: sum.splits)

lemma build_graph_edges:
  "try_fold (\<lambda>st (name, raw). try_fold (add_edge name) st (names (rs_depends_on raw))) st svs =
   try_fold (\<lambda>st (n, d). add_edge n st d) st (edges svs)"
proof (induction svs arbitrary: st)
  case (Cons p svs)
  obtain n raw where p: "p = (n, raw)" by fastforce
  have "edges (p # svs) = map (Pair n) (names (rs_depends_on raw)) @ edges svs"
    by (simp add: edges_def p)
  then show ?case
    using Cons.IH by (simp add: p try_fold_append try_fold_concat_map bind_res_def split: sum.splits)
qed (simp add: edges_def)

lemma add_edges_result:
  assumes "\<And>n. n \<in> S \<Longrightarrow> map_of deg n = Some (f n)" "\<And>d. d \<in> S \<Longrightarrow> dp d = Some (g d)"
    and "set es \<subseteq> S \<times> S"
  shows "\<exists>deg' dp'. try_fold (\<lambda>st (n, d). add_edge n st d) (deg, dp) es = Ok (deg', dp') \<and>
    (\<forall>n \<in> S. map_of deg' n = Some (f n + length (filter (\<lambda>e. fst e = n) es))) \<and>
    (\<forall>d \<in> S. dp' d = Some (g d @ map fst (filter (\<lambda>e. snd e = d) es))) \<and>
    map fst deg' = map fst deg"
  using assms
proof (induction es arbitrary: deg dp f g)
  case (Cons e es)
  obtain n d where e: "e = (n, d)" "n \<in> S" "d \<in> S" using Cons.prems(3) by (cases e) auto
  define deg1 where "deg1 = AList.update n (f n + 1) deg"
  define dp1 where "dp1 = dp(d \<mapsto> g d @ [n])"
  have step: "add_edge n (deg, dp) d = Ok (deg1, dp1)"
    using Cons.prems e by (simp add: add_edge_def deg1_def dp1_def)
  have "n \<in> fst ` set deg" using Cons.prems(1) [OF e(2)] by (metis fst_conv image_eqI map_of_SomeD)
  then have keys: "map fst deg1 = map fst deg"
    by (simp add: deg1_def AList.update_keys)
  have "\<exists>deg' dp'. try_fold (\<lambda>st (n, d). add_edge n st d) (deg1, dp1) es = Ok (deg', dp') \<and>
    (\<forall>m \<in> S. map_of deg' m = Some ((f(n := f n + 1)) m + length (filter (\<lambda>e. fst e = m) es))) \<and>
    (\<forall>c \<in> S. dp' c = Some ((g(d := g d @ [n])) c @ map fst (filter (\<lambda>e. snd e = c) es))) \<and>
    map fst deg' = map fst deg1"
    by (rule Cons.IH) (use Cons.prems in \<open>auto simp: deg1_def dp1_def update_conv\<close>)
  then show ?case using step keys by (auto simp: e(1))
qed simp

lemma edges_of: "hm_wf svs \<Longrightarrow> n \<in> set (hm_keys svs) \<Longrightarrow>
  filter (\<lambda>e. fst e = n) (edges svs) = map (Pair n) (service_deps svs n)"
proof (induction svs)
  case (Cons p svs)
  obtain m raw where p: "p = (m, raw)" by fastforce
  have other: "filter (\<lambda>e. fst e = n) (edges svs) = []" if "n \<notin> set (hm_keys svs)"
    using that by (force simp: edges_def filter_empty_conv hm_keys_def)
  have wf: "hm_wf svs" "m \<notin> set (hm_keys svs)" using Cons.prems(1) by (auto simp: p hm_wf_def hm_keys_def)
  have es: "edges (p # svs) = map (Pair m) (names (rs_depends_on raw)) @ edges svs"
    by (simp add: edges_def p)
  show ?case
  proof (cases "n = m")
    case True
    then show ?thesis using other wf es
      by (simp add: p service_deps_def hm_get_def comp_def)
  next
    case False
    then have "n \<in> set (hm_keys svs)" using Cons.prems(2) by (simp add: p hm_keys_def)
    moreover have "service_deps (p # svs) n = service_deps svs n" using False by (simp add: p service_deps_def hm_get_def)
    ultimately show ?thesis using Cons.IH wf False es by (simp add: comp_def)
  qed
qed (simp add: hm_keys_def)

lemma edges_in:
  assumes "hm_wf svs" "deps_closed svs"
  shows "set (edges svs) \<subseteq> set (hm_keys svs) \<times> set (hm_keys svs)"
proof
  fix e assume "e \<in> set (edges svs)"
  then obtain n raw d where e: "e = (n, d)" "(n, raw) \<in> set svs" "d \<in> set (names (rs_depends_on raw))"
    by (auto simp: edges_def)
  then have n: "n \<in> set (hm_keys svs)" by (auto simp: hm_keys_entry)
  moreover have "d \<in> set (service_deps svs n)" using e assms(1) by (simp add: service_deps_entry)
  ultimately show "e \<in> set (hm_keys svs) \<times> set (hm_keys svs)"
    using assms(2) e(1) by (auto simp: deps_closed_def list_all_iff hm_contains_def)
qed

text \<open>The graph: degrees count the dependencies, dependents invert them with multiplicity.\<close>

lemma build_graph_correct:
  assumes "hm_wf svs" "deps_closed svs"
  obtains deg dp where "build_graph svs = Ok (deg, dp)"
    and "map fst deg = hm_keys svs"
    and "\<And>n. n \<in> set (hm_keys svs) \<Longrightarrow> map_of deg n = Some (length (service_deps svs n))"
    and "\<And>d. d \<in> set (hm_keys svs) \<Longrightarrow> \<exists>ds. dp d = Some ds \<and> set ds \<subseteq> set (hm_keys svs) \<and>
           (\<forall>n \<in> set (hm_keys svs). count_list ds n = count_list (service_deps svs n) d)"
proof -
  let ?S = "set (hm_keys svs)"
  have deg0: "map_of (map (\<lambda>n. (n, 0)) (hm_keys svs)) n = Some 0" if "n \<in> ?S" for n
    using that by (simp add: map_of_map_restrict [where f = "\<lambda>_. 0"] )
  have dp0: "map_of (map (\<lambda>n. (n, [])) (hm_keys svs)) n = Some []" if "n \<in> ?S" for n
    using that by (simp add: map_of_map_restrict [where f = "\<lambda>_. []"])
  obtain deg dp where r:
    "try_fold (\<lambda>st (n, d). add_edge n st d) (map (\<lambda>n. (n, 0)) (hm_keys svs), map_of (map (\<lambda>n. (n, [])) (hm_keys svs))) (edges svs) = Ok (deg, dp)"
    "\<forall>n \<in> ?S. map_of deg n = Some (0 + length (filter (\<lambda>e. fst e = n) (edges svs)))"
    "\<forall>d \<in> ?S. dp d = Some ([] @ map fst (filter (\<lambda>e. snd e = d) (edges svs)))"
    "map fst deg = map fst (map (\<lambda>n. (n, 0 :: nat)) (hm_keys svs))"
    using add_edges_result [of ?S "map (\<lambda>n. (n, 0)) (hm_keys svs)" "\<lambda>_. 0"
        "map_of (map (\<lambda>n. (n, [])) (hm_keys svs))" "\<lambda>_. []", OF deg0 dp0 edges_in [OF assms]] by blast
  show thesis
  proof (rule that [of deg dp])
    show "build_graph svs = Ok (deg, dp)" using r(1) by (simp add: build_graph_def build_graph_edges)
    show "map fst deg = hm_keys svs" using r(4) by (simp add: comp_def)
    show "map_of deg n = Some (length (service_deps svs n))" if "n \<in> ?S" for n
      using r(2) that edges_of [OF assms(1) that] by simp
    fix d assume d: "d \<in> ?S"
    let ?ds = "map fst (filter (\<lambda>e. snd e = d) (edges svs))"
    have "count_list ?ds n = count_list (service_deps svs n) d" if n: "n \<in> ?S" for n
    proof -
      have "count_list ?ds n = length (filter (\<lambda>e. snd e = d) (filter (\<lambda>e. fst e = n) (edges svs)))"
        by (simp add: count_list_eq_length_filter filter_map comp_def conj_commute eq_commute)
      also have "\<dots> = length (filter (\<lambda>e. snd e = d) (map (Pair n) (service_deps svs n)))"
        by (simp only: edges_of [OF assms(1) n])
      also have "\<dots> = count_list (service_deps svs n) d"
        by (simp add: filter_map comp_def count_list_eq_length_filter) (metis (mono_tags, lifting) filter_cong)
      finally show ?thesis .
    qed
    moreover have "set ?ds \<subseteq> ?S" using edges_in [OF assms] by auto
    ultimately show "\<exists>ds. dp d = Some ds \<and> set ds \<subseteq> ?S \<and>
        (\<forall>n \<in> ?S. count_list ds n = count_list (service_deps svs n) d)"
      using r(3) d by auto
  qed
qed

subsubsection \<open>The loop invariant of Kahn's algorithm\<close>

definition unmet :: "(string \<Rightarrow> string list) \<Rightarrow> string list \<Rightarrow> string \<Rightarrow> nat" where
  "unmet D res n = length (filter (\<lambda>d. d \<notin> set res) (D n))"

text \<open>
  While the dependents of the last service are released, \<open>rem\<close> are those still to come: a degree
  counts the dependencies that are not in the result plus the releases that are still due, and
  result and queue together are the services of degree zero.
\<close>

definition release_inv ::
    "string set \<Rightarrow> (string \<Rightarrow> string list) \<Rightarrow> string list \<Rightarrow> string list \<Rightarrow> degrees \<Rightarrow> string list \<Rightarrow> bool" where
  "release_inv S D res rem deg queue \<longleftrightarrow>
     (\<forall>n \<in> S. map_of deg n = Some (unmet D res n + count_list rem n)) \<and>
     distinct (res @ queue) \<and>
     set (res @ queue) = {n \<in> S. unmet D res n + count_list rem n = 0}"

definition deps_before :: "(string \<Rightarrow> string list) \<Rightarrow> string list \<Rightarrow> bool" where
  "deps_before D order \<longleftrightarrow> (\<forall>i < length order. set (D (order ! i)) \<subseteq> set (take i order))"

lemma set_insert_at [simp]: "set (insert_at pos x xs) = insert x (set xs)"
  unfolding insert_at_def
  by (metis Un_insert_right append_take_drop_id list.simps(15) set_append)

lemma distinct_insert_at [simp]: "distinct (insert_at pos x xs) \<longleftrightarrow> x \<notin> set xs \<and> distinct xs"
proof -
  have "distinct (insert_at pos x xs) \<longleftrightarrow> distinct (x # (take pos xs @ drop pos xs))"
    by (auto simp: insert_at_def simp del: append_take_drop_id)
  then show ?thesis by simp
qed

lemma release_step:
  assumes inv: "release_inv S D res (x # rem) deg queue" and x: "x \<in> S"
  shows "\<exists>deg' queue'. release_dependent pp (deg, queue) x = Ok (deg', queue') \<and>
    release_inv S D res rem deg' queue'"
proof -
  let ?k = "unmet D res x + count_list rem x"
  have deg: "map_of deg x = Some (Suc ?k)" using inv x by (simp add: release_inv_def)
  have "set (res @ queue) = {n \<in> S. unmet D res n + count_list (x # rem) n = 0}"
    using inv unfolding release_inv_def by blast
  then have "x \<notin> set (res @ queue)" by simp
  then have notin: "x \<notin> set res" "x \<notin> set queue" by simp_all
  let ?deg = "AList.update x ?k deg"
  let ?q = "if ?k = 0 then insert_at (pp (\<lambda>y. y > x) queue) x queue else queue"
  have "release_dependent pp (deg, queue) x = Ok (?deg, ?q)"
    using deg by (simp add: release_dependent_def)
  moreover have "map_of ?deg n = Some (unmet D res n + count_list rem n)" if "n \<in> S" for n
    using that inv by (auto simp: release_inv_def update_conv)
  moreover have "distinct (res @ ?q)"
    using inv notin by (auto simp: release_inv_def)
  moreover have "set (res @ ?q) = {n \<in> S. unmet D res n + count_list rem n = 0}"
    using inv x notin by (auto simp: release_inv_def)
  ultimately show ?thesis by (auto simp: release_inv_def)
qed

lemma release_all:
  "release_inv S D res rem deg queue \<Longrightarrow> set rem \<subseteq> S \<Longrightarrow>
   \<exists>deg' queue'. try_fold (release_dependent pp) (deg, queue) rem = Ok (deg', queue') \<and>
     release_inv S D res [] deg' queue'"
proof (induction rem arbitrary: deg queue)
  case (Cons x rem)
  then obtain deg1 queue1 where "release_dependent pp (deg, queue) x = Ok (deg1, queue1)"
      "release_inv S D res rem deg1 queue1"
    using release_step [of S D res x rem deg queue pp] by auto
  then show ?case using Cons.IH [of deg1 queue1] Cons.prems by simp
qed simp

lemma unmet_snoc: "node \<notin> set res \<Longrightarrow> unmet D res n = unmet D (res @ [node]) n + count_list (D n) node"
proof -
  assume node: "node \<notin> set res"
  have "length (filter (\<lambda>d. d \<notin> set res) ds) =
      length (filter (\<lambda>d. d \<notin> set (res @ [node])) ds) + count_list ds node" for ds
    using node by (induction ds) auto
  then show ?thesis by (simp add: unmet_def)
qed

lemma kahn_pop:
  assumes inv: "release_inv S D res [] deg queue" and "queue \<noteq> []"
    and ds: "\<And>n. n \<in> S \<Longrightarrow> count_list ds n = count_list (D n) (last queue)"
  shows "release_inv S D (res @ [last queue]) ds deg (butlast queue)"
    and "set (D (last queue)) \<subseteq> set res"
proof -
  define node where "node = last queue"
  have q: "queue = butlast queue @ [node]" using assms(2) by (simp add: node_def)
  have node: "node \<notin> set res" "node \<in> set queue"
    using inv assms(2) last_in_set [OF assms(2)] by (auto simp: release_inv_def node_def)
  have "distinct (res @ queue)" using inv by (simp add: release_inv_def)
  then have "distinct (res @ butlast queue @ [node])" using q by metis
  then have "distinct ((res @ [node]) @ butlast queue)" by auto
  moreover have "set ((res @ [node]) @ butlast queue) = set (res @ queue)"
    using arg_cong [OF q, of set] by auto
  ultimately show "release_inv S D (res @ [last queue]) ds deg (butlast queue)"
    using inv ds unmet_snoc [OF node(1), of D] by (auto simp: release_inv_def node_def [symmetric])
  have "unmet D res node = 0" using inv node(2) by (auto simp: release_inv_def)
  then show "set (D (last queue)) \<subseteq> set res"
    by (auto simp: unmet_def node_def [symmetric] filter_empty_conv)
qed

lemma deps_before_snoc:
  "deps_before D res \<Longrightarrow> set (D node) \<subseteq> set res \<Longrightarrow> deps_before D (res @ [node])"
  by (auto simp: deps_before_def nth_append less_Suc_eq)

lemma kahn_loop_correct:
  assumes "release_inv S D res [] deg queue" "deps_before D res"
    and "\<And>d. d \<in> S \<Longrightarrow> \<exists>ds. dp d = Some ds \<and> set ds \<subseteq> S \<and> (\<forall>n \<in> S. count_list ds n = count_list (D n) d)"
  shows "\<exists>res'. kahn_loop pp dp deg queue res = Ok res' \<and> deps_before D res' \<and> distinct res' \<and>
    set res' = {n \<in> S. unmet D res' n = 0}"
  using assms
proof (induction pp dp deg queue res rule: kahn_loop.induct)
  case (1 pp dp deg queue res)
  show ?case
  proof (cases "queue = []")
    case True
    then show ?thesis using "1.prems" by (subst kahn_loop.simps) (auto simp: release_inv_def)
  next
    case False
    have "last queue \<in> S" using "1.prems"(1) False by (auto simp: release_inv_def)
    then obtain ds where ds: "dp (last queue) = Some ds" "set ds \<subseteq> S"
        "\<And>n. n \<in> S \<Longrightarrow> count_list ds n = count_list (D n) (last queue)"
      using "1.prems"(3) by blast
    note pop = kahn_pop [OF "1.prems"(1) False ds(3)]
    obtain deg' queue' where r:
        "try_fold (release_dependent pp) (deg, butlast queue) ds = Ok (deg', queue')"
        "release_inv S D (res @ [last queue]) [] deg' queue'"
      using release_all [OF pop(1) ds(2)] by blast
    have "\<exists>res'. kahn_loop pp dp deg' queue' (res @ [last queue]) = Ok res' \<and> deps_before D res' \<and> distinct res' \<and>
        set res' = {n \<in> S. unmet D res' n = 0}"
      using r(2) deps_before_snoc [OF "1.prems"(2) pop(2)] "1.prems"(3)
      by (intro "1.IH" [OF False refl refl _ refl]) (use r(1) ds(1) in auto)
    then show ?thesis using False r(1) ds(1) by (subst kahn_loop.simps) simp
  qed
qed

subsubsection \<open>Orders and cycles\<close>

lemma takeWhile_take: "d \<in> set (take k xs) \<Longrightarrow> length (takeWhile (\<lambda>x. x \<noteq> d) xs) < k"
proof (induction xs arbitrary: k)
  case (Cons x xs)
  then show ?case by (cases k) auto
qed simp

lemma takeWhile_nth:
  "n \<in> set xs \<Longrightarrow> length (takeWhile (\<lambda>x. x \<noteq> n) xs) < length xs \<and> xs ! length (takeWhile (\<lambda>x. x \<noteq> n) xs) = n"
  by (induction xs) auto

lemma deps_before_acyclic:
  assumes "deps_before (service_deps svs) order" "set order = set (hm_keys svs)"
  shows "acyclic (dep_rel svs)"
proof -
  define idx where "idx n = length (takeWhile (\<lambda>x. x \<noteq> n) order)" for n
  have "(dep_rel svs)\<inverse> \<subseteq> measure idx"
  proof clarify
    fix d n assume "(n, d) \<in> dep_rel svs"
    then have n: "n \<in> set order" and d: "d \<in> set (service_deps svs n)"
      using assms(2) by (auto simp: dep_rel_def hm_contains_def)
    have "idx n < length order" "order ! idx n = n"
      unfolding idx_def using takeWhile_nth [OF n] by simp_all
    then have "set (service_deps svs n) \<subseteq> set (take (idx n) order)"
      using assms(1) by (metis deps_before_def)
    then show "(d, n) \<in> measure idx" using d takeWhile_take [of d "idx n" order] by (auto simp: idx_def)
  qed
  then have "wf ((dep_rel svs)\<inverse>)" using wf_measure wf_subset by blast
  then have "acyclic ((dep_rel svs)\<inverse>)" by (rule wf_acyclic)
  then show ?thesis by (simp only: acyclic_converse)
qed

lemma finite_dep_rel: "finite (dep_rel svs)"
proof -
  have "dep_rel svs = Sigma (set (hm_keys svs)) (\<lambda>n. set (service_deps svs n))"
    by (auto simp: dep_rel_def hm_contains_def)
  then show ?thesis by simp
qed

text \<open>In an acyclic graph the services that Kahn's algorithm cannot release do not exist.\<close>

lemma acyclic_all_met:
  assumes "acyclic (dep_rel svs)" "deps_closed svs"
    and res: "set res = {n \<in> set (hm_keys svs). unmet (service_deps svs) res n = 0}"
  shows "set res = set (hm_keys svs)"
proof (rule ccontr)
  assume "set res \<noteq> set (hm_keys svs)"
  then obtain x where x: "x \<in> set (hm_keys svs) - set res" using res by blast
  have "wf ((dep_rel svs)\<inverse>)" using finite_acyclic_wf_converse [OF finite_dep_rel assms(1)] .
  then obtain z where z: "z \<in> set (hm_keys svs) - set res"
      and min: "\<And>y. (y, z) \<in> (dep_rel svs)\<inverse> \<Longrightarrow> y \<notin> set (hm_keys svs) - set res"
    using x by (rule wfE_min) blast
  have "unmet (service_deps svs) res z \<noteq> 0" using z res by auto
  then obtain d where d: "d \<in> set (service_deps svs z)" "d \<notin> set res"
    by (auto simp: unmet_def filter_empty_conv)
  then have "d \<in> set (hm_keys svs)"
    using assms(2) z by (auto simp: deps_closed_def list_all_iff hm_contains_def)
  moreover have "(d, z) \<in> (dep_rel svs)\<inverse>" using d z by (auto simp: dep_rel_def hm_contains_def)
  ultimately show False using min d(2) by blast
qed

lemma initial_inv:
  assumes "hm_wf svs" "map fst deg = hm_keys svs"
    and "\<And>n. n \<in> set (hm_keys svs) \<Longrightarrow> map_of deg n = Some (length (service_deps svs n))"
  shows "release_inv (set (hm_keys svs)) (service_deps svs) [] [] deg
    (sort (map fst (filter (\<lambda>(_, d). d = 0) deg)))"
proof -
  have d: "distinct (map fst deg)" using assms(1,2) by (simp add: hm_wf_def)
  then have "distinct (map fst (filter (\<lambda>(_, d). d = 0) deg))"
    by (simp add: distinct_map_filter)
  moreover have "set (map fst (filter (\<lambda>(_, d). d = 0) deg)) = {n \<in> set (hm_keys svs). service_deps svs n = []}"
  proof -
    have "n \<in> set (map fst (filter (\<lambda>(_, d). d = 0) deg)) \<longleftrightarrow> (n, 0) \<in> set deg" for n
      by force
    then have "n \<in> set (map fst (filter (\<lambda>(_, d). d = 0) deg)) \<longleftrightarrow> map_of deg n = Some 0" for n
      using d by simp
    moreover have "map_of deg n = Some 0 \<longleftrightarrow> n \<in> set (hm_keys svs) \<and> service_deps svs n = []" for n
    proof (cases "n \<in> set (hm_keys svs)")
      case False
      then have "map_of deg n = None" using assms(2) by (simp add: map_of_eq_None_iff flip: set_map)
      then show ?thesis using False by simp
    qed (simp add: assms(3))
    ultimately show ?thesis by blast
  qed
  ultimately show ?thesis using assms(3) by (auto simp: release_inv_def unmet_def)
qed

lemma topological_sort_run:
  assumes "hm_wf svs" "deps_closed svs"
  shows "\<exists>res. deps_before (service_deps svs) res \<and> distinct res \<and>
    set res = {n \<in> set (hm_keys svs). unmet (service_deps svs) res n = 0} \<and>
    topological_sort pp svs = (if length res \<noteq> length svs
      then Err (DependencyCycle (filter (\<lambda>k. k \<notin> set res) (hm_keys svs))) else Ok res)"
proof -
  have c: "check_deps_exist svs = Ok ()" using assms by (simp add: check_deps_exist_iff)
  obtain deg dp where g: "build_graph svs = Ok (deg, dp)" "map fst deg = hm_keys svs"
      "\<And>n. n \<in> set (hm_keys svs) \<Longrightarrow> map_of deg n = Some (length (service_deps svs n))"
      "\<And>d. d \<in> set (hm_keys svs) \<Longrightarrow> \<exists>ds. dp d = Some ds \<and> set ds \<subseteq> set (hm_keys svs) \<and>
         (\<forall>n \<in> set (hm_keys svs). count_list ds n = count_list (service_deps svs n) d)"
    using build_graph_correct [OF assms] by metis
  have "deps_before (service_deps svs) []" by (simp add: deps_before_def)
  then obtain res where "kahn_loop pp dp deg (sort (map fst (filter (\<lambda>(_, d). d = 0) deg))) [] = Ok res"
      "deps_before (service_deps svs) res" "distinct res"
      "set res = {n \<in> set (hm_keys svs). unmet (service_deps svs) res n = 0}"
    using kahn_loop_correct [OF initial_inv [OF assms(1) g(2,3)] _ g(4)] by blast
  then show ?thesis using c g(1) by (auto simp: topological_sort_def)
qed

lemma full_length_iff:
  assumes "hm_wf svs" "distinct res" "set res \<subseteq> set (hm_keys svs)"
  shows "length res = length svs \<longleftrightarrow> set res = set (hm_keys svs)"
proof -
  have "card (set (hm_keys svs)) = length svs"
    using assms(1) distinct_card [of "hm_keys svs"] by (simp add: hm_wf_def hm_keys_def)
  moreover have "card (set res) = length res" using assms(2) by (rule distinct_card)
  ultimately show ?thesis
    using card_subset_eq [OF List.finite_set assms(3)] by auto
qed

lemma topological_sort_Ok_iff:
  assumes "hm_wf svs"
  shows "is_ok (topological_sort pp svs) \<longleftrightarrow> deps_closed svs \<and> acyclic (dep_rel svs)"
proof (cases "deps_closed svs")
  case True
  obtain res where r: "deps_before (service_deps svs) res" "distinct res"
      "set res = {n \<in> set (hm_keys svs). unmet (service_deps svs) res n = 0}"
      "topological_sort pp svs = (if length res \<noteq> length svs
        then Err (DependencyCycle (filter (\<lambda>k. k \<notin> set res) (hm_keys svs))) else Ok res)"
    using topological_sort_run [OF assms True] by blast
  have len: "length res = length svs \<longleftrightarrow> set res = set (hm_keys svs)"
    using r(2,3) by (intro full_length_iff [OF assms]) auto
  have "set res = set (hm_keys svs) \<longleftrightarrow> acyclic (dep_rel svs)"
    using deps_before_acyclic [OF r(1)] acyclic_all_met [OF _ True r(3)] by blast
  then show ?thesis using True len r(4) by (auto split: if_splits)
next
  case False
  then have "\<exists>e. check_deps_exist svs = Err e"
    using check_deps_exist_iff [OF assms] by (cases "check_deps_exist svs") auto
  then show ?thesis using False by (auto simp: topological_sort_def)
qed

lemma start_order_facts:
  assumes "hm_wf svs" "get_start_order pp svs = Ok order"
  shows "distinct order \<and> set order = set (hm_keys svs) \<and>
    (\<forall>i < length order. set (service_deps svs (order ! i)) \<subseteq> set (take i order)) \<and>
    get_stop_order pp svs = Ok (rev order)"
proof -
  have ok: "topological_sort pp svs = Ok order" using assms(2) by (simp add: get_start_order_def)
  then have cl: "deps_closed svs" using topological_sort_Ok_iff [OF assms(1)] is_ok_iff by metis
  obtain res where r: "deps_before (service_deps svs) res" "distinct res"
      "set res = {n \<in> set (hm_keys svs). unmet (service_deps svs) res n = 0}"
      "topological_sort pp svs = (if length res \<noteq> length svs
        then Err (DependencyCycle (filter (\<lambda>k. k \<notin> set res) (hm_keys svs))) else Ok res)"
    using topological_sort_run [OF assms(1) cl] by blast
  then have res: "res = order" "length order = length svs" using ok by (auto split: if_splits)
  have "set order = set (hm_keys svs)"
    using full_length_iff [OF assms(1) r(2)] r(3) res by auto
  then show ?thesis
    using r(1,2) res ok by (simp add: deps_before_def get_stop_order_def)
qed

text \<open>
  C17. The start order contains every service exactly once, each one after all its dependencies;
  the stop order is its reverse, so each service is stopped before its dependencies. This
  holds for every iteration order of the hash map and every partition point.
\<close>

theorem start_order_correct:
  assumes "hm_wf svs" "get_start_order pp svs = Ok order"
  shows "distinct order \<and> set order = set (hm_keys svs) \<and>
    (\<forall>i < length order. set (service_deps svs (order ! i)) \<subseteq> set (take i order)) \<and>
    get_stop_order pp svs = Ok (rev order)"
  using assms by (rule start_order_facts)

definition example_services :: services where
  "example_services = [
     (''web'', raw_service_config_default\<lparr>rs_depends_on := [DepSimple ''api'', DepSimple ''db'']\<rparr>),
     (''db'', raw_service_config_default),
     (''api'', raw_service_config_default\<lparr>rs_depends_on := [DepSimple ''db'']\<rparr>)]"

lemma example_wf: "hm_wf example_services"
  by (simp add: example_services_def hm_wf_def hm_keys_def)

lemma example_order: "get_start_order std_partition_point example_services = Ok [''db'', ''api'', ''web'']"
  by code_simp

theorem start_order_correct_witness:
  "set [''db'', ''api'', ''web''] = set (hm_keys example_services) \<and>
   get_stop_order std_partition_point example_services = Ok [''web'', ''api'', ''db'']"
  using start_order_correct [OF example_wf example_order] by simp

text \<open>
  C29. Computing the start order always ends in one of three ways: an order, exactly when every
  dependency is a service and there is no cycle; a missing dependency, which the error
  names; or a cycle, and then every service that the error lists waits for another one of the
  list. The internal errors of the code do not occur.
\<close>

theorem start_order_total:
  assumes "hm_wf svs"
  shows "case get_start_order pp svs of
      Inr order \<Rightarrow> deps_closed svs \<and> acyclic (dep_rel svs)
    | Inl (MissingDependency n d) \<Rightarrow> (n, d) \<in> dep_rel svs \<and> \<not> hm_contains svs d
    | Inl (DependencyCycle ns) \<Rightarrow> deps_closed svs \<and> \<not> acyclic (dep_rel svs) \<and> ns \<noteq> [] \<and>
        list_all (\<lambda>n. list_ex (\<lambda>d. d \<in> set ns) (service_deps svs n)) ns
    | Inl e \<Rightarrow> False"
proof (rule check_deps_exist_cases [OF assms])
  assume cl: "deps_closed svs"
  obtain res where r: "distinct res"
      "set res = {n \<in> set (hm_keys svs). unmet (service_deps svs) res n = 0}"
      "topological_sort pp svs = (if length res \<noteq> length svs
        then Err (DependencyCycle (filter (\<lambda>k. k \<notin> set res) (hm_keys svs))) else Ok res)"
    using topological_sort_run [OF assms cl] by blast
  show ?thesis
  proof (cases "length res = length svs")
    case True
    then have "is_ok (topological_sort pp svs)" using r(3) by simp
    then have "deps_closed svs \<and> acyclic (dep_rel svs)"
      using topological_sort_Ok_iff [OF assms] by blast
    then show ?thesis using True r(3) by (simp add: get_start_order_def)
  next
    case False
    let ?ns = "filter (\<lambda>k. k \<notin> set res) (hm_keys svs)"
    have "\<not> is_ok (topological_sort pp svs)" using False r(3) by simp
    then have "\<not> acyclic (dep_rel svs)" using cl topological_sort_Ok_iff [OF assms] by blast
    moreover have "?ns \<noteq> []"
      using False full_length_iff [OF assms r(1)] r(2) by (auto simp: filter_empty_conv)
    moreover have "\<exists>d \<in> set (service_deps svs n). d \<in> set ?ns" if "n \<in> set ?ns" for n
    proof -
      have "unmet (service_deps svs) res n \<noteq> 0" using that r(2) by auto
      then obtain d where "d \<in> set (service_deps svs n)" "d \<notin> set res"
        by (auto simp: unmet_def filter_empty_conv)
      then show ?thesis using that cl by (auto simp: deps_closed_def list_all_iff hm_contains_def)
    qed
    ultimately show ?thesis
      using False r(3) cl by (simp add: get_start_order_def list_all_iff list_ex_iff)
  qed
next
  fix n d
  assume "check_deps_exist svs = Err (MissingDependency n d)" "hm_contains svs n"
    "d \<in> set (service_deps svs n)" "\<not> hm_contains svs d"
  then show ?thesis by (simp add: get_start_order_def topological_sort_def dep_rel_def)
qed

theorem start_order_total_witness:
  "deps_closed example_services \<and> acyclic (dep_rel example_services)"
  using start_order_total [OF example_wf, of std_partition_point] by (simp add: example_order)

text \<open>
  The start order is not determined by the services: the same five services met in two
  iteration orders of the hash map are started in two different orders.
\<close>

lemma start_order_depends_on_iteration:
  "\<exists>svs svs' order order'. set svs = set svs' \<and> hm_wf svs \<and> hm_wf svs' \<and>
     get_start_order std_partition_point svs = Ok order \<and>
     get_start_order std_partition_point svs' = Ok order' \<and> order \<noteq> order'"
proof -
  let ?d = "raw_service_config_default\<lparr>rs_depends_on := [DepSimple ''d'']\<rparr>"
  let ?n = raw_service_config_default
  let ?s = "[(''a'', ?n), (''b'', ?d), (''c'', ?n), (''d'', ?n), (''e'', ?d)]"
  let ?t = "[(''a'', ?n), (''c'', ?n), (''d'', ?n), (''e'', ?d), (''b'', ?d)]"
  have "get_start_order std_partition_point ?s = Ok [''d'', ''b'', ''c'', ''a'', ''e'']" by code_simp
  moreover have "get_start_order std_partition_point ?t = Ok [''d'', ''c'', ''a'', ''b'', ''e'']" by code_simp
  moreover have "set ?s = set ?t" "hm_wf ?s" "hm_wf ?t" by (auto simp: hm_wf_def hm_keys_def)
  moreover have "[''d'', ''b'', ''c'', ''a'', ''e''] \<noteq> [''d'', ''c'', ''a'', ''b'', ''e'']" by simp
  ultimately show ?thesis by blast
qed

subsection \<open>Start levels\<close>

text \<open>
  In a table of levels each service is above all its dependencies and directly above one of them,
  unless it is on the lowest level.
\<close>

definition level_ok :: "services \<Rightarrow> levels \<Rightarrow> string \<Rightarrow> nat \<Rightarrow> bool" where
  "level_ok svs levels n l \<longleftrightarrow> hm_contains svs n \<and>
     (\<forall>d \<in> set (service_deps svs n). \<exists>k < l. map_of levels d = Some k) \<and>
     (l = 0 \<or> (\<exists>d \<in> set (service_deps svs n). map_of levels d = Some (l - 1)))"

definition levels_inv :: "services \<Rightarrow> levels \<Rightarrow> bool" where
  "levels_inv svs levels \<longleftrightarrow> distinct (map fst levels) \<and>
     (\<forall>n l. map_of levels n = Some l \<longrightarrow> level_ok svs levels n l)"

lemma level_ok_mono:
  "level_ok svs levels n l \<Longrightarrow> map_of levels \<subseteq>\<^sub>m map_of levels' \<Longrightarrow> level_ok svs levels' n l"
  unfolding level_ok_def by (metis map_le_def domI)

lemma levels_inv_insert:
  assumes "levels_inv svs levels" "map_of levels n = None" "level_ok svs levels n l"
  shows "levels_inv svs (AList.update n l levels)" "map_of levels \<subseteq>\<^sub>m map_of (AList.update n l levels)"
proof -
  show le: "map_of levels \<subseteq>\<^sub>m map_of (AList.update n l levels)"
    using assms(2) by (auto simp: map_le_def update_conv dom_def)
  show "levels_inv svs (AList.update n l levels)"
    using assms level_ok_mono [OF _ le] distinct_update [of levels n l]
    by (auto simp: levels_inv_def update_conv split: if_splits)
qed

lemma compute_level_inv:
  "compute_level svs name levels stack = Ok (l, levels') \<Longrightarrow> levels_inv svs levels \<Longrightarrow>
     \<forall>s \<in> set stack. map_of levels s = None \<Longrightarrow>
     levels_inv svs levels' \<and> map_of levels' name = Some l \<and> map_of levels \<subseteq>\<^sub>m map_of levels' \<and>
     (\<forall>s \<in> set stack. map_of levels' s = None)"
  "compute_dep_levels svs deps m levels stack = Ok (l, levels') \<Longrightarrow> levels_inv svs levels \<Longrightarrow>
     \<forall>s \<in> set stack. map_of levels s = None \<Longrightarrow>
     levels_inv svs levels' \<and> map_of levels \<subseteq>\<^sub>m map_of levels' \<and>
     (\<forall>s \<in> set stack. map_of levels' s = None) \<and>
     (\<forall>d \<in> set deps. \<exists>k \<le> l. map_of levels' d = Some k) \<and> m \<le> l \<and>
     (l = m \<or> (\<exists>d \<in> set deps. map_of levels' d = Some l))"
proof (induction svs name levels stack and svs deps m levels stack arbitrary: l levels' and l levels'
    rule: compute_level_compute_dep_levels.induct)
  case (1 svs name levels stack)
  show ?case
  proof (cases "map_of levels name")
    case (Some k)
    then show ?thesis using 1 by (simp add: compute_level.simps)
  next
    case None
    from "1.prems"(1) None obtain raw where nst: "name \<notin> set stack" and raw: "hm_get svs name = Some raw"
      by (auto simp: compute_level.simps split: if_splits option.splits)
    let ?deps = "names (rs_depends_on raw)"
    have sd: "service_deps svs name = ?deps" "hm_contains svs name"
      using raw hm_get_Some_contains [OF raw] by (simp_all add: service_deps_def)
    show ?thesis
    proof (cases "?deps = []")
      case True
      have r: "l = 0" "levels' = AList.update name 0 levels"
        using "1.prems"(1) None nst raw True by (simp_all add: compute_level.simps)
      have "level_ok svs levels name 0" using sd True by (simp add: level_ok_def)
      note ins = levels_inv_insert [OF "1.prems"(2) None this]
      have "map_of levels' name = Some l" using r by (simp add: update_conv')
      moreover have "\<forall>s \<in> set stack. map_of levels' s = None"
        using "1.prems"(3) nst r by (auto simp: update_conv')
      ultimately show ?thesis using ins r by blast
    next
      case False
      obtain ml levels1 where r: "compute_dep_levels svs ?deps 0 levels (name # stack) = Ok (ml, levels1)"
          "l = Suc ml" "levels' = AList.update name (Suc ml) levels1"
        using "1.prems"(1) None nst raw False by (auto simp: compute_level.simps split: sum.splits)
      have st: "\<forall>s \<in> set (name # stack). map_of levels s = None" using None "1.prems"(3) by simp
      note ih = "1.IH" [OF None nst raw refl False r(1) "1.prems"(2) st]
      have some: "\<exists>d \<in> set ?deps. map_of levels1 d = Some ml"
      proof (cases "ml = 0")
        case True
        then show ?thesis using ih False by (metis le_zero_eq list.set_sel(1))
      qed (use ih in auto)
      have "level_ok svs levels1 name (Suc ml)"
        using ih some sd by (auto simp: level_ok_def less_Suc_eq_le)
      moreover have "map_of levels1 name = None" using ih by simp
      ultimately have ins: "levels_inv svs levels'" "map_of levels1 \<subseteq>\<^sub>m map_of levels'"
        using levels_inv_insert [of svs levels1 name "Suc ml"] ih r(3) by simp_all
      have "map_of levels \<subseteq>\<^sub>m map_of levels'" using ih ins(2) map_le_trans by blast
      moreover have "map_of levels' name = Some l" using r(2,3) by (simp add: update_conv')
      moreover have "\<forall>s \<in> set stack. map_of levels' s = None" using ih nst r(3) by (auto simp: update_conv')
      ultimately show ?thesis using ins(1) by blast
    qed
  qed
next
  case (3 svs dep deps m levels stack)
  from "3.prems"(1) obtain dl levels1 where c: "compute_level svs dep levels stack = Ok (dl, levels1)"
      "compute_dep_levels svs deps (max m dl) levels1 stack = Ok (l, levels')"
    by (auto split: sum.splits)
  note ih1 = "3.IH"(1) [OF c(1) "3.prems"(2,3)]
  then have ih2: "levels_inv svs levels' \<and> map_of levels1 \<subseteq>\<^sub>m map_of levels' \<and>
     (\<forall>s \<in> set stack. map_of levels' s = None) \<and>
     (\<forall>d \<in> set deps. \<exists>k \<le> l. map_of levels' d = Some k) \<and> max m dl \<le> l \<and>
     (l = max m dl \<or> (\<exists>d \<in> set deps. map_of levels' d = Some l))"
    using "3.IH"(2) [OF c(1) refl c(2)] by blast
  have "map_of levels' dep = Some dl" using ih1 ih2 by (metis map_le_def domI)
  then show ?case using ih1 ih2 map_le_trans by (auto simp: max_def split: if_splits)
qed simp_all

lemma levels_of_inv:
  assumes "levels_of svs = Ok levels"
  shows "levels_inv svs levels" and "\<And>n. n \<in> set (hm_keys svs) \<Longrightarrow> map_of levels n \<noteq> None"
proof -
  have "levels_inv svs levels \<and> (\<forall>n \<in> set ns. map_of levels n \<noteq> None)"
    if "try_fold (\<lambda>levels name. bind_res (compute_level svs name levels []) (\<lambda>(_, levels'). Ok levels')) lv ns = Ok levels"
      "levels_inv svs lv" for lv ns
    using that
  proof (induction ns arbitrary: lv)
    case (Cons n ns)
    then obtain l lv1 where c: "compute_level svs n lv [] = Ok (l, lv1)"
        "try_fold (\<lambda>levels name. bind_res (compute_level svs name levels []) (\<lambda>(_, levels'). Ok levels')) lv1 ns = Ok levels"
      by (auto simp: bind_res_def split: sum.splits)
    have i: "levels_inv svs lv1" "map_of lv1 n = Some l"
      using compute_level_inv(1) [OF c(1) Cons.prems(2)] by auto
    have "map_of lv1 \<subseteq>\<^sub>m map_of levels"
      using c(2) i(1)
    proof (induction ns arbitrary: lv1)
      case (Cons m ms)
      then obtain k lv2 where c2: "compute_level svs m lv1 [] = Ok (k, lv2)"
          "try_fold (\<lambda>levels name. bind_res (compute_level svs name levels []) (\<lambda>(_, levels'). Ok levels')) lv2 ms = Ok levels"
        by (auto simp: bind_res_def split: sum.splits)
      show ?case
        using compute_level_inv(1) [OF c2(1) Cons.prems(2)] Cons.IH [OF c2(2)] map_le_trans by auto
    qed simp
    then have "map_of levels n = Some l" using i(2) by (metis map_le_def domI)
    then show ?case using Cons.IH [OF c(2) i(1)] by auto
  qed simp
  from this [of "[]" "hm_keys svs"] assms
  show "levels_inv svs levels" "\<And>n. n \<in> set (hm_keys svs) \<Longrightarrow> map_of levels n \<noteq> None"
    by (auto simp: levels_of_def levels_inv_def)
qed

lemma foldr_max_ge: "l \<in> set ls \<Longrightarrow> l \<le> foldr max ls (0 :: nat)"
  by (induction ls) auto

lemma group_levels_nth:
  assumes "i < length (group_levels levels)"
  shows "n \<in> set (group_levels levels ! i) \<longleftrightarrow> (n, i) \<in> set levels"
  using assms by (force simp: group_levels_def Let_def simp del: upt_Suc)

lemma group_levels_length: "(n, l) \<in> set levels \<Longrightarrow> l < length (group_levels levels)"
  using foldr_max_ge [of l "map snd levels"] by (force simp: group_levels_def Let_def)

lemma group_levels_sorted: "list_all sorted (group_levels levels)"
  by (auto simp: group_levels_def Let_def list_all_iff)

lemma group_levels_distinct: "distinct (map fst levels) \<Longrightarrow> distinct (concat (group_levels levels))"
proof -
  assume d: "distinct (map fst levels)"
  let ?f = "\<lambda>l. sort (map fst (filter (\<lambda>p. snd p = l) levels))"
  have "distinct (concat (map ?f [0..<m]))" for m
  proof (induction m)
    case (Suc m)
    have "distinct (?f m)" using d by (simp add: distinct_map_filter)
    moreover have "set (concat (map ?f [0..<m])) \<inter> set (?f m) = {}"
      using d by (auto dest: eq_key_imp_eq_value)
    ultimately show ?case using Suc by simp
  qed simp
  then show ?thesis by (simp add: group_levels_def Let_def del: upt_Suc)
qed

lemma compute_level_Ok:
  "deps_closed svs \<Longrightarrow> acyclic (dep_rel svs) \<Longrightarrow> hm_contains svs name \<Longrightarrow>
     \<forall>s \<in> set stack. (s, name) \<in> (dep_rel svs)\<^sup>+ \<Longrightarrow> is_ok (compute_level svs name levels stack)"
  "deps_closed svs \<Longrightarrow> acyclic (dep_rel svs) \<Longrightarrow> list_all (hm_contains svs) deps \<Longrightarrow>
     \<forall>s \<in> set stack. \<forall>d \<in> set deps. (s, d) \<in> (dep_rel svs)\<^sup>+ \<Longrightarrow>
     is_ok (compute_dep_levels svs deps m levels stack)"
proof (induction svs name levels stack and svs deps m levels stack
    rule: compute_level_compute_dep_levels.induct)
  case (1 svs name levels stack)
  show ?case
  proof (cases "map_of levels name")
    case None
    have nst: "name \<notin> set stack" using "1.prems"(2,4) by (auto simp: acyclic_def)
    obtain raw where raw: "hm_get svs name = Some raw" using hm_contains_get [OF "1.prems"(3)] by auto
    let ?deps = "names (rs_depends_on raw)"
    have sd: "service_deps svs name = ?deps" using raw by (simp add: service_deps_def)
    have edge: "(name, d) \<in> dep_rel svs" if "d \<in> set ?deps" for d
      using that sd "1.prems"(3) by (simp add: dep_rel_def)
    have cl: "list_all (hm_contains svs) ?deps"
      using "1.prems"(1,3) sd by (auto simp: deps_closed_def list_all_iff hm_contains_def)
    have st: "\<forall>s \<in> set (name # stack). \<forall>d \<in> set ?deps. (s, d) \<in> (dep_rel svs)\<^sup>+"
      using edge "1.prems"(4) by (auto intro: trancl_into_trancl)
    show ?thesis
    proof (cases "?deps = []")
      case False
      have "is_ok (compute_dep_levels svs ?deps 0 levels (name # stack))"
        by (rule "1.IH" [OF None nst raw refl False "1.prems"(1,2) cl st])
      then show ?thesis using None nst raw False
        by (auto simp: compute_level.simps [of svs name] is_ok_iff)
    qed (use None nst raw in \<open>simp add: compute_level.simps\<close>)
  qed (simp add: compute_level.simps)
next
  case (3 svs dep deps m levels stack)
  have "is_ok (compute_level svs dep levels stack)" using 3 by simp
  then obtain dl levels1 where c: "compute_level svs dep levels stack = Ok (dl, levels1)"
    by (auto simp: is_ok_iff)
  then show ?case using "3.IH"(2) [OF c refl] "3.prems" by simp
qed simp_all

lemma levels_of_Ok:
  assumes "deps_closed svs" "acyclic (dep_rel svs)"
  shows "is_ok (levels_of svs)"
proof -
  have "is_ok (try_fold (\<lambda>levels name. bind_res (compute_level svs name levels []) (\<lambda>(_, levels'). Ok levels')) lv ns)"
    if "set ns \<subseteq> set (hm_keys svs)" for lv ns
    using that
  proof (induction ns arbitrary: lv)
    case (Cons n ns)
    have "is_ok (compute_level svs n lv [])"
      using compute_level_Ok(1) [OF assms] Cons.prems by (simp add: hm_contains_def)
    then show ?case using Cons by (auto simp: is_ok_iff)
  qed simp
  then show ?thesis by (simp add: levels_of_def)
qed

lemma levels_acyclic:
  assumes "levels_inv svs levels" "\<And>n. n \<in> set (hm_keys svs) \<Longrightarrow> map_of levels n \<noteq> None"
  shows "acyclic (dep_rel svs)"
proof -
  have "(dep_rel svs)\<inverse> \<subseteq> measure (\<lambda>n. the (map_of levels n))"
  proof clarify
    fix d n assume e: "(n, d) \<in> dep_rel svs"
    then obtain l where l: "map_of levels n = Some l"
      using assms(2) [of n] by (auto simp: dep_rel_def hm_contains_def)
    then have "level_ok svs levels n l" using assms(1) by (simp add: levels_inv_def)
    then show "(d, n) \<in> measure (\<lambda>n. the (map_of levels n))"
      using e l by (auto simp: level_ok_def dep_rel_def)
  qed
  then have "wf ((dep_rel svs)\<inverse>)" using wf_measure wf_subset by blast
  then have "acyclic ((dep_rel svs)\<inverse>)" by (rule wf_acyclic)
  then show ?thesis by (simp only: acyclic_converse)
qed

lemma levels_inv_entry: "levels_inv svs levels \<Longrightarrow> (n, l) \<in> set levels \<longleftrightarrow> map_of levels n = Some l"
  by (simp add: levels_inv_def)

text \<open>
  C30. The start levels contain every service exactly once and are sorted; a service is on a
  higher level than each of its dependencies, and on the lowest such level: one of its dependencies is
  on the level just below. So the services of one level do not depend on each other.
\<close>

theorem start_levels_correct:
  assumes "hm_wf svs" "get_start_levels svs = Ok L"
  shows "distinct (concat L) \<and> set (concat L) = set (hm_keys svs) \<and> list_all sorted L \<and>
    (\<forall>i < length L. \<forall>n \<in> set (L ! i).
       (\<forall>d \<in> set (service_deps svs n). \<exists>j < i. d \<in> set (L ! j)) \<and>
       (i > 0 \<longrightarrow> (\<exists>d \<in> set (service_deps svs n). d \<in> set (L ! (i - 1)))))"
proof -
  obtain levels where l: "levels_of svs = Ok levels" and L: "L = group_levels levels"
    using assms(2) by (auto simp: get_start_levels_def bind_res_Ok_iff)
  note inv = levels_of_inv [OF l]
  note entry = levels_inv_entry [OF inv(1)]
  have len: "i < length L" if "map_of levels n = Some i" for n i
    using that entry group_levels_length by (auto simp: L)
  have mem: "n \<in> set (L ! i) \<longleftrightarrow> map_of levels n = Some i" if "i < length L" for n i
    using group_levels_nth [of i levels n] that entry by (simp add: L)
  have lok: "level_ok svs levels n i" if "map_of levels n = Some i" for n i
    using inv(1) that by (simp add: levels_inv_def)
  have "set (concat L) = set (hm_keys svs)"
  proof (intro equalityI subsetI)
    fix n assume "n \<in> set (concat L)"
    then obtain l where "l \<in> set L" "n \<in> set l" by auto
    then obtain i where "i < length L" "n \<in> set (L ! i)" by (metis in_set_conv_nth)
    then show "n \<in> set (hm_keys svs)" using mem lok by (auto simp: level_ok_def hm_contains_def)
  next
    fix n assume "n \<in> set (hm_keys svs)"
    then obtain i where "map_of levels n = Some i" using inv(2) by blast
    then show "n \<in> set (concat L)" using mem len by (metis UN_I nth_mem set_concat)
  qed
  moreover have "distinct (concat L)"
    using inv(1) by (simp add: L levels_inv_def group_levels_distinct)
  moreover have "(\<forall>d \<in> set (service_deps svs n). \<exists>j < i. d \<in> set (L ! j)) \<and>
      (i > 0 \<longrightarrow> (\<exists>d \<in> set (service_deps svs n). d \<in> set (L ! (i - 1))))"
    if "i < length L" "n \<in> set (L ! i)" for i n
  proof -
    have k: "level_ok svs levels n i" using that mem lok by blast
    have "\<exists>j < i. d \<in> set (L ! j)" if "d \<in> set (service_deps svs n)" for d
      using k that mem len by (metis level_ok_def)
    moreover have "\<exists>d \<in> set (service_deps svs n). d \<in> set (L ! (i - 1))" if "i > 0"
      using k that mem len by (metis level_ok_def not_gr_zero)
    ultimately show ?thesis by blast
  qed
  ultimately show ?thesis using group_levels_sorted L by blast
qed

theorem start_levels_correct_witness:
  "distinct (concat [[''db''], [''api''], [''web'']]) \<and>
   set (concat [[''db''], [''api''], [''web'']]) = set (hm_keys example_services)"
proof -
  have "get_start_levels example_services = Ok [[''db''], [''api''], [''web'']]" by code_simp
  from start_levels_correct [OF example_wf this] show ?thesis by blast
qed

text \<open>
  The three graph functions agree: levels, order and the cycle check succeed for the same
  services, those whose dependencies all exist and form no cycle.
\<close>

lemma start_levels_iff_order:
  assumes "hm_wf svs"
  shows "is_ok (get_start_levels svs) = is_ok (get_start_order pp svs) \<and>
    is_ok (detect_cycles pp svs) = is_ok (get_start_order pp svs) \<and>
    is_ok (get_start_order pp svs) = (deps_closed svs \<and> acyclic (dep_rel svs))"
proof -
  have c: "is_ok (check_deps_exist svs) \<longleftrightarrow> deps_closed svs"
    using check_deps_exist_iff [OF assms] by (simp add: is_ok_iff)
  note o = topological_sort_Ok_iff [OF assms, of pp]
  have l: "is_ok (levels_of svs) \<longleftrightarrow> acyclic (dep_rel svs)" if "deps_closed svs"
    using levels_of_Ok [OF that] levels_acyclic [OF levels_of_inv] by (auto simp: is_ok_iff)
  have "is_ok (get_start_levels svs) \<longleftrightarrow> is_ok (check_deps_exist svs) \<and> is_ok (levels_of svs)"
    by (auto simp: get_start_levels_def is_ok_iff bind_res_Ok_iff)
  moreover have "is_ok (detect_cycles pp svs) \<longleftrightarrow> is_ok (check_deps_exist svs) \<and> is_ok (topological_sort pp svs)"
    by (auto simp: detect_cycles_def is_ok_iff bind_res_Ok_iff)
  ultimately show ?thesis using c o l by (auto simp: get_start_order_def)
qed

lemma start_levels_iff_order_example:
  "is_ok (get_start_levels example_services) \<and> is_ok (detect_cycles std_partition_point example_services)"
  using start_levels_iff_order [OF example_wf, of std_partition_point] by (simp add: example_order)

subsection \<open>The services that one service needs\<close>

lemma collect_deps_reach:
  "collect_deps svs service needed = Ok r \<Longrightarrow> set needed \<subseteq> set r \<and> service \<in> set r \<and>
     (\<forall>n \<in> set r - set needed. (n = service \<or> hm_contains svs n) \<and>
        (service, n) \<in> (dep_rel svs)\<^sup>* \<and> set (service_deps svs n) \<subseteq> set r)"
  "collect_dep_list svs service deps needed = Ok r \<Longrightarrow> set needed \<subseteq> set r \<and> set deps \<subseteq> set r \<and>
     (\<forall>n \<in> set r - set needed. hm_contains svs n \<and>
        (\<exists>d \<in> set deps. (d, n) \<in> (dep_rel svs)\<^sup>*) \<and> set (service_deps svs n) \<subseteq> set r)"
proof (induction svs service needed and svs service deps needed arbitrary: r and r
    rule: collect_deps_collect_dep_list.induct)
  case (1 svs service needed)
  show ?case
  proof (cases "service \<in> set needed")
    case False
    show ?thesis
    proof (cases "hm_get svs service")
      case None
      then have "r = service # needed" using "1.prems" False by (simp add: collect_deps.simps)
      then show ?thesis using False None by (auto simp: service_deps_def)
    next
      case (Some raw)
      let ?deps = "names (rs_depends_on raw)"
      have l: "collect_dep_list svs service ?deps (service # needed) = Ok r"
        using "1.prems" False Some by (simp add: collect_deps.simps)
      note ih = "1.IH" [OF False Some l]
      have sd: "service_deps svs service = ?deps" using Some by (simp add: service_deps_def)
      have edge: "(service, d) \<in> dep_rel svs" if "d \<in> set ?deps" for d
        using that sd hm_get_Some_contains [OF Some] by (simp add: dep_rel_def)
      have reach: "(service, n) \<in> (dep_rel svs)\<^sup>*" if "d \<in> set ?deps" "(d, n) \<in> (dep_rel svs)\<^sup>*" for d n
        using edge [OF that(1)] that(2) by (rule converse_rtrancl_into_rtrancl)
      have "(n = service \<or> hm_contains svs n) \<and> (service, n) \<in> (dep_rel svs)\<^sup>* \<and> set (service_deps svs n) \<subseteq> set r"
        if "n \<in> set r - set needed" for n
      proof (cases "n = service")
        case True
        then show ?thesis using ih sd by auto
      next
        case False
        then have "n \<in> set r - set (service # needed)" using that by simp
        then show ?thesis using ih reach by blast
      qed
      then show ?thesis using ih by auto
    qed
  qed (use "1.prems" in \<open>simp add: collect_deps.simps\<close>)
next
  case (3 svs service dep deps needed)
  from "3.prems" obtain needed1 where c: "hm_contains svs dep" "collect_deps svs dep needed = Ok needed1"
      "collect_dep_list svs service deps needed1 = Ok r"
    by (auto split: if_splits sum.splits)
  have nc: "\<not> \<not> hm_contains svs dep" using c(1) by simp
  note ih1 = "3.IH"(1) [OF nc c(2)]
  note ih2 = "3.IH"(2) [OF nc c(2,3)]
  have "hm_contains svs n \<and> (\<exists>d \<in> set (dep # deps). (d, n) \<in> (dep_rel svs)\<^sup>*) \<and> set (service_deps svs n) \<subseteq> set r"
    if n: "n \<in> set r - set needed" for n
  proof (cases "n \<in> set needed1")
    case True
    then show ?thesis using ih1 ih2 n c(1) by auto
  qed (use ih2 n in auto)
  then show ?case using ih1 ih2 by auto
qed simp_all

lemma collect_deps_closed_Ok:
  "deps_closed svs \<Longrightarrow> is_ok (collect_deps svs service needed)"
  "deps_closed svs \<Longrightarrow> list_all (hm_contains svs) deps \<Longrightarrow> is_ok (collect_dep_list svs service deps needed)"
proof (induction svs service needed and svs service deps needed rule: collect_deps_collect_dep_list.induct)
  case (1 svs service needed)
  show ?case
  proof (cases "service \<in> set needed \<or> hm_get svs service = None")
    case False
    then obtain raw where raw: "hm_get svs service = Some raw" by auto
    have "service \<in> set (hm_keys svs)" using hm_get_Some_contains [OF raw] by (simp add: hm_contains_def)
    then have "list_all (hm_contains svs) (names (rs_depends_on raw))"
      using "1.prems" raw by (auto simp: deps_closed_def list_all_iff service_deps_def)
    then show ?thesis using "1.IH" [OF _ raw "1.prems"] False raw by (simp add: collect_deps.simps)
  qed (auto simp: collect_deps.simps)
next
  case (3 svs service dep deps needed)
  have "is_ok (collect_deps svs dep needed)" using 3 by simp
  then obtain r where r: "collect_deps svs dep needed = Ok r" by (auto simp: is_ok_iff)
  show ?case using "3.IH"(2) [OF _ r "3.prems"(1)] "3.prems" r by simp
qed simp_all

lemma filtered_deps:
  "k \<in> N \<Longrightarrow> service_deps (filter (\<lambda>(k, _). k \<in> N) svs) k = service_deps svs k"
  by (induction svs) (auto simp: service_deps_def hm_get_def)

lemma filtered_keys: "set (hm_keys (filter (\<lambda>(k, _). k \<in> N) svs)) = set (hm_keys svs) \<inter> N"
  by (force simp: hm_keys_def)

lemma reach_closed:
  assumes "\<And>n. n \<in> N \<Longrightarrow> set (service_deps svs n) \<subseteq> N" "(s, n) \<in> (dep_rel svs)\<^sup>*" "s \<in> N"
  shows "n \<in> N"
  using assms(2,3) by (induction rule: rtrancl_induct) (use assms(1) in \<open>auto simp: dep_rel_def\<close>)

lemma collect_deps_set:
  assumes "collect_deps svs service [] = Ok needed" "hm_contains svs service"
  shows "set needed = {n. (service, n) \<in> (dep_rel svs)\<^sup>*}" "set needed \<subseteq> set (hm_keys svs)"
    "\<And>n. n \<in> set needed \<Longrightarrow> set (service_deps svs n) \<subseteq> set needed"
proof -
  note r = collect_deps_reach(1) [OF assms(1)]
  show c: "set (service_deps svs n) \<subseteq> set needed" if "n \<in> set needed" for n using r that by auto
  show "set needed = {n. (service, n) \<in> (dep_rel svs)\<^sup>*}"
    using r reach_closed [of "set needed" svs service] c by auto
  show "set needed \<subseteq> set (hm_keys svs)" using r assms(2) by (auto simp: hm_contains_def)
qed

text \<open>
  C31. The order for one service contains exactly that service and the services it depends on,
  directly or through others, each after its dependencies; it exists for every service of a
  configuration that has a start order.
\<close>

theorem service_with_deps_correct:
  assumes "hm_wf svs"
  shows "(\<forall>order. get_service_with_deps pp service svs = Ok order \<longrightarrow>
      distinct order \<and> set order = {n. (service, n) \<in> (dep_rel svs)\<^sup>*} \<and>
      (\<forall>i < length order. set (service_deps svs (order ! i)) \<subseteq> set (take i order))) \<and>
    (hm_contains svs service \<and> is_ok (get_start_order pp svs) \<longrightarrow>
      is_ok (get_service_with_deps pp service svs))"
proof ((rule conjI; (rule allI)?; rule impI), goal_cases)
  case (1 order)
  then obtain needed where c: "hm_contains svs service" "collect_deps svs service [] = Ok needed"
      "get_start_order pp (filter (\<lambda>(k, _). k \<in> set needed) svs) = Ok order"
    by (auto simp: get_service_with_deps_def get_start_order_def bind_res_Ok_iff split: if_splits)
  note n = collect_deps_set [OF c(2,1)]
  have o: "distinct order" "set order = set needed"
      "\<forall>i < length order. set (service_deps (filter (\<lambda>(k, _). k \<in> set needed) svs) (order ! i)) \<subseteq> set (take i order)"
    using start_order_facts [OF hm_filter_wf [OF assms] c(3)] n(2) filtered_keys [of "set needed" svs] by auto
  have "set (service_deps svs (order ! i)) \<subseteq> set (take i order)" if "i < length order" for i
    using o(3) that filtered_deps [of "order ! i" "set needed" svs] o(2) nth_mem by fastforce
  then show ?case using o n(1) by auto
next
  case 2
  then have cl: "deps_closed svs" and ac: "acyclic (dep_rel svs)"
    using topological_sort_Ok_iff [OF assms] by (simp_all add: get_start_order_def)
  obtain needed where c: "collect_deps svs service [] = Ok needed"
    using collect_deps_closed_Ok(1) [OF cl] by (auto simp: is_ok_iff)
  let ?f = "filter (\<lambda>(k, _). k \<in> set needed) svs"
  note n = collect_deps_set [OF c conjunct1 [OF 2]]
  have keys: "set (hm_keys ?f) = set needed" using filtered_keys [of "set needed" svs] n(2) by auto
  have "deps_closed ?f"
    using n(3) keys filtered_deps [of _ "set needed" svs] by (auto simp: deps_closed_def list_all_iff hm_contains_def)
  moreover have "dep_rel ?f \<subseteq> dep_rel svs"
    using keys n(2) filtered_deps [of _ "set needed" svs] by (auto simp: dep_rel_def hm_contains_def)
  then have "acyclic (dep_rel ?f)" using ac acyclic_subset by blast
  ultimately show ?case
    using topological_sort_Ok_iff [OF hm_filter_wf [OF assms]] 2 c by (simp add: get_service_with_deps_def)
qed

theorem service_with_deps_correct_witness:
  "set [''db'', ''api''] = {n. (''api'', n) \<in> (dep_rel example_services)\<^sup>*}"
proof -
  have "get_service_with_deps std_partition_point ''api'' example_services = Ok [''db'', ''api'']" by code_simp
  then show ?thesis using service_with_deps_correct [OF example_wf] by blast
qed

end
