(* ===== verification/Deps_Conditions.thy ===== *)
theory Deps_Conditions
  imports Deps
begin

text \<open>
  Correctness of the conditions of \<^verbatim>\<open>deps.rs\<close>: a service that is not active satisfies a dependency
  for good, will be restarted, or will never satisfy it, and the answers of the code tell
  these cases apart; what a restart policy makes unreachable.
\<close>

text \<open>The process has ended and the restart policy brings it back.\<close>

definition restart_pending :: "service_state \<Rightarrow> restart_config \<Rightarrow> bool" where
  "restart_pending st cfg =
     ((ss_status st = Exited \<or> ss_status st = Killed) \<and> should_restart_on_exit cfg (ss_exit_code st))"

lemma transient_pending: "is_transient_satisfaction st cfg \<longleftrightarrow> restart_pending st cfg"
  by (auto simp: is_transient_satisfaction_def restart_pending_def restart_follows_def)

lemma met_with_policy:
  "is_condition_met st dc (Some cfg) \<longleftrightarrow> is_condition_met st dc None \<and> \<not> restart_pending st cfg"
  by (auto simp: is_condition_met_def transient_pending restart_pending_def)

lemma inactive_cases:
  "\<not> is_active s \<longleftrightarrow> s = Stopped \<or> s = Failed \<or> s = Exited \<or> s = Killed \<or> s = Skipped"
  by (simp add: is_active_def)

text \<open>
  For a service that is not active exactly one of three holds, whatever the condition: it is met
  and stays met; the restart policy will start the service again; or the condition is
  permanently unsatisfied.
\<close>

lemma dependency_trichotomy:
  assumes "\<not> is_active (ss_status st)"
  shows "(is_condition_met st dc (Some cfg) \<or> restart_pending st cfg \<or>
      is_dependency_permanently_unsatisfied dc (Some st) (Some st) cfg) \<and>
    \<not> (is_condition_met st dc (Some cfg) \<and> restart_pending st cfg) \<and>
    \<not> (is_condition_met st dc (Some cfg) \<and> is_dependency_permanently_unsatisfied dc (Some st) (Some st) cfg) \<and>
    \<not> (restart_pending st cfg \<and> is_dependency_permanently_unsatisfied dc (Some st) (Some st) cfg)"
  using assms unfolding inactive_cases met_with_policy
  by (elim disjE) (auto simp: is_dependency_permanently_unsatisfied_def check_dependency_satisfied_def
      restart_pending_def restart_follows_def is_condition_met_def)

lemma dependency_trichotomy_example:
  "let st = service_state_default\<lparr>ss_status := Exited, ss_exit_code := Some 1\<rparr>;
       dc = dependency_config_default\<lparr>dc_condition := ServiceFailed\<rparr>
   in is_condition_met st dc (Some (RestartSimple policy_no)) \<or> restart_pending st (RestartSimple policy_no) \<or>
      is_dependency_permanently_unsatisfied dc (Some st) (Some st) (RestartSimple policy_no)"
  using dependency_trichotomy [of "service_state_default\<lparr>ss_status := Exited, ss_exit_code := Some 1\<rparr>"
      "dependency_config_default\<lparr>dc_condition := ServiceFailed\<rparr>" "RestartSimple policy_no"]
  by (simp add: is_active_def Let_def)



text \<open>
  The message that such a condition can never be met is too strong: with the policy
  \<^verbatim>\<open>always\<close> a dependency that failed to start meets \<^verbatim>\<open>service_failed\<close>, and one that was
  stopped meets \<^verbatim>\<open>service_stopped\<close>.
\<close>

lemma unreachable_condition_met:
  "is_condition_unreachable_by_policy name ServiceFailed policy_always = Some (name, ServiceFailed) \<and>
   is_condition_unreachable_by_policy name ServiceStopped policy_always = Some (name, ServiceStopped) \<and>
   is_condition_met (service_state_default\<lparr>ss_status := Failed\<rparr>)
     (dependency_config_default\<lparr>dc_condition := ServiceFailed\<rparr>) (Some (RestartSimple policy_always)) \<and>
   is_condition_met (service_state_default\<lparr>ss_status := Stopped\<rparr>)
     (dependency_config_default\<lparr>dc_condition := ServiceStopped\<rparr>) (Some (RestartSimple policy_always))"
  by (simp add: is_condition_unreachable_by_policy_def Let_def policy_contains_def policy_always_def flag_defs
      is_condition_met_def is_transient_satisfaction_def code_matches_def filter_matches_def
      dependency_config_default_def)

end
