(* ===== verification/Users.thy ===== *)
theory Users
  imports Kepler_Prelude
begin

text \<open>
  Users and groups (\<^verbatim>\<open>kepler-daemon/src/user.rs\<close>, \<^verbatim>\<open>kepler-unix/src/groups.rs\<close>): resolution of a
  user specification, group lists, and the removal of the daemon's own group. The user and
  group databases and the C library's \<^verbatim>\<open>getgrouplist\<close> are a parameter, the record \<open>os_db\<close>.
\<close>

record passwd =
  pw_name :: string
  pw_uid :: nat
  pw_gid :: nat
  pw_dir :: string
  pw_shell :: string

text \<open>
  The databases answer with an error, with no entry, or with an entry. A call of
  \<^verbatim>\<open>getgrouplist\<close> with a buffer of a given size fails and reports the size it needs, or returns
  the groups.
\<close>

record os_db =
  user_from_name :: "string \<Rightarrow> (string, passwd option) result"
  user_from_uid :: "nat \<Rightarrow> (string, passwd option) result"
  group_from_name :: "string \<Rightarrow> (string, nat option) result"
  libc_getgrouplist :: "string \<Rightarrow> nat \<Rightarrow> nat \<Rightarrow> (nat, nat list) result"
  sysconf_ngroups_max :: int

definition ngroups_max :: "os_db \<Rightarrow> nat" where
  "ngroups_max db = (if sysconf_ngroups_max db < 0 then 65536 else nat (sysconf_ngroups_max db))"

text \<open>
  The retry loop starts with a buffer of 16 and only grows it, so the guard on an empty buffer,
  which makes the recursion terminate on every argument, is never the reason it ends.
\<close>

function getgrouplist_loop :: "os_db \<Rightarrow> string \<Rightarrow> nat \<Rightarrow> nat \<Rightarrow> (string, nat list) result" where
  "getgrouplist_loop db user base_gid prev_len =
     (case libc_getgrouplist db user base_gid prev_len of
        Inr groups \<Rightarrow> Ok groups
      | Inl ngroups \<Rightarrow>
          (let new_len = (if ngroups > prev_len then ngroups else prev_len * 2) in
           if new_len > 1024 \<or> prev_len = 0 then Err ''EINVAL''
           else getgrouplist_loop db user base_gid new_len))"
  by pat_completeness auto
termination
  by (relation "measure (\<lambda>(db, u, g, n). 1025 - n)") auto

declare getgrouplist_loop.simps [simp del]

definition getgrouplist :: "os_db \<Rightarrow> string \<Rightarrow> nat \<Rightarrow> (string, nat list) result" where
  "getgrouplist db user base_gid = getgrouplist_loop db user base_gid 16"

text \<open>\<^verbatim>\<open>CString::new\<close> fails on a string with a zero byte.\<close>

definition cstring_ok :: "string \<Rightarrow> bool" where
  "cstring_ok s = (CHR 0x00 \<notin> set s)"

definition uid_has_gid :: "os_db \<Rightarrow> nat \<Rightarrow> nat \<Rightarrow> bool" where
  "uid_has_gid db uid target_gid = (case user_from_uid db uid of
      Inr (Some user) \<Rightarrow>
        cstring_ok (pw_name user) \<and>
        (case getgrouplist db (pw_name user) (pw_gid user) of
           Inr gids \<Rightarrow> target_gid \<in> set gids
         | Inl _ \<Rightarrow> False)
    | _ \<Rightarrow> False)"

subsection \<open>User specifications\<close>

record resolved_user =
  ru_uid :: nat
  ru_gid :: nat
  ru_username :: "string option"
  ru_home :: "string option"
  ru_shell :: "string option"

datatype user_error = UserNotFound string | GroupNotFound string | UserInternal string

definition lookup_user_by_uid :: "os_db \<Rightarrow> nat \<Rightarrow> passwd option" where
  "lookup_user_by_uid db uid = (case user_from_uid db uid of Inr u \<Rightarrow> u | Inl _ \<Rightarrow> None)"

definition user_entry :: "os_db \<Rightarrow> string \<Rightarrow> string \<Rightarrow> (user_error, passwd) result" where
  "user_entry db name spec = (case user_from_name db name of
      Inr (Some u) \<Rightarrow> Ok u
    | _ \<Rightarrow> Err (UserNotFound spec))"

definition resolve_user_part ::
    "os_db \<Rightarrow> string \<Rightarrow> string \<Rightarrow> (user_error, nat \<times> string option \<times> string option \<times> string option) result" where
  "resolve_user_part db spec full_spec = (case parse_unsigned 32 spec of
      Some uid \<Rightarrow> (case lookup_user_by_uid db uid of
          Some u \<Rightarrow> Ok (uid, Some (pw_name u), Some (pw_dir u), Some (pw_shell u))
        | None \<Rightarrow> Ok (uid, None, None, None))
    | None \<Rightarrow> bind_res (user_entry db spec full_spec)
        (\<lambda>u. Ok (pw_uid u, Some (pw_name u), Some (pw_dir u), Some (pw_shell u))))"

definition resolve_group :: "os_db \<Rightarrow> string \<Rightarrow> (user_error, nat) result" where
  "resolve_group db grp = (case parse_unsigned 32 grp of
      Some gid \<Rightarrow> Ok gid
    | None \<Rightarrow> (case group_from_name db grp of
          Inr (Some gid) \<Rightarrow> Ok gid
        | _ \<Rightarrow> Err (GroupNotFound grp)))"

definition resolve_user :: "os_db \<Rightarrow> string \<Rightarrow> (user_error, resolved_user) result" where
  "resolve_user db user = (case split_once (CHR '':'') user of
      Some (left, right) \<Rightarrow>
        bind_res (resolve_user_part db left user) (\<lambda>(uid, username, home, shell).
        bind_res (resolve_group db right) (\<lambda>gid.
          Ok \<lparr>ru_uid = uid, ru_gid = gid, ru_username = username, ru_home = home, ru_shell = shell\<rparr>))
    | None \<Rightarrow> (case parse_unsigned 32 user of
        Some uid \<Rightarrow> (case lookup_user_by_uid db uid of
            Some u \<Rightarrow> Ok \<lparr>ru_uid = uid, ru_gid = pw_gid u, ru_username = Some (pw_name u),
                         ru_home = Some (pw_dir u), ru_shell = Some (pw_shell u)\<rparr>
          | None \<Rightarrow> Ok \<lparr>ru_uid = uid, ru_gid = uid, ru_username = None, ru_home = None, ru_shell = None\<rparr>)
      | None \<Rightarrow> bind_res (user_entry db user user) (\<lambda>u.
          Ok \<lparr>ru_uid = pw_uid u, ru_gid = pw_gid u, ru_username = Some user,
               ru_home = Some (pw_dir u), ru_shell = Some (pw_shell u)\<rparr>)))"

definition resolve_user_env :: "os_db \<Rightarrow> string \<Rightarrow> (user_error, string \<rightharpoonup> string) result" where
  "resolve_user_env db user_spec = bind_res (resolve_user db user_spec) (\<lambda>r.
     let env1 = (case ru_username r of Some n \<Rightarrow> [''USER'' \<mapsto> n, ''LOGNAME'' \<mapsto> n] | None \<Rightarrow> Map.empty);
         env2 = (case ru_home r of Some h \<Rightarrow> env1(''HOME'' \<mapsto> h) | None \<Rightarrow> env1);
         env3 = (case ru_shell r of Some s \<Rightarrow> env2(''SHELL'' \<mapsto> s) | None \<Rightarrow> env2)
     in Ok env3)"

subsection \<open>Supplementary groups of spawned processes\<close>

definition strip_kepler_group :: "os_db \<Rightarrow> string list \<Rightarrow> nat \<Rightarrow> string list" where
  "strip_kepler_group db groups kepler_gid = filter (\<lambda>g.
     if g = show_nat kepler_gid then False
     else (case resolve_group db g of Inr resolved \<Rightarrow> resolved \<noteq> kepler_gid | Inl _ \<Rightarrow> True)) groups"

definition compute_groups_excluding :: "os_db \<Rightarrow> string \<Rightarrow> nat \<Rightarrow> (user_error, string list) result" where
  "compute_groups_excluding db user_spec exclude_gid =
     bind_res (resolve_user db user_spec) (\<lambda>r.
       case ru_username r of
         None \<Rightarrow> if ru_gid r = exclude_gid then Ok [] else Ok [show_nat (ru_gid r)]
       | Some username \<Rightarrow>
           if \<not> cstring_ok username then Err (UserInternal username)
           else (case getgrouplist db username (ru_gid r) of
              Inl e \<Rightarrow> Err (UserInternal e)
            | Inr gids \<Rightarrow> Ok (map show_nat (filter (\<lambda>gid. gid \<noteq> exclude_gid) gids))))"

definition effective_groups :: "os_db \<Rightarrow> string list \<Rightarrow> string option \<Rightarrow> nat option \<Rightarrow> string list" where
  "effective_groups db groups user kepler_gid =
     (let res = (case (groups = [], user, kepler_gid) of
          (True, Some user_spec, Some kgid) \<Rightarrow>
            (case compute_groups_excluding db user_spec kgid of Inr g \<Rightarrow> g | Inl _ \<Rightarrow> groups)
        | _ \<Rightarrow> groups)
      in case kepler_gid of Some kgid \<Rightarrow> strip_kepler_group db res kgid | None \<Rightarrow> res)"

subsection \<open>Facts\<close>

lemma getgrouplist_loop_fits:
  assumes fits: "\<And>len. libc_getgrouplist db user gid len =
      (if length groups \<le> len then Ok groups else Err (length groups))"
    and len: "0 < len" and cap: "length groups \<le> 1024"
  shows "getgrouplist_loop db user gid len = Ok groups"
proof (cases "length groups \<le> len")
  case True
  then show ?thesis by (simp add: getgrouplist_loop.simps fits)
next
  case False
  have "getgrouplist_loop db user gid len = getgrouplist_loop db user gid (length groups)"
    using False len cap by (subst getgrouplist_loop.simps) (simp add: fits)
  also have "\<dots> = Ok groups" by (simp add: getgrouplist_loop.simps fits)
  finally show ?thesis .
qed

lemma strip_kepler_group_none:
  "g \<in> set (strip_kepler_group db groups kgid) \<Longrightarrow> resolve_group db g \<noteq> Ok kgid"
  by (auto simp: strip_kepler_group_def split: if_splits sum.splits)

lemma effective_groups_no_kepler:
  "g \<in> set (effective_groups db groups user (Some kgid)) \<Longrightarrow> resolve_group db g \<noteq> Ok kgid"
  unfolding effective_groups_def Let_def option.case by (rule strip_kepler_group_none)

text \<open>A specification \<^verbatim>\<open>uid:gid\<close> of numbers resolves to them, whatever the databases contain.\<close>

lemma resolve_user_numeric:
  assumes "u < 2 ^ 32" "g < 2 ^ 32"
  obtains r where "resolve_user db (show_nat u @ '':'' @ show_nat g) = Ok r" "ru_uid r = u" "ru_gid r = g"
proof -
  have "split_once (CHR '':'') (show_nat u @ '':'' @ show_nat g) = Some (show_nat u, show_nat g)"
    using split_once_append [of "CHR '':''" "show_nat u" "show_nat g"] show_nat_no_char [of "CHR '':''" u]
    by (simp add: is_ascii_digit_def)
  then show thesis
    using assms that
    by (cases "lookup_user_by_uid db u")
      (simp_all add: resolve_user_def resolve_user_part_def resolve_group_def parse_show_unsigned)
qed

end
