(* ===== verification/Privileges.thy ===== *)
theory Privileges
  imports Service_Config Users
begin

text \<open>
  How a spawned command gets its credentials: \<^verbatim>\<open>CommandSpec\<close>
  (\<^verbatim>\<open>kepler-daemon/src/process/command.rs\<close>), \<^verbatim>\<open>build_command\<close> with its checks
  (\<^verbatim>\<open>process/spawn.rs\<close>), and the wrapper \<^verbatim>\<open>kepler-exec\<close> (\<^verbatim>\<open>kepler-exec/src/main.rs\<close>) that reads the
  arguments the daemon built, applies limits, drops privileges and executes the command. System
  calls are a parameter, the record \<open>kernel\<close>; a call acts on the state of the calling process.
\<close>

subsection \<open>The daemon's side\<close>

record command_spec =
  cs_program_and_args :: "string list"
  cs_working_dir :: string
  cs_environment :: "string \<rightharpoonup> string"
  cs_user :: "string option"
  cs_groups :: "string list"
  cs_limits :: "resource_limits option"
  cs_clear_env :: bool
  cs_no_new_privileges :: bool
  cs_cgroup_path :: "string option"

definition command_spec_new ::
    "string list \<Rightarrow> string \<Rightarrow> (string \<rightharpoonup> string) \<Rightarrow> string option \<Rightarrow> string list \<Rightarrow> command_spec" where
  "command_spec_new program_and_args working_dir environment user groups =
     \<lparr>cs_program_and_args = program_and_args, cs_working_dir = working_dir, cs_environment = environment,
      cs_user = user, cs_groups = groups, cs_limits = None, cs_clear_env = True,
      cs_no_new_privileges = True, cs_cgroup_path = None\<rparr>"

definition with_limits ::
    "string list \<Rightarrow> string \<Rightarrow> (string \<rightharpoonup> string) \<Rightarrow> string option \<Rightarrow> string list \<Rightarrow> resource_limits option
     \<Rightarrow> command_spec" where
  "with_limits program_and_args working_dir environment user groups limits =
     \<lparr>cs_program_and_args = program_and_args, cs_working_dir = working_dir, cs_environment = environment,
      cs_user = user, cs_groups = groups, cs_limits = limits, cs_clear_env = True,
      cs_no_new_privileges = True, cs_cgroup_path = None\<rparr>"

definition with_all_options ::
    "string list \<Rightarrow> string \<Rightarrow> (string \<rightharpoonup> string) \<Rightarrow> string option \<Rightarrow> string list \<Rightarrow> resource_limits option
     \<Rightarrow> bool \<Rightarrow> bool \<Rightarrow> command_spec" where
  "with_all_options program_and_args working_dir environment user groups limits clear_env no_new_privileges =
     \<lparr>cs_program_and_args = program_and_args, cs_working_dir = working_dir, cs_environment = environment,
      cs_user = user, cs_groups = groups, cs_limits = limits, cs_clear_env = clear_env,
      cs_no_new_privileges = no_new_privileges, cs_cgroup_path = None\<rparr>"

text \<open>What the daemon reads of the wrapper binary before it trusts it; the mode bits \<^verbatim>\<open>0o020\<close> and
  \<^verbatim>\<open>0o002\<close> are \<^verbatim>\<open>0x10\<close> and \<^verbatim>\<open>0x02\<close>.\<close>

record file_meta =
  fm_is_symlink :: bool
  fm_uid :: nat
  fm_mode :: "32 word"

definition verify_binary_permissions :: "file_meta option \<Rightarrow> nat \<Rightarrow> bool" where
  "verify_binary_permissions meta my_euid = (case meta of
      None \<Rightarrow> False
    | Some md \<Rightarrow>
        if fm_is_symlink md then False
        else if fm_uid md \<noteq> 0 \<and> fm_uid md \<noteq> my_euid then False
        else if and (fm_mode md) 0x10 \<noteq> 0 then False
        else if and (fm_mode md) 0x02 \<noteq> 0 then False
        else True)"

datatype spawn_error = EmptyCommand | ExecNotFound | SpawnUser user_error | NoWorkingDir string

record command =
  cmd_program :: string
  cmd_args :: "string list"
  cmd_dir :: string
  cmd_env_clear :: bool
  cmd_envs :: "string \<rightharpoonup> string"

definition limit_args :: "resource_limits \<Rightarrow> string list" where
  "limit_args limits =
     (case rl_memory limits of
        Some mem_str \<Rightarrow> (case parse_memory_limit mem_str of
            Inr bytes \<Rightarrow> [''--rlimit-as'', show_nat bytes]
          | Inl _ \<Rightarrow> [])
      | None \<Rightarrow> [])
     @ (case rl_cpu_time limits of Some s \<Rightarrow> [''--rlimit-cpu'', show_nat s] | None \<Rightarrow> [])
     @ (case rl_max_fds limits of Some n \<Rightarrow> [''--rlimit-nofile'', show_nat n] | None \<Rightarrow> [])"

definition wrapper_args :: "os_db \<Rightarrow> command_spec \<Rightarrow> (spawn_error, string list) result" where
  "wrapper_args db spec =
     bind_res (case cs_user spec of
        Some user \<Rightarrow> bind_res (map_err SpawnUser (resolve_user db user)) (\<lambda>_. Ok [''--user'', user])
      | None \<Rightarrow> Ok []) (\<lambda>user_args.
     bind_res (if cs_groups spec \<noteq> [] then
         bind_res (try_fold (\<lambda>_ g. bind_res (map_err SpawnUser (resolve_group db g)) (\<lambda>_. Ok ())) ()
                     (cs_groups spec))
           (\<lambda>_. Ok [''--groups'', join '','' (take (ngroups_max db) (cs_groups spec))])
       else Ok []) (\<lambda>group_args.
     Ok (user_args @ group_args
         @ (case cs_limits spec of Some limits \<Rightarrow> limit_args limits | None \<Rightarrow> [])
         @ (if cs_no_new_privileges spec then [''--no-new-privileges''] else [])
         @ (case cs_cgroup_path spec of Some cgroup \<Rightarrow> [''--cgroup'', cgroup] | None \<Rightarrow> [])
         @ ''--'' # cs_program_and_args spec)))"

definition needs_wrapper :: "command_spec \<Rightarrow> bool" where
  "needs_wrapper spec = (cs_user spec \<noteq> None \<or> cs_limits spec \<noteq> None \<or> cs_no_new_privileges spec
     \<or> cs_cgroup_path spec \<noteq> None)"

definition build_command ::
    "os_db \<Rightarrow> string option \<Rightarrow> (string \<Rightarrow> bool) \<Rightarrow> command_spec \<Rightarrow> (spawn_error, command \<times> string) result" where
  "build_command db find_kepler_exec dir_exists spec = (case cs_program_and_args spec of
      [] \<Rightarrow> Err EmptyCommand
    | program # args \<Rightarrow>
        bind_res (if needs_wrapper spec
          then bind_res (ok_or ExecNotFound find_kepler_exec) (\<lambda>exec_path.
               bind_res (wrapper_args db spec) (\<lambda>wargs. Ok (exec_path, wargs)))
          else Ok (program, args)) (\<lambda>(prog, argv).
        if \<not> dir_exists (cs_working_dir spec) then Err (NoWorkingDir (cs_working_dir spec))
        else Ok (\<lparr>cmd_program = prog, cmd_args = argv, cmd_dir = cs_working_dir spec,
                  cmd_env_clear = cs_clear_env spec, cmd_envs = cs_environment spec\<rparr>, program)))"


subsection \<open>The wrapper\<close>

record exec_options =
  eo_user :: "string option"
  eo_groups :: "string option"
  eo_rlimit_as :: "nat option"
  eo_rlimit_cpu :: "nat option"
  eo_rlimit_nofile :: "nat option"
  eo_no_new_privileges :: bool
  eo_cgroup :: "string option"

definition no_options :: exec_options where
  "no_options = \<lparr>eo_user = None, eo_groups = None, eo_rlimit_as = None, eo_rlimit_cpu = None,
     eo_rlimit_nofile = None, eo_no_new_privileges = False, eo_cgroup = None\<rparr>"

text \<open>Every error of the wrapper ends the process with exit code 127.\<close>

datatype exec_error =
    RefuseSetuid
  | UnknownArgument string
  | MissingValue string
  | InvalidValue string string
  | MissingCommand
  | ExecUserNotFound string
  | ExecGroupNotFound string
  | SyscallFailed string
  | InvalidProgram

fun exec_parse :: "exec_options \<Rightarrow> string list \<Rightarrow> (exec_error, exec_options \<times> string list) result" where
  "exec_parse opts [] = Err MissingCommand"
| "exec_parse opts (a # rest) =
     (if a = ''--no-new-privileges'' then exec_parse (opts\<lparr>eo_no_new_privileges := True\<rparr>) rest
      else if a = ''--'' then (if rest = [] then Err MissingCommand else Ok (opts, rest))
      else if a \<notin> {''--user'', ''--groups'', ''--rlimit-as'', ''--rlimit-cpu'', ''--rlimit-nofile'', ''--cgroup''}
        then Err (UnknownArgument a)
      else (case rest of
          [] \<Rightarrow> Err (MissingValue a)
        | v # rest' \<Rightarrow>
            if a = ''--user'' then exec_parse (opts\<lparr>eo_user := Some v\<rparr>) rest'
            else if a = ''--groups'' then exec_parse (opts\<lparr>eo_groups := Some v\<rparr>) rest'
            else if a = ''--cgroup'' then exec_parse (opts\<lparr>eo_cgroup := Some v\<rparr>) rest'
            else (case parse_unsigned 64 v of
                None \<Rightarrow> Err (InvalidValue a v)
              | Some n \<Rightarrow>
                  if a = ''--rlimit-as'' then exec_parse (opts\<lparr>eo_rlimit_as := Some n\<rparr>) rest'
                  else if a = ''--rlimit-cpu'' then exec_parse (opts\<lparr>eo_rlimit_cpu := Some n\<rparr>) rest'
                  else exec_parse (opts\<lparr>eo_rlimit_nofile := Some n\<rparr>) rest')))"

text \<open>The wrapper resolves users and groups itself.\<close>

definition exec_lookup_name :: "os_db \<Rightarrow> string \<Rightarrow> (exec_error, passwd) result" where
  "exec_lookup_name db spec = (case user_from_name db spec of
      Inr (Some u) \<Rightarrow> Ok u
    | _ \<Rightarrow> Err (ExecUserNotFound spec))"

definition exec_resolve_user_part :: "os_db \<Rightarrow> string \<Rightarrow> (exec_error, nat \<times> string option) result" where
  "exec_resolve_user_part db spec = (case parse_unsigned 32 spec of
      Some uid \<Rightarrow> Ok (uid, (case user_from_uid db uid of Inr (Some u) \<Rightarrow> Some (pw_name u) | _ \<Rightarrow> None))
    | None \<Rightarrow> bind_res (exec_lookup_name db spec) (\<lambda>u. Ok (pw_uid u, Some (pw_name u))))"

definition exec_resolve_group :: "os_db \<Rightarrow> string \<Rightarrow> (exec_error, nat) result" where
  "exec_resolve_group db spec = (case parse_unsigned 32 spec of
      Some gid \<Rightarrow> Ok gid
    | None \<Rightarrow> (case group_from_name db spec of
          Inr (Some gid) \<Rightarrow> Ok gid
        | _ \<Rightarrow> Err (ExecGroupNotFound spec)))"

definition exec_resolve_user :: "os_db \<Rightarrow> string \<Rightarrow> (exec_error, nat \<times> nat \<times> string option) result" where
  "exec_resolve_user db spec = (case split_once (CHR '':'') spec of
      Some (left, right) \<Rightarrow>
        bind_res (exec_resolve_user_part db left) (\<lambda>(uid, username).
        bind_res (exec_resolve_group db right) (\<lambda>gid. Ok (uid, gid, username)))
    | None \<Rightarrow> (case parse_unsigned 32 spec of
        Some uid \<Rightarrow> (case user_from_uid db uid of
            Inr (Some u) \<Rightarrow> Ok (uid, pw_gid u, Some (pw_name u))
          | _ \<Rightarrow> Ok (uid, uid, None))
      | None \<Rightarrow> bind_res (exec_lookup_name db spec) (\<lambda>u. Ok (pw_uid u, pw_gid u, Some (pw_name u)))))"

text \<open>The process state the system calls act on, and the calls.\<close>

record proc =
  p_ruid :: nat
  p_euid :: nat
  p_rgid :: nat
  p_egid :: nat
  p_groups :: "nat list"

record kernel =
  k_join_cgroup :: "string \<Rightarrow> proc \<Rightarrow> (string, proc) result"
  k_setrlimit :: "string \<Rightarrow> nat \<Rightarrow> proc \<Rightarrow> (string, proc) result"
  k_setgroups :: "nat list \<Rightarrow> proc \<Rightarrow> (string, proc) result"
  k_initgroups :: "string \<Rightarrow> nat \<Rightarrow> proc \<Rightarrow> (string, proc) result"
  k_setgid :: "nat \<Rightarrow> proc \<Rightarrow> (string, proc) result"
  k_setuid :: "nat \<Rightarrow> proc \<Rightarrow> (string, proc) result"
  k_no_new_privileges :: "proc \<Rightarrow> (string, bool \<times> proc) result"
  k_execvp :: "string \<Rightarrow> string list \<Rightarrow> proc \<Rightarrow> (string, unit) result"

definition reject_if_setuid :: "proc \<Rightarrow> (exec_error, unit) result" where
  "reject_if_setuid p = (if p_ruid p \<noteq> p_euid p \<or> p_rgid p \<noteq> p_egid p then Err RefuseSetuid else Ok ())"

definition apply_rlimit :: "kernel \<Rightarrow> string \<Rightarrow> nat option \<Rightarrow> proc \<Rightarrow> (exec_error, proc) result" where
  "apply_rlimit k resource limit p = (case limit of
      None \<Rightarrow> Ok p
    | Some n \<Rightarrow> map_err SyscallFailed (k_setrlimit k resource n p))"

definition apply_rlimits ::
    "kernel \<Rightarrow> nat option \<Rightarrow> nat option \<Rightarrow> nat option \<Rightarrow> proc \<Rightarrow> (exec_error, proc) result" where
  "apply_rlimits k rlimit_as rlimit_cpu rlimit_nofile p =
     bind_res (apply_rlimit k ''RLIMIT_AS'' rlimit_as p) (\<lambda>p.
     bind_res (apply_rlimit k ''RLIMIT_CPU'' rlimit_cpu p) (\<lambda>p.
       apply_rlimit k ''RLIMIT_NOFILE'' rlimit_nofile p))"

definition initgroups :: "kernel \<Rightarrow> string \<Rightarrow> nat \<Rightarrow> proc \<Rightarrow> (string, proc) result" where
  "initgroups k username gid p =
     (if \<not> cstring_ok username then Err ''invalid username'' else k_initgroups k username gid p)"

definition drop_privileges ::
    "os_db \<Rightarrow> kernel \<Rightarrow> string option \<Rightarrow> nat list option \<Rightarrow> proc \<Rightarrow> (exec_error, proc) result" where
  "drop_privileges db k user_spec explicit_groups p = (case user_spec of
      None \<Rightarrow> Ok p
    | Some spec \<Rightarrow>
        bind_res (exec_resolve_user db spec) (\<lambda>(uid, gid, username).
        bind_res (map_err SyscallFailed (case explicit_groups of
            Some gids \<Rightarrow> k_setgroups k (take (ngroups_max db) gids) p
          | None \<Rightarrow> (case username of
                Some name \<Rightarrow> initgroups k name gid p
              | None \<Rightarrow> k_setgroups k [gid] p))) (\<lambda>p.
        bind_res (map_err SyscallFailed (k_setgid k gid p)) (\<lambda>p.
          map_err SyscallFailed (k_setuid k uid p)))))"

fun map_res :: "('a \<Rightarrow> ('e, 'b) result) \<Rightarrow> 'a list \<Rightarrow> ('e, 'b list) result" where
  "map_res f [] = Ok []"
| "map_res f (x # xs) = bind_res (f x) (\<lambda>y. bind_res (map_res f xs) (\<lambda>ys. Ok (y # ys)))"

definition parse_groups :: "os_db \<Rightarrow> string option \<Rightarrow> (exec_error, nat list option) result" where
  "parse_groups db groups_spec = (case groups_spec of
      None \<Rightarrow> Ok None
    | Some spec \<Rightarrow> bind_res (map_res (\<lambda>g. exec_resolve_group db (trim g)) (split_on (CHR '','') spec))
        (\<lambda>gids. Ok (Some gids)))"

text \<open>
  The whole wrapper: it ends with an error or executes the program in the returned process state.
\<close>

definition exec_main ::
    "os_db \<Rightarrow> kernel \<Rightarrow> string list \<Rightarrow> proc \<Rightarrow> (exec_error, proc \<times> string list) result" where
  "exec_main db k args p0 =
     bind_res (reject_if_setuid p0) (\<lambda>_.
     bind_res (exec_parse no_options args) (\<lambda>(opts, cmd).
     let p1 = (case eo_cgroup opts of
           Some path \<Rightarrow> (case k_join_cgroup k path p0 of Inr p \<Rightarrow> p | Inl _ \<Rightarrow> p0)
         | None \<Rightarrow> p0) in
     bind_res (apply_rlimits k (eo_rlimit_as opts) (eo_rlimit_cpu opts) (eo_rlimit_nofile opts) p1) (\<lambda>p2.
     bind_res (parse_groups db (eo_groups opts)) (\<lambda>explicit_groups.
     bind_res (drop_privileges db k (eo_user opts) explicit_groups p2) (\<lambda>p3.
     bind_res (if eo_no_new_privileges opts
         then (case k_no_new_privileges k p3 of
              Inr (_, p) \<Rightarrow> Ok p
            | Inl e \<Rightarrow> Err (SyscallFailed e))
         else Ok p3) (\<lambda>p4.
     if \<not> list_all cstring_ok cmd then Err InvalidProgram
     else bind_res (map_err SyscallFailed (k_execvp k (hd cmd) cmd p4)) (\<lambda>_. Ok (p4, cmd))))))))"


text \<open>
  Spawning a service: its groups are filtered, the command is built, and the daemon runs the
  wrapper with the arguments built for it. (A service without a user, limits, the
  no-new-privileges flag and a cgroup is executed directly and keeps the daemon's credentials.)
\<close>

definition spawn_service ::
    "os_db \<Rightarrow> kernel \<Rightarrow> string option \<Rightarrow> (string \<Rightarrow> bool) \<Rightarrow> nat option \<Rightarrow> command_spec \<Rightarrow> proc
     \<Rightarrow> (spawn_error + exec_error, proc \<times> string list) result" where
  "spawn_service db k find_kepler_exec dir_exists kepler_gid spec p =
     (let spec' = spec\<lparr>cs_groups := effective_groups db (cs_groups spec) (cs_user spec) kepler_gid\<rparr> in
      bind_res (map_err Inl (build_command db find_kepler_exec dir_exists spec')) (\<lambda>(cmd, _).
      if needs_wrapper spec' then map_err Inr (exec_main db k (cmd_args cmd) p)
      else bind_res (map_err (Inr \<circ> SyscallFailed) (k_execvp k (cmd_program cmd) (cmd_program cmd # cmd_args cmd) p))
        (\<lambda>_. Ok (p, cmd_program cmd # cmd_args cmd))))"

text \<open>
  What POSIX documents of the calls for a privileged process: \<^verbatim>\<open>setgroups\<close>, \<^verbatim>\<open>setgid\<close> and
  \<^verbatim>\<open>setuid\<close>, when they succeed, set exactly what they name; the other calls leave the credentials
  alone.
\<close>

definition posix_kernel :: "kernel \<Rightarrow> bool" where
  "posix_kernel k \<longleftrightarrow>
     (\<forall>path p p'. k_join_cgroup k path p = Ok p' \<longrightarrow> p' = p) \<and>
     (\<forall>r n p p'. k_setrlimit k r n p = Ok p' \<longrightarrow> p' = p) \<and>
     (\<forall>gs p p'. p_euid p = 0 \<longrightarrow> k_setgroups k gs p = Ok p' \<longrightarrow> p' = p\<lparr>p_groups := gs\<rparr>) \<and>
     (\<forall>n g p p'. k_initgroups k n g p = Ok p' \<longrightarrow> (\<exists>gs. p' = p\<lparr>p_groups := gs\<rparr>)) \<and>
     (\<forall>g p p'. p_euid p = 0 \<longrightarrow> k_setgid k g p = Ok p' \<longrightarrow> p' = p\<lparr>p_rgid := g, p_egid := g\<rparr>) \<and>
     (\<forall>u p p'. p_euid p = 0 \<longrightarrow> k_setuid k u p = Ok p' \<longrightarrow> p' = p\<lparr>p_ruid := u, p_euid := u\<rparr>) \<and>
     (\<forall>p b p'. k_no_new_privileges k p = Ok (b, p') \<longrightarrow> p' = p)"

text \<open>Names of groups have no comma and no surrounding white space.\<close>

definition plain_group_names :: "os_db \<Rightarrow> bool" where
  "plain_group_names db \<longleftrightarrow>
     (\<forall>n g. group_from_name db n = Ok (Some g) \<longrightarrow> CHR '','' \<notin> set n \<and> trim n = n)"

subsection \<open>The two resolutions agree\<close>

lemma lookup_user_by_uid_cases:
  "(case user_from_uid db uid of Inr (Some u) \<Rightarrow> f u | _ \<Rightarrow> d) =
   (case lookup_user_by_uid db uid of Some u \<Rightarrow> f u | None \<Rightarrow> d)"
  by (auto simp: lookup_user_by_uid_def split: sum.splits option.splits)

lemma exec_resolve_group_eq:
  "exec_resolve_group db spec = map_err (\<lambda>_. ExecGroupNotFound spec) (resolve_group db spec)"
  by (auto simp: exec_resolve_group_def resolve_group_def split: option.splits sum.splits)

lemma exec_lookup_name_eq:
  "exec_lookup_name db spec = map_err (\<lambda>_. ExecUserNotFound spec) (user_entry db spec full)"
  by (auto simp: exec_lookup_name_def user_entry_def split: option.splits sum.splits)

lemma exec_resolve_user_part_Ok:
  assumes "resolve_user_part db spec full = Ok (uid, n, rest)"
  shows "\<exists>n'. exec_resolve_user_part db spec = Ok (uid, n')"
  using assms
  by (auto simp: resolve_user_part_def exec_resolve_user_part_def exec_lookup_name_eq [of _ _ full]
      bind_res_Ok_iff split: option.splits)

lemma exec_resolve_user_part_Err:
  assumes "resolve_user_part db spec full = Err e"
  shows "\<exists>e'. exec_resolve_user_part db spec = Err e'"
  using assms
  by (auto simp: resolve_user_part_def exec_resolve_user_part_def exec_lookup_name_eq [of _ _ full]
      bind_res_Err_iff split: option.splits)

lemma exec_resolve_user_Ok:
  assumes "resolve_user db spec = Ok r"
  shows "\<exists>n. exec_resolve_user db spec = Ok (ru_uid r, ru_gid r, n)"
proof (cases "split_once (CHR '':'') spec")
  case None
  then show ?thesis
    using assms
    by (auto simp: resolve_user_def exec_resolve_user_def lookup_user_by_uid_cases exec_lookup_name_eq [of _ _ spec]
        bind_res_Ok_iff split: option.splits)
next
  case (Some lr)
  obtain left right where lr: "lr = (left, right)" by (cases lr)
  from assms Some lr obtain uid n h s g where
    u: "resolve_user_part db left spec = Ok (uid, n, h, s)" and g: "resolve_group db right = Ok g"
    and r: "ru_uid r = uid" "ru_gid r = g"
    by (auto simp: resolve_user_def bind_res_Ok_iff)
  from exec_resolve_user_part_Ok [OF u] g r Some lr show ?thesis
    by (auto simp: exec_resolve_user_def exec_resolve_group_eq)
qed

lemma exec_resolve_user_Err:
  assumes "resolve_user db spec = Err e"
  shows "\<exists>e'. exec_resolve_user db spec = Err e'"
proof (cases "split_once (CHR '':'') spec")
  case None
  then show ?thesis
    using assms
    by (auto simp: resolve_user_def exec_resolve_user_def exec_lookup_name_eq [of _ _ spec]
        bind_res_Err_iff split: option.splits)
next
  case (Some lr)
  obtain left right where lr: "lr = (left, right)" by (cases lr)
  show ?thesis
  proof (cases "resolve_user_part db left spec")
    case (Inl e1)
    from exec_resolve_user_part_Err [OF Inl] Some lr show ?thesis by (auto simp: exec_resolve_user_def)
  next
    case (Inr x)
    obtain uid n rest where x: "x = (uid, n, rest)" by (cases x)
    from exec_resolve_user_part_Ok [OF Inr [unfolded x]] obtain n' where
      "exec_resolve_user_part db left = Ok (uid, n')" ..
    moreover from assms Some lr Inr x obtain e2 where "resolve_group db right = Err e2"
      by (auto simp: resolve_user_def bind_res_Err_iff split: prod.splits)
    ultimately show ?thesis using Some lr by (simp add: exec_resolve_user_def exec_resolve_group_eq)
  qed
qed

text \<open>
  C38. The daemon's check of a user specification and the wrapper's own resolution agree on every
  specification: the wrapper accepts exactly those the daemon accepted, with the same user and
  primary group ids.
\<close>

theorem exec_resolve_user_agrees:
  "map_err (\<lambda>_. ()) (bind_res (exec_resolve_user db spec) (\<lambda>(uid, gid, _). Ok (uid, gid))) =
   map_err (\<lambda>_. ()) (bind_res (resolve_user db spec) (\<lambda>r. Ok (ru_uid r, ru_gid r)))"
proof (cases "resolve_user db spec")
  case (Inl e)
  from exec_resolve_user_Err [OF Inl] Inl show ?thesis by auto
next
  case (Inr r)
  from exec_resolve_user_Ok [OF Inr] Inr show ?thesis by auto
qed


subsection \<open>What the wrapper reads of the daemon's arguments\<close>

lemma parse_unsigned_plain:
  assumes "parse_unsigned w s = Some n"
  shows "s \<noteq> []" "\<And>c. c \<in> set s \<Longrightarrow> c = CHR ''+'' \<or> is_ascii_digit c"
  using assms
  by (auto simp: parse_unsigned_def Let_def list_all_iff split: list.splits if_splits)

lemma resolve_group_plain:
  assumes names: "plain_group_names db" and ok: "resolve_group db g = Ok gid"
  shows "CHR '','' \<notin> set g" "trim g = g"
proof -
  have "CHR '','' \<notin> set g \<and> trim g = g"
  proof (cases "parse_unsigned 32 g")
    case None
    with ok names show ?thesis
      by (auto simp: resolve_group_def plain_group_names_def split: sum.splits option.splits)
  next
    case (Some n)
    note chars = parse_unsigned_plain [OF Some]
    have "printable c" if "c \<in> set g" for c
      using chars(2) [OF that] digit_printable by (auto simp: printable_def)
    moreover have "CHR '','' \<notin> set g"
      using chars(2) [of "CHR '',''"] by (auto simp: is_ascii_digit_def)
    ultimately show ?thesis using chars(1) by (simp add: trim_printable)
  qed
  then show "CHR '','' \<notin> set g" "trim g = g" by simp_all
qed

lemma map_res_Ok_iff: "map_res f xs = Ok ys \<longleftrightarrow> map f xs = map Ok ys"
  by (induction xs arbitrary: ys) (auto simp: bind_res_Ok_iff Cons_eq_map_conv)

lemma parse_groups_join:
  assumes names: "plain_group_names db" and ne: "gs \<noteq> []"
    and res: "\<And>g. g \<in> set gs \<Longrightarrow> is_ok (resolve_group db g)"
    and ok: "parse_groups db (Some (join '','' gs)) = Ok eg"
  obtains gids where "eg = Some gids" "map Ok gids = map (resolve_group db) gs"
proof -
  have plain: "CHR '','' \<notin> set g" "trim g = g" if "g \<in> set gs" for g
    using resolve_group_plain [OF names] res [OF that] unfolding is_ok_iff by blast+
  from ok obtain gids where eg: "eg = Some gids"
    and gids: "map (\<lambda>g. exec_resolve_group db (trim g)) gs = map Ok gids"
    using split_on_join [of gs "CHR '',''"] ne plain(1)
    by (auto simp: parse_groups_def bind_res_Ok_iff map_res_Ok_iff)
  have "map (resolve_group db) gs = map Ok gids"
  proof (rule nth_equalityI)
    show len: "length (map (resolve_group db) gs) = length (map Ok gids)"
      using arg_cong [OF gids, of length] by simp
    fix i assume "i < length (map (resolve_group db) gs)"
    then have i: "i < length gs" by simp
    have "exec_resolve_group db (trim (gs ! i)) = Ok (gids ! i)"
      using arg_cong [OF gids, of "\<lambda>xs. xs ! i"] i len by simp
    then show "map (resolve_group db) gs ! i = map Ok gids ! i"
      using i len plain(2) [OF nth_mem [OF i]] by (simp add: exec_resolve_group_eq)
  qed
  with that [OF eg] show thesis by simp
qed

text \<open>The options after the user and the groups change neither.\<close>

lemma exec_parse_limits:
  assumes "exec_parse opts (limit_args l @ rest) = Ok (opts', cmd)"
  obtains opts1 where "exec_parse opts1 rest = Ok (opts', cmd)"
    "eo_user opts1 = eo_user opts" "eo_groups opts1 = eo_groups opts"
  using assms
  by (fastforce simp: limit_args_def split: option.splits sum.splits)

lemma exec_parse_tail:
  assumes "exec_parse opts ((case limits of Some l \<Rightarrow> limit_args l | None \<Rightarrow> [])
      @ (if nnp then [''--no-new-privileges''] else [])
      @ (case cg of Some c \<Rightarrow> [''--cgroup'', c] | None \<Rightarrow> []) @ ''--'' # prog) = Ok (opts', cmd)"
  shows "eo_user opts' = eo_user opts \<and> eo_groups opts' = eo_groups opts \<and> cmd = prog"
proof -
  let ?rest = "(if nnp then [''--no-new-privileges''] else [])
      @ (case cg of Some c \<Rightarrow> [''--cgroup'', c] | None \<Rightarrow> []) @ ''--'' # prog"
  obtain opts1 where "exec_parse opts1 ?rest = Ok (opts', cmd)"
    "eo_user opts1 = eo_user opts" "eo_groups opts1 = eo_groups opts"
  proof (cases limits)
    case None
    then show thesis using assms that by simp
  next
    case (Some l)
    then have "exec_parse opts (limit_args l @ ?rest) = Ok (opts', cmd)" using assms by simp
    from exec_parse_limits [OF this] that show thesis by metis
  qed
  then show ?thesis by (auto split: option.splits if_splits)
qed

text \<open>A successful build passes the user and the joined groups on, and every group resolves.\<close>

lemma wrapper_args_parse:
  assumes args: "wrapper_args db spec = Ok args" and user: "cs_user spec = Some user"
    and parse: "exec_parse no_options args = Ok (opts, cmd)"
  shows "eo_user opts = Some user" "cmd = cs_program_and_args spec"
    "eo_groups opts = (if cs_groups spec = [] then None
       else Some (join '','' (take (ngroups_max db) (cs_groups spec))))"
    "\<And>g. g \<in> set (cs_groups spec) \<Longrightarrow> is_ok (resolve_group db g)"
proof -
  let ?tail = "(case cs_limits spec of Some limits \<Rightarrow> limit_args limits | None \<Rightarrow> [])
         @ (if cs_no_new_privileges spec then [''--no-new-privileges''] else [])
         @ (case cs_cgroup_path spec of Some cgroup \<Rightarrow> [''--cgroup'', cgroup] | None \<Rightarrow> [])
         @ ''--'' # cs_program_and_args spec"
  let ?gargs = "if cs_groups spec = [] then []
       else [''--groups'', join '','' (take (ngroups_max db) (cs_groups spec))]"
  have eq: "args = ''--user'' # user # ?gargs @ ?tail"
    and ok: "\<forall>g \<in> set (cs_groups spec). is_ok (resolve_group db g)"
    using args user
    by (auto simp: wrapper_args_def bind_res_Ok_iff try_fold_unit_Ok_iff is_ok_iff split: if_splits)
  show "\<And>g. g \<in> set (cs_groups spec) \<Longrightarrow> is_ok (resolve_group db g)" using ok by blast
  define opts0 where "opts0 = no_options\<lparr>eo_user := Some user,
    eo_groups := (if cs_groups spec = [] then None
       else Some (join '','' (take (ngroups_max db) (cs_groups spec))))\<rparr>"
  have "exec_parse opts0 ?tail = Ok (opts, cmd)"
    using parse unfolding eq opts0_def by (cases "cs_groups spec = []") (simp_all add: no_options_def)
  from exec_parse_tail [OF this]
  show "eo_user opts = Some user" "cmd = cs_program_and_args spec"
    "eo_groups opts = (if cs_groups spec = [] then None
       else Some (join '','' (take (ngroups_max db) (cs_groups spec))))"
    by (simp_all add: opts0_def)
qed

subsection \<open>Credentials of the executed command\<close>

lemma apply_rlimit_same:
  assumes "posix_kernel k" "apply_rlimit k res l p = Ok p'"
  shows "p' = p"
  using assms by (cases l) (simp_all add: apply_rlimit_def posix_kernel_def)

lemma apply_rlimits_same:
  assumes "posix_kernel k" "apply_rlimits k a c n p = Ok p'"
  shows "p' = p"
  using assms(2) by (auto simp: apply_rlimits_def bind_res_Ok_iff dest!: apply_rlimit_same [OF assms(1)])

lemma drop_privileges_explicit:
  assumes k: "posix_kernel k" and root: "p_euid p = 0"
    and r: "resolve_user db user = Ok r"
    and ok: "drop_privileges db k (Some user) (Some gids) p = Ok p'"
  shows "p' = \<lparr>p_ruid = ru_uid r, p_euid = ru_uid r, p_rgid = ru_gid r, p_egid = ru_gid r,
               p_groups = take (ngroups_max db) gids\<rparr>"
proof -
  from exec_resolve_user_Ok [OF r] obtain n where n: "exec_resolve_user db user = Ok (ru_uid r, ru_gid r, n)" ..
  from ok n obtain p1 p2 where
    1: "k_setgroups k (take (ngroups_max db) gids) p = Ok p1" and
    2: "k_setgid k (ru_gid r) p1 = Ok p2" and 3: "k_setuid k (ru_uid r) p2 = Ok p'"
    by (auto simp: drop_privileges_def bind_res_Ok_iff)
  from k root 1 have p1: "p1 = p\<lparr>p_groups := take (ngroups_max db) gids\<rparr>" by (simp add: posix_kernel_def)
  from k root 2 p1 have p2: "p2 = p1\<lparr>p_rgid := ru_gid r, p_egid := ru_gid r\<rparr>" by (simp add: posix_kernel_def)
  from k root 3 p1 p2 have "p' = p2\<lparr>p_ruid := ru_uid r, p_euid := ru_uid r\<rparr>" by (simp add: posix_kernel_def)
  with p1 p2 show ?thesis by simp
qed

text \<open>Everything the wrapper does around dropping privileges keeps the credentials.\<close>

lemma exec_main_Ok:
  assumes k: "posix_kernel k" and ok: "exec_main db k args p = Ok (p', cmd)"
  obtains opts eg where "exec_parse no_options args = Ok (opts, cmd)"
    "parse_groups db (eo_groups opts) = Ok eg" "drop_privileges db k (eo_user opts) eg p = Ok p'"
proof -
  from ok obtain opts p1 p2 p3 eg where
    1: "exec_parse no_options args = Ok (opts, cmd)" and
    2: "p1 = (case eo_cgroup opts of
           Some path \<Rightarrow> (case k_join_cgroup k path p of Inr p \<Rightarrow> p | Inl _ \<Rightarrow> p)
         | None \<Rightarrow> p)" and
    3: "apply_rlimits k (eo_rlimit_as opts) (eo_rlimit_cpu opts) (eo_rlimit_nofile opts) p1 = Ok p2" and
    4: "parse_groups db (eo_groups opts) = Ok eg" and
    5: "drop_privileges db k (eo_user opts) eg p2 = Ok p3" and
    6: "(if eo_no_new_privileges opts
         then (case k_no_new_privileges k p3 of
              Inr (_, p) \<Rightarrow> Ok p
            | Inl e \<Rightarrow> Err (SyscallFailed e))
         else Ok p3) = Ok p'"
    unfolding exec_main_def Let_def by (auto simp: bind_res_Ok_iff split: if_splits)
  have "p1 = p" using k 2 by (auto simp: posix_kernel_def split: option.splits sum.splits)
  moreover have "p2 = p1" using apply_rlimits_same [OF k 3] .
  moreover have "p' = p3" using k 6 by (auto simp: posix_kernel_def split: if_splits sum.splits)
  ultimately show thesis using that 1 4 5 by simp
qed

lemma spawn_service_Ok:
  assumes k: "posix_kernel k" and user: "cs_user spec = Some user"
    and gs: "gs = effective_groups db (cs_groups spec) (Some user) kgid"
    and ok: "spawn_service db k fe de kgid spec p = Ok (p', cmd)"
  obtains eg where
    "parse_groups db (if gs = [] then None else Some (join '','' (take (ngroups_max db) gs))) = Ok eg"
    "drop_privileges db k (Some user) eg p = Ok p'" "cmd = cs_program_and_args spec"
    "\<And>g. g \<in> set gs \<Longrightarrow> is_ok (resolve_group db g)"
proof -
  let ?spec = "spec\<lparr>cs_groups := gs\<rparr>"
  have w: "needs_wrapper ?spec" using user by (simp add: needs_wrapper_def)
  from ok user gs w obtain c nm where b: "build_command db fe de ?spec = Ok (c, nm)"
    and m: "exec_main db k (cmd_args c) p = Ok (p', cmd)"
    by (auto simp: spawn_service_def bind_res_Ok_iff)
  from b w have args: "wrapper_args db ?spec = Ok (cmd_args c)"
    by (auto simp: build_command_def bind_res_Ok_iff split: list.splits if_splits)
  from exec_main_Ok [OF k m] obtain opts eg where
    parse: "exec_parse no_options (cmd_args c) = Ok (opts, cmd)" and
    eg: "parse_groups db (eo_groups opts) = Ok eg" and
    dp: "drop_privileges db k (eo_user opts) eg p = Ok p'" .
  note facts = wrapper_args_parse [OF args _ parse, of user]
  show thesis
  proof (rule that)
    show "parse_groups db (if gs = [] then None else Some (join '','' (take (ngroups_max db) gs))) = Ok eg"
      using facts(3) user eg by (cases "gs = []") simp_all
    show "drop_privileges db k (Some user) eg p = Ok p'" using facts(1) user dp by simp
    show "cmd = cs_program_and_args spec" using facts(2) user by simp
    show "\<And>g. g \<in> set gs \<Longrightarrow> is_ok (resolve_group db g)" using facts(4) user by simp
  qed
qed

text \<open>A database and a kernel for concrete runs: one user, a member of the daemon's group 990.\<close>

definition sample_db :: os_db where
  "sample_db = \<lparr>
     user_from_name = (\<lambda>n. Ok (if n = ''app'' then Some \<lparr>pw_name = ''app'', pw_uid = 1000, pw_gid = 1000,
                                 pw_dir = ''/home/app'', pw_shell = ''/bin/sh''\<rparr> else None)),
     user_from_uid = (\<lambda>u. Ok (if u = 1000 then Some \<lparr>pw_name = ''app'', pw_uid = 1000, pw_gid = 1000,
                                 pw_dir = ''/home/app'', pw_shell = ''/bin/sh''\<rparr> else None)),
     group_from_name = (\<lambda>n. Ok (if n = ''kepler'' then Some 990 else if n = ''video'' then Some 44 else None)),
     libc_getgrouplist = (\<lambda>n g len. if n = ''app'' then Ok [g, 990] else Ok [g]),
     sysconf_ngroups_max = 65536\<rparr>"

definition sample_kernel :: kernel where
  "sample_kernel = \<lparr>
     k_join_cgroup = (\<lambda>_. Ok),
     k_setrlimit = (\<lambda>_ _. Ok),
     k_setgroups = (\<lambda>gs p. if p_euid p = 0 then Ok (p\<lparr>p_groups := gs\<rparr>) else Err ''EPERM''),
     k_initgroups = (\<lambda>n g p. if p_euid p \<noteq> 0 then Err ''EPERM''
        else Ok (p\<lparr>p_groups := (if n = ''app'' then [g, 990] else [g])\<rparr>)),
     k_setgid = (\<lambda>g p. if p_euid p = 0 then Ok (p\<lparr>p_rgid := g, p_egid := g\<rparr>) else Err ''EPERM''),
     k_setuid = (\<lambda>u p. if p_euid p = 0 then Ok (p\<lparr>p_ruid := u, p_euid := u\<rparr>) else Err ''EPERM''),
     k_no_new_privileges = (\<lambda>p. Ok (True, p)),
     k_execvp = (\<lambda>_ _ _. Ok ())\<rparr>"

definition root_proc :: proc where
  "root_proc = \<lparr>p_ruid = 0, p_euid = 0, p_rgid = 0, p_egid = 0, p_groups = [0]\<rparr>"

definition sample_spec :: "string list \<Rightarrow> command_spec" where
  "sample_spec groups = command_spec_new [''prog'', ''-x''] ''/'' Map.empty (Some ''app'') groups"

lemma sample_kernel_posix: "posix_kernel sample_kernel"
  by (auto simp: posix_kernel_def sample_kernel_def split: if_splits)

lemma sample_db_plain: "plain_group_names sample_db"
proof -
  have "trim ''kepler'' = ''kepler''" "trim ''video'' = ''video''" by (simp_all add: trim_printable printable_def)
  then show ?thesis by (auto simp: plain_group_names_def sample_db_def split: if_splits)
qed


lemmas sample_defs = sample_db_def sample_kernel_def root_proc_def sample_spec_def command_spec_new_def

lemma sample_words:
  "parse_unsigned 32 ''app'' = None" "parse_unsigned 32 ''kepler'' = None" "parse_unsigned 32 ''video'' = None"
  "split_once (CHR '':'') ''app'' = None" "show_nat 990 \<noteq> ''video''" "show_nat 990 \<noteq> ''kepler''"
  "split_on (CHR '','') ''video'' = [''video'']" "trim ''video'' = ''video''"
  using show_nat_no_char [of "CHR ''e''" 990]
  by (auto simp: parse_unsigned_def is_ascii_digit_def trim_printable printable_def)

lemma sample_resolve:
  "resolve_user sample_db ''app'' = Ok \<lparr>ru_uid = 1000, ru_gid = 1000, ru_username = Some ''app'',
     ru_home = Some ''/home/app'', ru_shell = Some ''/bin/sh''\<rparr>"
  "resolve_group sample_db ''video'' = Ok 44" "resolve_group sample_db ''kepler'' = Ok 990"
  "ngroups_max sample_db = 65536"
  by (simp_all add: resolve_user_def resolve_group_def user_entry_def sample_words ngroups_max_def sample_db_def)

lemma sample_groups:
  "effective_groups sample_db [''video'', ''kepler''] (Some ''app'') (Some 990) = [''video'']"
  "effective_groups sample_db [''kepler''] (Some ''app'') (Some 990) = []"
  using sample_words(5,6) by (auto simp: effective_groups_def strip_kepler_group_def sample_resolve)

lemma sample_kernel_simps:
  "k_setgroups sample_kernel gs p = (if p_euid p = 0 then Ok (p\<lparr>p_groups := gs\<rparr>) else Err ''EPERM'')"
  "k_initgroups sample_kernel ''app'' g p = (if p_euid p \<noteq> 0 then Err ''EPERM'' else Ok (p\<lparr>p_groups := [g, 990]\<rparr>))"
  "k_setgid sample_kernel g p = (if p_euid p = 0 then Ok (p\<lparr>p_rgid := g, p_egid := g\<rparr>) else Err ''EPERM'')"
  "k_setuid sample_kernel u p = (if p_euid p = 0 then Ok (p\<lparr>p_ruid := u, p_euid := u\<rparr>) else Err ''EPERM'')"
  "k_no_new_privileges sample_kernel p = Ok (True, p)" "k_execvp sample_kernel n a p = Ok ()"
  by (simp_all add: sample_kernel_def)

lemma sample_exec_resolve: "exec_resolve_user sample_db ''app'' = Ok (1000, 1000, Some ''app'')"
  by (simp add: exec_resolve_user_def exec_lookup_name_def sample_words sample_db_def)

lemmas sample_build = spawn_service_def sample_spec_def command_spec_new_def sample_groups build_command_def
  needs_wrapper_def wrapper_args_def sample_resolve

lemmas sample_exec = exec_main_def reject_if_setuid_def root_proc_def no_options_def apply_rlimits_def
  apply_rlimit_def parse_groups_def sample_words exec_resolve_group_eq drop_privileges_def
  sample_kernel_simps initgroups_def cstring_ok_def sample_exec_resolve sample_resolve

lemma sample_run:
  "spawn_service sample_db sample_kernel (Some ''kepler-exec'') (\<lambda>_. True) (Some 990)
     (sample_spec [''video'', ''kepler'']) root_proc
   = Ok (\<lparr>p_ruid = 1000, p_euid = 1000, p_rgid = 1000, p_egid = 1000, p_groups = [44]\<rparr>, [''prog'', ''-x''])"
  "spawn_service sample_db sample_kernel (Some ''kepler-exec'') (\<lambda>_. True) (Some 990)
     (sample_spec [''kepler'']) root_proc
   = Ok (\<lparr>p_ruid = 1000, p_euid = 1000, p_rgid = 1000, p_egid = 1000, p_groups = [1000, 990]\<rparr>, [''prog'', ''-x''])"
  by (simp_all add: sample_build, simp_all add: sample_exec)


text \<open>
  When nothing remains of a service's group list, here because it names only the daemon's own
  group, the wrapper gets no group list at all and loads every group of the user from the
  database: a service user who is a member of the daemon's group keeps that membership, which the
  removal was meant to prevent.
\<close>

lemma empty_groups_restore_kepler:
  assumes "posix_kernel k"
    and "split_once (CHR '':'') user = None" "parse_unsigned 32 user = None"
    and "user_from_name db user = Ok (Some u)"
    and "\<And>p p'. k_initgroups k (pw_name u) (pw_gid u) p = Ok p' \<Longrightarrow> set gids \<subseteq> set (p_groups p')"
    and "kgid \<in> set gids" "p_euid p = 0"
    and "cs_user spec = Some user" "cs_groups spec = [g]" "resolve_group db g = Ok kgid"
    and "spawn_service db k find_kepler_exec dir_exists (Some kgid) spec p = Ok (p', cmd)"
  shows "kgid \<in> set (p_groups p')"
proof -
  have gs: "[] = effective_groups db (cs_groups spec) (Some user) (Some kgid)"
    using assms(9,10) by (simp add: effective_groups_def strip_kepler_group_def)
  from spawn_service_Ok [OF assms(1,8) gs assms(11)] obtain eg where
    eg: "parse_groups db None = Ok eg" and dp: "drop_privileges db k (Some user) eg p = Ok p'" by auto
  have user: "exec_resolve_user db user = Ok (pw_uid u, pw_gid u, Some (pw_name u))"
    using assms(2-4) by (simp add: exec_resolve_user_def exec_lookup_name_def)
  from eg dp user obtain p1 p2 where 1: "k_initgroups k (pw_name u) (pw_gid u) p = Ok p1"
    and 2: "k_setgid k (pw_gid u) p1 = Ok p2" and 3: "k_setuid k (pw_uid u) p2 = Ok p'"
    by (auto simp: drop_privileges_def parse_groups_def bind_res_Ok_iff initgroups_def split: if_splits)
  from assms(1) 1 obtain gs1 where p1: "p1 = p\<lparr>p_groups := gs1\<rparr>" unfolding posix_kernel_def by blast
  from assms(1,7) 2 p1 have p2: "p2 = p1\<lparr>p_rgid := pw_gid u, p_egid := pw_gid u\<rparr>" by (simp add: posix_kernel_def)
  from assms(1,7) 3 p1 p2 have "p' = p2\<lparr>p_ruid := pw_uid u, p_euid := pw_uid u\<rparr>" by (simp add: posix_kernel_def)
  with p2 have "p_groups p' = p_groups p1" by simp
  with assms(5) [OF 1] assms(6) show ?thesis by auto
qed

lemma empty_groups_restore_kepler_example:
  "\<exists>p' cmd. spawn_service sample_db sample_kernel (Some ''kepler-exec'') (\<lambda>_. True) (Some 990)
      (sample_spec [''kepler'']) root_proc = Ok (p', cmd) \<and> 990 \<in> set (p_groups p')"
proof -
  let ?u = "\<lparr>pw_name = ''app'', pw_uid = 1000, pw_gid = 1000, pw_dir = ''/home/app'', pw_shell = ''/bin/sh''\<rparr>"
  have init: "set [1000, 990] \<subseteq> set (p_groups p')"
    if "k_initgroups sample_kernel (pw_name ?u) (pw_gid ?u) p = Ok p'" for p p'
    using that by (auto simp: sample_kernel_def split: if_splits)
  have "user_from_name sample_db ''app'' = Ok (Some ?u)" "p_euid root_proc = 0" "(990::nat) \<in> set [1000, 990]"
    "cs_user (sample_spec [''kepler'']) = Some ''app''" "cs_groups (sample_spec [''kepler'']) = [''kepler'']"
    by (simp_all add: sample_defs)
  note facts = this
  have "990 \<in> set (p_groups \<lparr>p_ruid = 1000, p_euid = 1000, p_rgid = 1000, p_egid = 1000, p_groups = [1000, 990]\<rparr>)"
    by (rule empty_groups_restore_kepler [OF sample_kernel_posix sample_words(4,1) facts(1) _ facts(3,2,4,5)
        sample_resolve(3) sample_run(2)]) (rule init)
  then show ?thesis using sample_run(2) by blast
qed

end
