(* ===== verification/Protocol.thy ===== *)
theory Protocol
  imports Service_State
begin

text \<open>
  The requests of the wire protocol (\<^verbatim>\<open>kepler-protocol/src/protocol.rs\<close>) and the states that a
  manual restart may name. The arguments of a constructor are the fields of the variant in the
  order of the source.
\<close>

datatype restart_state = RsStopped | RsExited | RsFailed | RsKilled | RsAll

fun restart_state_as_str :: "restart_state \<Rightarrow> string" where
  "restart_state_as_str RsStopped = ''stopped''"
| "restart_state_as_str RsExited = ''exited''"
| "restart_state_as_str RsFailed = ''failed''"
| "restart_state_as_str RsKilled = ''killed''"
| "restart_state_as_str RsAll = ''all''"

fun state_includes :: "restart_state \<Rightarrow> string \<Rightarrow> bool" where
  "state_includes RsStopped s = (s = ''stopped'')"
| "state_includes RsExited s = (s = ''exited'')"
| "state_includes RsFailed s = (s = ''failed'')"
| "state_includes RsKilled s = (s = ''killed'')"
| "state_includes RsAll s = (s = ''stopped'' \<or> s = ''exited'' \<or> s = ''failed'' \<or> s = ''killed'')"

definition restart_state_from_str :: "string \<Rightarrow> (string, restart_state) result" where
  "restart_state_from_str v =
     (if v = ''stopped'' then Ok RsStopped
      else if v = ''exited'' then Ok RsExited
      else if v = ''failed'' then Ok RsFailed
      else if v = ''killed'' then Ok RsKilled
      else if v = ''all'' then Ok RsAll
      else Err v)"

type_synonym path = string
type_synonym str_map = "(string, string) hmap"

datatype request =
    \<comment> \<open>config path, services, sys env, no deps, override envs, hardening, follow, define flags\<close>
    Start path "string list" "str_map option" bool "str_map option" "string option" bool "str_map option"
    \<comment> \<open>as \<open>Start\<close> up to follow, then start clean, define flags\<close>
  | Run path "string list" "str_map option" bool "str_map option" "string option" bool bool "str_map option"
    \<comment> \<open>config path, services, clean, signal\<close>
  | Stop path "string list" bool "string option"
    \<comment> \<open>config path, services, sys env, no deps, override envs, define flags, states\<close>
  | Restart path "string list" "str_map option" bool "str_map option" "str_map option" "restart_state list"
    \<comment> \<open>config path, sys env, hardening, define flags\<close>
  | Recreate path "str_map option" "string option" "str_map option"
  | Status "path option"
  | Shutdown
  | Ping
  | ListConfigs
    \<comment> \<open>force, dry run\<close>
  | Prune bool bool
    \<comment> \<open>config path, services, after id, from end, limit, no hooks, filter, sql, raw, tail, after ts, before ts\<close>
  | LogsStream path "string list" "int option" bool nat bool "string option" bool bool bool "int option" "int option"
  | SubscribeLogs path
  | Subscribe path "string list option"
    \<comment> \<open>config path, services, include services, include environment, include flags\<close>
  | Inspect path "string list" bool bool bool
  | CheckQuiescence path
  | CheckReadiness path
  | UserRights path
  | ConfigOwner path
    \<comment> \<open>config path, service, since, limit, filter, sql, bucket ms, after ts, before ts\<close>
  | MonitorMetrics path "string option" "int option" "nat option" "string option" bool "int option" "int option" "int option"

fun variant_name :: "request \<Rightarrow> string" where
  "variant_name (Start _ _ _ _ _ _ _ _) = ''Start''"
| "variant_name (Run _ _ _ _ _ _ _ _ _) = ''Run''"
| "variant_name (Stop _ _ _ _) = ''Stop''"
| "variant_name (Restart _ _ _ _ _ _ _) = ''Restart''"
| "variant_name (Recreate _ _ _ _) = ''Recreate''"
| "variant_name (Status _) = ''Status''"
| "variant_name Shutdown = ''Shutdown''"
| "variant_name Ping = ''Ping''"
| "variant_name ListConfigs = ''ListConfigs''"
| "variant_name (Prune _ _) = ''Prune''"
| "variant_name (LogsStream _ _ _ _ _ _ _ _ _ _ _ _) = ''LogsStream''"
| "variant_name (SubscribeLogs _) = ''SubscribeLogs''"
| "variant_name (Subscribe _ _) = ''Subscribe''"
| "variant_name (Inspect _ _ _ _ _) = ''Inspect''"
| "variant_name (CheckQuiescence _) = ''CheckQuiescence''"
| "variant_name (CheckReadiness _) = ''CheckReadiness''"
| "variant_name (UserRights _) = ''UserRights''"
| "variant_name (ConfigOwner _) = ''ConfigOwner''"
| "variant_name (MonitorMetrics _ _ _ _ _ _ _ _ _) = ''MonitorMetrics''"

lemma restart_state_roundtrip: "restart_state_from_str (restart_state_as_str s) = Ok s"
  by (cases s) (simp_all add: restart_state_from_str_def)

text \<open>A restart state selects only statuses of services that are not active, and never \<^verbatim>\<open>Skipped\<close>.\<close>

lemma includes_inactive: "state_includes s (status_as_str st) \<Longrightarrow> \<not> is_active st \<and> st \<noteq> Skipped"
  by (cases s; cases st) (simp_all add: is_active_def)

lemma includes_all: "state_includes RsAll (status_as_str st) \<longleftrightarrow> \<not> is_active st \<and> st \<noteq> Skipped"
  by (cases st) (simp_all add: is_active_def)

end
