(* ===== verification/Permissions.thy ===== *)
theory Permissions
  imports Protocol
begin

text \<open>
  Rights, aliases and the rights that a request needs (\<^verbatim>\<open>permissions.rs\<close>). A set of rights is a
  set of strings; interning, which returns the static string equal to its argument, is the
  identity on known rights.
\<close>

definition BASE_RIGHTS :: "string list" where
  "BASE_RIGHTS = [''start'', ''run'', ''stop'', ''restart'', ''recreate'', ''status'', ''inspect'',
     ''logs'', ''subscribe'', ''quiescence'', ''readiness'', ''monitor'']"

definition SUB_RIGHTS :: "string list" where
  "SUB_RIGHTS = [''start:env-override'', ''start:hardening'', ''start:no-deps'',
     ''run:env-override'', ''run:hardening'', ''run:no-deps'', ''run:start-clean'',
     ''stop:clean'', ''stop:signal'', ''restart:env-override'', ''restart:inactive'',
     ''restart:no-deps'', ''recreate:hardening'', ''inspect:services'', ''inspect:environment'',
     ''inspect:flags'', ''logs:search'', ''logs:search:sql'', ''monitor:search'', ''monitor:search:sql'']"

definition all_rights :: "string set" where
  "all_rights = set (BASE_RIGHTS @ SUB_RIGHTS)"

definition BUILTIN_ALIASES :: "string \<rightharpoonup> string list" where
  "BUILTIN_ALIASES = [''all'' \<mapsto> BASE_RIGHTS @ SUB_RIGHTS]"

definition intern_right :: "string \<Rightarrow> string option" where
  "intern_right right = (case List.find (\<lambda>r. r = right) BASE_RIGHTS of
      Some r \<Rightarrow> Some r
    | None \<Rightarrow> List.find (\<lambda>r. r = right) SUB_RIGHTS)"

record required =
  req_base :: string
  req_sub_rights :: "string list"

definition push_if :: "bool \<Rightarrow> 'a \<Rightarrow> 'a list" where
  "push_if b x = (if b then [x] else [])"

fun required_rights :: "request \<Rightarrow> required option" where
  "required_rights (Start _ _ _ no_deps override_envs hardening _ _) = Some \<lparr>req_base = ''start'',
     req_sub_rights = push_if (override_envs \<noteq> None) ''start:env-override'' @
       push_if (hardening \<noteq> None) ''start:hardening'' @ push_if no_deps ''start:no-deps''\<rparr>"
| "required_rights (Run _ _ _ no_deps override_envs hardening _ start_clean _) = Some \<lparr>req_base = ''run'',
     req_sub_rights = push_if (override_envs \<noteq> None) ''run:env-override'' @
       push_if (hardening \<noteq> None) ''run:hardening'' @ push_if no_deps ''run:no-deps'' @
       push_if start_clean ''run:start-clean''\<rparr>"
| "required_rights (Stop _ _ clean signal) = Some \<lparr>req_base = ''stop'',
     req_sub_rights = push_if clean ''stop:clean'' @ push_if (signal \<noteq> None) ''stop:signal''\<rparr>"
| "required_rights (Restart _ _ _ no_deps override_envs _ states) = Some \<lparr>req_base = ''restart'',
     req_sub_rights = push_if (states \<noteq> []) ''restart:inactive'' @
       push_if (override_envs \<noteq> None) ''restart:env-override'' @ push_if no_deps ''restart:no-deps''\<rparr>"
| "required_rights (Recreate _ _ hardening _) = Some \<lparr>req_base = ''recreate'',
     req_sub_rights = (if hardening \<noteq> None then [''recreate:hardening''] else [])\<rparr>"
| "required_rights (LogsStream _ _ _ _ _ _ flt sql _ _ _ _) = Some \<lparr>req_base = ''logs'',
     req_sub_rights = (if flt \<noteq> None \<and> sql then [''logs:search'', ''logs:search:sql'']
       else if flt \<noteq> None then [''logs:search''] else [])\<rparr>"
| "required_rights (SubscribeLogs _) = Some \<lparr>req_base = ''logs'', req_sub_rights = []\<rparr>"
| "required_rights (Subscribe _ _) = Some \<lparr>req_base = ''subscribe'', req_sub_rights = []\<rparr>"
| "required_rights (CheckQuiescence _) = Some \<lparr>req_base = ''quiescence'', req_sub_rights = []\<rparr>"
| "required_rights (CheckReadiness _) = Some \<lparr>req_base = ''readiness'', req_sub_rights = []\<rparr>"
| "required_rights (Inspect _ _ _ _ _) = Some \<lparr>req_base = ''inspect'', req_sub_rights = []\<rparr>"
| "required_rights (MonitorMetrics _ _ _ _ flt sql _ _ _) = Some \<lparr>req_base = ''monitor'',
     req_sub_rights = (if flt \<noteq> None \<and> sql then [''monitor:search'', ''monitor:search:sql'']
       else if flt \<noteq> None then [''monitor:search''] else [])\<rparr>"
| "required_rights (Status (Some _)) = Some \<lparr>req_base = ''status'', req_sub_rights = []\<rparr>"
| "required_rights Ping = None"
| "required_rights ListConfigs = None"
| "required_rights Shutdown = None"
| "required_rights (Prune _ _) = None"
| "required_rights (ConfigOwner _) = None"
| "required_rights (Status None) = None"
| "required_rights (UserRights _) = None"

datatype rights_error =
    MissingRight string
  | MissingSubRight string
  | UnknownRightOrAlias string
  | RecursiveAlias "string list" string
  | AliasDepth "string list" string
  | ShadowsRight string
  | ShadowsAlias string

definition check_rights :: "string set \<Rightarrow> request \<Rightarrow> (rights_error, unit) result" where
  "check_rights granted request = (case required_rights request of
      None \<Rightarrow> Ok ()
    | Some required \<Rightarrow>
        if req_base required \<notin> granted then Err (MissingRight (req_base required))
        else try_fold (\<lambda>_ sub. if sub \<in> granted then Ok () else Err (MissingSubRight sub)) ()
               (req_sub_rights required))"

type_synonym aliases = "(string, string list) hmap"

definition known_entry :: "aliases \<Rightarrow> string \<Rightarrow> bool" where
  "known_entry user_aliases right =
     (right \<in> all_rights \<or> BUILTIN_ALIASES right \<noteq> None \<or> hm_contains user_aliases right)"

definition validate_rights :: "string list \<Rightarrow> aliases \<Rightarrow> (rights_error, unit) result" where
  "validate_rights rights user_aliases = try_fold (\<lambda>_ right.
     if known_entry user_aliases right then Ok () else Err (UnknownRightOrAlias right)) () rights"

text \<open>
  \<^verbatim>\<open>resolve_alias_entry\<close> adds the rights of one entry to the result. The chain of aliases is passed
  down: the code pushes before and pops after the loop, and an error ends the resolution.
\<close>

function resolve_alias_entry ::
    "string \<Rightarrow> aliases \<Rightarrow> string set \<Rightarrow> nat \<Rightarrow> string list \<Rightarrow> (rights_error, string set) result"
  and resolve_alias_entries ::
    "string list \<Rightarrow> aliases \<Rightarrow> string set \<Rightarrow> nat \<Rightarrow> string list \<Rightarrow> (rights_error, string set) result" where
  "resolve_alias_entry entry user_aliases res depth chain =
     (case intern_right entry of
        Some interned \<Rightarrow> Ok (insert interned res)
      | None \<Rightarrow>
          (case BUILTIN_ALIASES entry of
             Some expanded \<Rightarrow> Ok (res \<union> set expanded)
           | None \<Rightarrow>
               (case hm_get user_aliases entry of
                  Some entries \<Rightarrow>
                    if entry \<in> set chain then Err (RecursiveAlias chain entry)
                    else if depth \<ge> 2 then Err (AliasDepth chain entry)
                    else resolve_alias_entries entries user_aliases res (depth + 1) (chain @ [entry])
                | None \<Rightarrow> Err (UnknownRightOrAlias entry))))"
| "resolve_alias_entries [] user_aliases res depth chain = Ok res"
| "resolve_alias_entries (sub_entry # entries) user_aliases res depth chain =
     (case resolve_alias_entry sub_entry user_aliases res depth chain of
        Inl e \<Rightarrow> Err e
      | Inr res' \<Rightarrow> resolve_alias_entries entries user_aliases res' depth chain)"
  by pat_completeness auto
termination
  by (relation "inv_image (less_than <*lex*> less_than) (\<lambda>x. case x of
      Inl (e, al, r, d, c) \<Rightarrow> (3 - d, 0) | Inr (es, al, r, d, c) \<Rightarrow> (3 - d, Suc (length es)))") auto

declare resolve_alias_entry.simps [simp del]

definition resolve_aliases :: "string list \<Rightarrow> aliases \<Rightarrow> (rights_error, string set) result" where
  "resolve_aliases allow user_aliases = resolve_alias_entries allow user_aliases {} 0 []"

definition validate_user_aliases :: "aliases \<Rightarrow> (rights_error, unit) result" where
  "validate_user_aliases user_aliases =
     bind_res (try_fold (\<lambda>_ name.
         if name \<in> all_rights then Err (ShadowsRight name)
         else if BUILTIN_ALIASES name \<noteq> None then Err (ShadowsAlias name)
         else Ok ()) () (hm_keys user_aliases)) (\<lambda>_.
     try_fold (\<lambda>_ (name, entries).
         bind_res (resolve_alias_entries entries user_aliases {} 1 [name]) (\<lambda>_. Ok ())) () user_aliases)"

definition check_orphan_sub_rights :: "string set \<Rightarrow> (string \<times> string) list" where
  "check_orphan_sub_rights rights =
     List.map_filter (\<lambda>sub. let base = hd (split_on (CHR '':'') sub) in
       if sub \<in> rights \<and> base \<notin> rights then Some (sub, base) else None) SUB_RIGHTS"

definition expand_allow :: "string list \<Rightarrow> aliases \<Rightarrow> (rights_error, string set) result" where
  "expand_allow allow user_aliases =
     bind_res (validate_rights allow user_aliases) (\<lambda>_. resolve_aliases allow user_aliases)"

subsection \<open>What a request needs\<close>

lemma known_rights:
  "x \<in> set (BASE_RIGHTS @ SUB_RIGHTS) \<longleftrightarrow> x \<in> all_rights"
  by (simp add: all_rights_def)

lemma intern_right_iff: "intern_right r = (if r \<in> all_rights then Some r else None)"
proof -
  have f: "List.find (\<lambda>x. x = r) xs = (if r \<in> set xs then Some r else None)" for xs
    by (induction xs) auto
  show ?thesis by (simp add: intern_right_def f all_rights_def)
qed

lemma check_rights_iff:
  "check_rights granted q = Ok () \<longleftrightarrow> (case required_rights q of
     None \<Rightarrow> True | Some r \<Rightarrow> insert (req_base r) (set (req_sub_rights r)) \<subseteq> granted)"
proof (cases "required_rights q")
  case (Some r)
  have "try_fold (\<lambda>_ sub. if sub \<in> granted then Ok () else Err (MissingSubRight sub)) () (req_sub_rights r) = Ok ()
      \<longleftrightarrow> set (req_sub_rights r) \<subseteq> granted"
    by (subst try_fold_unit_Ok_iff) (auto split: if_splits)
  then show ?thesis using Some by (simp add: check_rights_def)
qed (simp add: check_rights_def)

lemma check_rights_mono:
  "check_rights granted q = Ok () \<Longrightarrow> granted \<subseteq> granted' \<Longrightarrow> check_rights granted' q = Ok ()"
  by (auto simp: check_rights_iff split: option.splits)

lemma required_known:
  "required_rights q = Some r \<Longrightarrow> req_base r \<in> set BASE_RIGHTS \<and> set (req_sub_rights r) \<subseteq> set SUB_RIGHTS"
  by (cases q rule: required_rights.cases)
    (auto simp: push_if_def BASE_RIGHTS_def SUB_RIGHTS_def split: if_splits)

lemma required_sub_of_base:
  "required_rights q = Some r \<Longrightarrow> s \<in> set (req_sub_rights r) \<Longrightarrow> starts_with (req_base r @ '':'') s"
  by (cases q rule: required_rights.cases) (auto simp: push_if_def split: if_splits)

text \<open>
  A check of rights succeeds exactly when the base right of the request and all its sub-rights are
  granted; these are known rights, each sub-right is one of its base right, and a check with
  every known right always succeeds.
\<close>

lemma check_rights_exact:
  "(check_rights granted q = Ok () \<longleftrightarrow> (case required_rights q of
      None \<Rightarrow> True
    | Some r \<Rightarrow> req_base r \<in> granted \<and> set (req_sub_rights r) \<subseteq> granted)) \<and>
   (case required_rights q of
      None \<Rightarrow> True
    | Some r \<Rightarrow> req_base r \<in> set BASE_RIGHTS \<and> set (req_sub_rights r) \<subseteq> set SUB_RIGHTS \<and>
        list_all (starts_with (req_base r @ '':'')) (req_sub_rights r)) \<and>
   check_rights all_rights q = Ok ()"
proof (intro conjI)
  show "check_rights granted q = Ok () \<longleftrightarrow> (case required_rights q of
      None \<Rightarrow> True | Some r \<Rightarrow> req_base r \<in> granted \<and> set (req_sub_rights r) \<subseteq> granted)"
    by (simp add: check_rights_iff split: option.splits)
  show "case required_rights q of None \<Rightarrow> True
    | Some r \<Rightarrow> req_base r \<in> set BASE_RIGHTS \<and> set (req_sub_rights r) \<subseteq> set SUB_RIGHTS \<and>
        list_all (starts_with (req_base r @ '':'')) (req_sub_rights r)"
    using required_known [of q] required_sub_of_base [of q] by (auto simp: list_all_iff split: option.splits)
  show "check_rights all_rights q = Ok ()"
    using required_known [of q] by (auto simp: check_rights_iff all_rights_def split: option.splits)
qed

subsection \<open>Aliases\<close>

text \<open>An entry grants a right: directly, as \<^verbatim>\<open>all\<close>, or through an alias.\<close>

inductive grants :: "aliases \<Rightarrow> string \<Rightarrow> string \<Rightarrow> bool" for al where
  direct: "r \<in> all_rights \<Longrightarrow> grants al r r"
| builtin: "e \<notin> all_rights \<Longrightarrow> BUILTIN_ALIASES e = Some rs \<Longrightarrow> r \<in> set rs \<Longrightarrow> grants al e r"
| via_alias: "e \<notin> all_rights \<Longrightarrow> BUILTIN_ALIASES e = None \<Longrightarrow> hm_get al e = Some es \<Longrightarrow> e' \<in> set es \<Longrightarrow>
    grants al e' r \<Longrightarrow> grants al e r"

inductive_cases grantsE: "grants al e r"

lemma grants_known: "grants al e r \<Longrightarrow> r \<in> all_rights"
  by (induction rule: grants.induct)
    (auto simp: BUILTIN_ALIASES_def all_rights_def split: if_splits)

lemma grants_direct_iff: "e \<in> all_rights \<Longrightarrow> grants al e r \<longleftrightarrow> r = e"
  by (auto elim: grantsE intro: grants.direct)

lemma grants_builtin_iff:
  "e \<notin> all_rights \<Longrightarrow> BUILTIN_ALIASES e = Some rs \<Longrightarrow> grants al e r \<longleftrightarrow> r \<in> set rs"
  by (auto elim: grantsE intro: grants.builtin)

lemma grants_alias_iff:
  "e \<notin> all_rights \<Longrightarrow> BUILTIN_ALIASES e = None \<Longrightarrow> hm_get al e = Some es \<Longrightarrow>
   grants al e r \<longleftrightarrow> (\<exists>e' \<in> set es. grants al e' r)"
  by (rule iffI, erule grantsE) (auto intro: grants.via_alias)

lemma resolve_grants:
  "resolve_alias_entry e al res d ch = Ok res' \<Longrightarrow> res' = res \<union> {r. grants al e r}"
  "resolve_alias_entries es al res d ch = Ok res' \<Longrightarrow> res' = res \<union> {r. \<exists>e \<in> set es. grants al e r}"
proof (induction e al res d ch and es al res d ch arbitrary: res' and res'
    rule: resolve_alias_entry_resolve_alias_entries.induct)
  case (1 e al res d ch)
  show ?case
  proof (cases "e \<in> all_rights")
    case True
    then show ?thesis using "1.prems"
      by (auto simp: resolve_alias_entry.simps intern_right_iff grants_direct_iff)
  next
    case False
    then have i: "intern_right e = None" by (simp add: intern_right_iff)
    show ?thesis
    proof (cases "BUILTIN_ALIASES e")
      case (Some rs)
      then show ?thesis using "1.prems" i False
        by (auto simp: resolve_alias_entry.simps grants_builtin_iff)
    next
      case None
      with "1.prems" i obtain es where es: "hm_get al e = Some es" "e \<notin> set ch" "\<not> d \<ge> 2"
          "resolve_alias_entries es al res (d + 1) (ch @ [e]) = Ok res'"
        by (auto simp: resolve_alias_entry.simps split: option.splits if_splits)
      show ?thesis
        using "1.IH" [OF i None es] grants_alias_iff [OF False None es(1)] by simp
    qed
  qed
next
  case (3 e es al res d ch)
  then show ?case by (fastforce split: sum.splits)
qed simp_all

text \<open>Whether an entry resolves does not depend on what was collected before.\<close>

lemma resolve_ok_res:
  "is_ok (resolve_alias_entry e al res d ch) = is_ok (resolve_alias_entry e al res0 d ch)"
  "is_ok (resolve_alias_entries es al res d ch) = is_ok (resolve_alias_entries es al res0 d ch)"
proof (induction e al res d ch and es al res d ch arbitrary: res0 and res0
    rule: resolve_alias_entry_resolve_alias_entries.induct)
  case (1 e al res d ch)
  show ?case
  proof (cases "intern_right e = None \<and> BUILTIN_ALIASES e = None \<and> hm_get al e \<noteq> None \<and> e \<notin> set ch \<and> \<not> d \<ge> 2")
    case True
    then obtain es where es: "hm_get al e = Some es" by auto
    have "is_ok (resolve_alias_entries es al res (d + 1) (ch @ [e])) = is_ok (resolve_alias_entries es al res0 (d + 1) (ch @ [e]))"
      using "1.IH" [OF _ _ es] True by blast
    then show ?thesis using True es by (simp add: resolve_alias_entry.simps)
  qed (auto simp: resolve_alias_entry.simps [of e] split: option.splits)
next
  case (3 e es al res d ch)
  show ?case
  proof (cases "resolve_alias_entry e al res d ch")
    case (Inr res1)
    then obtain res2 where r2: "resolve_alias_entry e al res0 d ch = Ok res2"
      using "3.IH"(1) [of res0] by (auto simp: is_ok_iff)
    then show ?thesis using Inr "3.IH"(2) [OF Inr, of res2] by simp
  next
    case (Inl err)
    then show ?thesis using "3.IH"(1) [of res0] by (auto simp: is_ok_iff split: sum.splits)
  qed
qed simp_all

lemma resolve_entries_ok_iff:
  "is_ok (resolve_alias_entries es al res d ch) \<longleftrightarrow> (\<forall>e \<in> set es. is_ok (resolve_alias_entry e al {} d ch))"
proof (induction es arbitrary: res)
  case (Cons e es)
  show ?case
  proof (cases "resolve_alias_entry e al res d ch")
    case (Inl err)
    then have "\<not> is_ok (resolve_alias_entry e al {} d ch)"
      using resolve_ok_res(1) [of e al res d ch "{}"] by simp
    then show ?thesis using Inl by simp
  next
    case (Inr res1)
    then have "is_ok (resolve_alias_entry e al {} d ch)"
      using resolve_ok_res(1) [of e al res d ch "{}"] by simp
    then show ?thesis using Inr Cons.IH [of res1] by simp
  qed
qed simp

lemma validated_alias_resolves:
  assumes "hm_wf al" "validate_user_aliases al = Ok ()" "hm_get al name = Some es"
  shows "is_ok (resolve_alias_entries es al res 1 [name])" "name \<notin> all_rights" "BUILTIN_ALIASES name = None"
proof -
  have "try_fold (\<lambda>_. (\<lambda>(name, entries).
      bind_res (resolve_alias_entries entries al {} 1 [name]) (\<lambda>_. Ok ()))) () al = Ok ()"
    using assms(2) by (auto simp: validate_user_aliases_def bind_res_Ok_iff)
  then have "bind_res (resolve_alias_entries es al {} 1 [name]) (\<lambda>_. Ok ()) = Ok ()"
    unfolding try_fold_unit_Ok_iff using hm_get_in_set [OF assms(3)] by auto
  then have "is_ok (resolve_alias_entries es al {} 1 [name])" by (auto simp: bind_res_Ok_iff is_ok_iff)
  then show "is_ok (resolve_alias_entries es al res 1 [name])" using resolve_ok_res(2) by blast
  have "try_fold (\<lambda>_. (\<lambda>name. if name \<in> all_rights then Err (ShadowsRight name)
      else if BUILTIN_ALIASES name \<noteq> None then Err (ShadowsAlias name) else Ok ())) () (hm_keys al) = Ok ()"
    using assms(2) by (auto simp: validate_user_aliases_def bind_res_Ok_iff)
  moreover have "name \<in> set (hm_keys al)" using hm_get_Some_contains [OF assms(3)] by (simp add: hm_contains_def)
  ultimately show "name \<notin> all_rights" "BUILTIN_ALIASES name = None"
    unfolding try_fold_unit_Ok_iff by (auto split: if_splits)
qed

lemma validated_allow_expands:
  assumes "hm_wf al" "validate_user_aliases al = Ok ()" "validate_rights allow al = Ok ()"
  shows "expand_allow allow al = Ok {r. \<exists>e \<in> set allow. grants al e r}"
proof -
  have "is_ok (resolve_alias_entry e al {} 0 [])" if "e \<in> set allow" for e
  proof -
    have "known_entry al e"
      using assms(3) that unfolding validate_rights_def try_fold_unit_Ok_iff by (auto split: if_splits)
    then consider "e \<in> all_rights" | rs where "e \<notin> all_rights" "BUILTIN_ALIASES e = Some rs"
      | es where "hm_get al e = Some es"
      using hm_contains_get [of al e] by (auto simp: known_entry_def)
    then show ?thesis
    proof cases
      case 3
      show ?thesis
        using validated_alias_resolves [OF assms(1,2) 3] 3
        by (simp add: resolve_alias_entry.simps intern_right_iff)
    qed (simp_all add: resolve_alias_entry.simps intern_right_iff)
  qed
  then have "is_ok (resolve_alias_entries allow al {} 0 [])" by (simp add: resolve_entries_ok_iff)
  then obtain rs where rs: "resolve_alias_entries allow al {} 0 [] = Ok rs" by (auto simp: is_ok_iff)
  have "rs = {r. \<exists>e \<in> set allow. grants al e r}" using resolve_grants(2) [OF rs] by simp
  then show ?thesis
    using rs assms(3) by (auto simp: expand_allow_def resolve_aliases_def)
qed

text \<open>
  C37. With aliases that pass the check of the configuration, a list of rights that passes
  the check always expands, to exactly the rights that its entries grant directly, through
  \<^verbatim>\<open>all\<close> or through aliases, all of them known.
\<close>

theorem expand_allow_total:
  assumes "hm_wf al" "validate_user_aliases al = Ok ()" "validate_rights allow al = Ok ()"
  shows "expand_allow allow al = Ok {r. \<exists>e \<in> set allow. grants al e r} \<and>
    {r. \<exists>e \<in> set allow. grants al e r} \<subseteq> all_rights"
  using validated_allow_expands [OF assms] grants_known by auto

theorem expand_allow_total_witness:
  "let al = [(''ops'', [''start'', ''ro'']), (''ro'', [''status'', ''logs''])] in
   expand_allow [''ops''] al = Ok {r. \<exists>e \<in> set [''ops'']. grants al e r}"
proof -
  have "validate_user_aliases [(''ops'', [''start'', ''ro'']), (''ro'', [''status'', ''logs''])] = Ok ()"
    by code_simp
  moreover have "validate_rights [''ops''] [(''ops'', [''start'', ''ro'']), (''ro'', [''status'', ''logs''])] = Ok ()"
    by code_simp
  ultimately show ?thesis
    using expand_allow_total [of "[(''ops'', [''start'', ''ro'']), (''ro'', [''status'', ''logs''])]" "[''ops'']"]
    by (simp add: hm_wf_def hm_keys_def Let_def)
qed

end
