(* ===== verification/Auth.thy ===== *)
theory Auth
  imports Users
begin

text \<open>
  Who may talk to the daemon, and with which level of hardening
  (\<^verbatim>\<open>kepler-daemon/src/hardening.rs\<close>, \<^verbatim>\<open>token_store.rs\<close>, \<^verbatim>\<open>auth.rs\<close>): the ordered hardening levels, the
  store of bearer tokens with its guard, the resolution of a request's credentials, the hardening
  floor of a token, and the check of the user a service asks to run as. The interface of the token
  store that the other parts rely on is the locale \<open>token_registry\<close>.
\<close>

subsection \<open>Hardening levels\<close>

datatype hardening_level = HNone | NoRoot | Strict

text \<open>The derived order of the enumeration is the order of its discriminants.\<close>

fun discriminant :: "hardening_level \<Rightarrow> nat" where
  "discriminant HNone = 0"
| "discriminant NoRoot = 1"
| "discriminant Strict = 2"

lemma discriminant_inject: "discriminant a = discriminant b \<longleftrightarrow> a = b"
  by (cases a; cases b) simp_all

instantiation hardening_level :: linorder
begin

definition less_eq_hardening_level :: "hardening_level \<Rightarrow> hardening_level \<Rightarrow> bool" where
  "less_eq_hardening_level a b = (discriminant a \<le> discriminant b)"

definition less_hardening_level :: "hardening_level \<Rightarrow> hardening_level \<Rightarrow> bool" where
  "less_hardening_level a b = (discriminant a < discriminant b)"

instance
  by standard (auto simp: less_eq_hardening_level_def less_hardening_level_def discriminant_inject [symmetric])

end

lemma HNone_least [simp]: "HNone \<le> l"
  by (simp add: less_eq_hardening_level_def)

lemma less_HNone [simp]: "\<not> l < HNone"
  by (simp add: less_hardening_level_def)

definition hardening_from_str :: "string \<Rightarrow> (string, hardening_level) result" where
  "hardening_from_str s =
     (if s = ''none'' then Ok HNone
      else if s = ''no-root'' then Ok NoRoot
      else if s = ''strict'' then Ok Strict
      else Err s)"

fun hardening_to_string :: "hardening_level \<Rightarrow> string" where
  "hardening_to_string HNone = ''none''"
| "hardening_to_string NoRoot = ''no-root''"
| "hardening_to_string Strict = ''strict''"

lemma hardening_from_str_iff: "hardening_from_str s = Ok l \<longleftrightarrow> s = hardening_to_string l"
  by (cases l) (auto simp: hardening_from_str_def)

text \<open>
  The level a configuration's services run under (\<^verbatim>\<open>effective_hardening\<close> of
  \<^verbatim>\<open>orchestrator/mod.rs\<close>).
\<close>

definition effective_hardening :: "hardening_level \<Rightarrow> hardening_level option \<Rightarrow> hardening_level" where
  "effective_hardening daemon config = max daemon (case config of Some l \<Rightarrow> l | None \<Rightarrow> HNone)"

subsection \<open>Bearer tokens\<close>

datatype token = Token "8 word list"

text \<open>The encoding in hexadecimal is that of the \<^verbatim>\<open>hex\<close> crate, a parameter.\<close>

definition token_from_hex :: "(string \<Rightarrow> 8 word list option) \<Rightarrow> string \<Rightarrow> token option" where
  "token_from_hex hex_decode s = (case hex_decode s of
      None \<Rightarrow> None
    | Some bytes \<Rightarrow> if length bytes \<noteq> 32 then None else Some (Token bytes))"

record 'k token_context =
  tc_allow :: "string set"
  tc_max_hardening :: hardening_level
  tc_service :: string
  tc_config_path :: string
  tc_authorizer :: "'k option"

type_synonym 'k token_store = "(token \<times> 'k token_context) list"

definition store_new :: "'k token_store" where
  "store_new = []"

definition register :: "'k token_store \<Rightarrow> token \<Rightarrow> 'k token_context \<Rightarrow> 'k token_store" where
  "register entries token context = entries @ [(token, context)]"

fun store_get :: "'k token_store \<Rightarrow> token \<Rightarrow> 'k token_context option" where
  "store_get [] token = None"
| "store_get ((stored, ctx) # entries) token = (if stored = token then Some ctx else store_get entries token)"

definition owned_by :: "string \<Rightarrow> string \<Rightarrow> 'k token_context \<Rightarrow> bool" where
  "owned_by config_path service_name ctx = (tc_config_path ctx = config_path \<and> tc_service ctx = service_name)"

definition revoke_for_service :: "'k token_store \<Rightarrow> string \<Rightarrow> string \<Rightarrow> 'k token_store" where
  "revoke_for_service entries config_path service_name =
     filter (\<lambda>(_, ctx). \<not> owned_by config_path service_name ctx) entries"

definition revoke_for_config :: "'k token_store \<Rightarrow> string \<Rightarrow> 'k token_store" where
  "revoke_for_config entries config_path = filter (\<lambda>(_, ctx). tc_config_path ctx \<noteq> config_path) entries"

definition store_len :: "'k token_store \<Rightarrow> nat" where
  "store_len entries = length entries"

definition store_is_empty :: "'k token_store \<Rightarrow> bool" where
  "store_is_empty entries = (entries = [])"

definition retain_not_token :: "'k token_store \<Rightarrow> token \<Rightarrow> 'k token_store" where
  "retain_not_token entries token = filter (\<lambda>(t, _). t \<noteq> token) entries"

text \<open>
  A guard registers a token when it is created and removes it when it is revoked; a guard that is
  dropped with its token still in it removes it too, if there is a runtime to do so.
\<close>

record token_guard =
  guard_token :: "token option"
  guard_service :: string

definition guard_new ::
    "'k token_store \<Rightarrow> (string, token) result \<Rightarrow> 'k token_context \<Rightarrow> (string, token_guard \<times> 'k token_store) result" where
  "guard_new store generated context = bind_res generated (\<lambda>token.
     Ok (\<lparr>guard_token = Some token, guard_service = tc_service context\<rparr>, register store token context))"

definition guard_token_hex :: "(token \<Rightarrow> string) \<Rightarrow> token_guard \<Rightarrow> (string, string) result" where
  "guard_token_hex to_hex guard = ok_or ''token already revoked'' (map_option to_hex (guard_token guard))"

definition guard_raw_token :: "token_guard \<Rightarrow> (string, token) result" where
  "guard_raw_token guard = ok_or ''token already revoked'' (guard_token guard)"

definition guard_revoke :: "'k token_store \<Rightarrow> token_guard \<Rightarrow> token_guard \<times> 'k token_store" where
  "guard_revoke store guard = (case guard_token guard of
      Some token \<Rightarrow> (guard\<lparr>guard_token := None\<rparr>, retain_not_token store token)
    | None \<Rightarrow> (guard, store))"

definition guard_drop :: "bool \<Rightarrow> 'k token_store \<Rightarrow> token_guard \<Rightarrow> token_guard \<times> 'k token_store" where
  "guard_drop runtime store guard = (case guard_token guard of
      Some token \<Rightarrow> (guard\<lparr>guard_token := None\<rparr>, if runtime then retain_not_token store token else store)
    | None \<Rightarrow> (guard, store))"

subsection \<open>Authentication of a request\<close>

datatype 'k auth_context =
    AuthRoot nat nat
  | AuthGroup nat nat
  | AuthToken nat nat "'k token_context"

fun auth_uid :: "'k auth_context \<Rightarrow> nat" where
  "auth_uid (AuthRoot uid _) = uid"
| "auth_uid (AuthGroup uid _) = uid"
| "auth_uid (AuthToken uid _ _) = uid"

fun auth_gid :: "'k auth_context \<Rightarrow> nat" where
  "auth_gid (AuthRoot _ gid) = gid"
| "auth_gid (AuthGroup _ gid) = gid"
| "auth_gid (AuthToken _ gid _) = gid"

definition resolve_auth ::
    "os_db \<Rightarrow> 8 word list option \<Rightarrow> nat \<Rightarrow> nat \<Rightarrow> nat \<Rightarrow> 'k token_store \<Rightarrow> (string, 'k auth_context) result" where
  "resolve_auth db token uid gid kepler_gid token_store =
     (case Option.bind token (\<lambda>bytes. store_get token_store (Token bytes)) of
        Some ctx \<Rightarrow> Ok (AuthToken uid gid ctx)
      | None \<Rightarrow>
          if uid = 0 then Ok (AuthRoot uid gid)
          else if gid = kepler_gid \<or> uid_has_gid db uid kepler_gid then Ok (AuthGroup uid gid)
          else Err ''permission denied: not authorized to connect to the daemon'')"

definition check_hardening_floor ::
    "'k token_context \<Rightarrow> string option \<Rightarrow> (string, hardening_level option) result" where
  "check_hardening_floor ctx requested_hardening =
     (if tc_max_hardening ctx = HNone then
        (case requested_hardening of
           None \<Rightarrow> Ok None
         | Some s \<Rightarrow> bind_res (hardening_from_str s) (\<lambda>l. Ok (Some l)))
      else (case requested_hardening of
           Some level_str \<Rightarrow> bind_res (hardening_from_str level_str) (\<lambda>level.
             if level < tc_max_hardening ctx then Err ''permission denied: below the floor''
             else Ok (Some level))
         | None \<Rightarrow> Ok (Some (tc_max_hardening ctx))))"

datatype escalation_error = CannotResolve user_error | RunsAsRoot | NotTheOwner

definition check_privilege_escalation ::
    "os_db \<Rightarrow> hardening_level \<Rightarrow> string option \<Rightarrow> nat option \<Rightarrow> (escalation_error, unit) result" where
  "check_privilege_escalation db hardening user_spec owner_uid =
     (if hardening = HNone then Ok ()
      else case owner_uid of
        None \<Rightarrow> Ok ()
      | Some owner \<Rightarrow>
          if owner = 0 then Ok ()
          else (case user_spec of
             None \<Rightarrow> Ok ()
           | Some spec \<Rightarrow> bind_res (map_err CannotResolve (resolve_user db spec)) (\<lambda>resolved.
               case hardening of
                 Strict \<Rightarrow> if ru_uid resolved \<noteq> owner then Err NotTheOwner else Ok ()
               | _ \<Rightarrow> if ru_uid resolved = 0 then Err RunsAsRoot else Ok ())))"

subsection \<open>The contract of the token store\<close>

text \<open>
  What the rest of the daemon relies on: a lookup finds only registered contexts, a registration
  answers the lookups of its token, and each revocation removes what it names.
\<close>

locale token_registry =
  fixes get :: "'s \<Rightarrow> token \<Rightarrow> 'k token_context option"
    and contexts :: "'s \<Rightarrow> 'k token_context set"
    and reg :: "'s \<Rightarrow> token \<Rightarrow> 'k token_context \<Rightarrow> 's"
    and rev_service :: "'s \<Rightarrow> string \<Rightarrow> string \<Rightarrow> 's"
    and rev_config :: "'s \<Rightarrow> string \<Rightarrow> 's"
    and rev_token :: "'s \<Rightarrow> token \<Rightarrow> 's"
  assumes get_contexts: "get s t = Some c \<Longrightarrow> c \<in> contexts s"
    and get_reg: "get (reg s t c) t' = (case get s t' of Some c' \<Rightarrow> Some c' | None \<Rightarrow> if t = t' then Some c else None)"
    and get_rev_token: "get (rev_token s t) t' = (if t = t' then None else get s t')"
    and contexts_reg: "contexts (reg s t c) = insert c (contexts s)"
    and contexts_rev_service: "contexts (rev_service s p n) = {c \<in> contexts s. \<not> owned_by p n c}"
    and contexts_rev_config: "contexts (rev_config s p) = {c \<in> contexts s. tc_config_path c \<noteq> p}"
    and contexts_rev_token: "contexts (rev_token s t) \<subseteq> contexts s"
begin

definition absent :: "string \<Rightarrow> string \<Rightarrow> 's \<Rightarrow> bool" where
  "absent p n s \<longleftrightarrow> (\<forall>c \<in> contexts s. \<not> owned_by p n c)"

lemma absent_rev_service: "absent p n (rev_service s p n)"
  by (simp add: absent_def contexts_rev_service)

lemma absent_keeps:
  assumes "absent p n s"
  shows "absent p n (rev_service s p' n')" "absent p n (rev_config s p')" "absent p n (rev_token s t)"
    "\<not> owned_by p n c \<Longrightarrow> absent p n (reg s t c)"
  using assms contexts_rev_token
  by (auto simp: absent_def contexts_rev_service contexts_rev_config contexts_reg)

lemma absent_get: "absent p n s \<Longrightarrow> get s t = Some c \<Longrightarrow> \<not> owned_by p n c"
  using get_contexts by (auto simp: absent_def)

lemma get_fresh: "get s t = None \<Longrightarrow> get (reg s t c) t = Some c"
  by (simp add: get_reg)

lemma get_revoked: "get (rev_token s t) t = None"
  by (simp add: get_rev_token)

end

definition store_contexts :: "'k token_store \<Rightarrow> 'k token_context set" where
  "store_contexts entries = snd ` set entries"

lemma store_get_append:
  "store_get (xs @ ys) t = (case store_get xs t of Some c \<Rightarrow> Some c | None \<Rightarrow> store_get ys t)"
  by (induction xs) auto

lemma store_get_in: "store_get s t = Some c \<Longrightarrow> (t, c) \<in> set s"
  by (induction s) (auto split: if_splits)

lemma store_get_retain: "store_get (retain_not_token s t) t' = (if t = t' then None else store_get s t')"
  by (induction s) (auto simp: retain_not_token_def)

interpretation ts: token_registry store_get store_contexts register revoke_for_service revoke_for_config retain_not_token
proof unfold_locales
  fix s :: "'b token_store" and t c assume "store_get s t = Some c"
  then show "c \<in> store_contexts s" unfolding store_contexts_def by (force dest: store_get_in)
next
  show "store_contexts (retain_not_token s t) \<subseteq> store_contexts s" for s :: "'b token_store" and t
    by (auto simp: store_contexts_def retain_not_token_def)
qed (auto simp: store_get_append register_def store_get_retain store_contexts_def revoke_for_service_def
    revoke_for_config_def image_iff split: option.splits)

subsection \<open>Sequences of store operations\<close>

datatype 'k store_op =
    OpRegister token "'k token_context"
  | OpRevokeService string string
  | OpRevokeConfig string
  | OpRevokeToken token

fun apply_op :: "'k store_op \<Rightarrow> 'k token_store \<Rightarrow> 'k token_store" where
  "apply_op (OpRegister t c) s = register s t c"
| "apply_op (OpRevokeService p n) s = revoke_for_service s p n"
| "apply_op (OpRevokeConfig p) s = revoke_for_config s p"
| "apply_op (OpRevokeToken t) s = retain_not_token s t"

fun registers_for :: "string \<Rightarrow> string \<Rightarrow> 'k store_op \<Rightarrow> bool" where
  "registers_for p n (OpRegister t c) = owned_by p n c"
| "registers_for p n _ = False"

lemma absent_ops:
  assumes "ts.absent p n s" "list_all (\<lambda>op. \<not> registers_for p n op) ops"
  shows "ts.absent p n (fold apply_op ops s)"
  using assms
proof (induction ops arbitrary: s)
  case (Cons op ops)
  have "ts.absent p n (apply_op op s)"
    using Cons.prems by (cases op) (simp_all add: ts.absent_keeps)
  with Cons show ?case by simp
qed simp

lemma resolve_auth_token:
  "resolve_auth db tok uid gid kgid s = Ok (AuthToken u g ctx) \<longleftrightarrow>
   u = uid \<and> g = gid \<and> (\<exists>b. tok = Some b \<and> store_get s (Token b) = Some ctx)"
  by (auto simp: resolve_auth_def bind_eq_Some_conv split: option.splits if_splits)

text \<open>
  C34. Once the tokens of a service have been revoked, no request authenticates with a context of
  that service, whatever happens to the store afterwards, until a token is registered for the
  service again.
\<close>

theorem revoked_service_has_no_access:
  assumes "list_all (\<lambda>op. \<not> registers_for p n op) ops"
    and "resolve_auth db tok uid gid kgid (fold apply_op ops (revoke_for_service store p n)) = Ok (AuthToken u g ctx)"
  shows "\<not> owned_by p n ctx"
proof -
  from assms(2) obtain b where "store_get (fold apply_op ops (revoke_for_service store p n)) (Token b) = Some ctx"
    by (auto simp: resolve_auth_token)
  with absent_ops [OF ts.absent_rev_service assms(1)] show ?thesis by (rule ts.absent_get)
qed

definition sample_context :: "string \<Rightarrow> nat token_context" where
  "sample_context n = \<lparr>tc_allow = {''status''}, tc_max_hardening = NoRoot, tc_service = n,
     tc_config_path = ''/k.yaml'', tc_authorizer = None\<rparr>"

definition empty_db :: os_db where
  "empty_db = \<lparr>user_from_name = (\<lambda>_. Ok None), user_from_uid = (\<lambda>_. Ok None), group_from_name = (\<lambda>_. Ok None),
     libc_getgrouplist = (\<lambda>_ g _. Ok [g]), sysconf_ngroups_max = 65536\<rparr>"

theorem revoked_service_has_no_access_witness:
  "\<exists>ctx. resolve_auth empty_db (Some [1]) 5 5 990
      (fold apply_op [OpRegister (Token [1]) (sample_context ''db'')]
        (revoke_for_service [(Token [1], sample_context ''web'')] ''/k.yaml'' ''web'')) = Ok (AuthToken 5 5 ctx)
    \<and> \<not> owned_by ''/k.yaml'' ''web'' ctx"
proof -
  let ?ops = "[OpRegister (Token [1]) (sample_context ''db'')]"
  have ops: "list_all (\<lambda>op. \<not> registers_for ''/k.yaml'' ''web'' op) ?ops"
    by (simp add: owned_by_def sample_context_def)
  have "resolve_auth empty_db (Some [1]) 5 5 990 (fold apply_op ?ops
      (revoke_for_service [(Token [1], sample_context ''web'')] ''/k.yaml'' ''web'')) = Ok (AuthToken 5 5 (sample_context ''db''))"
    by (simp add: resolve_auth_def revoke_for_service_def register_def owned_by_def sample_context_def)
  from revoked_service_has_no_access [OF ops this] this show ?thesis by blast
qed



subsection \<open>Hardening\<close>

text \<open>
  The hardening floor of a token, exactly: a requested level is accepted when it is the name of
  a level that is not below the floor, and is the result; without a request the result is the
  floor, or no level when there is no floor.
\<close>

lemma check_hardening_floor_exact:
  "check_hardening_floor ctx requested = Ok r \<longleftrightarrow>
   (case requested of
      Some s \<Rightarrow> \<exists>l. s = hardening_to_string l \<and> tc_max_hardening ctx \<le> l \<and> r = Some l
    | None \<Rightarrow> r = (if tc_max_hardening ctx = HNone then None else Some (tc_max_hardening ctx)))"
  by (auto simp: check_hardening_floor_def bind_res_Ok_iff hardening_from_str_iff not_less split: option.splits)

lemma floor_le_effective:
  assumes "check_hardening_floor ctx requested = Ok r"
  shows "tc_max_hardening ctx \<le> effective_hardening daemon r"
  using assms
  by (auto simp: check_hardening_floor_def effective_hardening_def bind_res_Ok_iff not_less max_def
      split: option.splits if_splits)

lemma escalation_uid:
  assumes "check_privilege_escalation db h (Some spec) (Some owner) = Ok ()" "owner \<noteq> 0"
    and "resolve_user db spec = Ok r"
  shows "NoRoot \<le> h \<Longrightarrow> ru_uid r \<noteq> 0" "h = Strict \<Longrightarrow> ru_uid r = owner"
  using assms
  by (auto simp: check_privilege_escalation_def less_eq_hardening_level_def split: if_splits hardening_level.splits)

text \<open>
  Under \<^verbatim>\<open>strict\<close> hardening the owner of a configuration may still run a service under any
  primary group: the specification \<^verbatim>\<open>uid:gid\<close> with the owner's own uid passes the check for every
  gid, and resolves to it.
\<close>

lemma strict_gid_unchecked:
  assumes "owner < 2 ^ 32" "gid < 2 ^ 32"
  shows "check_privilege_escalation db Strict (Some (show_nat owner @ '':'' @ show_nat gid)) (Some owner) = Ok ()
    \<and> (\<exists>r. resolve_user db (show_nat owner @ '':'' @ show_nat gid) = Ok r \<and> ru_uid r = owner \<and> ru_gid r = gid)"
proof -
  obtain r where r: "resolve_user db (show_nat owner @ '':'' @ show_nat gid) = Ok r" "ru_uid r = owner" "ru_gid r = gid"
    using resolve_user_numeric [OF assms] by metis
  then show ?thesis by (simp add: check_privilege_escalation_def)
qed

lemma strict_gid_unchecked_example:
  "check_privilege_escalation empty_db Strict (Some (show_nat 1000 @ '':'' @ show_nat 0)) (Some 1000) = Ok ()"
  using strict_gid_unchecked [of 1000 0 empty_db] by simp

end
