(* ===== verification/Acl.thy ===== *)
theory Acl
  imports Permissions Auth Service_Config "HOL-Library.AList"
begin

text \<open>
  The access control list of a configuration (\<^verbatim>\<open>kepler-daemon/src/acl.rs\<close>) and the context its Lua
  authorizers see (\<^verbatim>\<open>lua/acl_runtime.rs\<close>). The Lua virtual machine is a parameter, the record
  \<open>acl_vm\<close>: it is created with the shared code, compiles a source to a key, and calls a key on a
  request. The worker thread and its channels are left out; the machine's state is passed along.
\<close>

subsection \<open>Authorizer contexts\<close>

datatype param_value = PBool bool | PString string | PStringList "string list" | PStringMap str_map

record authorizer_context =
  ac_action :: string
  ac_uid :: nat
  ac_gid :: nat
  ac_username :: "string option"
  ac_groups :: "nat list"
  ac_is_token :: bool
  ac_params :: "string \<rightharpoonup> param_value"
  ac_config_path :: "string option"

fun request_config_path :: "request \<Rightarrow> string option" where
  "request_config_path (Start p _ _ _ _ _ _ _) = Some p"
| "request_config_path (Run p _ _ _ _ _ _ _ _) = Some p"
| "request_config_path (Stop p _ _ _) = Some p"
| "request_config_path (Restart p _ _ _ _ _ _) = Some p"
| "request_config_path (Recreate p _ _ _) = Some p"
| "request_config_path (LogsStream p _ _ _ _ _ _ _ _ _ _ _) = Some p"
| "request_config_path (SubscribeLogs p) = Some p"
| "request_config_path (Subscribe p _) = Some p"
| "request_config_path (Inspect p _ _ _ _) = Some p"
| "request_config_path (CheckQuiescence p) = Some p"
| "request_config_path (CheckReadiness p) = Some p"
| "request_config_path (UserRights p) = Some p"
| "request_config_path (ConfigOwner p) = Some p"
| "request_config_path (MonitorMetrics p _ _ _ _ _ _ _ _) = Some p"
| "request_config_path (Status p) = p"
| "request_config_path Shutdown = None"
| "request_config_path Ping = None"
| "request_config_path ListConfigs = None"
| "request_config_path (Prune _ _) = None"

definition param_opt :: "string \<Rightarrow> ('a \<Rightarrow> param_value) \<Rightarrow> 'a option \<Rightarrow> (string \<rightharpoonup> param_value) \<Rightarrow> (string \<rightharpoonup> param_value)" where
  "param_opt key f v params = (case v of Some x \<Rightarrow> params(key \<mapsto> f x) | None \<Rightarrow> params)"

fun authorizer_params :: "request \<Rightarrow> (string \<times> (string \<rightharpoonup> param_value)) option" where
  "authorizer_params (Start _ services _ no_deps override_envs hardening _ _) = Some (''start'',
     param_opt ''override_envs'' PStringMap override_envs (param_opt ''hardening'' PString hardening
       [''services'' \<mapsto> PStringList services, ''no_deps'' \<mapsto> PBool no_deps]))"
| "authorizer_params (Stop _ services clean signal) = Some (''stop'',
     param_opt ''signal'' PString signal
       [''services'' \<mapsto> PStringList services, ''clean'' \<mapsto> PBool clean])"
| "authorizer_params (Restart _ services _ no_deps override_envs _ states) = Some (''restart'',
     param_opt ''override_envs'' PStringMap override_envs
       [''services'' \<mapsto> PStringList services, ''states'' \<mapsto> PStringList (map restart_state_as_str states),
        ''no_deps'' \<mapsto> PBool no_deps])"
| "authorizer_params (Run _ services _ no_deps override_envs hardening _ start_clean _) = Some (''run'',
     param_opt ''override_envs'' PStringMap override_envs (param_opt ''hardening'' PString hardening
       [''services'' \<mapsto> PStringList services, ''no_deps'' \<mapsto> PBool no_deps,
        ''start_clean'' \<mapsto> PBool start_clean]))"
| "authorizer_params (Recreate _ _ hardening _) = Some (''recreate'',
     param_opt ''hardening'' PString hardening Map.empty)"
| "authorizer_params (LogsStream _ services _ _ _ _ flt _ _ _ _ _) = Some (''logs'',
     param_opt ''filter'' PString flt [''services'' \<mapsto> PStringList services])"
| "authorizer_params (Subscribe _ services) = Some (''subscribe'',
     [''services'' \<mapsto> PStringList (case services of Some s \<Rightarrow> s | None \<Rightarrow> [])])"
| "authorizer_params (Inspect _ services include_services include_environment include_flags) = Some (''inspect'',
     [''services'' \<mapsto> PStringList services, ''include_services'' \<mapsto> PBool include_services,
      ''include_environment'' \<mapsto> PBool include_environment, ''include_flags'' \<mapsto> PBool include_flags])"
| "authorizer_params (Status (Some _)) = Some (''status'', Map.empty)"
| "authorizer_params (SubscribeLogs _) = Some (''logs'', Map.empty)"
| "authorizer_params (CheckQuiescence _) = Some (''quiescence'', Map.empty)"
| "authorizer_params (CheckReadiness _) = Some (''readiness'', Map.empty)"
| "authorizer_params (MonitorMetrics _ service _ _ flt _ _ _ _) = Some (''monitor'',
     param_opt ''filter'' PString flt (param_opt ''service'' PString service Map.empty))"
| "authorizer_params Ping = None"
| "authorizer_params ListConfigs = None"
| "authorizer_params Shutdown = None"
| "authorizer_params (Prune _ _) = None"
| "authorizer_params (Status None) = None"
| "authorizer_params (UserRights _) = None"
| "authorizer_params (ConfigOwner _) = None"

definition build_authorizer_context ::
    "request \<Rightarrow> nat \<Rightarrow> nat \<Rightarrow> string option \<Rightarrow> nat list \<Rightarrow> bool \<Rightarrow> authorizer_context option" where
  "build_authorizer_context request uid gid username groups is_token =
     (case authorizer_params request of
        None \<Rightarrow> None
      | Some (action, params) \<Rightarrow> Some \<lparr>ac_action = action, ac_uid = uid, ac_gid = gid, ac_username = username,
          ac_groups = groups, ac_is_token = is_token, ac_params = params,
          ac_config_path = request_config_path request\<rparr>)"

subsection \<open>Resolved lists\<close>

record ('v, 'k) resolved_acl =
  user_rules :: "nat \<rightharpoonup> string set"
  group_rules :: "nat \<rightharpoonup> string set"
  user_authorizers :: "(nat, string) hmap"
  group_authorizers :: "(nat, string) hmap"
  acl_lua :: "string option"
  lua_handle :: "'v option"
  user_authorizer_keys :: "nat \<rightharpoonup> 'k"
  group_authorizer_keys :: "nat \<rightharpoonup> 'k"

definition acl_empty :: "('v, 'k) resolved_acl" where
  "acl_empty = \<lparr>user_rules = Map.empty, group_rules = Map.empty, user_authorizers = [], group_authorizers = [],
     acl_lua = None, lua_handle = None, user_authorizer_keys = Map.empty, group_authorizer_keys = Map.empty\<rparr>"

datatype acl_error = AclUser string | AclGroup string | AclRights rights_error | AclLookup string
  | AclNoRules | AclLua string | AclDenied nat

definition resolve_uid :: "os_db \<Rightarrow> string \<Rightarrow> (acl_error, nat) result" where
  "resolve_uid db key = (case parse_unsigned 32 key of
      Some uid \<Rightarrow> Ok uid
    | None \<Rightarrow> (case user_from_name db key of
          Inr (Some user) \<Rightarrow> Ok (pw_uid user)
        | _ \<Rightarrow> Err (AclUser key)))"

definition resolve_gid :: "os_db \<Rightarrow> string \<Rightarrow> (acl_error, nat) result" where
  "resolve_gid db key = (case parse_unsigned 32 key of
      Some gid \<Rightarrow> Ok gid
    | None \<Rightarrow> (case group_from_name db key of
          Inr (Some gid) \<Rightarrow> Ok gid
        | _ \<Rightarrow> Err (AclGroup key)))"

text \<open>One entry of a rule table: its rights are added, its authorizer replaces an earlier one.\<close>

definition add_rule ::
    "(string \<Rightarrow> (acl_error, nat) result) \<Rightarrow> aliases \<Rightarrow> (nat \<rightharpoonup> string set) \<times> (nat, string) hmap \<Rightarrow> string \<times> acl_rule
     \<Rightarrow> (acl_error, (nat \<rightharpoonup> string set) \<times> (nat, string) hmap) result" where
  "add_rule resolve al = (\<lambda>(rules, authorizers) (key, rule).
     bind_res (resolve key) (\<lambda>id.
     bind_res (map_err AclRights (expand_allow (rule_allow rule) al)) (\<lambda>expanded.
       Ok (rules(id \<mapsto> (case rules id of Some r \<Rightarrow> r | None \<Rightarrow> {}) \<union> expanded),
           case rule_authorize rule of
             Some src \<Rightarrow> AList.update id src authorizers
           | None \<Rightarrow> authorizers))))"

definition from_config :: "os_db \<Rightarrow> acl_config \<Rightarrow> (acl_error, ('v, 'k) resolved_acl) result" where
  "from_config db acl =
     bind_res (try_fold (add_rule (resolve_uid db) (acl_aliases acl)) (Map.empty, []) (acl_users acl)) (\<lambda>(ur, ua).
     bind_res (try_fold (add_rule (resolve_gid db) (acl_aliases acl)) (Map.empty, []) (acl_groups acl)) (\<lambda>(gr, ga).
       Ok \<lparr>user_rules = ur, group_rules = gr, user_authorizers = ua, group_authorizers = ga,
           acl_lua = acl_lua_code acl, lua_handle = None,
           user_authorizer_keys = Map.empty, group_authorizer_keys = Map.empty\<rparr>))"

definition push_new :: "'a list \<Rightarrow> 'a \<Rightarrow> 'a list" where
  "push_new xs x = (if x \<in> set xs then xs else xs @ [x])"

definition get_all_gids :: "os_db \<Rightarrow> nat \<Rightarrow> nat \<Rightarrow> (acl_error, nat list) result" where
  "get_all_gids db uid primary_gid = (case user_from_uid db uid of
      Inl e \<Rightarrow> Err (AclLookup e)
    | Inr None \<Rightarrow> Ok [primary_gid]
    | Inr (Some user) \<Rightarrow>
        if \<not> cstring_ok (pw_name user) then Err (AclLookup (pw_name user))
        else (case getgrouplist db (pw_name user) primary_gid of
           Inl e \<Rightarrow> Err (AclLookup e)
         | Inr supplementary \<Rightarrow> Ok (foldl push_new [primary_gid] supplementary)))"

definition collect_rights ::
    "os_db \<Rightarrow> ('v, 'k) resolved_acl \<Rightarrow> nat \<Rightarrow> nat \<Rightarrow> (acl_error, string set option) result" where
  "collect_rights db acl uid gid =
     (let (matched0, rights0) = (case user_rules acl uid of Some r \<Rightarrow> (True, r) | None \<Rightarrow> (False, {})) in
      bind_res (get_all_gids db uid gid) (\<lambda>all_gids.
        let (matched, rights) = foldl (\<lambda>(matched, rights) g. case group_rules acl g of
               Some r \<Rightarrow> (True, rights \<union> r) | None \<Rightarrow> (matched, rights)) (matched0, rights0) all_gids
        in Ok (if matched then Some rights else None)))"

definition check_access ::
    "os_db \<Rightarrow> ('v, 'k) resolved_acl \<Rightarrow> nat \<Rightarrow> nat \<Rightarrow> request \<Rightarrow> (acl_error, unit) result" where
  "check_access db acl uid gid request = bind_res (collect_rights db acl uid gid) (\<lambda>rights.
     case rights of
       None \<Rightarrow> if required_rights request = None then Ok () else Err AclNoRules
     | Some granted \<Rightarrow> map_err AclRights (check_rights granted request))"

definition has_status :: "string set option \<Rightarrow> bool" where
  "has_status rights = (case rights of Some r \<Rightarrow> ''status'' \<in> r | None \<Rightarrow> False)"

definition has_read_access :: "os_db \<Rightarrow> ('v, 'k) resolved_acl \<Rightarrow> nat \<Rightarrow> nat \<Rightarrow> bool" where
  "has_read_access db acl uid gid =
     (if has_status (user_rules acl uid) then True
      else (case get_all_gids db uid gid of
         Inl _ \<Rightarrow> False
       | Inr all_gids \<Rightarrow> list_ex (\<lambda>g. has_status (group_rules acl g)) all_gids))"

definition effective_rights ::
    "os_db \<Rightarrow> 'k auth_context \<Rightarrow> nat option \<Rightarrow> ('v, 'k) resolved_acl option \<Rightarrow> (acl_error, string set option) result" where
  "effective_rights db auth_ctx owner_uid acl = (case auth_ctx of
      AuthRoot _ _ \<Rightarrow> Ok (Some all_rights)
    | AuthGroup uid gid \<Rightarrow>
        if Some uid = owner_uid then Ok (Some all_rights)
        else (case acl of
           Some a \<Rightarrow> bind_res (collect_rights db a uid gid) (\<lambda>r.
             Ok (Some (case r of Some rights \<Rightarrow> rights | None \<Rightarrow> {})))
         | None \<Rightarrow> Ok (Some {}))
    | AuthToken uid gid ctx \<Rightarrow>
        if uid = 0 \<or> Some uid = owner_uid then Ok (Some (tc_allow ctx))
        else (case acl of
           Some a \<Rightarrow> bind_res (collect_rights db a uid gid) (\<lambda>r.
             case r of Some rights \<Rightarrow> Ok (Some (tc_allow ctx \<inter> rights)) | None \<Rightarrow> Ok None)
         | None \<Rightarrow> Ok None))"

subsection \<open>Authorizers\<close>

definition collect_authorizers ::
    "os_db \<Rightarrow> ('v, 'k) resolved_acl \<Rightarrow> nat \<Rightarrow> nat \<Rightarrow> (acl_error, (nat \<times> string) list) result" where
  "collect_authorizers db acl uid gid =
     (let user = (case hm_get (user_authorizers acl) uid of Some src \<Rightarrow> [(uid, src)] | None \<Rightarrow> []) in
      bind_res (get_all_gids db uid gid) (\<lambda>all_gids.
        Ok (user @ List.map_filter (\<lambda>g. map_option (Pair g) (hm_get (group_authorizers acl) g))
              (sort (filter (hm_contains (group_authorizers acl)) all_gids)))))"

definition has_authorizers :: "('v, 'k) resolved_acl \<Rightarrow> bool" where
  "has_authorizers acl = (user_authorizers acl \<noteq> [] \<or> group_authorizers acl \<noteq> [])"

record ('v, 'k, 'f) acl_vm =
  vm_create :: "string option \<Rightarrow> (string, 'v) result"
  vm_compile :: "'v \<Rightarrow> string \<Rightarrow> (string, 'k \<times> 'v) result"
  vm_call :: "'v \<Rightarrow> 'k \<Rightarrow> authorizer_context \<Rightarrow> (string, 'f lua_value) result \<times> 'v"

text \<open>
  The authorizers are numbered in the order in which they are met, users first; the compiled keys
  come back under these numbers.
\<close>

fun number_from :: "nat \<Rightarrow> (nat, string) hmap \<Rightarrow> (nat \<times> nat) list \<times> (nat \<times> string) list" where
  "number_from seq [] = ([], [])"
| "number_from seq ((ident, src) # rest) =
     (let (ids, sources) = number_from (seq + 1) rest in ((ident, seq) # ids, (seq, src) # sources))"

fun compile_sources ::
    "('v, 'k, 'f) acl_vm \<Rightarrow> 'v \<Rightarrow> (nat \<rightharpoonup> 'k) \<Rightarrow> (nat \<times> string) list \<Rightarrow> (acl_error, (nat \<rightharpoonup> 'k) \<times> 'v) result" where
  "compile_sources vm v compiled [] = Ok (compiled, v)"
| "compile_sources vm v compiled ((ident, source) # rest) =
     bind_res (map_err AclLua (vm_compile vm v source)) (\<lambda>(key, v').
       compile_sources vm v' (compiled(ident \<mapsto> key)) rest)"

text \<open>\<^verbatim>\<open>AclLuaHandle::new\<close>, and \<^verbatim>\<open>rebuild\<close>, which replaces the machine of an existing handle.\<close>

definition lua_handle_new ::
    "('v, 'k, 'f) acl_vm \<Rightarrow> string option \<Rightarrow> (nat \<times> string) list \<Rightarrow> (acl_error, 'v \<times> (nat \<rightharpoonup> 'k)) result" where
  "lua_handle_new vm code sources =
     bind_res (map_err AclLua (vm_create vm code)) (\<lambda>v.
     bind_res (compile_sources vm v Map.empty sources) (\<lambda>(compiled, v'). Ok (v', compiled)))"

definition keys_of :: "(nat \<rightharpoonup> 'k) \<Rightarrow> (nat \<times> nat) list \<Rightarrow> (nat \<rightharpoonup> 'k)" where
  "keys_of compiled ids = foldl (\<lambda>keys (ident, seq). case compiled seq of
      Some key \<Rightarrow> keys(ident \<mapsto> key) | None \<Rightarrow> keys) Map.empty ids"

definition init_authorizers ::
    "('v, 'k, 'f) acl_vm \<Rightarrow> ('v, 'k) resolved_acl \<Rightarrow> (acl_error, ('v, 'k) resolved_acl) result" where
  "init_authorizers vm acl =
     (let (user_ids, user_sources) = number_from 0 (user_authorizers acl);
          (group_ids, group_sources) = number_from (length (user_authorizers acl)) (group_authorizers acl)
      in bind_res (lua_handle_new vm (acl_lua acl) (user_sources @ group_sources)) (\<lambda>(handle, compiled).
           Ok (acl\<lparr>lua_handle := Some handle, user_authorizer_keys := keys_of compiled user_ids,
                   group_authorizer_keys := keys_of compiled group_ids\<rparr>)))"

definition rebuild_authorizers ::
    "('v, 'k, 'f) acl_vm \<Rightarrow> ('v, 'k) resolved_acl \<Rightarrow> (acl_error, ('v, 'k) resolved_acl) result" where
  "rebuild_authorizers vm acl = (case lua_handle acl of
      None \<Rightarrow> init_authorizers vm acl
    | Some _ \<Rightarrow>
        (let (user_ids, user_sources) = number_from 0 (user_authorizers acl);
             (group_ids, group_sources) = number_from (length (user_authorizers acl)) (group_authorizers acl)
         in bind_res (lua_handle_new vm (acl_lua acl) (user_sources @ group_sources)) (\<lambda>(handle, compiled).
              Ok (acl\<lparr>lua_handle := Some handle, user_authorizer_keys := keys_of compiled user_ids,
                      group_authorizer_keys := keys_of compiled group_ids\<rparr>))))"

definition compile_token_authorizer ::
    "('v, 'k, 'f) acl_vm \<Rightarrow> ('v, 'k) resolved_acl \<Rightarrow> string \<Rightarrow> (acl_error, 'k \<times> ('v, 'k) resolved_acl) result" where
  "compile_token_authorizer vm acl source =
     bind_res (ok_or (AclLua ''No ACL Lua VM available'') (lua_handle acl)) (\<lambda>v.
     bind_res (map_err AclLua (vm_compile vm v source)) (\<lambda>(key, v').
       Ok (key, acl\<lparr>lua_handle := Some v'\<rparr>)))"

text \<open>
  The keys that apply to a caller. The source sorts the matching pairs by gid with a stable sort;
  the gids are distinct.
\<close>

definition collect_authorizer_keys ::
    "os_db \<Rightarrow> ('v, 'k) resolved_acl \<Rightarrow> nat \<Rightarrow> nat \<Rightarrow> (acl_error, 'k list) result" where
  "collect_authorizer_keys db acl uid gid =
     (let user = (case user_authorizer_keys acl uid of Some key \<Rightarrow> [key] | None \<Rightarrow> []) in
      bind_res (get_all_gids db uid gid) (\<lambda>all_gids.
        Ok (user @ map snd (sort_key fst
              (List.map_filter (\<lambda>g. map_option (Pair g) (group_authorizer_keys acl g)) all_gids)))))"

fun evaluate_authorizers ::
    "('v, 'k, 'f) acl_vm \<Rightarrow> authorizer_context \<Rightarrow> nat \<Rightarrow> 'v \<Rightarrow> 'k list \<Rightarrow> (acl_error, unit) result \<times> 'v" where
  "evaluate_authorizers vm ctx i v [] = (Ok (), v)"
| "evaluate_authorizers vm ctx i v (key # keys) =
     (case vm_call vm v key ctx of
        (Inr (LuaBoolean True), v') \<Rightarrow> evaluate_authorizers vm ctx (i + 1) v' keys
      | (Inr _, v') \<Rightarrow> (Err (AclDenied i), v')
      | (Inl e, v') \<Rightarrow> (Err (AclLua e), v'))"

definition check_authorizers ::
    "('v, 'k, 'f) acl_vm \<Rightarrow> os_db \<Rightarrow> ('v, 'k) resolved_acl \<Rightarrow> nat \<Rightarrow> nat \<Rightarrow> 'k option \<Rightarrow> authorizer_context
     \<Rightarrow> (acl_error, unit) result \<times> ('v, 'k) resolved_acl" where
  "check_authorizers vm db acl uid gid token_authorizer context = (case lua_handle acl of
      None \<Rightarrow> (Ok (), acl)
    | Some v \<Rightarrow>
        (case collect_authorizer_keys db acl uid gid of
           Inl e \<Rightarrow> (Err e, acl)
         | Inr acl_keys \<Rightarrow>
             (let keys = (case token_authorizer of Some tk \<Rightarrow> [tk] | None \<Rightarrow> []) @ acl_keys in
              if keys = [] then (Ok (), acl)
              else (case evaluate_authorizers vm context 0 v keys of
                 (r, v') \<Rightarrow> (r, acl\<lparr>lua_handle := Some v'\<rparr>)))))"

subsection \<open>Rights of a caller\<close>

text \<open>The rights that the matching rules of a list grant together.\<close>

definition acl_granted :: "('v, 'k) resolved_acl \<Rightarrow> nat \<Rightarrow> nat list \<Rightarrow> string set" where
  "acl_granted acl uid gids =
     (case user_rules acl uid of Some r \<Rightarrow> r | None \<Rightarrow> {}) \<union>
     (\<Union>g \<in> set gids. case group_rules acl g of Some r \<Rightarrow> r | None \<Rightarrow> {})"

lemma collect_groups:
  "foldl (\<lambda>(matched, rights) g. case group_rules acl g of
      Some r \<Rightarrow> (True, rights \<union> r) | None \<Rightarrow> (matched, rights)) (m, rs) gids =
   (m \<or> list_ex (\<lambda>g. group_rules acl g \<noteq> None) gids,
    rs \<union> (\<Union>g \<in> set gids. case group_rules acl g of Some r \<Rightarrow> r | None \<Rightarrow> {}))"
  by (induction gids arbitrary: m rs) (auto split: option.splits)

lemma collect_rights_eq:
  "collect_rights db acl uid gid = bind_res (get_all_gids db uid gid) (\<lambda>gids.
     Ok (if user_rules acl uid \<noteq> None \<or> list_ex (\<lambda>g. group_rules acl g \<noteq> None) gids
         then Some (acl_granted acl uid gids) else None))"
  by (cases "user_rules acl uid"; cases "get_all_gids db uid gid")
    (simp_all add: collect_rights_def collect_groups acl_granted_def)

lemma granted_unmatched:
  assumes "user_rules acl uid = None" "\<not> list_ex (\<lambda>g. group_rules acl g \<noteq> None) gids"
  shows "acl_granted acl uid gids = {}"
  using assms by (auto simp: acl_granted_def list_ex_iff split: option.splits)

text \<open>
  C19. Access of a member of the daemon's group, exactly: when the groups of the caller can be
  looked up, a request is allowed just if it needs no right, or every right it needs is granted by
  the rule of the caller's uid or by a rule of one of the caller's groups. A caller with no
  matching rule is thus allowed only requests that need no right.
\<close>

theorem check_access_exact:
  assumes "get_all_gids db uid gid = Ok gids"
  shows "check_access db acl uid gid q = Ok () \<longleftrightarrow> (case required_rights q of
      None \<Rightarrow> True
    | Some r \<Rightarrow> insert (req_base r) (set (req_sub_rights r)) \<subseteq> acl_granted acl uid gids)"
proof (cases "user_rules acl uid \<noteq> None \<or> list_ex (\<lambda>g. group_rules acl g \<noteq> None) gids")
  case True
  then show ?thesis
    by (auto simp: check_access_def collect_rights_eq assms check_rights_iff split: option.splits)
next
  case False
  then show ?thesis
    by (auto simp: check_access_def collect_rights_eq assms granted_unmatched split: option.splits)
qed

definition sample_acl :: "(nat, nat) resolved_acl" where
  "sample_acl = acl_empty\<lparr>user_rules := [1000 \<mapsto> {''status''}], group_rules := [44 \<mapsto> {''start''}]\<rparr>"

theorem check_access_exact_witness:
  "check_access empty_db sample_acl 1000 44 (Status (Some ''/k.yaml'')) = Ok () \<and>
   check_access empty_db sample_acl 7 7 (Status (Some ''/k.yaml'')) \<noteq> Ok ()"
proof -
  have g: "get_all_gids empty_db u g = Ok [g]" for u g by (simp add: get_all_gids_def empty_db_def)
  show ?thesis
    unfolding check_access_exact [OF g] by (simp add: acl_granted_def sample_acl_def acl_empty_def)
qed

text \<open>
  C20. A bearer of a token is confined twice. Its rights are never more than the token allows, and
  never more than the same peer would have without the token.
\<close>

theorem token_rights_confined:
  assumes "effective_rights db (AuthToken uid gid ctx) owner acl = Ok (Some rights)"
    and "uid \<noteq> 0" "tc_allow ctx \<subseteq> all_rights"
  shows "rights \<subseteq> tc_allow ctx \<and>
    (\<exists>own. effective_rights db (AuthGroup uid gid) owner acl = Ok (Some own) \<and> rights \<subseteq> own)"
proof (cases "Some uid = owner")
  case True
  then show ?thesis using assms by (simp add: effective_rights_def)
next
  case False
  with assms obtain a own where "acl = Some a" "collect_rights db a uid gid = Ok (Some own)" "rights = tc_allow ctx \<inter> own"
    by (auto simp: effective_rights_def bind_res_Ok_iff split: option.splits)
  then show ?thesis using False by (simp add: effective_rights_def)
qed

theorem token_rights_confined_witness:
  "\<exists>rights. effective_rights empty_db (AuthToken 1000 44 (sample_context ''web'')) (Some 5) (Some sample_acl) = Ok (Some rights)
    \<and> rights \<subseteq> tc_allow (sample_context ''web'')"
proof -
  have eq: "effective_rights empty_db (AuthToken 1000 44 (sample_context ''web'')) (Some 5) (Some sample_acl)
      = Ok (Some ({''status''} \<inter> acl_granted sample_acl 1000 [44]))"
    by (simp add: effective_rights_def collect_rights_eq get_all_gids_def empty_db_def sample_acl_def
        sample_context_def acl_empty_def)
  have "tc_allow (sample_context ''web'') \<subseteq> all_rights"
    by (simp add: sample_context_def all_rights_def BASE_RIGHTS_def)
  from token_rights_confined [OF eq _ this] eq show ?thesis by auto
qed

text \<open>
  When the lookup of the caller's groups fails, the filter of visible configurations still
  lets a caller see a configuration through the rule of its uid, while every request for that
  configuration's status is refused: the documented fail-closed behaviour holds for the request
  but not for the filter.
\<close>

lemma read_access_survives_lookup_failure:
  assumes "get_all_gids db uid gid = Err e" "user_rules acl uid = Some rights" "''status'' \<in> rights"
  shows "has_read_access db acl uid gid \<and> check_access db acl uid gid (Status (Some path)) = Err e"
  using assms by (simp add: has_read_access_def has_status_def check_access_def collect_rights_eq)

lemma read_access_survives_lookup_failure_example:
  "has_read_access (empty_db\<lparr>user_from_uid := \<lambda>_. Err ''EIO''\<rparr>) sample_acl 1000 44 \<and>
   check_access (empty_db\<lparr>user_from_uid := \<lambda>_. Err ''EIO''\<rparr>) sample_acl 1000 44 (Status (Some ''/k.yaml'')) = Err (AclLookup ''EIO'')"
  by (rule read_access_survives_lookup_failure [where rights = "{''status''}"])
    (simp_all add: get_all_gids_def sample_acl_def acl_empty_def)

text \<open>When the lookup succeeds the filter and the request agree.\<close>

lemma has_read_access_iff:
  assumes "get_all_gids db uid gid = Ok gids"
  shows "has_read_access db acl uid gid \<longleftrightarrow> check_access db acl uid gid (Status (Some path)) = Ok ()"
proof -
  have "has_read_access db acl uid gid \<longleftrightarrow> ''status'' \<in> acl_granted acl uid gids"
    using assms
    by (auto simp: has_read_access_def has_status_def acl_granted_def list_ex_iff split: option.splits)
  moreover have "''status'' \<in> acl_granted acl uid gids \<Longrightarrow>
      user_rules acl uid \<noteq> None \<or> list_ex (\<lambda>g. group_rules acl g \<noteq> None) gids"
    using granted_unmatched by blast
  ultimately show ?thesis
    using assms by (auto simp: check_access_def collect_rights_eq check_rights_iff)
qed

subsection \<open>What authorizers see and decide\<close>

text \<open>
  The action an authorizer sees is the base right that the request needs, and an authorizer
  context exists exactly for the requests that need a right.
\<close>

lemma authorizer_action_is_base_right:
  "map_option ac_action (build_authorizer_context q uid gid username groups is_token) =
   map_option req_base (required_rights q)"
proof (cases q)
  case (Status p)
  then show ?thesis by (cases p) (simp_all add: build_authorizer_context_def)
qed (simp_all add: build_authorizer_context_def)

text \<open>The numbers given to the sources are the numbers the keys come back under.\<close>

lemma number_from_eq:
  "number_from n m = (zip (map fst m) [n..<n + length m], zip [n..<n + length m] (map snd m))"
  by (induction n m rule: number_from.induct) (simp_all add: upt_conv_Cons del: upt_Suc)

text \<open>A key is one that the machine gave for a source.\<close>

definition key_for :: "('v, 'k, 'f) acl_vm \<Rightarrow> string \<Rightarrow> 'k \<Rightarrow> bool" where
  "key_for vm src k \<longleftrightarrow> (\<exists>v v'. vm_compile vm v src = Ok (k, v'))"

lemma compile_sources_Ok:
  assumes "compile_sources vm v m srcs = Ok (compiled, v')" "distinct (map fst srcs)"
  shows "(map_of srcs n = None \<longrightarrow> compiled n = m n) \<and>
    (\<forall>s. map_of srcs n = Some s \<longrightarrow> (\<exists>k. compiled n = Some k \<and> key_for vm s k))"
  using assms
proof (induction vm v m srcs rule: compile_sources.induct)
  case (2 vm v m i src rest)
  then obtain k v1 where c: "vm_compile vm v src = Ok (k, v1)"
    and r: "compile_sources vm v1 (m(i \<mapsto> k)) rest = Ok (compiled, v')"
    by (auto simp: bind_res_Ok_iff)
  have ih: "(map_of rest n = None \<longrightarrow> compiled n = (m(i \<mapsto> k)) n) \<and>
    (\<forall>s. map_of rest n = Some s \<longrightarrow> (\<exists>k. compiled n = Some k \<and> key_for vm s k))"
    using 2(1) [OF r] 2(3) by simp
  show ?case
  proof (cases "n = i")
    case True
    then have "map_of rest n = None" using 2(3) by (simp add: map_of_eq_None_iff)
    with ih True c show ?thesis by (auto simp: key_for_def)
  next
    case False
    with ih show ?thesis by (simp split: option.splits)
  qed
qed simp

lemma keys_of_foldl:
  assumes "distinct (map fst ids)"
  shows "foldl (\<lambda>keys (i, seq). case compiled seq of Some key \<Rightarrow> keys(i \<mapsto> key) | None \<Rightarrow> keys) m ids x =
    (case map_of ids x of None \<Rightarrow> m x | Some seq \<Rightarrow> (case compiled seq of Some k \<Rightarrow> Some k | None \<Rightarrow> m x))"
  using assms
proof (induction ids arbitrary: m)
  case (Cons p ids)
  obtain i seq where p: "p = (i, seq)" by (cases p)
  have "map_of ids i = None" using Cons.prems p by (simp add: map_of_eq_None_iff)
  then show ?case using Cons p by (auto split: option.splits)
qed simp

lemma keys_of_numbered:
  assumes wf: "hm_wf m" and len: "length m = length ns" and d: "distinct ns"
    and comp: "\<And>n s. (n, s) \<in> set (zip ns (map snd m)) \<Longrightarrow> \<exists>k. compiled n = Some k \<and> key_for vm s k"
  shows "case hm_get m i of None \<Rightarrow> keys_of compiled (zip (map fst m) ns) i = None
    | Some s \<Rightarrow> \<exists>k. keys_of compiled (zip (map fst m) ns) i = Some k \<and> key_for vm s k"
proof -
  have dm: "distinct (map fst m)" using wf by (simp add: hm_wf_def hm_keys_def)
  have dz: "distinct (map fst (zip (map fst m) ns))" using dm len by simp
  note eq = keys_of_foldl [OF dz, of compiled Map.empty i, folded keys_of_def]
  show ?thesis
  proof (cases "hm_get m i")
    case None
    then have "i \<notin> set (map fst m)" by (simp add: hm_get_def map_of_eq_None_iff)
    then have "map_of (zip (map fst m) ns) i = None" using len by (simp add: map_of_zip_is_None)
    with None eq show ?thesis by simp
  next
    case (Some s)
    then have "(i, s) \<in> set m" by (rule hm_get_in_set)
    then obtain j where j: "j < length m" "m ! j = (i, s)" by (auto simp: in_set_conv_nth)
    have "(i, ns ! j) \<in> set (zip (map fst m) ns)"
      using j len by (auto simp: in_set_conv_nth intro!: exI [of _ j])
    then have "map_of (zip (map fst m) ns) i = Some (ns ! j)" using dz by simp
    moreover have "(ns ! j, s) \<in> set (zip ns (map snd m))"
      using j len by (auto simp: in_set_conv_nth intro!: exI [of _ j])
    ultimately show ?thesis using comp [of "ns ! j" s] Some eq by auto
  qed
qed

text \<open>
  Compiling the authorizers of a list keeps each with its owner: afterwards a uid or gid has a
  compiled key exactly if it has an authorizer source, and its key is one that the Lua machine
  produced for that very source.
\<close>

lemma init_authorizers_keys:
  assumes "init_authorizers vm acl = Ok acl'"
    and "hm_wf (user_authorizers acl)" "hm_wf (group_authorizers acl)"
  shows "(case hm_get (user_authorizers acl) i of
      None \<Rightarrow> user_authorizer_keys acl' i = None
    | Some src \<Rightarrow> \<exists>k. user_authorizer_keys acl' i = Some k \<and> key_for vm src k) \<and>
   (case hm_get (group_authorizers acl) i of
      None \<Rightarrow> group_authorizer_keys acl' i = None
    | Some src \<Rightarrow> \<exists>k. group_authorizer_keys acl' i = Some k \<and> key_for vm src k)"
proof -
  let ?u = "user_authorizers acl" and ?g = "group_authorizers acl"
  let ?un = "[0..<length ?u]" and ?gn = "[length ?u..<length ?u + length ?g]"
  let ?srcs = "zip ?un (map snd ?u) @ zip ?gn (map snd ?g)"
  from assms(1) obtain v v' compiled where
    c: "compile_sources vm v Map.empty ?srcs = Ok (compiled, v')" and
    acl': "user_authorizer_keys acl' = keys_of compiled (zip (map fst ?u) ?un)"
      "group_authorizer_keys acl' = keys_of compiled (zip (map fst ?g) ?gn)"
    by (auto simp: init_authorizers_def number_from_eq lua_handle_new_def bind_res_Ok_iff)
  have d: "distinct (map fst ?srcs)" by auto
  have comp: "\<exists>k. compiled n = Some k \<and> key_for vm s k" if "(n, s) \<in> set ?srcs" for n s
    using compile_sources_Ok [OF c d, of n] map_of_is_SomeI [OF d that] by simp
  have "\<exists>k. compiled n = Some k \<and> key_for vm s k" if "(n, s) \<in> set (zip ?un (map snd ?u))" for n s
    using comp that by simp
  moreover have "\<exists>k. compiled n = Some k \<and> key_for vm s k" if "(n, s) \<in> set (zip ?gn (map snd ?g))" for n s
    using comp that by simp
  ultimately show ?thesis
    unfolding acl' by (intro conjI keys_of_numbered assms) simp_all
qed

definition sample_vm :: "(nat, nat \<times> string, nat) acl_vm" where
  "sample_vm = \<lparr>vm_create = (\<lambda>_. Ok 0), vm_compile = (\<lambda>v s. Ok ((v, s), v + 1)),
     vm_call = (\<lambda>v k c. (Ok (LuaBoolean True), v))\<rparr>"

lemma init_authorizers_keys_example:
  "\<exists>acl'. init_authorizers sample_vm (acl_empty\<lparr>user_authorizers := [(7, ''a'')], group_authorizers := [(7, ''b'')]\<rparr>) = Ok acl'
    \<and> (\<exists>k. user_authorizer_keys acl' 7 = Some k \<and> key_for sample_vm ''a'' k)
    \<and> (\<exists>k. group_authorizer_keys acl' 7 = Some k \<and> key_for sample_vm ''b'' k)"
proof -
  let ?acl = "acl_empty\<lparr>user_authorizers := [(7, ''a'')], group_authorizers := [(7, ''b'')]\<rparr> :: (nat, nat \<times> string) resolved_acl"
  obtain acl' where ok: "init_authorizers sample_vm ?acl = Ok acl'"
    by (simp add: init_authorizers_def lua_handle_new_def sample_vm_def)
  have "hm_wf (user_authorizers ?acl)" "hm_wf (group_authorizers ?acl)" by (simp_all add: hm_wf_def hm_keys_def)
  from init_authorizers_keys [OF ok this, of 7] ok show ?thesis by (simp add: hm_get_def)
qed

lemma evaluate_authorizers_Ok:
  assumes "evaluate_authorizers vm ctx i v keys = (Ok (), v')" "k \<in> set keys"
  shows "\<exists>v1 v2. vm_call vm v1 k ctx = (Ok (LuaBoolean True), v2)"
  using assms
  by (induction vm ctx i v keys rule: evaluate_authorizers.induct)
    (auto split: prod.splits sum.splits lua_value.splits bool.splits)

lemma get_all_gids_primary: "get_all_gids db uid gid = Ok gids \<Longrightarrow> gid \<in> set gids"
proof -
  have "x \<in> set xs \<Longrightarrow> x \<in> set (foldl push_new xs ys)" for x :: nat and xs ys
    by (induction ys arbitrary: xs) (auto simp: push_new_def)
  then show "get_all_gids db uid gid = Ok gids \<Longrightarrow> gid \<in> set gids"
    by (auto simp: get_all_gids_def split: sum.splits option.splits if_splits)
qed

text \<open>
  C36. Authorizers fail closed: when a machine is present and a request passes, the authorizer of
  the token, that of the caller's uid and that of each of the caller's groups were all called on
  the request and returned \<^verbatim>\<open>true\<close>.
\<close>

theorem check_authorizers_all_true:
  assumes "fst (check_authorizers vm db acl uid gid tk ctx) = Ok ()" "lua_handle acl = Some v"
  shows "\<exists>gids. get_all_gids db uid gid = Ok gids \<and>
    (\<forall>k. tk = Some k \<or> user_authorizer_keys acl uid = Some k \<or> (\<exists>g \<in> set gids. group_authorizer_keys acl g = Some k)
      \<longrightarrow> (\<exists>v1 v2. vm_call vm v1 k ctx = (Ok (LuaBoolean True), v2)))"
proof -
  from assms obtain keys where keys: "collect_authorizer_keys db acl uid gid = Ok keys"
    by (auto simp: check_authorizers_def split: sum.splits)
  then obtain gids where gids: "get_all_gids db uid gid = Ok gids"
    and eq: "keys = (case user_authorizer_keys acl uid of Some key \<Rightarrow> [key] | None \<Rightarrow> []) @
      map snd (sort_key fst (List.map_filter (\<lambda>g. map_option (Pair g) (group_authorizer_keys acl g)) gids))"
    by (auto simp: collect_authorizer_keys_def bind_res_Ok_iff)
  have "k \<in> set keys" if "group_authorizer_keys acl g = Some k" "g \<in> set gids" for g k
  proof -
    have "(g, k) \<in> set (List.map_filter (\<lambda>g. map_option (Pair g) (group_authorizer_keys acl g)) gids)"
      using that by (force simp: List.map_filter_def)
    then show ?thesis unfolding eq by force
  qed
  moreover have "k \<in> set keys" if "user_authorizer_keys acl uid = Some k" for k
    using that by (simp add: eq)
  moreover note gids
  moreover
  let ?all = "(case tk of Some tk \<Rightarrow> [tk] | None \<Rightarrow> []) @ keys"
  have "fst (evaluate_authorizers vm ctx 0 v ?all) = Ok ()"
    using assms keys by (auto simp: check_authorizers_def Let_def split: if_splits prod.splits option.splits)
  then obtain v' where "evaluate_authorizers vm ctx 0 v ?all = (Ok (), v')"
    by (cases "evaluate_authorizers vm ctx 0 v ?all") simp
  then have "\<forall>k \<in> set ?all. \<exists>v1 v2. vm_call vm v1 k ctx = (Ok (LuaBoolean True), v2)"
    by (intro ballI) (rule evaluate_authorizers_Ok)
  ultimately show ?thesis by (intro exI [of _ gids]) auto
qed

theorem check_authorizers_all_true_witness:
  "fst (check_authorizers sample_vm empty_db
      (acl_empty\<lparr>lua_handle := Some 3, user_authorizer_keys := [7 \<mapsto> (0, ''a'')]\<rparr>) 7 9 None
      (the (build_authorizer_context (Status (Some ''/k.yaml'')) 7 9 None [9] False))) = Ok () \<and>
   (\<exists>v1 v2. vm_call sample_vm v1 (0, ''a'')
      (the (build_authorizer_context (Status (Some ''/k.yaml'')) 7 9 None [9] False)) = (Ok (LuaBoolean True), v2))"
proof -
  let ?acl = "acl_empty\<lparr>lua_handle := Some 3, user_authorizer_keys := [7 \<mapsto> (0, ''a'')]\<rparr>"
  let ?ctx = "the (build_authorizer_context (Status (Some ''/k.yaml'')) 7 9 None [9] False)"
  have ok: "fst (check_authorizers sample_vm empty_db ?acl 7 9 None ?ctx) = Ok ()"
    by (simp add: check_authorizers_def acl_empty_def collect_authorizer_keys_def get_all_gids_def empty_db_def
        sample_vm_def List.map_filter_def)
  have "lua_handle ?acl = Some 3" "user_authorizer_keys ?acl 7 = Some (0, ''a'')" by simp_all
  with check_authorizers_all_true [OF ok] ok show ?thesis by blast
qed

text \<open>
  Two entries of a list that name the same user, say by number and by name: the rights of both
  are granted together, but only the authorizer of the entry that is met last is kept, so the
  restriction of the other is lost. The order of the entries is that of a hash map.
\<close>

lemma duplicate_rule_drops_authorizer:
  assumes "acl_users acl = [(k1, r1), (k2, r2)]" "resolve_uid db k1 = Ok uid" "resolve_uid db k2 = Ok uid"
    and "rule_authorize r1 = Some a1" "rule_authorize r2 = Some a2"
    and "from_config db acl = Ok acl'"
  shows "\<exists>e1 e2. expand_allow (rule_allow r1) (acl_aliases acl) = Ok e1 \<and>
      expand_allow (rule_allow r2) (acl_aliases acl) = Ok e2 \<and>
      user_rules acl' uid = Some (e1 \<union> e2) \<and> user_authorizers acl' = [(uid, a2)]"
  using assms
  by (auto simp: from_config_def add_rule_def bind_res_Ok_iff split: sum.splits)

lemma duplicate_rule_drops_authorizer_example:
  "\<exists>acl' :: (nat, nat) resolved_acl. from_config (empty_db\<lparr>user_from_name := \<lambda>_. Ok (Some \<lparr>pw_name = ''al'', pw_uid = 7, pw_gid = 7,
        pw_dir = ''/'', pw_shell = ''/bin/sh''\<rparr>)\<rparr>)
      \<lparr>acl_lua_code = None, acl_aliases = [],
       acl_users = [(''7'', \<lparr>rule_allow = [''status''], rule_authorize = Some ''return false''\<rparr>),
                    (''al'', \<lparr>rule_allow = [''status''], rule_authorize = Some ''return true''\<rparr>)],
       acl_groups = []\<rparr> = Ok acl' \<and> user_authorizers acl' = [(7, ''return true'')]"
proof -
  let ?db = "empty_db\<lparr>user_from_name := \<lambda>_. Ok (Some \<lparr>pw_name = ''al'', pw_uid = 7, pw_gid = 7,
        pw_dir = ''/'', pw_shell = ''/bin/sh''\<rparr>)\<rparr>"
  let ?r1 = "\<lparr>rule_allow = [''status''], rule_authorize = Some ''return false''\<rparr>"
  let ?r2 = "\<lparr>rule_allow = [''status''], rule_authorize = Some ''return true''\<rparr>"
  let ?acl = "\<lparr>acl_lua_code = None, acl_aliases = [], acl_users = [(''7'', ?r1), (''al'', ?r2)], acl_groups = []\<rparr>"
  have k: "resolve_uid ?db ''7'' = Ok 7" "resolve_uid ?db ''al'' = Ok 7"
    by (simp_all add: resolve_uid_def parse_unsigned_def is_ascii_digit_def digit_val_def)
  have e: "is_ok (expand_allow [''status''] [])"
    by (simp add: is_ok_iff expand_allow_def resolve_aliases_def validate_rights_def known_entry_def
        all_rights_def BASE_RIGHTS_def intern_right_iff resolve_alias_entry.simps)
  from k e obtain acl' :: "(nat, nat) resolved_acl" where ok: "from_config ?db ?acl = Ok acl'"
    by (auto simp: from_config_def add_rule_def is_ok_iff)
  have "user_authorizers acl' = [(7, ''return true'')]"
    using duplicate_rule_drops_authorizer [OF _ k _ _ ok, of ?r1 ?r2 "''return false''" "''return true''"] by auto
  with ok show ?thesis by blast
qed

end
