(* ===== verification/Config_Actor.thy ===== *)
theory Config_Actor
  imports Deps_Order Protocol Auth
begin

text \<open>
  The actor that owns the state of one configuration
  (\<^verbatim>\<open>kepler-daemon/src/config_actor/actor.rs\<close>, \<^verbatim>\<open>context.rs\<close>, \<^verbatim>\<open>command.rs\<close>). Commands arrive one at a time;
  each is a definition that takes the actor to its next state and gives the reply. What the actor
  sends to others and writes to disk is appended to \<open>ca_effects\<close>. The clock and the outcomes of
  disk operations are the record \<open>io\<close>. Handles of tasks and processes are numbers; the hooks and the
  path of the env file are left out of a resolved service configuration. File
  watchers, event channels, the resource monitor and the Lua worker are not modelled.
\<close>

subsection \<open>State\<close>

record resolved_config =
  rc_condition :: "bool option"
  rc_command :: "string list"
  rc_working_dir :: "string option"
  rc_environment :: "string list"
  rc_inherit_env :: "bool option"
  rc_restart :: restart_config
  rc_depends_on :: depends_on
  rc_healthcheck :: "health_check option"
  rc_logs :: "log_config option"
  rc_user :: "string option"
  rc_groups :: "string list"
  rc_limits :: "resource_limits option"
  rc_output :: "bool option"
  rc_outputs :: "str_map option"
  rc_user_identity :: "bool option"
  rc_no_new_privileges :: "bool option"
  rc_permissions :: "service_permissions option"

definition resolved_config_default :: "restart_config \<Rightarrow> resolved_config" where
  "resolved_config_default restart = \<lparr>rc_condition = None, rc_command = [], rc_working_dir = None, rc_environment = [],
     rc_inherit_env = None, rc_restart = restart, rc_depends_on = [], rc_healthcheck = None, rc_logs = None,
     rc_user = None, rc_groups = [], rc_limits = None, rc_output = None, rc_outputs = None,
     rc_user_identity = None, rc_no_new_privileges = None, rc_permissions = None\<rparr>"

datatype config_event =
    StatusChange string service_status
  | EvReady
  | EvQuiescent
  | UnhandledFailure string "int option"

datatype effect =
    ToSubscribers config_event
  | ToWatchers string service_status
  | AbortTask nat
  | FlushLogs
  | SavedState persisted_config_state
  | SavedSnapshot

record config_actor =
  ca_config :: kepler_config
  ca_services :: "(string, service_state) hmap"
  ca_startup_generations :: "string \<rightharpoonup> 64 word"
  ca_startup_claims :: "string \<rightharpoonup> 64 word"
  ca_initialized :: bool
  ca_resolved_configs :: "string \<rightharpoonup> resolved_config"
  ca_processes :: "string \<rightharpoonup> nat"
  ca_token_guards :: "string \<rightharpoonup> token_guard"
  ca_health_checks :: "string \<rightharpoonup> nat"
  ca_service_instances :: "string \<rightharpoonup> 64 word"
  ca_next_service_instance :: "64 word"
  ca_health_check_sessions :: "string \<rightharpoonup> 64 word"
  ca_next_health_check :: "64 word"
  ca_snapshot_taken :: bool
  ca_restored_from_snapshot :: bool
  ca_event_handler_spawned :: bool
  ca_kepler_env :: env_map
  ca_kepler_flags :: env_map
  ca_owner_uid :: "nat option"
  ca_last_ready :: bool
  ca_last_quiescent :: bool
  ca_startup_in_progress :: bool
  ca_cached_topo_order :: "string list option"
  ca_suppress_snapshot :: bool
  ca_clean_shutdown :: bool
  ca_effects :: "effect list"

record io =
  io_now :: datetime
  io_partition_point :: partition_fn
  io_save_state :: "(string, unit) result"
  io_copy_env_files :: "(string, unit) result"
  io_save_snapshot :: "(string, unit) result"
  io_clear_snapshot :: "(string, unit) result"

datatype actor_error = NoSuchService string | DiskError string

definition hm_set :: "('k, 'v) hmap \<Rightarrow> 'k \<Rightarrow> 'v \<Rightarrow> ('k, 'v) hmap" where
  "hm_set m k v = map (\<lambda>(k', v'). if k' = k then (k', v) else (k', v')) m"

definition emit :: "effect list \<Rightarrow> config_actor \<Rightarrow> config_actor" where
  "emit es a = a\<lparr>ca_effects := ca_effects a @ es\<rparr>"

definition set_state :: "string \<Rightarrow> service_state \<Rightarrow> config_actor \<Rightarrow> config_actor" where
  "set_state n st a = a\<lparr>ca_services := hm_set (ca_services a) n st\<rparr>"

definition status_of :: "config_actor \<Rightarrow> string \<Rightarrow> service_status option" where
  "status_of a n = map_option ss_status (hm_get (ca_services a) n)"

subsection \<open>Readiness\<close>

definition actor_restart_follows :: "config_actor \<Rightarrow> string \<Rightarrow> service_status \<Rightarrow> int option \<Rightarrow> bool" where
  "actor_restart_follows a service_name status exit_code = (case ca_resolved_configs a service_name of
      Some rc \<Rightarrow> restart_follows status exit_code (rc_restart rc)
    | None \<Rightarrow> (case hm_get (kc_services (ca_config a)) service_name of
        Some raw \<Rightarrow> restart_follows status exit_code (static_restart raw)
      | None \<Rightarrow> False))"

definition is_condition_satisfied_sync :: "config_actor \<Rightarrow> string \<Rightarrow> dependency_config \<Rightarrow> bool" where
  "is_condition_satisfied_sync a dep_name dep_config = (case hm_get (ca_services a) dep_name of
      None \<Rightarrow> False
    | Some st \<Rightarrow>
        let dep_restart = (case ca_resolved_configs a dep_name of
              Some rc \<Rightarrow> Some (rc_restart rc)
            | None \<Rightarrow> map_option static_restart (hm_get (kc_services (ca_config a)) dep_name))
        in is_condition_met st dep_config dep_restart)"

text \<open>
  The loop over the dependencies of a waiting service: it stops with \<open>None\<close> at an unmet
  dependency that is still changing, and otherwise tells whether some dependency was unmet.
\<close>

fun unmet_stable ::
    "(string \<Rightarrow> dependency_config \<Rightarrow> bool) \<Rightarrow> (string \<Rightarrow> bool) \<Rightarrow> (string \<times> dependency_config) list \<Rightarrow> bool option" where
  "unmet_stable satisfied settling [] = Some False"
| "unmet_stable satisfied settling ((d, dc) # deps) =
     (if satisfied d dc then unmet_stable satisfied settling deps
      else if settling d then None
      else map_option (\<lambda>_. True) (unmet_stable satisfied settling deps))"

definition dep_settling :: "config_actor \<Rightarrow> string \<Rightarrow> bool" where
  "dep_settling a d = (case hm_get (ca_services a) d of
      None \<Rightarrow> False
    | Some ds \<Rightarrow>
        ss_status ds = Starting \<or> ss_status ds = Waiting \<or> ss_status ds = Stopping \<or>
        (ss_status ds = Exited \<or> ss_status ds = Killed \<or> ss_status ds = Failed) \<and>
        actor_restart_follows a d (ss_status ds) (ss_exit_code ds))"

definition is_service_ready :: "config_actor \<Rightarrow> string \<Rightarrow> bool" where
  "is_service_ready a service_name = (case status_of a service_name of
      None \<Rightarrow> True
    | Some status \<Rightarrow>
        if status = Stopped then False
        else if \<not> is_active status then True
        else if is_running status then
          (case hm_get (kc_services (ca_config a)) service_name of
             Some raw \<Rightarrow> if has_healthcheck raw then status = Healthy \<or> status = Unhealthy else True
           | None \<Rightarrow> True)
        else if status = Starting then False
        else if status = Waiting then
          (case hm_get (kc_services (ca_config a)) service_name of
             Some raw \<Rightarrow> unmet_stable (is_condition_satisfied_sync a) (dep_settling a)
                (dep_iter (rs_depends_on raw)) = Some True
           | None \<Rightarrow> False)
        else False)"

definition compute_ready :: "config_actor \<Rightarrow> bool" where
  "compute_ready a = list_all (is_service_ready a) (hm_keys (kc_services (ca_config a)))"

subsection \<open>Quiescence\<close>

fun are_deps_satisfiable_loop ::
    "config_actor \<Rightarrow> (string \<rightharpoonup> bool) \<Rightarrow> (string \<times> dependency_config) list \<Rightarrow> bool" where
  "are_deps_satisfiable_loop a settled [] = True"
| "are_deps_satisfiable_loop a settled ((d, dc) # deps) =
     (if is_condition_satisfied_sync a d dc then are_deps_satisfiable_loop a settled deps
      else (case hm_get (ca_services a) d of
          None \<Rightarrow> False
        | Some ds \<Rightarrow>
            if ss_status ds = Skipped \<and> \<not> dc_allow_skipped dc then False
            else if settled d = Some True then False
            else are_deps_satisfiable_loop a settled deps))"

definition are_deps_satisfiable :: "config_actor \<Rightarrow> string \<Rightarrow> (string \<rightharpoonup> bool) \<Rightarrow> bool" where
  "are_deps_satisfiable a service_name settled = (case hm_get (kc_services (ca_config a)) service_name of
      None \<Rightarrow> False
    | Some raw \<Rightarrow> are_deps_satisfiable_loop a settled (dep_iter (rs_depends_on raw)))"

definition is_service_settled :: "config_actor \<Rightarrow> string \<Rightarrow> (string \<rightharpoonup> bool) \<Rightarrow> bool" where
  "is_service_settled a service_name settled = (case hm_get (ca_services a) service_name of
      None \<Rightarrow> True
    | Some st \<Rightarrow>
        if ss_status st = Skipped then True
        else if ss_status st = Waiting then
          (case hm_get (kc_services (ca_config a)) service_name of
             Some raw \<Rightarrow> unmet_stable (is_condition_satisfied_sync a) (\<lambda>d. settled d \<noteq> Some True)
                (dep_iter (rs_depends_on raw)) = Some True
           | None \<Rightarrow> False)
        else if is_active (ss_status st) then False
        else if \<not> actor_restart_follows a service_name (ss_status st) (ss_exit_code st) then True
        else \<not> are_deps_satisfiable a service_name settled)"

definition settle_all :: "config_actor \<Rightarrow> string list \<Rightarrow> (string \<rightharpoonup> bool)" where
  "settle_all a order = foldl (\<lambda>settled n. settled(n \<mapsto> is_service_settled a n settled)) Map.empty order"

definition compute_quiescence :: "io \<Rightarrow> config_actor \<Rightarrow> bool \<times> config_actor" where
  "compute_quiescence io a =
     (let order = (case ca_cached_topo_order a of
            Some order \<Rightarrow> Some order
          | None \<Rightarrow> res_ok (get_start_order (io_partition_point io) (kc_services (ca_config a))));
          a' = a\<lparr>ca_cached_topo_order := order\<rparr>
      in case order of
           None \<Rightarrow> (False, a')
         | Some order \<Rightarrow> (list_all (\<lambda>n. settle_all a' order n = Some True) order, a'))"

subsection \<open>Signals\<close>

definition check_and_notify_ready :: "config_actor \<Rightarrow> config_actor" where
  "check_and_notify_ready a =
     (if ca_startup_in_progress a then a
      else if compute_ready a \<and> \<not> ca_last_ready a
      then emit [ToSubscribers EvReady] (a\<lparr>ca_last_ready := True\<rparr>)
      else a)"

definition check_and_notify_quiescent :: "io \<Rightarrow> config_actor \<Rightarrow> config_actor" where
  "check_and_notify_quiescent io a =
     (if ca_startup_in_progress a then a
      else case compute_quiescence io a of (q, a') \<Rightarrow>
        if q \<and> \<not> ca_last_quiescent a'
        then emit [FlushLogs, ToSubscribers EvQuiescent] (a'\<lparr>ca_last_quiescent := True\<rparr>)
        else a')"

subsection \<open>Persistence\<close>

definition save_state :: "io \<Rightarrow> config_actor \<Rightarrow> (actor_error, unit) result \<times> config_actor" where
  "save_state io a = (case io_save_state io of
      Inl e \<Rightarrow> (Err (DiskError e), a)
    | Inr _ \<Rightarrow> (Ok (), emit [SavedState
        \<lparr>pc_services = map (\<lambda>(n, st). (n, persist_state st)) (ca_services a),
         pc_config_initialized = ca_initialized a, pc_snapshot_time = timestamp (io_now io),
         pc_owner_uid = ca_owner_uid a\<rparr>] a))"

definition saving :: "io \<Rightarrow> config_actor \<Rightarrow> config_actor" where
  "saving io a = snd (save_state io a)"

definition take_snapshot_if_needed :: "io \<Rightarrow> config_actor \<Rightarrow> (actor_error, bool) result \<times> config_actor" where
  "take_snapshot_if_needed io a =
     (if ca_snapshot_taken a then (Ok False, a)
      else if ca_suppress_snapshot a then (Ok False, a\<lparr>ca_suppress_snapshot := False\<rparr>)
      else if \<not> global_autostart (ca_config a) then (Ok False, a)
      else (case io_copy_env_files io of
          Inl e \<Rightarrow> (Err (DiskError e), a)
        | Inr _ \<Rightarrow> (case io_save_snapshot io of
            Inl e \<Rightarrow> (Err (DiskError e), a)
          | Inr _ \<Rightarrow> (case save_state io (emit [SavedSnapshot] (a\<lparr>ca_snapshot_taken := True\<rparr>)) of
              (Inl e, a') \<Rightarrow> (Err e, a')
            | (Inr _, a') \<Rightarrow> (Ok True, a')))))"

text \<open>After the environment or the flags change, an existing snapshot is written again.\<close>

definition resave_snapshot :: "io \<Rightarrow> config_actor \<Rightarrow> config_actor" where
  "resave_snapshot io a =
     (if ca_snapshot_taken a \<and> global_autostart (ca_config a) \<and> io_save_snapshot io = Ok ()
      then emit [SavedSnapshot] a else a)"

subsection \<open>Startups, health checks and status changes\<close>

definition in_startup :: "service_status \<Rightarrow> bool" where
  "in_startup status = (status = Waiting \<or> status = Starting \<or> status = Restarting)"

definition service_startup :: "config_actor \<Rightarrow> string \<Rightarrow> 64 word option" where
  "service_startup a service_name = (case status_of a service_name of
      None \<Rightarrow> None
    | Some status \<Rightarrow> if \<not> in_startup status then None else ca_startup_claims a service_name)"

definition generation_of :: "config_actor \<Rightarrow> string \<Rightarrow> 64 word" where
  "generation_of a n = (case ca_startup_generations a n of Some g \<Rightarrow> g | None \<Rightarrow> 0)"

definition claim_startup :: "string \<Rightarrow> config_actor \<Rightarrow> 64 word \<times> config_actor" where
  "claim_startup service_name a =
     (let startup = generation_of a service_name
      in (startup, a\<lparr>ca_startup_claims := (ca_startup_claims a)(service_name \<mapsto> startup)\<rparr>))"

definition cancel_health_check :: "string \<Rightarrow> config_actor \<Rightarrow> config_actor" where
  "cancel_health_check service_name a =
     (let a' = a\<lparr>ca_health_check_sessions := (ca_health_check_sessions a)(service_name := None)\<rparr>
      in case ca_health_checks a service_name of
           Some handle \<Rightarrow> emit [AbortTask handle] (a'\<lparr>ca_health_checks := (ca_health_checks a)(service_name := None)\<rparr>)
         | None \<Rightarrow> a')"

definition is_health_check_current :: "config_actor \<Rightarrow> string \<Rightarrow> 64 word \<Rightarrow> bool" where
  "is_health_check_current a service_name session =
     (ca_health_check_sessions a service_name = Some session \<and>
      (case status_of a service_name of Some status \<Rightarrow> is_running status | None \<Rightarrow> False))"

text \<open>What entering a status does to the state of the service.\<close>

definition enter_status :: "datetime \<Rightarrow> service_status \<Rightarrow> service_state \<Rightarrow> service_state" where
  "enter_status now status st =
     (let st1 = (if in_startup status then st\<lparr>ss_fail_reason := None, ss_skip_reason := None\<rparr> else st);
          st2 = (if status = Starting \<or> status = Running
                 then st1\<lparr>ss_was_healthy := False, ss_health_check_failures := 0, ss_stopped_at := None,
                          ss_signal := None, ss_exit_code := None\<rparr> else st1);
          st3 = (if \<not> is_active status
                 then st2\<lparr>ss_pid := None, ss_started_at := None, ss_stopped_at := Some now\<rparr> else st2)
      in st3\<lparr>ss_status := status\<rparr>)"

text \<open>A stop, or entering a new startup, invalidates the claim of the one before.\<close>

definition advance_generation :: "string \<Rightarrow> service_status \<Rightarrow> service_status \<Rightarrow> config_actor \<Rightarrow> config_actor" where
  "advance_generation service_name old status a =
     (let a' = (if status = Stopping \<or> (status = Waiting \<or> status = Restarting) \<and> status \<noteq> old
            then a\<lparr>ca_startup_generations := (ca_startup_generations a)(service_name \<mapsto> generation_of a service_name + 1),
                   ca_startup_claims := (ca_startup_claims a)(service_name := None)\<rparr>
            else a)
      in if \<not> in_startup status
         then a'\<lparr>ca_startup_claims := (ca_startup_claims a')(service_name := None)\<rparr> else a')"

definition is_failure :: "service_status \<Rightarrow> int option \<Rightarrow> bool" where
  "is_failure status exit_code = (status = Failed \<or> status = Killed \<or>
     status = Exited \<and> (case exit_code of Some c \<Rightarrow> c \<noteq> 0 | None \<Rightarrow> False))"

definition notify_unhandled :: "string \<Rightarrow> service_status \<Rightarrow> config_actor \<Rightarrow> config_actor" where
  "notify_unhandled service_name status a =
     (let exit_code = Option.bind (hm_get (ca_services a) service_name) ss_exit_code
      in if is_failure status exit_code \<and> \<not> actor_restart_follows a service_name status exit_code
            \<and> \<not> is_failure_handled service_name (kc_services (ca_config a))
         then emit [ToSubscribers (UnhandledFailure service_name exit_code)] a else a)"

text \<open>The tail of a status change: the two signals are reset and checked.\<close>

definition recheck_signals :: "io \<Rightarrow> service_status \<Rightarrow> config_actor \<Rightarrow> config_actor" where
  "recheck_signals io status a =
     (let a1 = (if status = Starting \<or> status = Restarting then a\<lparr>ca_last_ready := False\<rparr> else a);
          a2 = (if is_active status \<and> status \<noteq> Waiting then a1\<lparr>ca_last_quiescent := False\<rparr> else a1);
          a3 = check_and_notify_ready a2
      in if \<not> is_active status \<or> status = Waiting then check_and_notify_quiescent io a3 else a3)"

definition set_service_status ::
    "io \<Rightarrow> string \<Rightarrow> service_status \<Rightarrow> config_actor \<Rightarrow> (actor_error, unit) result \<times> config_actor" where
  "set_service_status io service_name status a =
     (let a1 = (if \<not> is_running status then cancel_health_check service_name a else a) in
      case hm_get (ca_services a1) service_name of
        None \<Rightarrow> (Err (NoSuchService service_name), a1)
      | Some st \<Rightarrow>
          let a2 = advance_generation service_name (ss_status st) status a1;
              a3 = set_state service_name (enter_status (io_now io) status st) a2;
              a4 = emit [ToWatchers service_name status, ToSubscribers (StatusChange service_name status)] a3;
              a5 = notify_unhandled service_name status a4
          in (Ok (), recheck_signals io status a5))"

definition set_service_pid ::
    "string \<Rightarrow> nat option \<Rightarrow> datetime option \<Rightarrow> config_actor \<Rightarrow> (actor_error, unit) result \<times> config_actor" where
  "set_service_pid service_name pid started_at a = (case hm_get (ca_services a) service_name of
      None \<Rightarrow> (Err (NoSuchService service_name), a)
    | Some st \<Rightarrow> (Ok (), set_state service_name (st\<lparr>ss_pid := pid, ss_started_at := started_at\<rparr>) a))"

definition record_process_exit ::
    "string \<Rightarrow> int option \<Rightarrow> int option \<Rightarrow> config_actor \<Rightarrow> (actor_error, unit) result \<times> config_actor" where
  "record_process_exit service_name exit_code signal a =
     (let a1 = cancel_health_check service_name a;
          a2 = a1\<lparr>ca_processes := (ca_processes a1)(service_name := None)\<rparr>
      in case hm_get (ca_services a2) service_name of
           None \<Rightarrow> (Err (NoSuchService service_name), a2)
         | Some st \<Rightarrow> (Ok (), set_state service_name
             (st\<lparr>ss_exit_code := exit_code, ss_signal := signal, ss_pid := None\<rparr>) a2))"

record health_check_update =
  hu_previous_status :: service_status
  hu_new_status :: service_status
  hu_failures :: "32 word"

definition health_result :: "bool \<Rightarrow> 32 word \<Rightarrow> service_state \<Rightarrow> service_state" where
  "health_result passed retries st =
     (if passed then
        (let st1 = st\<lparr>ss_health_check_failures := 0\<rparr>
         in if ss_status st = Running \<or> ss_status st = Unhealthy
            then st1\<lparr>ss_status := Healthy, ss_was_healthy := True, ss_restart_count_since_healthy := 0\<rparr>
            else st1)
      else
        (let st1 = st\<lparr>ss_health_check_failures := ss_health_check_failures st + 1\<rparr>
         in if ss_health_check_failures st1 \<ge> retries \<and> ss_status st \<noteq> Unhealthy
            then st1\<lparr>ss_status := Unhealthy\<rparr> else st1))"

definition update_health_check ::
    "string \<Rightarrow> bool \<Rightarrow> 32 word \<Rightarrow> config_actor \<Rightarrow> (actor_error, health_check_update) result \<times> config_actor" where
  "update_health_check service_name passed retries a = (case hm_get (ca_services a) service_name of
      None \<Rightarrow> (Err (NoSuchService service_name), a)
    | Some st \<Rightarrow>
        let st' = health_result passed retries st;
            a1 = set_state service_name st' a;
            a2 = (if ss_status st \<noteq> ss_status st'
                  then check_and_notify_ready (emit [ToWatchers service_name (ss_status st'),
                         ToSubscribers (StatusChange service_name (ss_status st'))] a1)
                  else a1)
        in (Ok \<lparr>hu_previous_status = ss_status st, hu_new_status = ss_status st',
                hu_failures = ss_health_check_failures st'\<rparr>, a2))"

subsection \<open>Commands\<close>

datatype (plugins only: code) command =
    GetServiceStatus "string option"
  | IsServiceRunning string
  | GetRunningServices
  | IsConfigInitialized
  | IsServiceInitialized string
  | GetServiceState string
  | AllServicesStopped
  | CmdCheckQuiescence
  | CmdCheckReadiness
  | RecheckReadyQuiescent
  | SetStartupInProgress bool
  | ClaimServiceStart string
  | ClaimServiceRestart string
  | ClaimInactiveServiceRestart string "restart_state list"
  | GetServiceStartup string
    \<comment> \<open>service, startup, status, skip reason, fail reason\<close>
  | TransitionServiceStartup string "64 word" service_status "string option" "string option"
  | SetServiceStatusWithReason string service_status "string option" "string option"
  | SetServiceStatus string service_status
  | SetSkipReason string string
  | SetFailReason string string
  | SetServicePid string "nat option" "datetime option"
  | RecordProcessExit string "int option" "int option"
  | RegisterServiceInstance string "nat option" datetime
  | GetServiceInstance string
  | BeginHealthCheck string "64 word"
  | IsHealthCheckCurrent string "64 word"
  | StoreHealthCheckTask string "64 word" nat
    \<comment> \<open>service, session, passed, retries\<close>
  | UpdateHealthCheck string "64 word" bool "32 word"
  | MarkConfigInitialized
  | MarkServiceInitialized string
  | IncrementRestartCount string
  | ResetRestartCount string
    \<comment> \<open>service, resolved configuration, environment, working directory, variables of the env file\<close>
  | StoreResolvedConfig string resolved_config env_map string env_map
  | StoreProcessHandle string nat
  | RemoveProcessHandle string
  | StoreTokenGuard string token_guard
  | StoreStartupTokenGuard string "64 word" token_guard
  | TakeTokenGuard string
  | TakeMatchingTokenGuard string token
  | StoreTaskHandle string nat
  | CancelTaskHandle string
  | CmdShutdown bool
  | TakeSnapshotIfNeeded
  | ClearSnapshot
  | IsRestoredFromSnapshot
  | SetSuppressSnapshot
  | HasEventHandler
  | SetEventHandlerSpawned
  | MergeKeplerEnv env_map
  | MergeKeplerFlags env_map

datatype reply =
    RNone
  | RBool bool
  | RNames "string list"
  | RState "service_state option"
  | RInfos "(actor_error, (string, service_info) hmap) result"
  | RGeneration "64 word option"
  | RDone "(actor_error, unit) result"
  | RInstance "(actor_error, 64 word) result"
  | RHealth "(actor_error, health_check_update option) result"
  | RHandle "nat option"
  | RGuard "token_guard option"
  | RSnapshot "(actor_error, bool) result"

definition get_service_status ::
    "config_actor \<Rightarrow> string option \<Rightarrow> (actor_error, (string, service_info) hmap) result" where
  "get_service_status a service = (case service of
      Some n \<Rightarrow> (case hm_get (ca_services a) n of
          None \<Rightarrow> Err (NoSuchService n)
        | Some st \<Rightarrow> Ok [(n, to_service_info st)])
    | None \<Rightarrow> Ok (map (\<lambda>(n, st). (n, to_service_info st)) (ca_services a)))"

definition claim_service_start :: "io \<Rightarrow> string \<Rightarrow> config_actor \<Rightarrow> config_actor \<times> reply" where
  "claim_service_start io n a =
     (let (claimed, a1) = (case status_of a n of
            None \<Rightarrow> (False, a)
          | Some status \<Rightarrow>
              if status = Waiting then (ca_startup_claims a n = None, a)
              else if \<not> is_active status then (True, snd (set_service_status io n Waiting a))
              else (False, a))
      in if claimed
         then (case claim_startup n a1 of (startup, a2) \<Rightarrow> (saving io a2, RGeneration (Some startup)))
         else (a1, RGeneration None))"

definition claim_service_restart :: "io \<Rightarrow> string \<Rightarrow> config_actor \<Rightarrow> config_actor \<times> reply" where
  "claim_service_restart io n a =
     (let running = (case hm_get (ca_services a) n of
            Some st \<Rightarrow> ss_initialized st \<and> is_running (ss_status st) | None \<Rightarrow> False)
      in if running
         then (case claim_startup n (saving io (snd (set_service_status io n Restarting a))) of
                 (startup, a') \<Rightarrow> (a', RGeneration (Some startup)))
         else (a, RGeneration None))"

definition claim_inactive_service_restart ::
    "io \<Rightarrow> string \<Rightarrow> restart_state list \<Rightarrow> config_actor \<Rightarrow> config_actor \<times> reply" where
  "claim_inactive_service_restart io n states a =
     (let eligible = (case hm_get (ca_services a) n of
            Some st \<Rightarrow> ss_initialized st \<and> list_ex (\<lambda>s. state_includes s (status_as_str (ss_status st))) states
          | None \<Rightarrow> False)
      in if eligible
         then (case claim_startup n (snd (set_service_status io n Waiting a)) of
                 (startup, a') \<Rightarrow> (saving io a', RGeneration (Some startup)))
         else (a, RGeneration None))"

definition update_state :: "string \<Rightarrow> (service_state \<Rightarrow> service_state) \<Rightarrow> config_actor \<Rightarrow> config_actor" where
  "update_state n f a = (case hm_get (ca_services a) n of
      Some st \<Rightarrow> set_state n (f st) a | None \<Rightarrow> a)"

text \<open>A change of a service that must exist, saved when it does.\<close>

definition update_or_fail ::
    "io \<Rightarrow> string \<Rightarrow> (service_state \<Rightarrow> service_state) \<Rightarrow> config_actor \<Rightarrow> config_actor \<times> reply" where
  "update_or_fail io n f a = (case hm_get (ca_services a) n of
      Some st \<Rightarrow> (saving io (set_state n (f st) a), RDone (Ok ()))
    | None \<Rightarrow> (a, RDone (Err (NoSuchService n))))"

definition save_if_ok :: "io \<Rightarrow> (actor_error, unit) result \<times> config_actor \<Rightarrow> config_actor \<times> reply" where
  "save_if_ok io ra = (case ra of (r, a) \<Rightarrow> (if is_ok r then saving io a else a, RDone r))"

definition transition_service_startup ::
    "io \<Rightarrow> string \<Rightarrow> 64 word \<Rightarrow> service_status \<Rightarrow> string option \<Rightarrow> string option \<Rightarrow> config_actor \<Rightarrow> config_actor \<times> reply" where
  "transition_service_startup io n startup status skip_reason fail_reason a =
     (if service_startup a n = Some startup
      then (case set_service_status io n status
                (update_state n (\<lambda>st. st\<lparr>ss_skip_reason := skip_reason, ss_fail_reason := fail_reason\<rparr>) a) of
              (r, a') \<Rightarrow> (if is_ok r then saving io a' else a', RBool (is_ok r)))
      else (a, RBool False))"

definition set_service_status_with_reason ::
    "io \<Rightarrow> string \<Rightarrow> service_status \<Rightarrow> string option \<Rightarrow> string option \<Rightarrow> config_actor \<Rightarrow> config_actor \<times> reply" where
  "set_service_status_with_reason io n status skip_reason fail_reason a =
     save_if_ok io (set_service_status io n status
       (update_state n (\<lambda>st. st\<lparr>ss_skip_reason := (case skip_reason of Some r \<Rightarrow> Some r | None \<Rightarrow> ss_skip_reason st),
                               ss_fail_reason := (case fail_reason of Some r \<Rightarrow> Some r | None \<Rightarrow> ss_fail_reason st)\<rparr>) a))"

definition register_service_instance ::
    "io \<Rightarrow> string \<Rightarrow> nat option \<Rightarrow> datetime \<Rightarrow> config_actor \<Rightarrow> config_actor \<times> reply" where
  "register_service_instance io n pid started_at a = (case set_service_pid n pid (Some started_at) a of
      (Inl e, a1) \<Rightarrow> (a1, RInstance (Err e))
    | (Inr _, a1) \<Rightarrow>
        let a2 = cancel_health_check n a1;
            instance = ca_next_service_instance a2 + 1;
            a3 = a2\<lparr>ca_next_service_instance := instance,
                    ca_service_instances := (ca_service_instances a2)(n \<mapsto> instance)\<rparr>
        in (saving io a3, RInstance (Ok instance)))"

definition begin_health_check :: "string \<Rightarrow> 64 word \<Rightarrow> config_actor \<Rightarrow> config_actor \<times> reply" where
  "begin_health_check n inst a =
     (if ca_service_instances a n = Some inst \<and>
         (case status_of a n of Some status \<Rightarrow> is_running status | None \<Rightarrow> False)
      then let a1 = cancel_health_check n a;
               session = ca_next_health_check a1 + 1
           in (a1\<lparr>ca_next_health_check := session,
                  ca_health_check_sessions := (ca_health_check_sessions a1)(n \<mapsto> session)\<rparr>,
               RGeneration (Some session))
      else (a, RGeneration None))"

definition replace_health_task :: "string \<Rightarrow> nat \<Rightarrow> config_actor \<Rightarrow> config_actor" where
  "replace_health_task n handle a =
     (let a' = a\<lparr>ca_health_checks := (ca_health_checks a)(n \<mapsto> handle)\<rparr>
      in case ca_health_checks a n of Some old \<Rightarrow> emit [AbortTask old] a' | None \<Rightarrow> a')"

definition handle_update_health_check ::
    "io \<Rightarrow> string \<Rightarrow> 64 word \<Rightarrow> bool \<Rightarrow> 32 word \<Rightarrow> config_actor \<Rightarrow> config_actor \<times> reply" where
  "handle_update_health_check io n session passed retries a =
     (if is_health_check_current a n session
      then (case update_health_check n passed retries a of
              (Inl e, a') \<Rightarrow> (a', RHealth (Err e))
            | (Inr u, a') \<Rightarrow> (if hu_previous_status u \<noteq> hu_new_status u then saving io a' else a',
                             RHealth (Ok (Some u))))
      else (a, RHealth (Ok None)))"

definition take_guard :: "string \<Rightarrow> config_actor \<Rightarrow> config_actor \<times> reply" where
  "take_guard n a = (a\<lparr>ca_token_guards := (ca_token_guards a)(n := None)\<rparr>, RGuard (ca_token_guards a n))"

primrec process_command :: "io \<Rightarrow> command \<Rightarrow> config_actor \<Rightarrow> config_actor \<times> reply" where
  "process_command io (GetServiceStatus service) a = (a, RInfos (get_service_status a service))"
| "process_command io (IsServiceRunning n) a =
     (a, RBool (case status_of a n of Some s \<Rightarrow> is_running s | None \<Rightarrow> False))"
| "process_command io GetRunningServices a =
     (a, RNames (map fst (filter (\<lambda>(_, st). is_running (ss_status st)) (ca_services a))))"
| "process_command io IsConfigInitialized a = (a, RBool (ca_initialized a))"
| "process_command io (IsServiceInitialized n) a =
     (a, RBool (case hm_get (ca_services a) n of Some st \<Rightarrow> ss_initialized st | None \<Rightarrow> False))"
| "process_command io (GetServiceState n) a = (a, RState (hm_get (ca_services a) n))"
| "process_command io AllServicesStopped a =
     (a, RBool (list_all (\<lambda>(_, st). \<not> is_running (ss_status st)) (ca_services a)))"
| "process_command io CmdCheckQuiescence a =
     (if ca_startup_in_progress a then (a, RBool False)
      else case compute_quiescence io a of (q, a') \<Rightarrow> (a', RBool q))"
| "process_command io CmdCheckReadiness a =
     (a, RBool (if ca_startup_in_progress a then False else compute_ready a))"
| "process_command io RecheckReadyQuiescent a =
     (check_and_notify_quiescent io (check_and_notify_ready (a\<lparr>ca_last_ready := False, ca_last_quiescent := False\<rparr>)),
      RNone)"
| "process_command io (SetStartupInProgress in_progress) a =
     (let a1 = a\<lparr>ca_startup_in_progress := in_progress\<rparr>
      in (if \<not> in_progress then check_and_notify_quiescent io (check_and_notify_ready a1) else a1, RNone))"
| "process_command io (ClaimServiceStart n) a = claim_service_start io n a"
| "process_command io (ClaimServiceRestart n) a = claim_service_restart io n a"
| "process_command io (ClaimInactiveServiceRestart n states) a = claim_inactive_service_restart io n states a"
| "process_command io (GetServiceStartup n) a = (a, RGeneration (service_startup a n))"
| "process_command io (TransitionServiceStartup n startup status skip fail) a =
     transition_service_startup io n startup status skip fail a"
| "process_command io (SetServiceStatusWithReason n status skip fail) a =
     set_service_status_with_reason io n status skip fail a"
| "process_command io (SetServiceStatus n status) a = save_if_ok io (set_service_status io n status a)"
| "process_command io (SetSkipReason n r) a = (update_state n (\<lambda>st. st\<lparr>ss_skip_reason := Some r\<rparr>) a, RNone)"
| "process_command io (SetFailReason n r) a = (update_state n (\<lambda>st. st\<lparr>ss_fail_reason := Some r\<rparr>) a, RNone)"
| "process_command io (SetServicePid n pid started_at) a = save_if_ok io (set_service_pid n pid started_at a)"
| "process_command io (RecordProcessExit n exit_code signal) a =
     save_if_ok io (record_process_exit n exit_code signal a)"
| "process_command io (RegisterServiceInstance n pid started_at) a = register_service_instance io n pid started_at a"
| "process_command io (GetServiceInstance n) a = (a, RGeneration (ca_service_instances a n))"
| "process_command io (BeginHealthCheck n inst) a = begin_health_check n inst a"
| "process_command io (IsHealthCheckCurrent n session) a = (a, RBool (is_health_check_current a n session))"
| "process_command io (StoreHealthCheckTask n session handle) a =
     (if is_health_check_current a n session then replace_health_task n handle a else emit [AbortTask handle] a, RNone)"
| "process_command io (UpdateHealthCheck n session passed retries) a =
     handle_update_health_check io n session passed retries a"
| "process_command io MarkConfigInitialized a = (saving io (a\<lparr>ca_initialized := True\<rparr>), RDone (Ok ()))"
| "process_command io (MarkServiceInitialized n) a = update_or_fail io n (\<lambda>st. st\<lparr>ss_initialized := True\<rparr>) a"
| "process_command io (IncrementRestartCount n) a = update_or_fail io n
     (\<lambda>st. st\<lparr>ss_restart_count := ss_restart_count st + 1,
             ss_restart_count_since_healthy := ss_restart_count_since_healthy st + 1\<rparr>) a"
| "process_command io (ResetRestartCount n) a = update_or_fail io n
     (\<lambda>st. st\<lparr>ss_restart_count := 0, ss_restart_count_since_healthy := 0\<rparr>) a"
| "process_command io (StoreResolvedConfig n cfg env dir vars) a =
     (let a1 = update_state n (\<lambda>st. st\<lparr>ss_computed_env := env, ss_working_dir := dir, ss_env_file_vars := vars\<rparr>) a
      in (a1\<lparr>ca_resolved_configs := (ca_resolved_configs a1)(n \<mapsto> cfg)\<rparr>, RNone))"
| "process_command io (StoreProcessHandle n handle) a =
     (a\<lparr>ca_processes := (ca_processes a)(n \<mapsto> handle)\<rparr>, RNone)"
| "process_command io (RemoveProcessHandle n) a =
     (a\<lparr>ca_processes := (ca_processes a)(n := None)\<rparr>, RHandle (ca_processes a n))"
| "process_command io (StoreTokenGuard n guard) a =
     (a\<lparr>ca_token_guards := (ca_token_guards a)(n \<mapsto> guard)\<rparr>, RNone)"
| "process_command io (StoreStartupTokenGuard n startup guard) a =
     (if service_startup a n = Some startup
      then (a\<lparr>ca_token_guards := (ca_token_guards a)(n \<mapsto> guard)\<rparr>, RGuard None)
      else (a, RGuard (Some guard)))"
| "process_command io (TakeTokenGuard n) a = take_guard n a"
| "process_command io (TakeMatchingTokenGuard n t) a =
     (case ca_token_guards a n of
        Some guard \<Rightarrow> if res_ok (guard_raw_token guard) = Some t then take_guard n a else (a, RGuard None)
      | None \<Rightarrow> (a, RGuard None))"
| "process_command io (StoreTaskHandle n handle) a = (replace_health_task n handle a, RNone)"
| "process_command io (CancelTaskHandle n) a = (cancel_health_check n a, RNone)"
| "process_command io (CmdShutdown clean) a =
     (if clean then a\<lparr>ca_clean_shutdown := True\<rparr> else saving io a, RNone)"
| "process_command io TakeSnapshotIfNeeded a =
     (case take_snapshot_if_needed io a of (r, a') \<Rightarrow> (a', RSnapshot r))"
| "process_command io ClearSnapshot a = (case io_clear_snapshot io of
      Inl e \<Rightarrow> (a, RDone (Err (DiskError e)))
    | Inr _ \<Rightarrow> (a\<lparr>ca_snapshot_taken := False, ca_restored_from_snapshot := False,
                   ca_resolved_configs := Map.empty\<rparr>, RDone (Ok ())))"
| "process_command io IsRestoredFromSnapshot a = (a, RBool (ca_restored_from_snapshot a))"
| "process_command io SetSuppressSnapshot a = (a\<lparr>ca_suppress_snapshot := True\<rparr>, RNone)"
| "process_command io HasEventHandler a = (a, RBool (ca_event_handler_spawned a))"
| "process_command io SetEventHandlerSpawned a = (a\<lparr>ca_event_handler_spawned := True\<rparr>, RNone)"
| "process_command io (MergeKeplerEnv overrides) a =
     ((resave_snapshot io (a\<lparr>ca_kepler_env := ca_kepler_env a ++ overrides\<rparr>))\<lparr>ca_resolved_configs := Map.empty\<rparr>, RNone)"
| "process_command io (MergeKeplerFlags flags) a =
     ((resave_snapshot io (a\<lparr>ca_kepler_flags := ca_kepler_flags a ++ flags\<rparr>))\<lparr>ca_resolved_configs := Map.empty\<rparr>, RNone)"

text \<open>A sequence of commands, each with its own time and disk outcomes; the replies in order.\<close>

fun run_commands :: "(io \<times> command) list \<Rightarrow> config_actor \<Rightarrow> config_actor \<times> reply list" where
  "run_commands [] a = (a, [])"
| "run_commands ((io, c) # cs) a =
     (case process_command io c a of (a', r) \<Rightarrow>
      case run_commands cs a' of (a'', rs) \<Rightarrow> (a'', r # rs))"

subsection \<open>Creation\<close>

text \<open>
  An actor is created from a snapshot when there is one and from the parsed configuration otherwise.
  Reading the files, the Lua evaluator and the compiled access rules are outside the model: the
  parsed configuration, the resolved environment and the persisted state are arguments.
\<close>

record expanded_config_snapshot =
  sn_config :: kepler_config
  sn_config_dir :: string
  sn_kepler_env :: env_map
  sn_kepler_flags :: env_map
  sn_owner_uid :: "nat option"

definition restore_services ::
    "(int \<Rightarrow> datetime option) \<Rightarrow> expanded_config_snapshot \<Rightarrow> persisted_config_state option \<Rightarrow> (string, service_state) hmap" where
  "restore_services from_timestamp snapshot persisted_state =
     map (\<lambda>name. (name,
       case Option.bind persisted_state (\<lambda>ps. hm_get (pc_services ps) name) of
         Some ss \<Rightarrow> to_service_state from_timestamp ss Map.empty (sn_config_dir snapshot)
       | None \<Rightarrow> service_state_default\<lparr>ss_computed_env := Map.empty, ss_working_dir := sn_config_dir snapshot\<rparr>))
     (hm_keys (kc_services (sn_config snapshot)))"

definition fresh_services ::
    "kepler_config \<Rightarrow> string \<Rightarrow> persisted_config_state option \<Rightarrow> (string, service_state) hmap" where
  "fresh_services config config_dir persisted_state =
     map (\<lambda>name. (name, service_state_default
       \<lparr>ss_computed_env := Map.empty, ss_working_dir := config_dir,
        ss_initialized := (case Option.bind persisted_state (\<lambda>ps. hm_get (pc_services ps) name) of
            Some ss \<Rightarrow> ps_initialized ss | None \<Rightarrow> False)\<rparr>))
     (hm_keys (kc_services config))"

definition new_actor ::
    "kepler_config \<Rightarrow> (string, service_state) hmap \<Rightarrow> bool \<Rightarrow> bool \<Rightarrow> bool \<Rightarrow> env_map \<Rightarrow> env_map \<Rightarrow> nat option \<Rightarrow> config_actor" where
  "new_actor config services initialized snapshot_taken restored_from_snapshot kepler_env kepler_flags owner_uid =
     \<lparr>ca_config = config, ca_services = services, ca_startup_generations = Map.empty,
      ca_startup_claims = Map.empty, ca_initialized = initialized, ca_resolved_configs = Map.empty,
      ca_processes = Map.empty, ca_token_guards = Map.empty, ca_health_checks = Map.empty,
      ca_service_instances = Map.empty, ca_next_service_instance = 0,
      ca_health_check_sessions = Map.empty, ca_next_health_check = 0,
      ca_snapshot_taken = snapshot_taken, ca_restored_from_snapshot = restored_from_snapshot,
      ca_event_handler_spawned = False, ca_kepler_env = kepler_env, ca_kepler_flags = kepler_flags,
      ca_owner_uid = owner_uid, ca_last_ready = False, ca_last_quiescent = False,
      ca_startup_in_progress = False, ca_cached_topo_order = None, ca_suppress_snapshot = False,
      ca_clean_shutdown = False, ca_effects = []\<rparr>"

definition create_from_snapshot ::
    "(int \<Rightarrow> datetime option) \<Rightarrow> expanded_config_snapshot \<Rightarrow> persisted_config_state option \<Rightarrow> config_actor" where
  "create_from_snapshot from_timestamp snapshot persisted_state =
     new_actor (sn_config snapshot) (restore_services from_timestamp snapshot persisted_state)
       (case persisted_state of Some ps \<Rightarrow> pc_config_initialized ps | None \<Rightarrow> False) True True
       (sn_kepler_env snapshot) (sn_kepler_flags snapshot) (sn_owner_uid snapshot)"

definition create_fresh ::
    "kepler_config \<Rightarrow> string \<Rightarrow> env_map \<Rightarrow> (nat \<times> nat) option \<Rightarrow> persisted_config_state option \<Rightarrow> config_actor" where
  "create_fresh parsed config_dir resolved_kepler_env config_owner persisted_state =
     (let config = (case config_owner of Some (uid, gid) \<Rightarrow> resolve_default_user parsed uid gid | None \<Rightarrow> parsed)
      in new_actor config (fresh_services config config_dir persisted_state)
           (case persisted_state of Some ps \<Rightarrow> pc_config_initialized ps | None \<Rightarrow> False) False False
           resolved_kepler_env Map.empty (map_option fst config_owner))"

end
