(* ===== verification/Actor_Startup.thy ===== *)
theory Actor_Startup
  imports Config_Actor
begin

text \<open>
  The startup claims and health check sessions of the configuration actor. Each service follows a
  small abstract protocol, the relation \<open>startup_step\<close>, in which a startup is claimed by at most
  one task and a stop takes the claim away; every command of the actor refines a step of it, and
  the properties of the protocol carry over to the actor.
\<close>

named_theorems actor_frame

subsection \<open>What the helpers leave alone\<close>

lemma hm_get_set:
  "hm_get (hm_set m k v) k' = (if k' = k \<and> hm_contains m k then Some v else hm_get m k')"
proof (induction m)
  case Nil
  then show ?case by (simp add: hm_set_def hm_get_def hm_contains_def hm_keys_def)
next
  case (Cons x m)
  obtain k0 v0 where x: "x = (k0, v0)" by force
  from Cons.IH show ?case
    by (cases "k0 = k"; cases "k' = k"; cases "k0 = k'")
      (simp_all add: x hm_set_def hm_get_def hm_contains_def hm_keys_def)
qed

lemma hm_keys_set [simp]: "hm_keys (hm_set m k v) = hm_keys m"
  by (simp add: hm_keys_def hm_set_def comp_def split_def if_distrib cong: if_cong)

lemma hm_contains_set [simp]: "hm_contains (hm_set m k v) n = hm_contains m n"
  by (simp add: hm_contains_def)

text \<open>The part of the state that the startup protocol and the health checks are about.\<close>

definition core :: "config_actor \<Rightarrow> (string, service_state) hmap \<times> (string \<rightharpoonup> 64 word) \<times> (string \<rightharpoonup> 64 word)
    \<times> (string \<rightharpoonup> 64 word) \<times> 64 word" where
  "core a = (ca_services a, ca_startup_generations a, ca_startup_claims a, ca_health_check_sessions a,
     ca_next_health_check a)"

lemma core_emit [actor_frame]: "core (emit es a) = core a"
  by (simp add: core_def emit_def)

lemma core_check_ready [actor_frame]: "core (check_and_notify_ready a) = core a"
  by (simp add: check_and_notify_ready_def core_emit) (simp add: core_def)

lemma core_check_quiescent [actor_frame]: "core (check_and_notify_quiescent io a) = core a"
  by (simp add: check_and_notify_quiescent_def compute_quiescence_def Let_def core_def emit_def split: option.splits)

lemma core_saving [actor_frame]: "core (saving io a) = core a"
  by (simp add: saving_def save_state_def core_def emit_def split: sum.splits)

lemma core_snapshot [actor_frame]: "core (snd (take_snapshot_if_needed io a)) = core a"
  by (simp add: take_snapshot_if_needed_def save_state_def core_def emit_def split: sum.splits)

lemma core_resave [actor_frame]: "core (resave_snapshot io a) = core a"
  by (simp add: resave_snapshot_def core_def emit_def)

lemma core_notify [actor_frame]: "core (notify_unhandled n st a) = core a"
  by (simp add: notify_unhandled_def core_emit Let_def)

lemma core_recheck [actor_frame]: "core (recheck_signals io st a) = core a"
  by (simp add: recheck_signals_def Let_def core_check_ready core_check_quiescent) (simp add: core_def)

lemma core_replace_task [actor_frame]: "core (replace_health_task n h a) = core a"
  by (simp add: replace_health_task_def core_emit Let_def split: option.splits) (simp add: core_def)

lemma core_claim:
  "core (snd (claim_startup n a)) = (ca_services a, ca_startup_generations a,
     (ca_startup_claims a)(n \<mapsto> generation_of a n), ca_health_check_sessions a, ca_next_health_check a)"
  by (simp add: claim_startup_def core_def Let_def)

lemma core_set_state:
  "core (set_state n st a) = (hm_set (ca_services a) n st, ca_startup_generations a,
     ca_startup_claims a, ca_health_check_sessions a, ca_next_health_check a)"
  by (simp add: set_state_def core_def)

lemma core_cancel:
  "core (cancel_health_check n a) = (ca_services a, ca_startup_generations a, ca_startup_claims a,
     (ca_health_check_sessions a)(n := None), ca_next_health_check a)"
  by (simp add: cancel_health_check_def core_def emit_def Let_def split: option.splits)

lemma core_fields:
  assumes "core a = (s, g, c, h, x)"
  shows "ca_services a = s" "ca_startup_generations a = g" "ca_startup_claims a = c"
    "ca_health_check_sessions a = h" "ca_next_health_check a = x"
  using assms by (simp_all add: core_def)

subsection \<open>The startup protocol\<close>

record startup =
  su_status :: service_status
  su_generation :: "64 word"
  su_claim :: "64 word option"

text \<open>
  A step of one service; the label is the claim that is handed out. A new startup and a stop
  advance the generation and void the claim, leaving the startup phase voids it, moving within it
  keeps it, and only an unclaimed waiting service, or one that just entered a new startup, is
  claimed.
\<close>

inductive startup_step :: "startup \<Rightarrow> 64 word option \<Rightarrow> startup \<Rightarrow> bool" where
  stay: "startup_step s None s"
| health: "is_running (su_status s) \<Longrightarrow> is_running st \<Longrightarrow> startup_step s None (s\<lparr>su_status := st\<rparr>)"
| stop: "startup_step s None \<lparr>su_status = Stopping, su_generation = su_generation s + 1, su_claim = None\<rparr>"
| enter: "st = Waiting \<or> st = Restarting \<Longrightarrow> st \<noteq> su_status s \<Longrightarrow>
    startup_step s None \<lparr>su_status = st, su_generation = su_generation s + 1, su_claim = None\<rparr>"
| advance: "in_startup st \<Longrightarrow> st = Starting \<or> st = su_status s \<Longrightarrow> startup_step s None (s\<lparr>su_status := st\<rparr>)"
| leave: "\<not> in_startup st \<Longrightarrow> st \<noteq> Stopping \<Longrightarrow> startup_step s None (s\<lparr>su_status := st, su_claim := None\<rparr>)"
| claim: "su_status s = Waiting \<Longrightarrow> su_claim s = None \<Longrightarrow>
    startup_step s (Some (su_generation s)) (s\<lparr>su_claim := Some (su_generation s)\<rparr>)"
| enter_claim: "st = Waiting \<or> st = Restarting \<Longrightarrow> st \<noteq> su_status s \<Longrightarrow>
    startup_step s (Some (su_generation s + 1))
      \<lparr>su_status = st, su_generation = su_generation s + 1, su_claim = Some (su_generation s + 1)\<rparr>"

inductive startup_run :: "startup \<Rightarrow> nat \<Rightarrow> 64 word list \<Rightarrow> startup \<Rightarrow> bool" where
  run_nil: "startup_run s 0 [] s"
| run_snoc: "startup_run s k ts s1 \<Longrightarrow> startup_step s1 t s2 \<Longrightarrow>
    startup_run s (Suc k) (ts @ (case t of Some x \<Rightarrow> [x] | None \<Rightarrow> [])) s2"

text \<open>A claim that is held is the current generation of a service in its startup phase.\<close>

definition startup_inv :: "startup \<Rightarrow> bool" where
  "startup_inv s \<longleftrightarrow> (\<forall>t. su_claim s = Some t \<longrightarrow> t = su_generation s \<and> in_startup (su_status s))"

lemma startup_step_inv: "startup_step s t s' \<Longrightarrow> startup_inv s \<Longrightarrow> startup_inv s'"
  by (induction rule: startup_step.induct) (auto simp: startup_inv_def in_startup_def is_running_def)

lemma startup_run_inv: "startup_run s k ts s' \<Longrightarrow> startup_inv s \<Longrightarrow> startup_inv s'"
  by (induction rule: startup_run.induct) (auto intro: startup_step_inv)

text \<open>
  Along a run the generation advances by some \<open>b\<close>, at most once a step; the claims handed out are
  different generations up to \<open>b\<close>, and a waiting service without a claim has a generation that was
  not handed out.
\<close>

definition run_inv :: "startup \<Rightarrow> nat \<Rightarrow> 64 word list \<Rightarrow> startup \<Rightarrow> nat \<Rightarrow> bool" where
  "run_inv s k ts s' b \<longleftrightarrow> b \<le> k \<and> su_generation s' = su_generation s + of_nat b \<and>
     (\<exists>is. ts = map (\<lambda>i. su_generation s + of_nat i) is \<and> distinct is \<and> set is \<subseteq> {..b} \<and>
       (su_status s' = Waiting \<and> su_claim s' = None \<longrightarrow> b \<notin> set is))"

lemma run_inv_step:
  assumes "startup_step s1 t s2" "run_inv s k ts s1 b"
  shows "\<exists>b'. run_inv s (Suc k) (ts @ (case t of Some x \<Rightarrow> [x] | None \<Rightarrow> [])) s2 b'"
proof -
  from assms(2) obtain is' where is': "b \<le> k" "su_generation s1 = su_generation s + of_nat b"
    "ts = map (\<lambda>i. su_generation s + of_nat i) is'" "distinct is'" "set is' \<subseteq> {..b}"
    "su_status s1 = Waiting \<and> su_claim s1 = None \<longrightarrow> b \<notin> set is'"
    by (auto simp: run_inv_def)
  have fresh: "Suc b \<notin> set is'" and sub: "set is' \<subseteq> {..Suc b}" using is'(5) by auto
  have bump: "run_inv s (Suc k) ts s2 (Suc b)"
    if "su_generation s2 = su_generation s1 + 1" for s2
    unfolding run_inv_def using is' that fresh sub
    by (intro conjI exI [of _ is']) (auto simp: add.commute add.left_commute)
  have keep: "run_inv s (Suc k) ts s2 b"
    if "su_generation s2 = su_generation s1"
      "su_status s2 = Waiting \<and> su_claim s2 = None \<longrightarrow> b \<notin> set is'" for s2
    unfolding run_inv_def using is' that by (intro conjI exI [of _ is']) auto
  from assms(1) show ?thesis
  proof cases
    case (claim)
    then have "run_inv s (Suc k) (ts @ [su_generation s1]) s2 b"
      unfolding run_inv_def using is' by (intro conjI exI [of _ "is' @ [b]"]) auto
    with claim show ?thesis by auto
  next
    case (enter_claim st)
    then have "run_inv s (Suc k) (ts @ [su_generation s1 + 1]) s2 (Suc b)"
      unfolding run_inv_def using is' fresh sub
      by (intro conjI exI [of _ "is' @ [Suc b]"]) (auto simp: add.commute add.left_commute)
    with enter_claim show ?thesis by auto
  next
    case stop
    with bump [of s2] show ?thesis by auto
  next
    case (enter st)
    with bump [of s2] show ?thesis by auto
  next
    case stay
    with keep [of s2] is'(6) show ?thesis by auto
  next
    case (health st)
    with keep [of s2] show ?thesis by (auto simp: is_running_def)
  next
    case (advance st)
    with keep [of s2] is'(6) show ?thesis by auto
  next
    case (leave st)
    with keep [of s2] show ?thesis by (auto simp: in_startup_def)
  qed
qed

lemma startup_run_facts:
  assumes "startup_run s k ts s'"
  shows "\<exists>b. run_inv s k ts s' b"
  using assms
proof (induction rule: startup_run.induct)
  case (run_nil s)
  have "run_inv s 0 [] s 0" by (simp add: run_inv_def)
  then show ?case ..
next
  case (run_snoc s k ts s1 t s2)
  from run_snoc.IH obtain b where "run_inv s k ts s1 b" ..
  with run_snoc.hyps(2) show ?case by (rule run_inv_step)
qed

lemma of_nat_inj_64: "i < 2 ^ 64 \<Longrightarrow> j < 2 ^ 64 \<Longrightarrow> (of_nat i :: 64 word) = of_nat j \<longleftrightarrow> i = j"
  by (simp add: word_of_nat_eq_iff take_bit_nat_eq_self)

subsection \<open>The actor follows the protocol\<close>

definition startup_of :: "config_actor \<Rightarrow> string \<Rightarrow> startup option" where
  "startup_of a n = map_option
     (\<lambda>st. \<lparr>su_status = ss_status st, su_generation = generation_of a n, su_claim = ca_startup_claims a n\<rparr>)
     (hm_get (ca_services a) n)"

text \<open>The claim on a service that the reply to a command hands out.\<close>

definition issued_claim :: "command \<Rightarrow> reply \<Rightarrow> string \<Rightarrow> 64 word option" where
  "issued_claim c r n = (case r of
      RGeneration t \<Rightarrow> (case c of
          ClaimServiceStart m \<Rightarrow> if m = n then t else None
        | ClaimServiceRestart m \<Rightarrow> if m = n then t else None
        | ClaimInactiveServiceRestart m _ \<Rightarrow> if m = n then t else None
        | _ \<Rightarrow> None)
    | _ \<Rightarrow> None)"

definition simulates :: "config_actor \<Rightarrow> string \<Rightarrow> 64 word option \<Rightarrow> config_actor \<Rightarrow> bool" where
  "simulates a n t a' = (case (startup_of a n, startup_of a' n) of
      (None, None) \<Rightarrow> t = None
    | (Some s, Some s') \<Rightarrow> startup_step s t s'
    | _ \<Rightarrow> False)"

definition status_change :: "service_status \<Rightarrow> startup \<Rightarrow> startup" where
  "status_change st s =
     (let new = st = Stopping \<or> (st = Waiting \<or> st = Restarting) \<and> st \<noteq> su_status s
      in \<lparr>su_status = st, su_generation = (if new then su_generation s + 1 else su_generation s),
          su_claim = (if new \<or> \<not> in_startup st then None else su_claim s)\<rparr>)"

lemma status_change_step: "startup_step s None (status_change st s)"
proof (cases "st = Stopping \<or> (st = Waiting \<or> st = Restarting) \<and> st \<noteq> su_status s")
  case True
  then show ?thesis
    using startup_step.stop [of s] startup_step.enter [of st s] by (auto simp: status_change_def)
next
  case False
  then show ?thesis
    using startup_step.leave [of st s] startup_step.advance [of st s]
    by (cases s) (auto simp: status_change_def in_startup_def)
qed

lemma startup_of_cong:
  assumes "core a = core b"
  shows "startup_of a = startup_of b"
  using assms by (intro ext) (simp add: core_def startup_of_def generation_of_def)

lemmas startup_of_frame [actor_frame] = core_emit [THEN startup_of_cong]
  core_check_ready [THEN startup_of_cong] core_check_quiescent [THEN startup_of_cong]
  core_saving [THEN startup_of_cong] core_snapshot [THEN startup_of_cong]
  core_resave [THEN startup_of_cong] core_notify [THEN startup_of_cong]
  core_recheck [THEN startup_of_cong] core_replace_task [THEN startup_of_cong]

lemma startup_of_services:
  assumes "ca_startup_generations a' = ca_startup_generations a" "ca_startup_claims a' = ca_startup_claims a"
    "ca_services a' = hm_set (ca_services a) n st'" "hm_get (ca_services a) n = Some st" "ss_status st' = ss_status st"
  shows "startup_of a' = startup_of a"
proof
  fix m
  show "startup_of a' m = startup_of a m"
    using assms by (simp add: startup_of_def generation_of_def hm_get_set hm_get_Some_contains)
qed

lemma startup_of_set_state:
  "hm_get (ca_services a) n = Some st \<Longrightarrow> ss_status st' = ss_status st \<Longrightarrow>
   startup_of (set_state n st' a) = startup_of a"
  by (rule startup_of_services [where st = st and st' = st']) (simp_all add: set_state_def)

lemma startup_of_update_state [actor_frame]:
  "(\<And>st. ss_status (f st) = ss_status st) \<Longrightarrow> startup_of (update_state n f a) = startup_of a"
  by (simp add: update_state_def startup_of_set_state split: option.splits)

lemma startup_of_cancel [actor_frame]: "startup_of (cancel_health_check n a) = startup_of a"
  by (intro ext) (simp add: cancel_health_check_def emit_def startup_of_def generation_of_def Let_def split: option.splits)

lemma services_cancel [simp]: "ca_services (cancel_health_check n a) = ca_services a"
  by (simp add: cancel_health_check_def emit_def Let_def split: option.splits)

lemma enter_status_status [simp]: "ss_status (enter_status now st s) = st"
  by (simp add: enter_status_def Let_def)

lemma startup_of_change:
  assumes "hm_get (ca_services a) n = Some st0" "ss_status st' = st"
  shows "startup_of (set_state n st' (advance_generation n (ss_status st0) st a)) m =
    (if m = n then map_option (status_change st) (startup_of a n) else startup_of a m)"
proof (cases "m = n")
  case True
  with assms hm_get_Some_contains [OF assms(1)] show ?thesis
    by (simp add: startup_of_def set_state_def advance_generation_def hm_get_set generation_of_def
        status_change_def Let_def)
next
  case False
  then show ?thesis
    by (simp add: startup_of_def set_state_def advance_generation_def hm_get_set generation_of_def Let_def)
qed

lemma startup_of_set_service_status:
  "startup_of (snd (set_service_status io n st a)) m =
   (if m = n then map_option (status_change st) (startup_of a n) else startup_of a m)"
proof (cases "hm_get (ca_services a) n")
  case None
  then show ?thesis by (simp add: set_service_status_def actor_frame startup_of_def [of a n])
next
  case (Some st0)
  let ?a1 = "if \<not> is_running st then cancel_health_check n a else a"
  have "hm_get (ca_services ?a1) n = Some st0" "startup_of ?a1 = startup_of a"
    using Some by (simp_all add: actor_frame)
  then show ?thesis
    by (simp add: set_service_status_def Let_def actor_frame startup_of_change)
qed

lemma startup_of_claim:
  "startup_of (snd (claim_startup n a)) m =
   (if m = n then map_option (\<lambda>s. s\<lparr>su_claim := Some (su_generation s)\<rparr>) (startup_of a n) else startup_of a m)"
  by (simp add: claim_startup_def startup_of_def generation_of_def Let_def option.map_comp comp_def)

lemma claim_startup_token: "startup_of a n = Some s \<Longrightarrow> fst (claim_startup n a) = su_generation s"
  by (auto simp: claim_startup_def startup_of_def Let_def)

lemma status_of_startup: "status_of a n = map_option su_status (startup_of a n)"
  by (simp add: status_of_def startup_of_def option.map_comp comp_def)

lemma is_ok_set_service_status: "is_ok (fst (set_service_status io n st a)) \<longleftrightarrow> startup_of a n \<noteq> None"
  by (simp add: set_service_status_def startup_of_def Let_def is_ok_def split: option.splits)

lemma simulates_quiet: "startup_of a' n = startup_of a n \<Longrightarrow> simulates a n None a'"
  by (auto simp: simulates_def intro: startup_step.stay split: option.splits)

lemma simulates_status:
  "simulates a m None (snd (set_service_status io n st a))"
  by (auto simp: simulates_def startup_of_set_service_status
      intro: startup_step.stay status_change_step split: option.splits)

lemma simulates_cong:
  "startup_of a = startup_of b \<Longrightarrow> startup_of a' = startup_of b' \<Longrightarrow> simulates a n t a' = simulates b n t b'"
  by (simp add: simulates_def)

lemma ca_claims_startup: "startup_of a n = Some s \<Longrightarrow> ca_startup_claims a n = su_claim s"
  by (auto simp: startup_of_def)

text \<open>A claim on a waiting service without one, and a claim that begins a new startup.\<close>

lemma simulates_claim:
  assumes "startup_of a n = Some s" "su_status s = Waiting" "su_claim s = None"
  shows "simulates a m (if m = n then Some (fst (claim_startup n a)) else None) (snd (claim_startup n a))"
  using assms startup_step.claim [of s]
  by (auto simp: simulates_def startup_of_claim claim_startup_token intro: startup_step.stay split: option.splits)

lemma simulates_enter_claim:
  assumes "startup_of a n = Some s" "st = Waiting \<or> st = Restarting" "st \<noteq> su_status s"
    "startup_of b = startup_of (snd (set_service_status io n st a))"
  shows "simulates a m (if m = n then Some (fst (claim_startup n b)) else None) (snd (claim_startup n b))"
proof -
  have b: "startup_of b n = Some \<lparr>su_status = st, su_generation = su_generation s + 1, su_claim = None\<rparr>"
    using assms by (auto simp: startup_of_set_service_status status_change_def Let_def)
  show ?thesis
    using startup_step.enter_claim [OF assms(2,3)] assms(1,4) b claim_startup_token [OF b]
    by (auto simp: simulates_def startup_of_claim startup_of_set_service_status intro: startup_step.stay
        split: option.splits)
qed

lemma simulates_frame [actor_frame]:
  "simulates a n t (saving io a') = simulates a n t a'" "simulates a n t (emit es a') = simulates a n t a'"
  by (simp_all add: simulates_def actor_frame)

lemma simulates_claim_start:
  "simulates a m (issued_claim (ClaimServiceStart n) (snd (claim_service_start io n a)) m)
     (fst (claim_service_start io n a))"
proof (cases "startup_of a n")
  case None
  then show ?thesis
    by (simp add: claim_service_start_def status_of_startup issued_claim_def simulates_quiet)
next
  case (Some s)
  consider (waiting) "su_status s = Waiting" "su_claim s = None" | (inactive) "\<not> is_active (su_status s)"
    | (no) "\<not> (su_status s = Waiting \<and> su_claim s = None)" "is_active (su_status s)" by auto
  then show ?thesis
  proof cases
    case waiting
    with Some simulates_claim [OF Some waiting, of m] show ?thesis
      by (simp add: claim_service_start_def status_of_startup issued_claim_def ca_claims_startup
          actor_frame split_def eq_commute [of m])
  next
    case inactive
    then have "Waiting \<noteq> su_status s" by (auto simp: is_active_def)
    with Some inactive simulates_enter_claim [OF Some _ _ refl, where st = Waiting and io = io and m = m] show ?thesis
      by (simp add: claim_service_start_def status_of_startup issued_claim_def actor_frame split_def eq_commute [of m])
  next
    case no
    with Some show ?thesis
      by (auto simp: claim_service_start_def status_of_startup issued_claim_def ca_claims_startup
          intro: simulates_quiet)
  qed
qed

lemma simulates_claim_restart:
  "simulates a m (issued_claim (ClaimServiceRestart n) (snd (claim_service_restart io n a)) m)
     (fst (claim_service_restart io n a))"
proof (cases "\<exists>st. hm_get (ca_services a) n = Some st \<and> ss_initialized st \<and> is_running (ss_status st)")
  case True
  then obtain st where st: "hm_get (ca_services a) n = Some st" "ss_initialized st" "is_running (ss_status st)" by blast
  then obtain s where s: "startup_of a n = Some s" "su_status s = ss_status st" by (simp add: startup_of_def)
  have "simulates a m (if m = n then Some (fst (claim_startup n (saving io (snd (set_service_status io n Restarting a))))) else None)
     (snd (claim_startup n (saving io (snd (set_service_status io n Restarting a)))))"
    using st s by (intro simulates_enter_claim [OF s(1)]) (auto simp: actor_frame is_running_def)
  with st show ?thesis
    by (simp add: claim_service_restart_def issued_claim_def split_def eq_commute [of m])
next
  case False
  then show ?thesis
    by (auto simp: claim_service_restart_def issued_claim_def intro!: simulates_quiet split: option.splits)
qed

lemma simulates_claim_inactive:
  "simulates a m (issued_claim (ClaimInactiveServiceRestart n states) (snd (claim_inactive_service_restart io n states a)) m)
     (fst (claim_inactive_service_restart io n states a))"
proof (cases "\<exists>st. hm_get (ca_services a) n = Some st \<and> ss_initialized st \<and>
    list_ex (\<lambda>s. state_includes s (status_as_str (ss_status st))) states")
  case True
  then obtain st where st: "hm_get (ca_services a) n = Some st" "ss_initialized st"
    "list_ex (\<lambda>s. state_includes s (status_as_str (ss_status st))) states" by blast
  from st(3) have "\<not> is_active (ss_status st)" by (auto simp: list_ex_iff dest: includes_inactive)
  moreover from st obtain s where s: "startup_of a n = Some s" "su_status s = ss_status st"
    by (simp add: startup_of_def)
  ultimately have "simulates a m (if m = n then Some (fst (claim_startup n (snd (set_service_status io n Waiting a)))) else None)
     (snd (claim_startup n (snd (set_service_status io n Waiting a))))"
    by (intro simulates_enter_claim [OF s(1)]) (auto simp: is_active_def)
  with st show ?thesis
    by (simp add: claim_inactive_service_restart_def issued_claim_def actor_frame split_def eq_commute [of m])
next
  case False
  then show ?thesis
    by (auto simp: claim_inactive_service_restart_def issued_claim_def intro!: simulates_quiet split: option.splits)
qed

lemma startup_of_if_saving [actor_frame]: "startup_of (if b then saving io a else a) = startup_of a"
  by (simp add: actor_frame)

lemma simulates_save_if_ok:
  "simulates a m None (snd ra) \<Longrightarrow> simulates a m None (fst (save_if_ok io ra))"
  by (cases ra) (simp add: save_if_ok_def actor_frame)

lemma simulates_after_update:
  assumes "\<And>st. ss_status (f st) = ss_status st"
  shows "simulates a m None (snd (set_service_status io n st (update_state n f a)))"
  using simulates_status [of "update_state n f a" m io n st]
  by (simp add: simulates_def startup_of_update_state [of f, OF assms])

lemma simulates_transition:
  "simulates a m None (fst (transition_service_startup io n startup st skip fail a))"
  using simulates_after_update [of "\<lambda>s. s\<lparr>ss_skip_reason := skip, ss_fail_reason := fail\<rparr>" a m io n st]
  by (simp add: transition_service_startup_def split_def actor_frame simulates_quiet)

lemma simulates_with_reason:
  "simulates a m None (fst (set_service_status_with_reason io n st skip fail a))"
  unfolding set_service_status_with_reason_def
  by (intro simulates_save_if_ok simulates_after_update) simp

lemma startup_of_set_service_pid [actor_frame]: "startup_of (snd (set_service_pid n pid t a)) = startup_of a"
  by (simp add: set_service_pid_def startup_of_set_state split: option.splits)

lemma startup_of_processes [actor_frame]: "startup_of (a\<lparr>ca_processes := p\<rparr>) = startup_of a"
  by (intro ext) (simp add: startup_of_def generation_of_def)

lemma startup_of_record_exit [actor_frame]:
  "startup_of (snd (record_process_exit n code signal a)) = startup_of a"
  by (simp add: record_process_exit_def Let_def startup_of_set_state actor_frame split: option.splits)

lemma startup_of_instances [actor_frame]:
  "startup_of (a\<lparr>ca_next_service_instance := i, ca_service_instances := is\<rparr>) = startup_of a"
  by (intro ext) (simp add: startup_of_def generation_of_def)

lemma startup_of_register [actor_frame]:
  "startup_of (fst (register_service_instance io n pid t a)) = startup_of a"
proof (cases "set_service_pid n pid (Some t) a")
  case (Pair r a1)
  with startup_of_set_service_pid [of n pid "Some t" a] show ?thesis
    by (cases r) (simp_all add: register_service_instance_def Let_def actor_frame)
qed

lemma startup_of_begin_health [actor_frame]: "startup_of (fst (begin_health_check n i a)) = startup_of a"
proof
  fix m
  have "startup_of (a1\<lparr>ca_next_health_check := x, ca_health_check_sessions := y\<rparr>) m = startup_of a1 m" for a1 x y
    by (simp add: startup_of_def generation_of_def)
  then show "startup_of (fst (begin_health_check n i a)) m = startup_of a m"
    by (simp add: begin_health_check_def Let_def actor_frame)
qed

lemma health_result_status:
  "is_running (ss_status st) \<Longrightarrow> is_running (ss_status (health_result p r st))"
  by (auto simp: health_result_def Let_def is_running_def)

lemma startup_of_update_health:
  assumes "hm_get (ca_services a) n = Some st"
  shows "startup_of (snd (update_health_check n p r a)) m =
    (if m = n then map_option (\<lambda>s. s\<lparr>su_status := ss_status (health_result p r st)\<rparr>) (startup_of a n)
     else startup_of a m)"
proof -
  have "startup_of (set_state n (health_result p r st) a) m =
    (if m = n then map_option (\<lambda>s. s\<lparr>su_status := ss_status (health_result p r st)\<rparr>) (startup_of a n)
     else startup_of a m)"
    using assms hm_get_Some_contains [OF assms]
    by (simp add: set_state_def startup_of_def hm_get_set generation_of_def)
  then show ?thesis
    using assms by (cases "m = n") (simp_all add: update_health_check_def Let_def actor_frame)
qed

lemma handle_update_health_fst:
  "startup_of (fst (handle_update_health_check io n session p r a)) =
   (if is_health_check_current a n session then startup_of (snd (update_health_check n p r a)) else startup_of a)"
  by (cases "update_health_check n p r a"; cases "fst (update_health_check n p r a)")
    (simp_all add: handle_update_health_check_def actor_frame)

lemma simulates_update_health:
  "simulates a m None (fst (handle_update_health_check io n session p r a))"
proof (cases "is_health_check_current a n session")
  case True
  then obtain st where st: "hm_get (ca_services a) n = Some st" "is_running (ss_status st)"
    by (auto simp: is_health_check_current_def status_of_def split: option.splits)
  from st(1) obtain s where s: "startup_of a n = Some s" "su_status s = ss_status st" by (simp add: startup_of_def)
  with st(2) have "startup_step s None (s\<lparr>su_status := ss_status (health_result p r st)\<rparr>)"
    by (intro startup_step.health) (simp_all add: health_result_status)
  with True st(1) s show ?thesis
    by (auto simp: simulates_def handle_update_health_fst startup_of_update_health
        intro: startup_step.stay split: option.splits)
next
  case False
  then show ?thesis by (intro simulates_quiet) (simp add: handle_update_health_fst)
qed

text \<open>Commands that touch none of the four fields keep the startup of every service.\<close>

lemma startup_of_fields:
  assumes "ca_services a' = ca_services a" "ca_startup_generations a' = ca_startup_generations a"
    "ca_startup_claims a' = ca_startup_claims a"
  shows "startup_of a' = startup_of a"
  using assms by (intro ext) (simp add: startup_of_def generation_of_def)

lemma startup_of_field_updates [actor_frame]:
  "startup_of (a\<lparr>ca_last_ready := b, ca_last_quiescent := b'\<rparr>) = startup_of a"
  "startup_of (a\<lparr>ca_startup_in_progress := b\<rparr>) = startup_of a"
  "startup_of (a\<lparr>ca_initialized := b\<rparr>) = startup_of a"
  "startup_of (a\<lparr>ca_resolved_configs := rc\<rparr>) = startup_of a"
  "startup_of (a\<lparr>ca_token_guards := tg\<rparr>) = startup_of a"
  "startup_of (a\<lparr>ca_clean_shutdown := b\<rparr>) = startup_of a"
  "startup_of (a\<lparr>ca_suppress_snapshot := b\<rparr>) = startup_of a"
  "startup_of (a\<lparr>ca_event_handler_spawned := b\<rparr>) = startup_of a"
  "startup_of (a\<lparr>ca_kepler_env := e\<rparr>) = startup_of a"
  "startup_of (a\<lparr>ca_kepler_flags := e\<rparr>) = startup_of a"
  "startup_of (a\<lparr>ca_snapshot_taken := b, ca_restored_from_snapshot := b'\<rparr>) = startup_of a"
  by (rule startup_of_fields; simp)+

lemma startup_of_quiescence [actor_frame]: "startup_of (snd (compute_quiescence io a)) = startup_of a"
  by (rule startup_of_fields) (simp_all add: compute_quiescence_def Let_def split: option.splits)

lemma startup_of_update_or_fail [actor_frame]:
  "(\<And>st. ss_status (f st) = ss_status st) \<Longrightarrow> startup_of (fst (update_or_fail io n f a)) = startup_of a"
  by (simp add: update_or_fail_def startup_of_set_state actor_frame split: option.splits)

lemma startup_of_save_if_ok [actor_frame]: "startup_of (fst (save_if_ok io ra)) = startup_of (snd ra)"
  by (cases ra) (simp add: save_if_ok_def actor_frame)

lemma issued_claim_None [simp]:
  "(\<And>m. c \<noteq> ClaimServiceStart m) \<Longrightarrow> (\<And>m. c \<noteq> ClaimServiceRestart m) \<Longrightarrow>
   (\<And>m s. c \<noteq> ClaimInactiveServiceRestart m s) \<Longrightarrow> issued_claim c r n = None"
  by (cases c) (auto simp: issued_claim_def split: reply.splits)

lemmas simulates_commands = simulates_claim_start simulates_claim_restart simulates_claim_inactive
  simulates_transition simulates_with_reason simulates_update_health
  simulates_save_if_ok [OF simulates_status]

lemma process_command_simulates:
  "simulates a n (issued_claim c (snd (process_command io c a)) n) (fst (process_command io c a))"
  by (cases c) (simp_all add: simulates_commands simulates_quiet actor_frame split_def Let_def take_guard_def
      split: option.splits sum.splits)

subsection \<open>Runs of commands\<close>

lemma run_commands_append:
  "run_commands (cs @ cs') a =
     (let (a', rs) = run_commands cs a; (a'', rs') = run_commands cs' a' in (a'', rs @ rs'))"
  by (induction cs arbitrary: a) (simp_all add: Let_def split_def split_paired_all)

lemma run_commands_snoc:
  "run_commands (cs @ [x]) a =
     (fst (process_command (fst x) (snd x) (fst (run_commands cs a))),
      snd (run_commands cs a) @ [snd (process_command (fst x) (snd x) (fst (run_commands cs a)))])"
  by (cases x) (simp add: run_commands_append Let_def split_def)

text \<open>
  What a task that starts services relies on: a machine whose steps follow the startup protocol,
  whatever else its state holds. Along a run no claim is handed out twice, and a claim that a stop
  has voided stays void.
\<close>

locale claim_protocol =
  fixes view :: "'s \<Rightarrow> string \<Rightarrow> startup option"
    and step :: "'c \<Rightarrow> 's \<Rightarrow> 's \<times> 'r"
    and run :: "'c list \<Rightarrow> 's \<Rightarrow> 's \<times> 'r list"
    and issued :: "'c \<Rightarrow> 'r \<Rightarrow> string \<Rightarrow> 64 word option"
  assumes refines: "view a n = Some s \<Longrightarrow>
      \<exists>s'. view (fst (step c a)) n = Some s' \<and> startup_step s (issued c (snd (step c a)) n) s'"
    and run_empty: "run [] a = (a, [])"
    and run_step: "run (cs @ [c]) a =
      (fst (step c (fst (run cs a))), snd (run cs a) @ [snd (step c (fst (run cs a)))])"
begin

lemma run_length: "length (snd (run cs a)) = length cs"
  by (induction cs rule: rev_induct) (simp_all add: run_empty run_step)

lemma run_refines:
  assumes "view a n = Some s"
  shows "\<exists>s'. view (fst (run cs a)) n = Some s' \<and>
    startup_run s (length cs)
      (concat (map2 (\<lambda>c r. case issued c r n of Some t \<Rightarrow> [t] | None \<Rightarrow> []) cs (snd (run cs a)))) s'"
proof (induction cs rule: rev_induct)
  case Nil
  with assms show ?case by (simp add: run_empty run_nil)
next
  case (snoc c cs)
  let ?a = "fst (run cs a)"
  from snoc obtain s1 where s1: "view ?a n = Some s1" "startup_run s (length cs)
      (concat (map2 (\<lambda>c r. case issued c r n of Some t \<Rightarrow> [t] | None \<Rightarrow> []) cs (snd (run cs a)))) s1" by blast
  from refines [OF s1(1)] obtain s2 where "view (fst (step c ?a)) n = Some s2"
    "startup_step s1 (issued c (snd (step c ?a)) n) s2" by blast
  with run_snoc [OF s1(2), of "issued c (snd (step c ?a)) n" s2] show ?case
    by (simp add: run_step run_length)
qed

lemma claims_distinct:
  assumes "view a n = Some s" "length cs < 2 ^ 64"
  shows "distinct (concat (map2 (\<lambda>c r. case issued c r n of Some t \<Rightarrow> [t] | None \<Rightarrow> []) cs (snd (run cs a))))"
    (is "distinct ?ts")
proof -
  from run_refines [OF assms(1), of cs] obtain s' where "startup_run s (length cs) ?ts s'" by blast
  then obtain b where "run_inv s (length cs) ?ts s' b" using startup_run_facts by blast
  then obtain is' where is': "?ts = map (\<lambda>i. su_generation s + of_nat i) is'" "distinct is'" "set is' \<subseteq> {..b}"
    "b \<le> length cs" by (auto simp: run_inv_def)
  have "inj_on (\<lambda>i. su_generation s + of_nat i) (set is')"
  proof (rule inj_onI)
    fix i j
    assume "i \<in> set is'" "j \<in> set is'" "su_generation s + of_nat i = su_generation s + of_nat j"
    moreover from this is'(3,4) assms(2) have "i < 2 ^ 64" "j < 2 ^ 64" by auto
    ultimately show "i = j" by (simp add: of_nat_inj_64)
  qed
  with is'(1,2) show ?thesis by (simp add: distinct_map)
qed

lemma voided_claim:
  assumes "view a n = Some s" "startup_inv s" "su_claim s = None" "t + 1 = su_generation s"
    "length cs < 2 ^ 64 - 1" "view (fst (run cs a)) n = Some s'"
  shows "su_claim s' \<noteq> Some t"
proof
  assume "su_claim s' = Some t"
  from run_refines [OF assms(1), of cs] assms(6) obtain ts where run: "startup_run s (length cs) ts s'" by auto
  obtain b where b: "b \<le> length cs" "su_generation s' = su_generation s + of_nat b"
    using startup_run_facts [OF run] by (auto simp: run_inv_def)
  from startup_run_inv [OF run assms(2)] \<open>su_claim s' = Some t\<close> b(2) assms(4)
  have "of_nat (Suc b) = (0 :: 64 word)" by (auto simp: startup_inv_def algebra_simps)
  with of_nat_inj_64 [of "Suc b" 0] b(1) assms(5) show False by simp
qed

end

text \<open>The claims on a service handed out along a run, in order.\<close>

definition issued_claims :: "(io \<times> command) list \<Rightarrow> reply list \<Rightarrow> string \<Rightarrow> 64 word list" where
  "issued_claims cs rs n = concat (map2 (\<lambda>c r. case issued_claim (snd c) r n of Some t \<Rightarrow> [t] | None \<Rightarrow> []) cs rs)"

interpretation actor: claim_protocol startup_of "\<lambda>c. process_command (fst c) (snd c)" run_commands
  "\<lambda>c. issued_claim (snd c)"
proof
  fix a n s and c :: "io \<times> command"
  assume "startup_of a n = Some s"
  with process_command_simulates [of a n "snd c" "fst c"]
  show "\<exists>s'. startup_of (fst (process_command (fst c) (snd c) a)) n = Some s' \<and>
      startup_step s (issued_claim (snd c) (snd (process_command (fst c) (snd c) a)) n) s'"
    by (auto simp: simulates_def split: option.splits)
qed (simp_all add: run_commands_snoc)

subsection \<open>Health check sessions\<close>

definition sessions :: "config_actor \<Rightarrow> (string \<rightharpoonup> 64 word) \<times> 64 word" where
  "sessions a = (ca_health_check_sessions a, ca_next_health_check a)"

text \<open>A command drops sessions, or opens one under the next number.\<close>

definition session_step :: "config_actor \<Rightarrow> config_actor \<Rightarrow> bool" where
  "session_step a a' \<longleftrightarrow>
     (ca_next_health_check a' = ca_next_health_check a \<and>
      (\<forall>n. ca_health_check_sessions a' n = None \<or> ca_health_check_sessions a' n = ca_health_check_sessions a n)) \<or>
     (ca_next_health_check a' = ca_next_health_check a + 1 \<and>
      (\<exists>n. ca_health_check_sessions a' = (ca_health_check_sessions a)(n \<mapsto> ca_next_health_check a')))"

lemma session_step_one:
  "session_step a a' \<Longrightarrow> ca_health_check_sessions a' n = None \<or>
     ca_health_check_sessions a' n = ca_health_check_sessions a n \<or>
     ca_health_check_sessions a' n = Some (ca_next_health_check a + 1)"
  unfolding session_step_def by (elim disjE conjE exE) (blast, simp)

lemma sessions_cong: "core a = core b \<Longrightarrow> sessions a = sessions b"
  by (simp add: core_def sessions_def)

lemmas sessions_frame [actor_frame] = core_emit [THEN sessions_cong]
  core_check_ready [THEN sessions_cong] core_check_quiescent [THEN sessions_cong]
  core_saving [THEN sessions_cong] core_snapshot [THEN sessions_cong]
  core_resave [THEN sessions_cong] core_notify [THEN sessions_cong]
  core_recheck [THEN sessions_cong] core_replace_task [THEN sessions_cong]

lemma sessions_other [actor_frame]:
  "sessions (set_state n st a) = sessions a"
  "sessions (snd (claim_startup n a)) = sessions a"
  "sessions (advance_generation n old new a) = sessions a"
  "sessions (update_state n f a) = sessions a"
  "sessions (snd (set_service_pid n pid t a)) = sessions a"
  "sessions (snd (compute_quiescence io a)) = sessions a"
  "sessions (a\<lparr>ca_processes := p\<rparr>) = sessions a"
  "sessions (a\<lparr>ca_next_service_instance := i, ca_service_instances := is\<rparr>) = sessions a"
  by (simp_all add: sessions_def set_state_def claim_startup_def advance_generation_def update_state_def
      set_service_pid_def compute_quiescence_def Let_def split: option.splits)

lemma sessions_field_updates [actor_frame]:
  "sessions (a\<lparr>ca_last_ready := b, ca_last_quiescent := b'\<rparr>) = sessions a"
  "sessions (a\<lparr>ca_startup_in_progress := b\<rparr>) = sessions a"
  "sessions (a\<lparr>ca_initialized := b\<rparr>) = sessions a"
  "sessions (a\<lparr>ca_resolved_configs := rc\<rparr>) = sessions a"
  "sessions (a\<lparr>ca_token_guards := tg\<rparr>) = sessions a"
  "sessions (a\<lparr>ca_clean_shutdown := b\<rparr>) = sessions a"
  "sessions (a\<lparr>ca_suppress_snapshot := b\<rparr>) = sessions a"
  "sessions (a\<lparr>ca_event_handler_spawned := b\<rparr>) = sessions a"
  "sessions (a\<lparr>ca_kepler_env := e\<rparr>) = sessions a"
  "sessions (a\<lparr>ca_kepler_flags := e\<rparr>) = sessions a"
  "sessions (a\<lparr>ca_snapshot_taken := b, ca_restored_from_snapshot := b'\<rparr>) = sessions a"
  by (simp_all add: sessions_def)

lemma sessions_cancel:
  "sessions (cancel_health_check n a) = ((ca_health_check_sessions a)(n := None), ca_next_health_check a)"
  using core_cancel [of n a] by (simp add: sessions_def core_def)

lemma sessions_set_service_status:
  "sessions (snd (set_service_status io n st a)) =
    (if is_running st then sessions a else sessions (cancel_health_check n a))"
  by (simp add: set_service_status_def Let_def actor_frame split: option.splits)

lemma sessions_record_exit:
  "sessions (snd (record_process_exit n code signal a)) = sessions (cancel_health_check n a)"
  by (simp add: record_process_exit_def Let_def actor_frame split: option.splits)

lemma sessions_update_health [actor_frame]: "sessions (snd (update_health_check n p r a)) = sessions a"
  by (simp add: update_health_check_def Let_def actor_frame split: option.splits)

text \<open>A session belongs to a running service.\<close>

definition health_inv :: "config_actor \<Rightarrow> bool" where
  "health_inv a \<longleftrightarrow> (\<forall>n. ca_health_check_sessions a n \<noteq> None \<longrightarrow>
     (case status_of a n of Some st \<Rightarrow> is_running st | None \<Rightarrow> False))"

lemma session_step_refl: "sessions a' = sessions a \<Longrightarrow> session_step a a'"
  by (simp add: sessions_def session_step_def)

lemma session_step_cancel: "sessions a' = sessions (cancel_health_check n a) \<Longrightarrow> session_step a a'"
  by (simp add: sessions_cancel session_step_def) (simp add: sessions_def)

lemma health_inv_keep:
  assumes "health_inv a" "sessions a' = sessions a" "\<And>n. status_of a' n = status_of a n"
  shows "health_inv a'"
  using assms by (simp add: health_inv_def sessions_def)

lemma health_inv_cancel:
  assumes "health_inv a" "sessions a' = sessions (cancel_health_check n a)"
    "\<And>m. m \<noteq> n \<Longrightarrow> status_of a' m = status_of a m"
  shows "health_inv a'"
  using assms by (simp add: health_inv_def sessions_cancel) (auto simp: sessions_def)

text \<open>Both facts, of an actor and its next state.\<close>

definition health_step :: "config_actor \<Rightarrow> config_actor \<Rightarrow> bool" where
  "health_step a a' \<longleftrightarrow> session_step a a' \<and> (health_inv a \<longrightarrow> health_inv a')"

lemma health_step_quiet:
  "sessions a' = sessions a \<Longrightarrow> startup_of a' = startup_of a \<Longrightarrow> health_step a a'"
  by (simp add: health_step_def session_step_refl health_inv_keep [of a a'] status_of_startup)

lemma health_step_cong:
  assumes "sessions b = sessions a'" "\<And>n. status_of b n = status_of a' n"
  shows "health_step a b = health_step a a'"
  using assms by (simp add: health_step_def session_step_def health_inv_def sessions_def)

lemma health_step_from:
  assumes "sessions b = sessions a" "\<And>n. status_of b n = status_of a n"
  shows "health_step b a' = health_step a a'"
  using assms by (simp add: health_step_def session_step_def health_inv_def sessions_def)

lemma health_step_cancel:
  "sessions a' = sessions (cancel_health_check n a) \<Longrightarrow> (\<And>m. m \<noteq> n \<Longrightarrow> startup_of a' m = startup_of a m) \<Longrightarrow>
   health_step a a'"
  by (simp add: health_step_def session_step_cancel health_inv_cancel [of a a' n] status_of_startup)

lemma health_step_status: "health_step a (snd (set_service_status io n st a))"
proof (cases "is_running st")
  case True
  let ?a = "snd (set_service_status io n st a)"
  have "health_inv ?a" if "health_inv a"
  proof -
    have "sessions ?a = sessions a" using True by (simp add: sessions_set_service_status)
    moreover have "status_of ?a m = (if m = n then map_option (\<lambda>_. st) (status_of a n) else status_of a m)" for m
      by (simp add: status_of_startup startup_of_set_service_status option.map_comp comp_def status_change_def Let_def)
    ultimately have "ca_health_check_sessions ?a m \<noteq> None \<Longrightarrow>
        case status_of ?a m of Some st \<Rightarrow> is_running st | None \<Rightarrow> False" for m
      using that [unfolded health_inv_def, rule_format, of m] True
      by (cases "status_of a m"; cases "m = n") (simp_all add: sessions_def)
    then show ?thesis by (simp add: health_inv_def)
  qed
  with True show ?thesis
    by (simp add: health_step_def session_step_refl sessions_set_service_status)
next
  case False
  then show ?thesis
    by (intro health_step_cancel [of _ n]) (simp_all add: sessions_set_service_status startup_of_set_service_status)
qed

lemma health_step_begin: "health_step a (fst (begin_health_check n i a))"
proof (cases "fst (begin_health_check n i a) = a")
  case True
  then show ?thesis by (simp add: health_step_quiet)
next
  case False
  let ?a = "fst (begin_health_check n i a)"
  from False have run: "case status_of a n of Some st \<Rightarrow> is_running st | None \<Rightarrow> False"
    and s: "ca_health_check_sessions ?a = (ca_health_check_sessions a)(n \<mapsto> ca_next_health_check a + 1)"
      "ca_next_health_check ?a = ca_next_health_check a + 1"
    using sessions_cancel [of n a] by (auto simp: begin_health_check_def Let_def sessions_def split: if_splits)
  have "status_of ?a = status_of a" by (intro ext) (simp add: status_of_startup startup_of_begin_health)
  with run s show ?thesis
    by (auto simp: health_step_def session_step_def health_inv_def)
qed

lemma health_step_update: "health_step a (fst (handle_update_health_check io n session p r a))"
proof (cases "is_health_check_current a n session")
  case True
  then obtain st where st: "hm_get (ca_services a) n = Some st" "is_running (ss_status st)"
    by (auto simp: is_health_check_current_def status_of_def split: option.splits)
  let ?a = "fst (handle_update_health_check io n session p r a)"
  have sess: "sessions ?a = sessions a"
    by (cases "update_health_check n p r a"; cases "fst (update_health_check n p r a)")
      (use sessions_update_health [of n p r a] in \<open>simp_all add: handle_update_health_check_def actor_frame\<close>)
  have "status_of ?a m = (if m = n then Some (ss_status (health_result p r st)) else status_of a m)" for m
    using True st(1) by (simp add: status_of_startup handle_update_health_fst startup_of_update_health)
      (simp add: startup_of_def)
  with sess st health_result_status [OF st(2)] show ?thesis
    by (auto simp: health_step_def session_step_refl health_inv_def sessions_def)
next
  case False
  then show ?thesis by (simp add: handle_update_health_check_def health_step_quiet)
qed

lemma status_of_claim [actor_frame]: "status_of (snd (claim_startup n a)) m = status_of a m"
  by (simp add: status_of_startup startup_of_claim option.map_comp comp_def)

lemma health_step_claim: "health_step a b \<Longrightarrow> health_step a (snd (claim_startup n b))"
  using health_step_cong [of "snd (claim_startup n b)" b a] by (simp add: actor_frame)

lemma health_step_saving: "health_step a b \<Longrightarrow> health_step a (saving io b)"
  using health_step_cong [of "saving io b" b a] by (simp add: status_of_startup actor_frame)

lemma health_step_refl: "health_step a a"
  by (simp add: health_step_quiet)

lemma health_step_claims:
  "health_step a (fst (claim_service_start io n a))"
  "health_step a (fst (claim_service_restart io n a))"
  "health_step a (fst (claim_inactive_service_restart io n states a))"
  by (auto simp: claim_service_start_def claim_service_restart_def claim_inactive_service_restart_def Let_def
      split_def intro!: health_step_claim health_step_saving health_step_status health_step_refl split: option.splits)

lemma health_step_save_if_ok: "health_step a (snd ra) \<Longrightarrow> health_step a (fst (save_if_ok io ra))"
  by (cases ra) (simp add: save_if_ok_def health_step_saving)

lemma health_step_after_update:
  assumes "\<And>st. ss_status (f st) = ss_status st"
  shows "health_step a (snd (set_service_status io n st (update_state n f a)))"
  using health_step_status [of "update_state n f a" io n st]
  by (subst (asm) health_step_from) (simp_all add: status_of_startup actor_frame assms)

lemma health_step_transition:
  "health_step a (fst (transition_service_startup io n startup st skip fail a))"
  "health_step a (fst (set_service_status_with_reason io n st skip fail a))"
  unfolding set_service_status_with_reason_def transition_service_startup_def split_def
  by (auto intro!: health_step_save_if_ok health_step_after_update health_step_saving health_step_refl)

lemma health_step_register: "health_step a (fst (register_service_instance io n pid t a))"
proof (cases "set_service_pid n pid (Some t) a")
  case (Pair r a1)
  have a1: "sessions a1 = sessions a" "startup_of a1 = startup_of a"
    using sessions_other(5) [of n pid "Some t" a] startup_of_set_service_pid [of n pid "Some t" a] Pair by simp_all
  then have "health_step a (cancel_health_check n a1)"
    by (intro health_step_cancel [of _ n]) (simp_all add: sessions_cancel actor_frame, simp add: sessions_def)
  moreover have "health_step a a1" using a1 by (rule health_step_quiet)
  moreover have "health_step a (a'\<lparr>ca_next_service_instance := i, ca_service_instances := is\<rparr>) = health_step a a'"
    for a' i "is" by (rule health_step_cong) (simp_all add: status_of_startup actor_frame)
  ultimately show ?thesis
    using Pair by (cases r) (simp_all add: register_service_instance_def Let_def health_step_saving)
qed

lemma health_step_exit: "health_step a (fst (save_if_ok io (record_process_exit n code signal a)))"
  by (intro health_step_save_if_ok health_step_cancel [of _ n]) (simp_all add: sessions_record_exit actor_frame)

lemma health_step_cancel_command: "health_step a (cancel_health_check n a)"
  by (intro health_step_cancel [of _ n]) (simp_all add: actor_frame)

lemma health_step_fields [actor_frame]:
  "sessions (fst (update_or_fail io n f a)) = sessions a"
  "sessions (fst (save_if_ok io ra)) = sessions (snd ra)"
  by (simp_all add: update_or_fail_def save_if_ok_def actor_frame split: option.splits prod.splits)

lemmas health_steps = health_step_claims health_step_transition health_step_update health_step_begin
  health_step_register health_step_exit health_step_cancel_command health_step_save_if_ok [OF health_step_status]

lemma process_command_health: "health_step a (fst (process_command io c a))"
  by (cases c) (simp_all add: health_steps health_step_quiet actor_frame split_def Let_def take_guard_def
      split: option.splits sum.splits)

lemma next_health_check_run:
  "\<exists>d\<le>length cs. ca_next_health_check (fst (run_commands cs a)) = ca_next_health_check a + of_nat d"
proof (induction cs rule: rev_induct)
  case Nil
  show ?case by simp
next
  case (snoc x cs)
  let ?a = "fst (run_commands cs a)" and ?a' = "fst (run_commands (cs @ [x]) a)"
  from snoc obtain d where d: "d \<le> length cs" "ca_next_health_check ?a = ca_next_health_check a + of_nat d" by blast
  have "session_step ?a ?a'"
    using process_command_health [of ?a "fst x" "snd x"] by (simp add: run_commands_snoc health_step_def)
  then have "ca_next_health_check ?a' = ca_next_health_check a + of_nat d \<or>
    ca_next_health_check ?a' = ca_next_health_check a + of_nat (Suc d)"
    using d(2) by (auto simp: session_step_def algebra_simps)
  with d(1) show ?case by (metis Suc_le_mono le_SucI length_append_singleton)
qed

text \<open>A number that was handed out and is no longer the session of a service does not come back.\<close>

lemma closed_session_run:
  assumes "x + of_nat d = ca_next_health_check a" "ca_health_check_sessions a n \<noteq> Some x"
    "d + length cs < 2 ^ 64 - 1"
  shows "ca_health_check_sessions (fst (run_commands cs a)) n \<noteq> Some x"
  using assms(3)
proof (induction cs rule: rev_induct)
  case Nil
  with assms(2) show ?case by simp
next
  case (snoc c cs)
  let ?a = "fst (run_commands cs a)" and ?a' = "fst (run_commands (cs @ [c]) a)"
  from snoc have IH: "ca_health_check_sessions ?a n \<noteq> Some x" by simp
  from next_health_check_run obtain e where e: "e \<le> length cs"
    "ca_next_health_check ?a = ca_next_health_check a + of_nat e" by blast
  have "of_nat (Suc (d + e)) \<noteq> (0 :: 64 word)"
    using of_nat_inj_64 [of "Suc (d + e)" 0] snoc.prems e(1) by auto
  then have "ca_next_health_check ?a + 1 \<noteq> x"
    using e(2) assms(1) by (auto simp: algebra_simps)
  moreover from process_command_health [of ?a "fst c" "snd c"] have "session_step ?a ?a'"
    by (simp add: run_commands_snoc health_step_def)
  then have "ca_health_check_sessions ?a' n \<in> {None, ca_health_check_sessions ?a n, Some (ca_next_health_check ?a + 1)}"
    by (auto dest: session_step_one [of _ _ n])
  ultimately show ?case
    using IH by auto
qed

subsection \<open>Reachable actors\<close>

inductive actor_reachable :: "config_actor \<Rightarrow> bool" where
  restored: "actor_reachable (create_from_snapshot from_timestamp snapshot persisted_state)"
| fresh: "actor_reachable (create_fresh parsed config_dir env config_owner persisted_state)"
| command: "actor_reachable a \<Longrightarrow> actor_reachable (fst (process_command io c a))"

text \<open>
  The invariant: a claim names the current generation of a service that is waiting, starting or
  restarting, and a health check session belongs to a running service.
\<close>

definition actor_inv :: "config_actor \<Rightarrow> bool" where
  "actor_inv a \<longleftrightarrow> (\<forall>n s. startup_of a n = Some s \<longrightarrow> startup_inv s) \<and> health_inv a"

lemma actor_inv_new: "actor_inv (new_actor config services i sn re env flags owner)"
  by (auto simp: actor_inv_def health_inv_def startup_of_def startup_inv_def new_actor_def)

lemma actor_inv_command:
  assumes "actor_inv a"
  shows "actor_inv (fst (process_command io c a))"
proof -
  have "startup_inv s'" if "startup_of (fst (process_command io c a)) n = Some s'" for n s'
    using process_command_simulates [of a n c io] that assms
    by (auto simp: simulates_def actor_inv_def intro: startup_step_inv split: option.splits)
  with process_command_health [of a io c] assms show ?thesis
    by (auto simp: actor_inv_def health_step_def)
qed

lemma actor_inv_run: "actor_inv a \<Longrightarrow> actor_inv (fst (run_commands cs a))"
  by (induction cs rule: rev_induct) (simp_all add: run_commands_snoc actor_inv_command)

lemma reachable_inv: "actor_reachable a \<Longrightarrow> actor_inv a"
  by (induction rule: actor_reachable.induct)
    (simp_all add: create_from_snapshot_def create_fresh_def Let_def actor_inv_new actor_inv_command)

subsection \<open>An actor to evaluate\<close>

definition sample_io :: io where
  "sample_io = \<lparr>io_now = 0, io_partition_point = (\<lambda>_ _. 0), io_save_state = Ok (), io_copy_env_files = Ok (),
     io_save_snapshot = Ok (), io_clear_snapshot = Ok ()\<rparr>"

definition sample_actor :: config_actor where
  "sample_actor = create_fresh \<lparr>kc_version = None, kc_lua = None, kc_kepler = None,
     kc_services = [(''web'', raw_service_config_default)]\<rparr> ''/srv'' Map.empty None None"

lemmas eval_actor = sample_actor_def sample_io_def create_fresh_def new_actor_def fresh_services_def hm_keys_def
  hm_get_def hm_set_def hm_contains_def service_state_default_def claim_service_start_def status_of_def
  is_active_def is_running_def set_service_status_def cancel_health_check_def advance_generation_def
  set_state_def enter_status_def emit_def notify_unhandled_def in_startup_def generation_of_def
  claim_startup_def saving_def save_state_def is_failure_def recheck_signals_def check_and_notify_ready_def
  check_and_notify_quiescent_def save_if_ok_def is_ok_def transition_service_startup_def update_state_def
  service_startup_def register_service_instance_def set_service_pid_def begin_health_check_def
  is_health_check_current_def record_process_exit_def

definition sample_run :: "(io \<times> command) list" where
  "sample_run = map (Pair sample_io) [SetStartupInProgress True, ClaimServiceStart ''web'',
     TransitionServiceStartup ''web'' 1 Starting None None, SetServiceStatus ''web'' Stopping,
     SetServiceStatus ''web'' Stopped, ClaimServiceStart ''web'']"

lemma reachable_run: "actor_reachable a \<Longrightarrow> actor_reachable (fst (run_commands cs a))"
  by (induction cs rule: rev_induct) (simp_all add: run_commands_snoc actor_reachable.command)

lemma sample_reachable: "actor_reachable (fst (run_commands cs sample_actor))"
  unfolding sample_actor_def by (intro reachable_run actor_reachable.fresh)

definition running_web :: "(io \<times> command) list" where
  "running_web = map (Pair sample_io) [SetStartupInProgress True, SetServiceStatus ''web'' Running,
     RegisterServiceInstance ''web'' (Some 42) 0]"

definition checked_actor :: config_actor where
  "checked_actor = fst (process_command sample_io (BeginHealthCheck ''web'' 1) (fst (run_commands running_web sample_actor)))"

lemma checked_actor:
  "process_command sample_io (BeginHealthCheck ''web'' 1) (fst (run_commands running_web sample_actor)) =
     (checked_actor, RGeneration (Some 1))"
proof (rule prod_eqI)
  show "snd (process_command sample_io (BeginHealthCheck ''web'' 1) (fst (run_commands running_web sample_actor))) =
    snd (checked_actor, RGeneration (Some 1))"
    by (simp add: running_web_def eval_actor)
qed (simp only: checked_actor_def fst_conv)

subsection \<open>Claims and sessions of the actor\<close>

text \<open>
  C1. Every command of the actor, seen from any one service, is a step of the startup protocol, and
  the claim that its reply hands out on the service is the one of the step; no command adds or
  removes a service.
\<close>

theorem process_command_refines_protocol:
  "simulates a n (issued_claim c (snd (process_command io c a)) n) (fst (process_command io c a))"
  by (rule process_command_simulates)

text \<open>
  C5. In every actor reached from a creation, fresh or from a snapshot, a claim is held only on a
  service that is waiting, starting or restarting, and is its current generation; a health check
  session is open only for a running service.
\<close>

theorem reachable_actor_inv:
  assumes "actor_reachable a"
  shows "actor_inv a"
  using assms by (rule reachable_inv)

theorem reachable_actor_inv_witness:
  "actor_reachable (fst (run_commands sample_run sample_actor)) \<and>
   ca_startup_claims (fst (run_commands sample_run sample_actor)) ''web'' = Some 3 \<and>
   actor_inv (fst (run_commands sample_run sample_actor))"
proof (intro conjI)
  show "actor_inv (fst (run_commands sample_run sample_actor))"
    by (rule reachable_actor_inv [OF sample_reachable])
qed (rule sample_reachable, simp add: sample_run_def eval_actor)

text \<open>
  C15. In a run of fewer than 2 to the 64 commands, no two claims handed out on the same service are
  equal, so at most one task holds each startup.
\<close>

theorem claims_issued_once:
  assumes "hm_contains (ca_services a) n" "length cs < 2 ^ 64"
  shows "distinct (issued_claims cs (snd (run_commands cs a)) n)"
proof -
  from assms(1) obtain st where "hm_get (ca_services a) n = Some st" using hm_get_None_iff [of _ n] by blast
  then obtain s where "startup_of a n = Some s" by (simp add: startup_of_def)
  from actor.claims_distinct [OF this assms(2)] show ?thesis by (simp add: issued_claims_def)
qed

theorem claims_issued_once_witness:
  "issued_claims sample_run (snd (run_commands sample_run sample_actor)) ''web'' = [1, 3] \<and>
   distinct (issued_claims sample_run (snd (run_commands sample_run sample_actor)) ''web'')"
proof
  show "distinct (issued_claims sample_run (snd (run_commands sample_run sample_actor)) ''web'')"
    by (rule claims_issued_once) (simp_all add: eval_actor sample_run_def)
qed (simp add: sample_run_def issued_claims_def issued_claim_def eval_actor)



text \<open>
  C28. Once a health check session has ended, by an exit, a stop, a new instance or a newer session,
  it stays ended for fewer than 2 to the 64 minus 1 commands: a late result that a check reports for
  it changes nothing.
\<close>

theorem stale_health_result_ignored:
  assumes "actor_reachable a" "process_command io (BeginHealthCheck n i) a = (a0, RGeneration (Some x))"
    and "\<not> is_health_check_current (fst (run_commands cs a0)) n x" "length cs + length cs' < 2 ^ 64 - 1"
    and a': "a' = fst (run_commands (cs @ cs') a0)"
  shows "process_command io' (UpdateHealthCheck n x passed retries) a' = (a', RHealth (Ok None))"
proof -
  let ?a1 = "fst (run_commands cs a0)"
  from assms(2) have x: "ca_next_health_check a0 = x"
    by (auto simp: begin_health_check_def Let_def split: if_splits)
  have "actor_inv ?a1"
    using assms(2) actor_inv_command [OF reachable_inv [OF assms(1)], of io "BeginHealthCheck n i"]
    by (simp add: actor_inv_run)
  with assms(3) have "ca_health_check_sessions ?a1 n \<noteq> Some x"
    by (auto simp: actor_inv_def health_inv_def is_health_check_current_def)
  moreover obtain d where "d \<le> length cs" "x + of_nat d = ca_next_health_check ?a1"
    using next_health_check_run [of cs a0] x by auto
  ultimately have "ca_health_check_sessions a' n \<noteq> Some x"
    using closed_session_run [of x d ?a1 n cs'] assms(4) by (simp add: a' run_commands_append Let_def split_def)
  then show ?thesis
    by (simp add: handle_update_health_check_def is_health_check_current_def)
qed

theorem stale_health_result_ignored_witness:
  "let a' = fst (run_commands ([(sample_io, RecordProcessExit ''web'' (Some 1) None)] @
              [(sample_io, SetServiceStatus ''web'' Exited)]) checked_actor)
   in is_health_check_current checked_actor ''web'' 1 \<and>
      process_command sample_io (UpdateHealthCheck ''web'' 1 True 3) a' = (a', RHealth (Ok None))"
  using stale_health_result_ignored [OF sample_reachable checked_actor _ _ refl, of
      "[(sample_io, RecordProcessExit ''web'' (Some 1) None)]" "[(sample_io, SetServiceStatus ''web'' Exited)]"
      sample_io True 3]
  by (simp only: Let_def) (simp add: checked_actor_def running_web_def eval_actor)

end
