(* ===== verification/Actor_Signals.thy ===== *)
theory Actor_Signals
  imports Actor_Startup
begin

text \<open>
  The two signals of the configuration actor. Quiescence, computed along a topological order of
  the dependency graph, does not depend on the order; the signals are sent only when they hold at
  the end of the command; and where the computation differs from the documented meaning of a
  stopped service.
\<close>

subsection \<open>The dependency graph and its cached order\<close>

definition graph :: "config_actor \<Rightarrow> kepler_config \<times> string list option" where
  "graph a = (ca_config a, ca_cached_topo_order a)"

definition cache_ok :: "config_actor \<Rightarrow> bool" where
  "cache_ok a \<longleftrightarrow> (\<forall>order. ca_cached_topo_order a = Some order \<longrightarrow>
     (\<exists>pp. get_start_order pp (kc_services (ca_config a)) = Ok order))"

text \<open>A command keeps the configuration, and the cache stays an order of its graph.\<close>

definition graph_step :: "config_actor \<Rightarrow> config_actor \<Rightarrow> bool" where
  "graph_step a a' \<longleftrightarrow> ca_config a' = ca_config a \<and> (cache_ok a \<longrightarrow> cache_ok a')"

lemma graph_step_same: "graph a' = graph a \<Longrightarrow> graph_step a a'"
  by (simp add: graph_def graph_step_def cache_ok_def)

lemma graph_step_refl: "graph_step a a"
  by (simp add: graph_step_def)

lemma graph_step_trans: "graph_step a b \<Longrightarrow> graph_step b c \<Longrightarrow> graph_step a c"
  by (simp add: graph_step_def)

lemma graph_step_quiescence: "graph_step a (snd (compute_quiescence io a))"
proof -
  have "cache_ok (snd (compute_quiescence io a))" if "cache_ok a"
    using that by (auto simp: compute_quiescence_def cache_ok_def Let_def res_ok_def split: option.splits sum.splits)
  moreover have "ca_config (snd (compute_quiescence io a)) = ca_config a"
    by (simp add: compute_quiescence_def Let_def split: option.splits)
  ultimately show ?thesis by (simp add: graph_step_def)
qed

lemma graph_frame [actor_frame]:
  "graph (emit es a) = graph a"
  "graph (check_and_notify_ready a) = graph a"
  "graph (saving io a) = graph a"
  "graph (snd (take_snapshot_if_needed io a)) = graph a"
  "graph (resave_snapshot io a) = graph a"
  "graph (notify_unhandled n st a) = graph a"
  "graph (set_state n s a) = graph a"
  "graph (update_state n f a) = graph a"
  "graph (cancel_health_check n a) = graph a"
  "graph (advance_generation n old st a) = graph a"
  "graph (snd (claim_startup n a)) = graph a"
  "graph (replace_health_task n h a) = graph a"
  "graph (snd (set_service_pid n pid t a)) = graph a"
  "graph (snd (record_process_exit n code signal a)) = graph a"
  "graph (fst (begin_health_check n i a)) = graph a"
  "graph (fst (update_or_fail io n f a)) = graph a"
  "graph (snd (update_health_check n p r a)) = graph a"
  by (simp_all add: graph_def emit_def check_and_notify_ready_def saving_def save_state_def
      take_snapshot_if_needed_def resave_snapshot_def notify_unhandled_def Let_def set_state_def update_state_def
      cancel_health_check_def advance_generation_def claim_startup_def replace_health_task_def set_service_pid_def
      record_process_exit_def begin_health_check_def update_or_fail_def update_health_check_def
      split: option.splits sum.splits)

lemma graph_step_after: "graph_step a b \<Longrightarrow> graph c = graph b \<Longrightarrow> graph_step a c"
  by (blast intro: graph_step_trans graph_step_same)

lemma graph_step_check: "graph_step a (check_and_notify_quiescent io a)"
proof -
  have "graph_step a (emit es (b\<lparr>ca_last_quiescent := True\<rparr>))" if "graph_step a b" for b es
    using that by (rule graph_step_after) (simp add: graph_frame, simp add: graph_def)
  with graph_step_quiescence [of a io] show ?thesis
    by (simp add: check_and_notify_quiescent_def graph_step_same split_def)
qed

lemma graph_step_recheck: "graph_step a (recheck_signals io st a)"
proof -
  have "graph_step a b \<Longrightarrow> graph_step a (check_and_notify_quiescent io b)" for b
    by (blast intro: graph_step_trans graph_step_check)
  moreover have "graph (check_and_notify_ready (a\<lparr>ca_last_ready := x, ca_last_quiescent := y\<rparr>)) = graph a"
    "graph (check_and_notify_ready (a\<lparr>ca_last_ready := x\<rparr>)) = graph a"
    "graph (check_and_notify_ready (a\<lparr>ca_last_quiescent := y\<rparr>)) = graph a"
    "graph (check_and_notify_ready a) = graph a" for x y
    by (simp_all add: graph_frame) (simp_all add: graph_def)
  ultimately show ?thesis
    by (simp add: recheck_signals_def Let_def graph_step_same)
qed

lemma graph_step_status: "graph_step a (snd (set_service_status io n st a))"
proof -
  have "graph_step a (recheck_signals io st b)" if "graph b = graph a" for b
    using that graph_step_recheck [of b io st] by (blast intro: graph_step_trans graph_step_same)
  then show ?thesis
    by (auto simp: set_service_status_def Let_def graph_frame intro: graph_step_same split: option.splits)
qed

lemma graph_step_save_if_ok: "graph_step a (snd ra) \<Longrightarrow> graph_step a (fst (save_if_ok io ra))"
  by (cases ra) (simp add: save_if_ok_def graph_step_after graph_frame)

lemma graph_step_updated: "graph_step a (snd (set_service_status io n st (update_state n f a)))"
  by (rule graph_step_trans [OF graph_step_same graph_step_status]) (simp add: graph_frame)

lemma graph_step_handlers:
  "graph_step a (fst (claim_service_start io n a))"
  "graph_step a (fst (claim_service_restart io n a))"
  "graph_step a (fst (claim_inactive_service_restart io n states a))"
  "graph_step a (fst (transition_service_startup io n startup st skip fail a))"
  "graph_step a (fst (set_service_status_with_reason io n st skip fail a))"
  "graph_step a (fst (register_service_instance io n pid t a))"
  "graph_step a (fst (handle_update_health_check io n session p r a))"
proof -
  have claim: "graph_step a b \<Longrightarrow> graph_step a (snd (claim_startup n b))" for b
    by (erule graph_step_after) (simp add: graph_frame)
  have save: "graph_step a b \<Longrightarrow> graph_step a (saving io b)" for b
    by (erule graph_step_after) (simp add: graph_frame)
  show "graph_step a (fst (claim_service_start io n a))" "graph_step a (fst (claim_service_restart io n a))"
    "graph_step a (fst (claim_inactive_service_restart io n states a))"
    by (auto simp: claim_service_start_def claim_service_restart_def claim_inactive_service_restart_def Let_def
        split_def intro!: claim save graph_step_status graph_step_refl split: option.splits)
  show "graph_step a (fst (transition_service_startup io n startup st skip fail a))"
    "graph_step a (fst (set_service_status_with_reason io n st skip fail a))"
    by (auto simp: transition_service_startup_def set_service_status_with_reason_def split_def
        intro!: save graph_step_save_if_ok graph_step_updated graph_step_refl)
  have "graph (b\<lparr>ca_next_service_instance := i, ca_service_instances := is\<rparr>) = graph b" for b i "is"
    by (simp add: graph_def)
  with graph_frame(13) [of n pid "Some t" a] show "graph_step a (fst (register_service_instance io n pid t a))"
    by (cases "set_service_pid n pid (Some t) a"; cases "fst (set_service_pid n pid (Some t) a)")
      (simp_all add: register_service_instance_def Let_def graph_frame graph_step_same)
  from graph_frame(17) [of n p r a] show "graph_step a (fst (handle_update_health_check io n session p r a))"
    by (cases "update_health_check n p r a"; cases "fst (update_health_check n p r a)")
      (simp_all add: handle_update_health_check_def graph_frame graph_step_same)
qed

lemma graph_field_updates [actor_frame]:
  "graph (a\<lparr>ca_last_ready := b, ca_last_quiescent := b'\<rparr>) = graph a"
  "graph (a\<lparr>ca_startup_in_progress := b\<rparr>) = graph a"
  "graph (a\<lparr>ca_initialized := b\<rparr>) = graph a"
  "graph (a\<lparr>ca_resolved_configs := rc\<rparr>) = graph a"
  "graph (a\<lparr>ca_processes := p\<rparr>) = graph a"
  "graph (a\<lparr>ca_token_guards := tg\<rparr>) = graph a"
  "graph (a\<lparr>ca_clean_shutdown := b\<rparr>) = graph a"
  "graph (a\<lparr>ca_suppress_snapshot := b\<rparr>) = graph a"
  "graph (a\<lparr>ca_event_handler_spawned := b\<rparr>) = graph a"
  "graph (a\<lparr>ca_kepler_env := e\<rparr>) = graph a"
  "graph (a\<lparr>ca_kepler_flags := e\<rparr>) = graph a"
  "graph (a\<lparr>ca_snapshot_taken := b, ca_restored_from_snapshot := b'\<rparr>) = graph a"
  by (simp_all add: graph_def)

lemma graph_step_checks:
  "graph b = graph a \<Longrightarrow> graph_step a (check_and_notify_quiescent io (check_and_notify_ready b))"
  using graph_step_check [of "check_and_notify_ready b" io]
  by (blast intro: graph_step_trans graph_step_same graph_frame(2) [THEN trans])

lemma process_command_graph: "graph_step a (fst (process_command io c a))"
  by (cases c) (simp_all add: graph_step_handlers graph_step_quiescence graph_step_checks graph_step_same
      graph_step_save_if_ok graph_step_status actor_frame split_def Let_def take_guard_def
      split: option.splits sum.splits)

lemma cache_ok_new: "cache_ok (new_actor config services i sn re env flags owner)"
  by (simp add: cache_ok_def new_actor_def)

lemma reachable_cache: "actor_reachable a \<Longrightarrow> cache_ok a"
proof (induction rule: actor_reachable.induct)
  case (command a io c)
  with process_command_graph [of a io c] show ?case by (simp add: graph_step_def)
qed (simp_all add: create_from_snapshot_def create_fresh_def Let_def cache_ok_new)

subsection \<open>Quiescence does not depend on the order\<close>

lemma unmet_stable_cong:
  "\<forall>d \<in> fst ` set deps. f d = g d \<Longrightarrow> unmet_stable sat f deps = unmet_stable sat g deps"
proof (induction deps)
  case (Cons x deps)
  then show ?case by (cases x) simp
qed simp

lemma deps_loop_cong:
  "\<forall>d \<in> fst ` set deps. f d = g d \<Longrightarrow>
   are_deps_satisfiable_loop a f deps = are_deps_satisfiable_loop a g deps"
proof (induction deps)
  case (Cons x deps)
  then show ?case by (cases x) (simp split: option.splits)
qed simp

lemma is_service_settled_cong:
  assumes "\<And>d. d \<in> set (service_deps (kc_services (ca_config a)) n) \<Longrightarrow> f d = g d"
  shows "is_service_settled a n f = is_service_settled a n g"
proof (cases "hm_get (kc_services (ca_config a)) n")
  case None
  then show ?thesis by (simp add: is_service_settled_def are_deps_satisfiable_def split: option.splits)
next
  case (Some raw)
  with assms have *: "\<forall>d \<in> fst ` set (dep_iter (rs_depends_on raw)). f d = g d"
    by (simp add: service_deps_def names_iter)
  have "unmet_stable sat (\<lambda>d. f d \<noteq> Some True) (dep_iter (rs_depends_on raw)) =
      unmet_stable sat (\<lambda>d. g d \<noteq> Some True) (dep_iter (rs_depends_on raw))"
    and "are_deps_satisfiable_loop a f (dep_iter (rs_depends_on raw)) =
      are_deps_satisfiable_loop a g (dep_iter (rs_depends_on raw))" for sat
    using * by (simp_all add: unmet_stable_cong deps_loop_cong)
  with Some show ?thesis
    by (simp add: is_service_settled_def are_deps_satisfiable_def split: option.splits)
qed

lemma settle_all_snoc:
  "settle_all a (order @ [n]) = (settle_all a order)(n \<mapsto> is_service_settled a n (settle_all a order))"
  by (simp add: settle_all_def)

lemma settle_all_None: "n \<notin> set order \<Longrightarrow> settle_all a order n = None"
  by (induction order rule: rev_induct) (simp_all add: settle_all_snoc, simp add: settle_all_def)

lemma deps_before_snocD:
  assumes "deps_before D (order @ [m])"
  shows "deps_before D order \<and> set (D m) \<subseteq> set order"
proof -
  have *: "set (D ((order @ [m]) ! i)) \<subseteq> set (take i (order @ [m]))" if "i < Suc (length order)" for i
    using assms that by (simp add: deps_before_def)
  have "set (D (order ! i)) \<subseteq> set (take i order)" if "i < length order" for i
    using * [of i] that by (simp add: nth_append)
  with * [of "length order"] show ?thesis by (simp add: deps_before_def)
qed

text \<open>Along an order with dependencies first, the settled map is a solution of its own equation.\<close>

lemma settle_all_fix:
  assumes "distinct order" "deps_before (service_deps (kc_services (ca_config a))) order" "n \<in> set order"
  shows "settle_all a order n = Some (is_service_settled a n (settle_all a order))"
  using assms
proof (induction order rule: rev_induct)
  case Nil
  then show ?case by simp
next
  case (snoc m order)
  let ?D = "service_deps (kc_services (ca_config a))"
  have before: "deps_before ?D order" and m: "set (?D m) \<subseteq> set order"
    using snoc.prems(2) by (auto dest: deps_before_snocD)
  have keep: "settle_all a (order @ [m]) d = settle_all a order d" if "d \<in> set order" for d
    using that snoc.prems(1) by (auto simp: settle_all_snoc)
  have eq: "is_service_settled a k (settle_all a (order @ [m])) = is_service_settled a k (settle_all a order)"
    if "set (?D k) \<subseteq> set order" for k
    using that keep by (intro is_service_settled_cong) auto
  show ?case
  proof (cases "n = m")
    case True
    then show ?thesis unfolding eq [OF m] True by (simp add: settle_all_snoc)
  next
    case False
    then have n: "n \<in> set order" using snoc.prems(3) by simp
    then obtain i where "i < length order" "order ! i = n" by (auto simp: in_set_conv_nth)
    with before have "set (?D n) \<subseteq> set order" unfolding deps_before_def using set_take_subset [of i order] by blast
    with keep [OF n] eq [of n] snoc.IH [OF _ before n] snoc.prems(1) show ?thesis by simp
  qed
qed

text \<open>Two solutions agree along the order.\<close>

lemma settled_unique:
  assumes "deps_before (service_deps (kc_services (ca_config a))) order"
    and "\<And>n. n \<in> set order \<Longrightarrow> f n = Some (is_service_settled a n f)"
    and "\<And>n. n \<in> set order \<Longrightarrow> g n = Some (is_service_settled a n g)"
  shows "n \<in> set order \<Longrightarrow> f n = g n"
proof -
  have "f (order ! i) = g (order ! i)" if "i < length order" for i
    using that
  proof (induction i rule: less_induct)
    case (less i)
    have "f d = g d" if "d \<in> set (service_deps (kc_services (ca_config a)) (order ! i))" for d
    proof -
      from that assms(1) less.prems have "d \<in> set (take i order)" by (auto simp: deps_before_def)
      then obtain j where "j < i" "order ! j = d" using less.prems by (auto simp: in_set_conv_nth)
      with less.IH [of j] less.prems show ?thesis by simp
    qed
    then have "is_service_settled a (order ! i) f = is_service_settled a (order ! i) g"
      by (rule is_service_settled_cong)
    with assms(2,3) [of "order ! i"] less.prems show ?case by simp
  qed
  then show "n \<in> set order \<Longrightarrow> f n = g n" by (auto simp: in_set_conv_nth)
qed

lemma condition_view:
  assumes "ca_services b = ca_services a" "ca_resolved_configs b = ca_resolved_configs a" "ca_config b = ca_config a"
  shows "is_condition_satisfied_sync b = is_condition_satisfied_sync a"
    "actor_restart_follows b = actor_restart_follows a" "status_of b = status_of a" "dep_settling b = dep_settling a"
proof -
  show r: "actor_restart_follows b = actor_restart_follows a"
    using assms by (intro ext) (simp add: actor_restart_follows_def cong: option.case_cong)
  show "is_condition_satisfied_sync b = is_condition_satisfied_sync a"
    using assms by (intro ext) (simp add: is_condition_satisfied_sync_def cong: option.case_cong)
  show "status_of b = status_of a" using assms by (intro ext) (simp add: status_of_def)
  show "dep_settling b = dep_settling a"
    using assms r by (intro ext) (simp add: dep_settling_def cong: option.case_cong)
qed

lemma settled_view:
  assumes "ca_services b = ca_services a" "ca_resolved_configs b = ca_resolved_configs a" "ca_config b = ca_config a"
  shows "is_service_settled b = is_service_settled a"
proof -
  note view = condition_view [OF assms]
  have "are_deps_satisfiable_loop b f ds = are_deps_satisfiable_loop a f ds" for f ds
  proof (induction ds)
    case (Cons d ds)
    then show ?case using view(1) assms(1) by (cases d) (simp cong: option.case_cong)
  qed simp
  then show ?thesis
    using view assms by (intro ext) (simp add: is_service_settled_def are_deps_satisfiable_def cong: option.case_cong)
qed

lemma settle_all_view:
  "is_service_settled b = is_service_settled a \<Longrightarrow> settle_all b = settle_all a"
  by (intro ext) (simp add: settle_all_def)

text \<open>All services settled, each judged with every other one taken as settled.\<close>

definition all_settled :: "config_actor \<Rightarrow> bool" where
  "all_settled a = list_all (\<lambda>n. is_service_settled a n
     (\<lambda>m. if m \<in> set (hm_keys (kc_services (ca_config a))) then Some True else None))
     (hm_keys (kc_services (ca_config a)))"

lemma settle_all_true_iff:
  assumes "distinct order" "deps_before (service_deps (kc_services (ca_config a))) order"
    "set order = set (hm_keys (kc_services (ca_config a)))"
  shows "list_all (\<lambda>n. settle_all a order n = Some True) order \<longleftrightarrow> all_settled a"
proof -
  let ?T = "\<lambda>m. if m \<in> set (hm_keys (kc_services (ca_config a))) then Some True else None"
  have "is_service_settled a n ?T" if "\<forall>n \<in> set order. settle_all a order n = Some True" "n \<in> set order" for n
  proof -
    have "settle_all a order = ?T"
      using that(1) settle_all_None [of _ order a] by (intro ext) (simp add: assms(3))
    then show ?thesis using settle_all_fix [OF assms(1,2) that(2)] that by simp
  qed
  moreover have "settle_all a order n = Some True"
    if "\<forall>n \<in> set order. is_service_settled a n ?T" "n \<in> set order" for n
  proof -
    have "settle_all a order n = ?T n"
      by (rule settled_unique [OF assms(2)]) (use that settle_all_fix [OF assms(1,2)] assms(3) in auto)
    with that assms(3) show ?thesis by simp
  qed
  ultimately show ?thesis using assms(3) by (auto simp: list_all_iff all_settled_def)
qed

lemma all_settled_cache [simp]: "all_settled (a\<lparr>ca_cached_topo_order := x\<rparr>) = all_settled a"
  by (simp add: all_settled_def settled_view [of "a\<lparr>ca_cached_topo_order := x\<rparr>" a])

lemma quiescence_iff:
  assumes "cache_ok a" "hm_wf (kc_services (ca_config a))"
  shows "fst (compute_quiescence io a) \<longleftrightarrow>
    is_ok (topological_sort (io_partition_point io) (kc_services (ca_config a))) \<and> all_settled a"
proof -
  let ?svs = "kc_services (ca_config a)"
  have ok: "is_ok (topological_sort (io_partition_point io) ?svs)" if "get_start_order pp ?svs = Ok order" for pp order
    using that topological_sort_Ok_iff [OF assms(2)] by (metis get_start_order_def is_ok_iff)
  have eq: "list_all (\<lambda>n. settle_all (a\<lparr>ca_cached_topo_order := x\<rparr>) order n = Some True) order \<longleftrightarrow> all_settled a"
    if "get_start_order pp ?svs = Ok order" for pp order x
    using start_order_facts [OF assms(2) that] settle_all_true_iff [of order "a\<lparr>ca_cached_topo_order := x\<rparr>"]
    by (simp add: deps_before_def)
  show ?thesis
  proof (cases "ca_cached_topo_order a")
    case None
    then show ?thesis
      using ok eq by (auto simp: compute_quiescence_def res_ok_def get_start_order_def is_ok_def Let_def
          split: sum.splits option.splits)
  next
    case (Some order)
    with assms(1) obtain pp where "get_start_order pp ?svs = Ok order" by (auto simp: cache_ok_def)
    with Some ok eq show ?thesis by (simp add: compute_quiescence_def Let_def)
  qed
qed

subsection \<open>Signals are sent when they hold\<close>

definition is_signal :: "effect \<Rightarrow> bool" where
  "is_signal e = (e = ToSubscribers EvReady \<or> e = ToSubscribers EvQuiescent)"

definition signals :: "config_actor \<Rightarrow> effect list" where
  "signals a = filter is_signal (ca_effects a)"

text \<open>
  What was signalled between two states of the actor holds in the second one, and the startup
  fence is down there.
\<close>

definition signals_hold :: "io \<Rightarrow> config_actor \<Rightarrow> config_actor \<Rightarrow> bool" where
  "signals_hold io a a' \<longleftrightarrow> (\<exists>es. signals a' = signals a @ es \<and>
     (ToSubscribers EvReady \<in> set es \<longrightarrow> \<not> ca_startup_in_progress a' \<and> compute_ready a') \<and>
     (ToSubscribers EvQuiescent \<in> set es \<longrightarrow> \<not> ca_startup_in_progress a' \<and> fst (compute_quiescence io a')))"

text \<open>The part of the state that decides the signals.\<close>

definition signal_view where
  "signal_view a = (ca_services a, ca_resolved_configs a, ca_startup_in_progress a, graph a)"

lemma ready_view:
  assumes "ca_services b = ca_services a" "ca_resolved_configs b = ca_resolved_configs a" "ca_config b = ca_config a"
  shows "compute_ready b = compute_ready a"
proof -
  have "is_service_ready b = is_service_ready a"
    using condition_view [OF assms] assms(3) by (intro ext) (simp add: is_service_ready_def cong: option.case_cong)
  then show ?thesis using assms(3) by (simp add: compute_ready_def)
qed

lemma quiescence_view:
  assumes "signal_view b = signal_view a"
  shows "fst (compute_quiescence io b) = fst (compute_quiescence io a)"
  using assms settle_all_view [OF settled_view, of "b\<lparr>ca_cached_topo_order := x\<rparr>" "a\<lparr>ca_cached_topo_order := x\<rparr>" for x]
  by (simp add: signal_view_def graph_def compute_quiescence_def Let_def split: option.splits)

lemma quiescence_again: "fst (compute_quiescence io (snd (compute_quiescence io a))) = fst (compute_quiescence io a)"
  by (simp add: compute_quiescence_def Let_def split: option.splits)

lemma signals_hold_same: "signals a' = signals a \<Longrightarrow> signals_hold io a a'"
  by (simp add: signals_hold_def)

lemma signals_hold_refl: "signals_hold io a a"
  by (simp add: signals_hold_same)

lemma signals_hold_after:
  assumes "signals_hold io a b" "signals c = signals b" "signal_view c = signal_view b"
  shows "signals_hold io a c"
proof -
  from assms(3) have "ca_startup_in_progress c = ca_startup_in_progress b" "compute_ready c = compute_ready b"
    by (simp_all add: signal_view_def graph_def ready_view [of c b])
  with assms quiescence_view [OF assms(3)] show ?thesis by (simp add: signals_hold_def)
qed

lemma signals_hold_before: "signals_hold io b c \<Longrightarrow> signals b = signals a \<Longrightarrow> signals_hold io a c"
  by (simp add: signals_hold_def)

lemma signals_hold_ready: "signals_hold io a (check_and_notify_ready a)"
proof (cases "\<not> ca_startup_in_progress a \<and> compute_ready a \<and> \<not> ca_last_ready a")
  case True
  then have "check_and_notify_ready a = emit [ToSubscribers EvReady] (a\<lparr>ca_last_ready := True\<rparr>)"
    by (simp add: check_and_notify_ready_def)
  moreover have "compute_ready (emit [ToSubscribers EvReady] (a\<lparr>ca_last_ready := True\<rparr>)) = compute_ready a"
    by (rule ready_view) (simp_all add: emit_def)
  ultimately show ?thesis
    using True unfolding signals_hold_def
    by (intro exI [of _ "[ToSubscribers EvReady]"]) (simp add: signals_def emit_def is_signal_def)
next
  case False
  then show ?thesis by (auto simp: check_and_notify_ready_def signals_hold_refl)
qed

lemma quiescence_snd:
  "snd (compute_quiescence io a) = a\<lparr>ca_cached_topo_order := ca_cached_topo_order (snd (compute_quiescence io a))\<rparr>"
  by (simp add: compute_quiescence_def Let_def split: option.splits)

lemma signals_hold_quiescent:
  assumes "signals_hold io a b"
  shows "signals_hold io a (check_and_notify_quiescent io b)"
proof (cases "ca_startup_in_progress b")
  case True
  with assms show ?thesis by (simp add: check_and_notify_quiescent_def)
next
  case False
  let ?q = "snd (compute_quiescence io b)"
  obtain x where x: "?q = b\<lparr>ca_cached_topo_order := x\<rparr>" using quiescence_snd by metis
  have "compute_ready ?q = compute_ready b" by (rule ready_view) (simp_all add: x)
  moreover have "signals ?q = signals b" "\<not> ca_startup_in_progress ?q" using False by (simp_all add: x signals_def)
  ultimately have q: "signals_hold io a ?q"
    using assms False quiescence_again [of io b] by (auto simp: signals_hold_def)
  show ?thesis
  proof (cases "fst (compute_quiescence io b) \<and> \<not> ca_last_quiescent ?q")
    case True
    let ?c = "emit [FlushLogs, ToSubscribers EvQuiescent] (?q\<lparr>ca_last_quiescent := True\<rparr>)"
    have c: "check_and_notify_quiescent io b = ?c" "signals ?c = signals ?q @ [ToSubscribers EvQuiescent]"
      "\<not> ca_startup_in_progress ?c"
      using True False by (simp_all add: check_and_notify_quiescent_def split_def signals_def emit_def is_signal_def x)
    have "fst (compute_quiescence io ?c)"
      using True quiescence_again [of io b] quiescence_view [of ?c ?q io]
      by (simp add: signal_view_def graph_def emit_def)
    moreover have "compute_ready ?c = compute_ready ?q" by (rule ready_view) (simp_all add: emit_def)
    ultimately show ?thesis
      using q c unfolding signals_hold_def by auto
  next
    case False
    with q \<open>\<not> ca_startup_in_progress b\<close> show ?thesis
      by (auto simp: check_and_notify_quiescent_def split_def)
  qed
qed

lemma signals_frame [actor_frame]:
  "signals (saving io a) = signals a"
  "signals (snd (take_snapshot_if_needed io a)) = signals a"
  "signals (resave_snapshot io a) = signals a"
  "signals (notify_unhandled n st a) = signals a"
  "signals (set_state n s a) = signals a"
  "signals (update_state n f a) = signals a"
  "signals (cancel_health_check n a) = signals a"
  "signals (advance_generation n old st a) = signals a"
  "signals (snd (claim_startup n a)) = signals a"
  "signals (replace_health_task n h a) = signals a"
  "signals (snd (set_service_pid n pid t a)) = signals a"
  "signals (snd (record_process_exit n code signal a)) = signals a"
  "signals (fst (begin_health_check n i a)) = signals a"
  "signals (fst (update_or_fail io n f a)) = signals a"
  "signals (emit [ToWatchers n st, ToSubscribers (StatusChange n st)] a) = signals a"
  "signals (emit [AbortTask h] a) = signals a"
  "signals (snd (compute_quiescence io a)) = signals a"
  by (simp_all add: signals_def is_signal_def emit_def saving_def save_state_def
      take_snapshot_if_needed_def resave_snapshot_def notify_unhandled_def Let_def set_state_def update_state_def
      cancel_health_check_def advance_generation_def claim_startup_def replace_health_task_def set_service_pid_def
      record_process_exit_def begin_health_check_def update_or_fail_def compute_quiescence_def
      split: option.splits sum.splits)

lemma signals_field_updates [actor_frame]:
  "signals (a\<lparr>ca_last_ready := b\<rparr>) = signals a" "signals (a\<lparr>ca_last_quiescent := b\<rparr>) = signals a"
  "signals (a\<lparr>ca_startup_in_progress := b\<rparr>) = signals a" "signals (a\<lparr>ca_initialized := b\<rparr>) = signals a"
  "signals (a\<lparr>ca_resolved_configs := rc\<rparr>) = signals a" "signals (a\<lparr>ca_processes := p\<rparr>) = signals a"
  "signals (a\<lparr>ca_token_guards := tg\<rparr>) = signals a" "signals (a\<lparr>ca_clean_shutdown := b\<rparr>) = signals a"
  "signals (a\<lparr>ca_suppress_snapshot := b\<rparr>) = signals a" "signals (a\<lparr>ca_event_handler_spawned := b\<rparr>) = signals a"
  "signals (a\<lparr>ca_kepler_env := e\<rparr>) = signals a" "signals (a\<lparr>ca_kepler_flags := e\<rparr>) = signals a"
  "signals (a\<lparr>ca_snapshot_taken := b\<rparr>) = signals a" "signals (a\<lparr>ca_restored_from_snapshot := b\<rparr>) = signals a"
  "signals (a\<lparr>ca_next_service_instance := i\<rparr>) = signals a" "signals (a\<lparr>ca_service_instances := is\<rparr>) = signals a"
  by (simp_all add: signals_def)

lemma view_frame [actor_frame]:
  "signal_view (saving io a) = signal_view a" "signal_view (snd (claim_startup n a)) = signal_view a"
  by (simp_all add: signal_view_def saving_def save_state_def claim_startup_def graph_def emit_def Let_def
      split: sum.splits)

lemma signals_hold_saving: "signals_hold io a b \<Longrightarrow> signals_hold io a (saving io' b)"
  by (erule signals_hold_after) (simp_all add: actor_frame)

lemma signals_hold_claim: "signals_hold io a b \<Longrightarrow> signals_hold io a (snd (claim_startup n b))"
  by (erule signals_hold_after) (simp_all add: actor_frame)

lemma signals_hold_ready_from: "signals b = signals a \<Longrightarrow> signals_hold io a (check_and_notify_ready b)"
  by (rule signals_hold_before [OF signals_hold_ready])

lemma signals_hold_recheck: "signals b = signals a \<Longrightarrow> signals_hold io a (recheck_signals io st b)"
  by (simp add: recheck_signals_def Let_def signals_hold_quiescent signals_hold_ready_from actor_frame)

lemma signals_hold_status:
  "signals b = signals a \<Longrightarrow> signals_hold io a (snd (set_service_status io n st b))"
  by (simp add: set_service_status_def Let_def signals_hold_recheck signals_hold_same actor_frame
      split: option.splits)

lemma signals_hold_save_if_ok: "signals_hold io a (snd ra) \<Longrightarrow> signals_hold io a (fst (save_if_ok io ra))"
  by (cases ra) (simp add: save_if_ok_def signals_hold_saving)

lemma signals_hold_health: "signals_hold io a (snd (update_health_check n p r a))"
  by (simp add: update_health_check_def Let_def signals_hold_ready_from signals_hold_same actor_frame split: option.splits)

lemma signals_hold_handlers:
  "signals_hold io a (fst (claim_service_start io n a))"
  "signals_hold io a (fst (claim_service_restart io n a))"
  "signals_hold io a (fst (claim_inactive_service_restart io n states a))"
  "signals_hold io a (fst (transition_service_startup io n startup st skip fail a))"
  "signals_hold io a (fst (set_service_status_with_reason io n st skip fail a))"
  "signals_hold io a (fst (register_service_instance io n pid t a))"
  "signals_hold io a (fst (handle_update_health_check io n session p r a))"
proof -
  show "signals_hold io a (fst (claim_service_start io n a))" "signals_hold io a (fst (claim_service_restart io n a))"
    "signals_hold io a (fst (claim_inactive_service_restart io n states a))"
    by (auto simp: claim_service_start_def claim_service_restart_def claim_inactive_service_restart_def Let_def
        split_def intro!: signals_hold_claim signals_hold_saving signals_hold_status signals_hold_refl split: option.splits)
  show "signals_hold io a (fst (transition_service_startup io n startup st skip fail a))"
    "signals_hold io a (fst (set_service_status_with_reason io n st skip fail a))"
    by (auto simp: transition_service_startup_def set_service_status_with_reason_def split_def actor_frame
        intro!: signals_hold_saving signals_hold_save_if_ok signals_hold_status signals_hold_refl)
  from signals_frame(11) [of n pid "Some t" a] show "signals_hold io a (fst (register_service_instance io n pid t a))"
    by (cases "set_service_pid n pid (Some t) a"; cases "fst (set_service_pid n pid (Some t) a)")
      (simp_all add: register_service_instance_def Let_def actor_frame signals_hold_same)
  from signals_hold_health [of io a n p r] show "signals_hold io a (fst (handle_update_health_check io n session p r a))"
    by (cases "update_health_check n p r a"; cases "fst (update_health_check n p r a)")
      (simp_all add: handle_update_health_check_def signals_hold_refl signals_hold_saving)
qed

lemma process_command_signals: "signals_hold io a (fst (process_command io c a))"
  by (cases c) (simp_all add: signals_hold_handlers signals_hold_quiescent signals_hold_ready_from signals_hold_same
      signals_hold_save_if_ok signals_hold_status actor_frame split_def Let_def take_guard_def
      split: option.splits sum.splits)

subsection \<open>The signals of the actor\<close>

text \<open>
  C23. A command of the actor that sends Ready ends with every service ready, one that sends Quiescent
  ends with the configuration quiescent, and neither is sent while a startup is in progress.
\<close>

theorem signals_sound: "signals_hold io a (fst (process_command io c a))"
  by (rule process_command_signals)

text \<open>
  C22. A reachable actor is quiescent exactly when the dependency graph has a topological order and
  every service is settled with all others taken as settled; the order in which services are
  visited, which follows the iteration order of a hash map, does not matter.
\<close>

theorem quiescence_exact:
  assumes "actor_reachable a" "hm_wf (kc_services (ca_config a))"
  shows "fst (compute_quiescence io a) \<longleftrightarrow>
    is_ok (topological_sort (io_partition_point io) (kc_services (ca_config a))) \<and> all_settled a"
  using reachable_cache [OF assms(1)] assms(2) by (rule quiescence_iff)

theorem quiescence_exact_witness:
  "all_settled sample_actor \<and> fst (compute_quiescence sample_io sample_actor)"
proof -
  have "all_settled sample_actor"
    by (simp add: all_settled_def is_service_settled_def eval_actor actor_restart_follows_def restart_follows_def
        static_restart_def as_static_def raw_service_config_default_def restart_config_default_def
        should_restart_on_exit_def policy_restart_on_exit_def policy_no_def policy_contains_def)
  moreover have "hm_wf (kc_services (ca_config sample_actor))"
    by (simp add: eval_actor hm_wf_def)
  moreover have "is_ok (topological_sort (io_partition_point sample_io) (kc_services (ca_config sample_actor)))"
    by code_simp
  ultimately show ?thesis
    using quiescence_exact [OF sample_reachable [of "[]", simplified], of sample_io] by simp
qed

text \<open>
  A service that was stopped and whose restart policy is \<open>always\<close> keeps the configuration from
  ever being quiescent, when it has no dependencies: the computation expects a restart that a
  stopped service never gets.
\<close>

lemma stopped_always_blocks_quiescence:
  assumes "actor_reachable a" "hm_wf (kc_services (ca_config a))"
    and "hm_get (kc_services (ca_config a)) n = Some raw" "rs_depends_on raw = []"
    and "ca_resolved_configs a n = Some (resolved_config_default (RestartSimple policy_always))"
    and "hm_get (ca_services a) n = Some st" "ss_status st = Stopped"
  shows "\<not> fst (compute_quiescence io a)"
proof -
  have "\<not> is_service_settled a n f" for f
    using assms by (simp add: is_service_settled_def is_active_def actor_restart_follows_def restart_follows_def
        are_deps_satisfiable_def dep_iter_def should_restart_on_exit_def policy_always_restarts resolved_config_default_def)
  with hm_get_Some_contains [OF assms(3)] have "\<not> all_settled a"
    by (auto simp: all_settled_def list_all_iff hm_contains_def)
  with quiescence_iff [OF reachable_cache [OF assms(1)] assms(2)] show ?thesis by simp
qed

definition stopped_web :: config_actor where
  "stopped_web = fst (run_commands (map (Pair sample_io) [SetStartupInProgress True,
     StoreResolvedConfig ''web'' (resolved_config_default (RestartSimple policy_always)) Map.empty ''/srv'' Map.empty,
     SetServiceStatus ''web'' Running, SetServiceStatus ''web'' Stopping, SetServiceStatus ''web'' Stopped]) sample_actor)"

lemma stopped_always_blocks_quiescence_example:
  "list_all (\<lambda>(_, st). ss_status st = Stopped) (ca_services stopped_web) \<and>
   \<not> fst (compute_quiescence sample_io stopped_web)"
proof -
  have st: "status_of stopped_web ''web'' = Some Stopped"
    and all: "list_all (\<lambda>(_, st). ss_status st = Stopped) (ca_services stopped_web)"
    and rest: "hm_wf (kc_services (ca_config stopped_web))"
      "hm_get (kc_services (ca_config stopped_web)) ''web'' = Some raw_service_config_default"
      "ca_resolved_configs stopped_web ''web'' = Some (resolved_config_default (RestartSimple policy_always))"
    by (simp_all add: stopped_web_def eval_actor hm_wf_def)
  from st obtain s where s: "hm_get (ca_services stopped_web) ''web'' = Some s" "ss_status s = Stopped"
    by (auto simp: status_of_def)
  have "actor_reachable stopped_web" unfolding stopped_web_def by (rule sample_reachable)
  from stopped_always_blocks_quiescence [OF this rest(1,2) _ rest(3) s] all show ?thesis
    by (simp add: raw_service_config_default_def)
qed

end
