(* ===== verification/Request_Gate.thy ===== *)
theory Request_Gate
  imports Acl Actor_Startup
begin

unbundle bit_operations_syntax

text \<open>
  The authorization pipeline that every request of a client passes before the daemon acts on it
  (\<^verbatim>\<open>kepler-daemon/src/main.rs\<close>, the first part of \<^verbatim>\<open>handle_request\<close> and the functions it calls):
  authentication, the hardening floor of a token, the permission bits of the configuration file, the
  rights of the caller on the configuration, and the Lua authorizers.

  The file system, the user database, the hash of a path, the loader of configuration files and the
  Lua machine are parameters, the record \<open>daemon_env\<close>. The state of the daemon that the pipeline
  reads and changes is the record \<open>daemon\<close>: the loaded configurations, the cached access data of
  configurations that are not loaded, and the token store.
\<close>

subsection \<open>State and environment\<close>

datatype io_error = IoNotFound | IoOther string

record file_meta =
  fm_mode :: "32 word"
  fm_uid :: nat
  fm_gid :: nat

record ('v, 'k, 'f) daemon_env =
  de_db :: os_db
  de_vm :: "('v, 'k, 'f) acl_vm"
  de_kepler_gid :: nat
  de_lstat :: "path \<Rightarrow> (io_error, file_meta) result"
  de_canonicalize :: "path \<Rightarrow> (io_error, path) result"
  de_exists :: "path \<Rightarrow> bool"
  de_global_state_dir :: "(string, path) result"
  de_path_hash :: "path \<Rightarrow> string"
  de_load_state :: "path \<Rightarrow> (string, persisted_config_state option) result"
  de_load_config :: "path \<Rightarrow> (string, kepler_config) result"

record ('v, 'k) config_handle =
  hd_owner_uid :: "nat option"
  hd_acl :: "('v, 'k) resolved_acl option"
  hd_state_dir :: path
  hd_actor :: config_actor

record ('v, 'k) unloaded_acl_entry =
  ue_owner_uid :: "nat option"
  ue_acl :: "('v, 'k) resolved_acl option"

record ('v, 'k) daemon =
  dm_registry :: "(path, ('v, 'k) config_handle) hmap"
  dm_acl_cache :: "path \<rightharpoonup> ('v, 'k) unloaded_acl_entry"
  dm_tokens :: "'k token_store"

datatype acl_denial = AccessDenied | MissingRights rights_error | AclUnusable acl_error

datatype file_denial = CannotAccess io_error | OwnerLacksRead | GroupLookupFailed acl_error | GroupLacksRead | OtherLacksRead

datatype rejection =
    AuthenticationFailed string
  | HardeningDenied string
  | FileDenied file_denial
  | ConfigPathNotFound path
  | AclDenial acl_denial

subsection \<open>The file of a configuration\<close>

definition check_filesystem_read_access ::
    "('v, 'k, 'f) daemon_env \<Rightarrow> path \<Rightarrow> nat \<Rightarrow> nat \<Rightarrow> (file_denial, unit) result" where
  "check_filesystem_read_access env p uid gid =
     bind_res (map_err CannotAccess (de_lstat env p)) (\<lambda>meta.
     if uid = fm_uid meta then
       (if fm_mode meta AND 0x100 \<noteq> 0 then Ok () else Err OwnerLacksRead)
     else bind_res (map_err GroupLookupFailed (get_all_gids (de_db env) uid gid)) (\<lambda>all_gids.
       if fm_gid meta \<in> set all_gids then
         (if fm_mode meta AND 0x20 \<noteq> 0 then Ok () else Err GroupLacksRead)
       else if fm_mode meta AND 0x4 \<noteq> 0 then Ok ()
       else Err OtherLacksRead))"

text \<open>
  The directory of a configuration, named by the hash of its canonical path, and only if it exists.
\<close>

definition compute_config_hash :: "('v, 'k, 'f) daemon_env \<Rightarrow> path \<Rightarrow> string" where
  "compute_config_hash env config_path = de_path_hash env config_path"

definition compute_state_dir :: "('v, 'k, 'f) daemon_env \<Rightarrow> path \<Rightarrow> path option" where
  "compute_state_dir env config_path = (case de_global_state_dir env of
      Inl _ \<Rightarrow> None
    | Inr dir \<Rightarrow> let state_dir = dir @ ''/configs/'' @ compute_config_hash env config_path
                in if de_exists env state_dir then Some state_dir else None)"

fun extract_config_path :: "request \<Rightarrow> path option" where
  "extract_config_path (Start p _ _ _ _ _ _ _) = Some p"
| "extract_config_path (Run p _ _ _ _ _ _ _ _) = Some p"
| "extract_config_path (Stop p _ _ _) = Some p"
| "extract_config_path (Restart p _ _ _ _ _ _) = Some p"
| "extract_config_path (Recreate p _ _ _) = Some p"
| "extract_config_path (LogsStream p _ _ _ _ _ _ _ _ _ _ _) = Some p"
| "extract_config_path (SubscribeLogs p) = Some p"
| "extract_config_path (Subscribe p _) = Some p"
| "extract_config_path (CheckQuiescence p) = Some p"
| "extract_config_path (CheckReadiness p) = Some p"
| "extract_config_path (UserRights p) = Some p"
| "extract_config_path (MonitorMetrics p _ _ _ _ _ _ _ _) = Some p"
| "extract_config_path (Inspect p _ _ _ _) = Some p"
| "extract_config_path (Status p) = p"
| "extract_config_path Shutdown = None"
| "extract_config_path Ping = None"
| "extract_config_path ListConfigs = None"
| "extract_config_path (Prune _ _) = None"
| "extract_config_path (ConfigOwner _) = None"

subsection \<open>The hardening floor\<close>

fun requested_hardening :: "request \<Rightarrow> string option" where
  "requested_hardening (Start _ _ _ _ _ h _ _) = h"
| "requested_hardening (Run _ _ _ _ _ h _ _ _) = h"
| "requested_hardening (Recreate _ _ h _) = h"
| "requested_hardening _ = None"

fun set_hardening :: "string \<Rightarrow> request \<Rightarrow> request" where
  "set_hardening h (Start p s e nd oe _ f fl) = Start p s e nd oe (Some h) f fl"
| "set_hardening h (Run p s e nd oe _ f c fl) = Run p s e nd oe (Some h) f c fl"
| "set_hardening h (Recreate p e _ fl) = Recreate p e (Some h) fl"
| "set_hardening h q = q"

definition apply_hardening_floor :: "'k auth_context \<Rightarrow> request \<Rightarrow> (string, request) result" where
  "apply_hardening_floor auth_ctx q = (case auth_ctx of
      AuthToken _ _ ctx \<Rightarrow> bind_res (check_hardening_floor ctx (requested_hardening q)) (\<lambda>effective_level.
        Ok (case effective_level of Some level \<Rightarrow> set_hardening (hardening_to_string level) q | None \<Rightarrow> q))
    | _ \<Rightarrow> Ok q)"

definition filesystem_gate ::
    "('v, 'k, 'f) daemon_env \<Rightarrow> 'k auth_context \<Rightarrow> request \<Rightarrow> (file_denial, unit) result" where
  "filesystem_gate env auth_ctx q = (case auth_ctx of
      AuthRoot _ _ \<Rightarrow> Ok ()
    | _ \<Rightarrow> (case extract_config_path q of
        Some raw_path \<Rightarrow> check_filesystem_read_access env raw_path (auth_uid auth_ctx) (auth_gid auth_ctx)
      | None \<Rightarrow> Ok ()))"

subsection \<open>Rights and authorizers\<close>

definition resolve_username :: "os_db \<Rightarrow> nat \<Rightarrow> string option" where
  "resolve_username db uid = (case user_from_uid db uid of Inr (Some u) \<Rightarrow> Some (pw_name u) | _ \<Rightarrow> None)"

definition token_authorizer :: "'k auth_context \<Rightarrow> 'k option" where
  "token_authorizer auth_ctx = (case auth_ctx of AuthToken _ _ ctx \<Rightarrow> tc_authorizer ctx | _ \<Rightarrow> None)"

definition run_authorizers ::
    "('v, 'k, 'f) daemon_env \<Rightarrow> ('v, 'k) resolved_acl \<Rightarrow> 'k auth_context \<Rightarrow> request
     \<Rightarrow> (acl_denial, unit) result \<times> ('v, 'k) resolved_acl" where
  "run_authorizers env acl auth_ctx q =
     (if \<not> has_authorizers acl \<and> token_authorizer auth_ctx = None then (Ok (), acl)
      else case auth_ctx of
        AuthRoot _ _ \<Rightarrow> (Ok (), acl)
      | _ \<Rightarrow>
          let uid = auth_uid auth_ctx; gid = auth_gid auth_ctx;
              is_token = (case auth_ctx of AuthToken _ _ _ \<Rightarrow> True | _ \<Rightarrow> False);
              groups = (case get_all_gids (de_db env) uid gid of Inr gs \<Rightarrow> gs | Inl _ \<Rightarrow> [gid])
          in case build_authorizer_context q uid gid (resolve_username (de_db env) uid) groups is_token of
               None \<Rightarrow> (Ok (), acl)
             | Some context \<Rightarrow>
                 (case check_authorizers (de_vm env) (de_db env) acl uid gid (token_authorizer auth_ctx) context of
                    (r, acl') \<Rightarrow> (map_err (\<lambda>_. AccessDenied) r, acl')))"

text \<open>The rights part, which loaded and unloaded configurations share.\<close>

definition static_rights ::
    "os_db \<Rightarrow> 'k auth_context \<Rightarrow> nat option \<Rightarrow> ('v, 'k) resolved_acl option \<Rightarrow> request \<Rightarrow> (acl_denial, unit) result" where
  "static_rights db auth_ctx owner_uid acl q =
     bind_res (map_err (\<lambda>_. AccessDenied) (effective_rights db auth_ctx owner_uid acl)) (\<lambda>rights.
     bind_res (ok_or AccessDenied rights) (\<lambda>effective.
       map_err MissingRights (check_rights effective q)))"

definition run_acl ::
    "('v, 'k, 'f) daemon_env \<Rightarrow> 'k auth_context \<Rightarrow> nat option \<Rightarrow> ('v, 'k) resolved_acl option \<Rightarrow> request
     \<Rightarrow> (acl_denial, unit) result \<times> ('v, 'k) resolved_acl option" where
  "run_acl env auth_ctx owner_uid acl q = (case static_rights (de_db env) auth_ctx owner_uid acl q of
      Inl e \<Rightarrow> (Err e, acl)
    | Inr _ \<Rightarrow> (case acl of
        None \<Rightarrow> (Ok (), None)
      | Some a \<Rightarrow> (case run_authorizers env a auth_ctx q of (r, a') \<Rightarrow> (r, Some a'))))"

definition check_config_acl ::
    "('v, 'k, 'f) daemon_env \<Rightarrow> 'k auth_context \<Rightarrow> ('v, 'k) config_handle \<Rightarrow> request
     \<Rightarrow> (acl_denial, unit) result \<times> ('v, 'k) config_handle" where
  "check_config_acl env auth_ctx handle q =
     (case run_acl env auth_ctx (hd_owner_uid handle) (hd_acl handle) q of
        (r, acl') \<Rightarrow> (r, handle\<lparr>hd_acl := acl'\<rparr>))"

definition can_read_config_status :: "('v, 'k, 'f) daemon_env \<Rightarrow> 'k auth_context \<Rightarrow> ('v, 'k) config_handle \<Rightarrow> bool" where
  "can_read_config_status env auth_ctx handle =
     (case effective_rights (de_db env) auth_ctx (hd_owner_uid handle) (hd_acl handle) of
        Inr (Some rights) \<Rightarrow> ''status'' \<in> rights
      | _ \<Rightarrow> False)"

text \<open>
  The access data of a configuration that is not loaded: the owner from its saved state, the list
  from the copy of its file. A file that cannot be loaded counts as one without a list; a list that
  cannot be resolved is an error, and nothing is cached.
\<close>

definition load_acl_entry ::
    "('v, 'k, 'f) daemon_env \<Rightarrow> path \<Rightarrow> (acl_error, ('v, 'k) unloaded_acl_entry) result" where
  "load_acl_entry env state_dir =
     (let owner_uid = (case de_load_state env state_dir of
            Inr (Some s) \<Rightarrow> pc_owner_uid s | _ \<Rightarrow> None);
          config_path = state_dir @ ''/config.yaml''
      in bind_res (if de_exists env config_path then
             (case de_load_config env config_path of
                Inr config \<Rightarrow> (case Option.bind (kc_kepler config) kg_acl of
                    None \<Rightarrow> Ok None
                  | Some acl_config \<Rightarrow>
                      bind_res (from_config (de_db env) acl_config) (\<lambda>acl.
                      bind_res (init_authorizers (de_vm env) acl) (\<lambda>acl. Ok (Some acl))))
              | Inl _ \<Rightarrow> Ok None)
           else Ok None) (\<lambda>acl. Ok \<lparr>ue_owner_uid = owner_uid, ue_acl = acl\<rparr>))"

definition get_unloaded_acl_entry ::
    "('v, 'k, 'f) daemon_env \<Rightarrow> path \<Rightarrow> (path \<rightharpoonup> ('v, 'k) unloaded_acl_entry)
     \<Rightarrow> (acl_error, ('v, 'k) unloaded_acl_entry) result \<times> (path \<rightharpoonup> ('v, 'k) unloaded_acl_entry)" where
  "get_unloaded_acl_entry env state_dir cache = (case cache state_dir of
      Some entry \<Rightarrow> (Ok entry, cache)
    | None \<Rightarrow> (case load_acl_entry env state_dir of
        Inl e \<Rightarrow> (Err e, cache)
      | Inr entry \<Rightarrow> (Ok entry, cache(state_dir \<mapsto> entry))))"

text \<open>The clone of a cached list shares its Lua machine with the cache.\<close>

definition check_unloaded_config_acl ::
    "('v, 'k, 'f) daemon_env \<Rightarrow> 'k auth_context \<Rightarrow> path \<Rightarrow> request \<Rightarrow> (path \<rightharpoonup> ('v, 'k) unloaded_acl_entry)
     \<Rightarrow> (acl_denial, unit) result \<times> (path \<rightharpoonup> ('v, 'k) unloaded_acl_entry)" where
  "check_unloaded_config_acl env auth_ctx state_dir q cache =
     (case get_unloaded_acl_entry env state_dir cache of
        (Inl e, cache') \<Rightarrow> (Err (AclUnusable e), cache')
      | (Inr entry, cache') \<Rightarrow>
          (case run_acl env auth_ctx (ue_owner_uid entry) (ue_acl entry) q of
             (r, acl') \<Rightarrow> (r, cache'(state_dir \<mapsto> entry\<lparr>ue_acl := acl'\<rparr>))))"

subsection \<open>The pipeline\<close>

definition acl_gate ::
    "('v, 'k, 'f) daemon_env \<Rightarrow> 'k auth_context \<Rightarrow> request \<Rightarrow> ('v, 'k) daemon
     \<Rightarrow> (rejection, unit) result \<times> ('v, 'k) daemon" where
  "acl_gate env auth_ctx q d = (case extract_config_path q of
      None \<Rightarrow> (Ok (), d)
    | Some raw_path \<Rightarrow> (case de_canonicalize env raw_path of
        Inl _ \<Rightarrow> (Err (ConfigPathNotFound raw_path), d)
      | Inr canonical \<Rightarrow> (case hm_get (dm_registry d) canonical of
          Some handle \<Rightarrow> (case check_config_acl env auth_ctx handle q of
              (r, handle') \<Rightarrow> (map_err AclDenial r, d\<lparr>dm_registry := hm_set (dm_registry d) canonical handle'\<rparr>))
        | None \<Rightarrow> (case compute_state_dir env canonical of
            None \<Rightarrow> (Ok (), d)
          | Some state_dir \<Rightarrow> (case check_unloaded_config_acl env auth_ctx state_dir q (dm_acl_cache d) of
              (r, cache') \<Rightarrow> (map_err AclDenial r, d\<lparr>dm_acl_cache := cache'\<rparr>))))))"

record peer_credentials =
  pc_token :: "8 word list option"
  pc_uid :: nat
  pc_gid :: nat

definition authorize ::
    "('v, 'k, 'f) daemon_env \<Rightarrow> peer_credentials \<Rightarrow> request \<Rightarrow> ('v, 'k) daemon
     \<Rightarrow> (rejection, 'k auth_context \<times> request) result \<times> ('v, 'k) daemon" where
  "authorize env peer q d =
     (case resolve_auth (de_db env) (pc_token peer) (pc_uid peer) (pc_gid peer) (de_kepler_gid env) (dm_tokens d) of
        Inl e \<Rightarrow> (Err (AuthenticationFailed e), d)
      | Inr auth_ctx \<Rightarrow> (case apply_hardening_floor auth_ctx q of
          Inl e \<Rightarrow> (Err (HardeningDenied e), d)
        | Inr q' \<Rightarrow> (case filesystem_gate env auth_ctx q' of
            Inl e \<Rightarrow> (Err (FileDenied e), d)
          | Inr _ \<Rightarrow> (case acl_gate env auth_ctx q' d of
              (r, d') \<Rightarrow> (bind_res r (\<lambda>_. Ok (auth_ctx, q')), d')))))"

subsection \<open>Mediation\<close>

text \<open>What the daemon knows of the access to a configuration: its owner and its list.\<close>

definition access_data ::
    "('v, 'k, 'f) daemon_env \<Rightarrow> ('v, 'k) daemon \<Rightarrow> path \<Rightarrow> (nat option \<times> ('v, 'k) resolved_acl option) option" where
  "access_data env d canonical = (case hm_get (dm_registry d) canonical of
      Some handle \<Rightarrow> Some (hd_owner_uid handle, hd_acl handle)
    | None \<Rightarrow> (case compute_state_dir env canonical of
        None \<Rightarrow> None
      | Some state_dir \<Rightarrow> (case fst (get_unloaded_acl_entry env state_dir (dm_acl_cache d)) of
          Inl _ \<Rightarrow> None
        | Inr entry \<Rightarrow> Some (ue_owner_uid entry, ue_acl entry))))"

text \<open>The permission bits of a file, read the way the kernel reads them.\<close>

definition readable_by :: "file_meta \<Rightarrow> nat \<Rightarrow> nat list \<Rightarrow> bool" where
  "readable_by meta uid gids =
     (if uid = fm_uid meta then fm_mode meta AND 0x100 \<noteq> 0
      else if fm_gid meta \<in> set gids then fm_mode meta AND 0x20 \<noteq> 0
      else fm_mode meta AND 0x4 \<noteq> 0)"

lemma read_access_Ok:
  assumes "check_filesystem_read_access env p uid gid = Ok ()"
  shows "\<exists>meta. de_lstat env p = Ok meta \<and>
    (\<forall>gids. get_all_gids (de_db env) uid gid = Ok gids \<longrightarrow> readable_by meta uid gids)"
  using assms
  by (auto simp: check_filesystem_read_access_def bind_res_Ok_iff map_err_Ok_iff readable_by_def split: if_splits)

lemma set_hardening_path [simp]: "extract_config_path (set_hardening h q) = extract_config_path q"
  by (cases q) simp_all

lemma apply_hardening_floor_path: "apply_hardening_floor auth_ctx q = Ok q' \<Longrightarrow> extract_config_path q' = extract_config_path q"
  by (auto simp: apply_hardening_floor_def bind_res_Ok_iff split: auth_context.splits option.splits)

lemma run_acl_Ok:
  assumes "fst (run_acl env auth_ctx owner acl q) = Ok ()"
  shows "static_rights (de_db env) auth_ctx owner acl q = Ok ()"
  using assms by (auto simp: run_acl_def split: sum.splits)

lemma static_rights_Ok:
  "static_rights db auth_ctx owner acl q = Ok () \<longleftrightarrow>
   (\<exists>rights. effective_rights db auth_ctx owner acl = Ok (Some rights) \<and> check_rights rights q = Ok ())"
  by (auto simp: static_rights_def bind_res_Ok_iff map_err_Ok_iff ok_or_def split: option.splits)

lemma acl_gate_rights:
  assumes "fst (acl_gate env auth_ctx q d) = Ok ()" "extract_config_path q = Some p" "de_canonicalize env p = Ok c"
    "access_data env d c = Some (owner, acl)"
  shows "fst (run_acl env auth_ctx owner acl q) = Ok ()"
  using assms
  by (auto simp: acl_gate_def access_data_def check_config_acl_def check_unloaded_config_acl_def split_def map_err_Ok_iff
      split: option.splits sum.splits prod.splits)

lemma authorize_Ok:
  assumes "authorize env peer q d = (Ok (auth_ctx, q'), d')"
  shows "resolve_auth (de_db env) (pc_token peer) (pc_uid peer) (pc_gid peer) (de_kepler_gid env) (dm_tokens d) = Ok auth_ctx"
    "apply_hardening_floor auth_ctx q = Ok q'" "filesystem_gate env auth_ctx q' = Ok ()" "fst (acl_gate env auth_ctx q' d) = Ok ()"
    "extract_config_path q' = extract_config_path q"
  using assms apply_hardening_floor_path
  by (auto simp: authorize_def bind_res_Ok_iff split: sum.splits prod.splits)

lemma authorize_unloadable:
  assumes "authorize env peer q d = (Ok (auth_ctx, q'), d')" "extract_config_path q = Some p"
  shows "\<exists>c. de_canonicalize env p = Ok c"
  using authorize_Ok(4,5) [OF assms(1)] assms(2) by (auto simp: acl_gate_def split: sum.splits)

lemma resolve_auth_cases:
  assumes "resolve_auth db token uid gid kgid store = Ok auth_ctx"
  obtains (token) bytes ctx where "auth_ctx = AuthToken uid gid ctx" "token = Some bytes" "store_get store (Token bytes) = Some ctx"
  | (root) "auth_ctx = AuthRoot uid gid" "uid = 0"
  | (group) "auth_ctx = AuthGroup uid gid" "uid \<noteq> 0" "gid = kgid \<or> uid_has_gid db uid kgid"
  using assms by (auto simp: resolve_auth_def Option.bind_eq_Some_conv split: option.splits if_splits)

lemma effective_rights_other:
  assumes "effective_rights db auth_ctx owner acl = Ok (Some rights)" "auth_uid auth_ctx \<noteq> 0"
    "owner \<noteq> Some (auth_uid auth_ctx)" "\<forall>u g. auth_ctx \<noteq> AuthRoot u g" "r \<in> rights"
  shows "\<exists>a gids. acl = Some a \<and> get_all_gids db (auth_uid auth_ctx) (auth_gid auth_ctx) = Ok gids \<and>
    rights \<subseteq> acl_granted a (auth_uid auth_ctx) gids"
  using assms
  by (cases auth_ctx) (auto simp: effective_rights_def bind_res_Ok_iff collect_rights_eq granted_unmatched
      split: option.splits if_splits)


definition sample_vm :: "(unit, nat, unit) acl_vm" where
  "sample_vm = \<lparr>vm_create = (\<lambda>_. Ok ()), vm_compile = (\<lambda>v _. Ok (0, v)), vm_call = (\<lambda>v _ _. (Ok (LuaBoolean True), v))\<rparr>"

definition gate_acl :: "(unit, nat) resolved_acl" where
  "gate_acl = acl_empty\<lparr>user_rules := [1000 \<mapsto> {''status'', ''start''}]\<rparr>"

text \<open>
  A user's link \<^verbatim>\<open>/home/k.yaml\<close> to the file \<^verbatim>\<open>/etc/k.yaml\<close>, which only root may read, and a file
  \<^verbatim>\<open>/srv/k.yaml\<close> that everyone may read.
\<close>

definition gate_env :: "(unit, nat, unit) daemon_env" where
  "gate_env = \<lparr>de_db = empty_db, de_vm = sample_vm, de_kepler_gid = 44,
     de_lstat = (\<lambda>p. Ok (if p = ''/home/k.yaml'' then \<lparr>fm_mode = 0xA1FF, fm_uid = 1000, fm_gid = 44\<rparr>
        else if p = ''/etc/k.yaml'' then \<lparr>fm_mode = 0x8180, fm_uid = 0, fm_gid = 0\<rparr>
        else \<lparr>fm_mode = 0x81A4, fm_uid = 0, fm_gid = 0\<rparr>)),
     de_canonicalize = (\<lambda>p. Ok (if p = ''/home/k.yaml'' then ''/etc/k.yaml'' else p)),
     de_exists = (\<lambda>_. False), de_global_state_dir = Ok ''/var/lib/kepler'', de_path_hash = (\<lambda>p. p),
     de_load_state = (\<lambda>_. Ok None), de_load_config = (\<lambda>p. Err p)\<rparr>"

definition gate_daemon :: "path \<Rightarrow> (unit, nat) daemon" where
  "gate_daemon p = \<lparr>dm_registry = [(p, \<lparr>hd_owner_uid = Some 5, hd_acl = Some gate_acl, hd_state_dir = ''/var'', hd_actor = sample_actor\<rparr>)],
     dm_acl_cache = Map.empty, dm_tokens = [(Token [7], sample_context ''web'')]\<rparr>"

lemmas eval_gate = gate_env_def gate_daemon_def gate_acl_def sample_vm_def empty_db_def acl_empty_def sample_context_def
  authorize_def resolve_auth_def apply_hardening_floor_def check_hardening_floor_def filesystem_gate_def
  check_filesystem_read_access_def get_all_gids_def acl_gate_def check_config_acl_def run_acl_def static_rights_def
  effective_rights_def collect_rights_def check_rights_def run_authorizers_def has_authorizers_def token_authorizer_def
  hm_get_def bind_res_def map_err_def ok_or_def compute_state_dir_def

lemma gate_example:
  "fst (authorize gate_env \<lparr>pc_token = None, pc_uid = 1000, pc_gid = 44\<rparr> (Status (Some ''/srv/k.yaml'')) (gate_daemon ''/srv/k.yaml'')) =
     Ok (AuthGroup 1000 44, Status (Some ''/srv/k.yaml''))"
  by (simp add: eval_gate)


subsection \<open>The hardening floor of a token\<close>

text \<open>The level that the handlers of the three starting requests read from the request.\<close>

definition request_level :: "request \<Rightarrow> hardening_level option" where
  "request_level q = Option.bind (requested_hardening q) (\<lambda>s. res_ok (hardening_from_str s))"

definition starts_services :: "request \<Rightarrow> bool" where
  "starts_services q = (case q of Start _ _ _ _ _ _ _ _ \<Rightarrow> True | Run _ _ _ _ _ _ _ _ _ \<Rightarrow> True
     | Recreate _ _ _ _ \<Rightarrow> True | _ \<Rightarrow> False)"

lemma requested_set_hardening: "starts_services q \<Longrightarrow> requested_hardening (set_hardening h q) = Some h"
  by (cases q) (simp_all add: starts_services_def)

lemma floor_request_level:
  assumes "apply_hardening_floor (AuthToken uid gid ctx) q = Ok q'" "starts_services q"
  shows "check_hardening_floor ctx (requested_hardening q) = Ok (request_level q')"
proof -
  obtain l where l: "check_hardening_floor ctx (requested_hardening q) = Ok l"
    and q': "q' = (case l of Some level \<Rightarrow> set_hardening (hardening_to_string level) q | None \<Rightarrow> q)"
    using assms(1) by (auto simp: apply_hardening_floor_def bind_res_Ok_iff)
  have parse: "hardening_from_str (hardening_to_string x) = Ok x" for x by (simp add: hardening_from_str_iff)
  show ?thesis
  proof (cases l)
    case None
    with l have "requested_hardening q = None"
      by (auto simp: check_hardening_floor_def bind_res_Ok_iff split: if_splits option.splits)
    with None l q' show ?thesis by (simp add: request_level_def)
  next
    case (Some level)
    with l q' assms(2) show ?thesis by (simp add: request_level_def requested_set_hardening parse res_ok_def)
  qed
qed


abbreviation plain_start :: "path \<Rightarrow> request" where
  "plain_start p \<equiv> Start p [] None False None None False None"

lemma unknown_config_example:
  "fst (authorize gate_env \<lparr>pc_token = Some [7], pc_uid = 1000, pc_gid = 9\<rparr> (plain_start ''/srv/new.yaml'') (gate_daemon ''/srv/k.yaml'')) =
     Ok (AuthToken 1000 9 (sample_context ''web''), Start ''/srv/new.yaml'' [] None False None (Some ''no-root'') False None)"
  by (simp add: eval_gate)


subsection \<open>Limits of the pipeline\<close>

text \<open>
  A configuration that the daemon has neither loaded nor saved has no owner and no list, and the
  rights of the caller are not looked at: a token that allows nothing starts it.
\<close>

lemma unknown_config_no_rights:
  assumes "extract_config_path q = Some p" "de_canonicalize env p = Ok c"
    and "hm_get (dm_registry d) c = None" "compute_state_dir env c = None"
  shows "authorize env peer q d =
    (bind_res (map_err AuthenticationFailed (resolve_auth (de_db env) (pc_token peer) (pc_uid peer) (pc_gid peer)
        (de_kepler_gid env) (dm_tokens d))) (\<lambda>auth_ctx.
      bind_res (map_err HardeningDenied (apply_hardening_floor auth_ctx q)) (\<lambda>q'.
      bind_res (map_err FileDenied (filesystem_gate env auth_ctx q')) (\<lambda>_. Ok (auth_ctx, q')))), d)"
proof -
  have "acl_gate env auth_ctx q' d = (Ok (), d)" if "apply_hardening_floor auth_ctx q = Ok q'" for auth_ctx and q'
    using apply_hardening_floor_path [OF that] assms by (simp add: acl_gate_def)
  then show ?thesis
    by (auto simp: authorize_def split: sum.splits)
qed

text \<open>
  A start without a hardening flag by a bearer with a floor needs the right to set the flag: the
  floor is put into the request before the rights of the request are computed.
\<close>

lemma floor_needs_hardening_right:
  assumes "authorize env peer (plain_start p) d = (Ok (AuthToken uid gid ctx, q'), d')"
    and "de_canonicalize env p = Ok c" "access_data env d c = Some (owner, acl)" "tc_max_hardening ctx \<noteq> HNone"
  shows "''start:hardening'' \<in> tc_allow ctx"
proof -
  note facts = authorize_Ok [OF assms(1)]
  have q': "q' = Start p [] None False None (Some (hardening_to_string (tc_max_hardening ctx))) False None"
    using facts(2) assms(4) by (auto simp: apply_hardening_floor_def check_hardening_floor_def)
  have "extract_config_path q' = Some p" by (simp add: q')
  from run_acl_Ok [OF acl_gate_rights [OF facts(4) this assms(2,3)]] obtain rights
    where "effective_rights (de_db env) (AuthToken uid gid ctx) owner acl = Ok (Some rights)" "''start:hardening'' \<in> rights"
    by (auto simp: static_rights_Ok check_rights_iff q' push_if_def)
  then show ?thesis
    by (auto simp: effective_rights_def bind_res_Ok_iff split: if_splits option.splits)
qed

text \<open>
  The permission bits are those of the named file itself. The caller's own link to a file that only
  root may read passes, and the request is about the target.
\<close>

lemma link_passes_read_check:
  "check_filesystem_read_access gate_env ''/etc/k.yaml'' 1000 44 \<noteq> Ok () \<and>
   fst (authorize gate_env \<lparr>pc_token = None, pc_uid = 1000, pc_gid = 44\<rparr> (Status (Some ''/home/k.yaml'')) (gate_daemon ''/etc/k.yaml'')) =
     Ok (AuthGroup 1000 44, Status (Some ''/home/k.yaml''))"
  by (simp add: eval_gate)

end
