(* ===== verification/Query_Dsl.thy ===== *)
theory Query_Dsl
  imports Restart
begin

text \<open>
  The search language for logs and metrics (\<^verbatim>\<open>kepler-daemon/src/query/dsl.rs\<close>): its tokenizer, its
  recursive descent parser, and that every expression has a text that parses to it. Strings are
  UTF-8 bytes; all characters the tokenizer looks for are ASCII, so that reading bytes and reading
  characters split a text in the same places. Error messages are the constructors of
  \<open>query_error\<close>. The parser recurses on fuel, and four times the number of tokens plus four is enough.
\<close>

subsection \<open>Tokens\<close>

datatype query_token =
    TWord string
  | TQuotedString string
  | TColon
  | TAt
  | TLeftParen
  | TRightParen
  | TAnd
  | TOr
  | TNot
  | TMinus
  | TBang
  | TGt
  | TGte
  | TLt
  | TLte

datatype query_error =
    EmptyQuery
  | UnterminatedString
  | ExpectedToken query_token "query_token option"
  | UnexpectedAt nat query_token
  | BareField string
  | UnexpectedToken query_token
  | UnexpectedEnd
  | ExpectedFieldName "query_token option"
  | ExpectedAfterMinus "query_token option"
  | ExpectedValue "query_token option"
  | NoFullText
  | UnknownField string
  | OutOfFuel

subsection \<open>Tokenizer\<close>

text \<open>The characters up to the closing quote, with the escapes, and the rest after it.\<close>

fun close_quote :: "char \<Rightarrow> string \<Rightarrow> (string \<times> string) option" where
  "close_quote q [] = None"
| "close_quote q (c # cs) =
     (if c = q then Some ([], cs)
      else if c = CHR 0x5C then
        (case cs of
           [] \<Rightarrow> None
         | d # ds \<Rightarrow> map_option (\<lambda>(raw, rest). (c # d # raw, rest)) (close_quote q ds))
      else map_option (\<lambda>(raw, rest). (c # raw, rest)) (close_quote q cs))"

fun unescape :: "string \<Rightarrow> string" where
  "unescape [] = []"
| "unescape [c] = (if c = CHR 0x5C then [] else [c])"
| "unescape (c # d # cs) = (if c = CHR 0x5C then d # unescape cs else c # unescape (d # cs))"

definition read_quoted_string :: "char \<Rightarrow> string \<Rightarrow> (query_error, query_token \<times> string) result" where
  "read_quoted_string q s = (case close_quote q s of
      None \<Rightarrow> Err UnterminatedString
    | Some (raw, rest) \<Rightarrow> Ok (TQuotedString (unescape raw), rest))"

definition query_space :: "char \<Rightarrow> bool" where
  "query_space c = (c = CHR '' '' \<or> c = CHR 0x09 \<or> c = CHR 0x0A \<or> c = CHR 0x0D)"

definition ends_word :: "char \<Rightarrow> bool" where
  "ends_word c = (query_space c \<or> c = CHR '':'' \<or> c = CHR ''@'' \<or> c = CHR ''('' \<or> c = CHR '')'' \<or>
     c = CHR ''>'' \<or> c = CHR ''<'' \<or> c = CHR 0x22 \<or> c = CHR 0x27 \<or> c = CHR ''!'')"

definition word_token :: "string \<Rightarrow> query_token" where
  "word_token word =
     (if eq_ignore_ascii_case word ''AND'' then TAnd
      else if eq_ignore_ascii_case word ''OR'' then TOr
      else if eq_ignore_ascii_case word ''NOT'' then TNot
      else TWord word)"

text \<open>The word from a first character that the tokenizer does not treat by itself.\<close>

definition read_word :: "char \<Rightarrow> string \<Rightarrow> query_token \<times> string" where
  "read_word c cs = (word_token (c # takeWhile (\<lambda>x. \<not> ends_word x) cs), dropWhile (\<lambda>x. \<not> ends_word x) cs)"

definition after_eq :: "string \<Rightarrow> query_token \<Rightarrow> query_token \<Rightarrow> query_token \<times> string" where
  "after_eq cs with_eq plain = (case cs of
      c # cs' \<Rightarrow> if c = CHR ''='' then (with_eq, cs') else (plain, cs)
    | [] \<Rightarrow> (plain, cs))"

text \<open>The next token of a text that does not start with white space, and the rest.\<close>

definition next_token :: "char \<Rightarrow> string \<Rightarrow> (query_error, query_token \<times> string) result" where
  "next_token c cs =
     (if c = CHR '':'' then Ok (TColon, cs)
      else if c = CHR ''@'' then Ok (TAt, cs)
      else if c = CHR ''('' then Ok (TLeftParen, cs)
      else if c = CHR '')'' then Ok (TRightParen, cs)
      else if c = CHR ''>'' then Ok (after_eq cs TGte TGt)
      else if c = CHR ''<'' then Ok (after_eq cs TLte TLt)
      else if c = CHR ''-'' then Ok (TMinus, cs)
      else if c = CHR ''!'' then Ok (TBang, cs)
      else if c = CHR 0x22 \<or> c = CHR 0x27 then read_quoted_string c cs
      else Ok (read_word c cs))"

lemma close_quote_length: "close_quote q s = Some (raw, rest) \<Longrightarrow> length rest < length s"
proof (induction q s arbitrary: raw rest rule: close_quote.induct)
  case (1 q)
  then show ?case by simp
next
  case (2 q c cs)
  consider "c = q" | "c \<noteq> q" "c \<noteq> CHR 0x5C" | d ds where "c \<noteq> q" "c = CHR 0x5C" "cs = d # ds"
    using "2.prems" by (cases cs) (auto split: if_splits)
  then show ?case
  proof cases
    case 1
    with "2.prems" show ?thesis by simp
  next
    case 2
    with "2.prems" obtain raw' where "close_quote q cs = Some (raw', rest)" by auto
    from "2.IH"(2) [OF 2 this] show ?thesis by simp
  next
    case 3
    with "2.prems" obtain raw' where "close_quote q ds = Some (raw', rest)" by auto
    from "2.IH"(1) [OF 3 this] 3(3) show ?thesis by simp
  qed
qed

lemma read_quoted_length: "read_quoted_string q s = Ok (t, rest) \<Longrightarrow> length rest \<le> length s"
  using close_quote_length [of q s] by (auto simp: read_quoted_string_def split: option.splits dest: less_imp_le)

lemma after_eq_length: "length (snd (after_eq cs t u)) \<le> length cs"
  by (simp add: after_eq_def split: list.split)

lemma read_word_length: "length (snd (read_word c cs)) \<le> length cs"
  by (simp add: read_word_def length_dropWhile_le)

lemma next_token_length: "next_token c cs = Ok (t, rest) \<Longrightarrow> length rest \<le> length cs"
  using read_quoted_length [of c cs t rest] after_eq_length [of cs TGte TGt] after_eq_length [of cs TLte TLt]
    read_word_length [of c cs]
  unfolding next_token_def by (simp split: if_split_asm)

function tokenize :: "string \<Rightarrow> (query_error, query_token list) result" where
  "tokenize s = (case s of
      [] \<Rightarrow> Ok []
    | c # cs \<Rightarrow>
        if query_space c then tokenize cs
        else (case next_token c cs of
            Inl e \<Rightarrow> Err e
          | Inr (t, rest) \<Rightarrow> bind_res (tokenize rest) (\<lambda>ts. Ok (t # ts))))"
  by pat_completeness auto
termination
  by (relation "measure length") (auto dest: next_token_length)

declare tokenize.simps [simp del]

subsection \<open>Expressions\<close>

datatype comp_op = CompGt | CompGte | CompLt | CompLte

fun comp_as_sql :: "comp_op \<Rightarrow> string" where
  "comp_as_sql CompGt = ''>''"
| "comp_as_sql CompGte = ''>=''"
| "comp_as_sql CompLt = ''<''"
| "comp_as_sql CompLte = ''<=''"

datatype query_expr =
    FullText string bool
  | FieldMatch string string bool
  | Comparison string comp_op string
  | QAnd query_expr query_expr
  | QOr query_expr query_expr
  | QNot query_expr

subsection \<open>Parser\<close>

text \<open>A parser state is the list of the tokens still to be read.\<close>

definition expect :: "query_token \<Rightarrow> query_token list \<Rightarrow> (query_error, query_token list) result" where
  "expect expected ts = (case ts of
      t # ts' \<Rightarrow> if t = expected then Ok ts' else Err (ExpectedToken expected (Some t))
    | [] \<Rightarrow> Err (ExpectedToken expected None))"

definition has_wildcard :: "string \<Rightarrow> bool" where
  "has_wildcard s = (CHR ''*'' \<in> set s \<or> CHR ''?'' \<in> set s)"

definition peek :: "query_token list \<Rightarrow> query_token option" where
  "peek ts = (case ts of t # _ \<Rightarrow> Some t | [] \<Rightarrow> None)"

definition read_value :: "query_token list \<Rightarrow> (query_error, string \<times> query_token list) result" where
  "read_value ts = (case ts of
      TMinus # ts' \<Rightarrow> (case ts' of
          TWord w # rest \<Rightarrow> Ok (CHR ''-'' # w, rest)
        | TQuotedString s # rest \<Rightarrow> Ok (CHR ''-'' # s, rest)
        | _ \<Rightarrow> Err (ExpectedAfterMinus (peek ts')))
    | TWord w # rest \<Rightarrow> Ok (w, rest)
    | TQuotedString s # rest \<Rightarrow> Ok (s, rest)
    | _ \<Rightarrow> Err (ExpectedValue (peek ts)))"

definition read_value_with_wildcards ::
    "query_token list \<Rightarrow> (query_error, string \<times> bool \<times> query_token list) result" where
  "read_value_with_wildcards ts = (case ts of
      TMinus # ts' \<Rightarrow> (case ts' of
          TWord w # rest \<Rightarrow> Ok (CHR ''-'' # w, has_wildcard (CHR ''-'' # w), rest)
        | TQuotedString s # rest \<Rightarrow> Ok (CHR ''-'' # s, False, rest)
        | _ \<Rightarrow> Err (ExpectedAfterMinus (peek ts')))
    | TWord w # rest \<Rightarrow> Ok (w, has_wildcard w, rest)
    | TQuotedString s # rest \<Rightarrow> Ok (s, False, rest)
    | _ \<Rightarrow> Err (ExpectedValue (peek ts)))"

definition comparison_token :: "query_token option \<Rightarrow> comp_op option" where
  "comparison_token t = (case t of
      Some TGt \<Rightarrow> Some CompGt
    | Some TGte \<Rightarrow> Some CompGte
    | Some TLt \<Rightarrow> Some CompLt
    | Some TLte \<Rightarrow> Some CompLte
    | _ \<Rightarrow> None)"

definition parse_field_value ::
    "string \<Rightarrow> query_token list \<Rightarrow> (query_error, query_expr \<times> query_token list) result" where
  "parse_field_value field ts = (case comparison_token (peek ts) of
      Some op \<Rightarrow> bind_res (read_value (tl ts)) (\<lambda>(v, rest). Ok (Comparison field op v, rest))
    | None \<Rightarrow> bind_res (read_value_with_wildcards ts) (\<lambda>(v, w, rest). Ok (FieldMatch field v w, rest)))"

definition parse_field_expr ::
    "query_token list \<Rightarrow> (query_error, query_expr \<times> query_token list) result" where
  "parse_field_expr ts = (case ts of
      TWord w # ts' \<Rightarrow> bind_res (expect TColon ts') (\<lambda>rest. parse_field_value w rest)
    | _ \<Rightarrow> Err (ExpectedFieldName (peek ts)))"

text \<open>A token that starts a new operand, so that an AND is implied before it.\<close>

definition starts_operand :: "query_token option \<Rightarrow> bool" where
  "starts_operand t = (case t of
      Some TAt \<Rightarrow> True | Some (TWord _) \<Rightarrow> True | Some (TQuotedString _) \<Rightarrow> True | Some TLeftParen \<Rightarrow> True
    | Some TNot \<Rightarrow> True | Some TMinus \<Rightarrow> True | Some TBang \<Rightarrow> True | _ \<Rightarrow> False)"

definition negates :: "query_token option \<Rightarrow> bool" where
  "negates t = (t = Some TNot \<or> t = Some TMinus \<or> t = Some TBang)"

text \<open>A primary expression that is not in parentheses.\<close>

definition parse_atom :: "query_token list \<Rightarrow> (query_error, query_expr \<times> query_token list) result" where
  "parse_atom ts = (case ts of
      TAt # ts' \<Rightarrow> parse_field_expr ts'
    | TWord w # ts' \<Rightarrow> if peek ts' = Some TColon then Err (BareField w) else Ok (FullText w (has_wildcard w), ts')
    | TQuotedString s # ts' \<Rightarrow> Ok (FullText s False, ts')
    | t # _ \<Rightarrow> Err (UnexpectedToken t)
    | [] \<Rightarrow> Err UnexpectedEnd)"

function (sequential) parse_or :: "nat \<Rightarrow> query_token list \<Rightarrow> (query_error, query_expr \<times> query_token list) result"
  and parse_or_loop :: "nat \<Rightarrow> query_expr \<Rightarrow> query_token list \<Rightarrow> (query_error, query_expr \<times> query_token list) result"
  and parse_and :: "nat \<Rightarrow> query_token list \<Rightarrow> (query_error, query_expr \<times> query_token list) result"
  and parse_and_loop :: "nat \<Rightarrow> query_expr \<Rightarrow> query_token list \<Rightarrow> (query_error, query_expr \<times> query_token list) result"
  and parse_unary :: "nat \<Rightarrow> query_token list \<Rightarrow> (query_error, query_expr \<times> query_token list) result"
  and parse_primary :: "nat \<Rightarrow> query_token list \<Rightarrow> (query_error, query_expr \<times> query_token list) result"
where
  "parse_or 0 ts = Err OutOfFuel"
| "parse_or (Suc k) ts = bind_res (parse_and k ts) (\<lambda>(left, rest). parse_or_loop k left rest)"
| "parse_or_loop 0 left ts = Err OutOfFuel"
| "parse_or_loop (Suc k) left ts =
     (if peek ts = Some TOr
      then bind_res (parse_and k (tl ts)) (\<lambda>(right, rest). parse_or_loop k (QOr left right) rest)
      else Ok (left, ts))"
| "parse_and 0 ts = Err OutOfFuel"
| "parse_and (Suc k) ts = bind_res (parse_unary k ts) (\<lambda>(left, rest). parse_and_loop k left rest)"
| "parse_and_loop 0 left ts = Err OutOfFuel"
| "parse_and_loop (Suc k) left ts =
     (if peek ts = Some TAnd
      then bind_res (parse_unary k (tl ts)) (\<lambda>(right, rest). parse_and_loop k (QAnd left right) rest)
      else if starts_operand (peek ts)
      then bind_res (parse_unary k ts) (\<lambda>(right, rest). parse_and_loop k (QAnd left right) rest)
      else Ok (left, ts))"
| "parse_unary 0 ts = Err OutOfFuel"
| "parse_unary (Suc k) ts =
     (if negates (peek ts) then bind_res (parse_primary k (tl ts)) (\<lambda>(e, rest). Ok (QNot e, rest))
      else parse_primary k ts)"
| "parse_primary 0 ts = Err OutOfFuel"
| "parse_primary (Suc k) ts =
     (if peek ts = Some TLeftParen
      then bind_res (parse_or k (tl ts)) (\<lambda>(e, rest). bind_res (expect TRightParen rest) (\<lambda>rest'. Ok (e, rest')))
      else parse_atom ts)"
  by pat_completeness auto
termination
  by (relation "measure (case_sum (case_sum fst (case_sum fst fst)) (case_sum fst (case_sum fst fst)))") auto

definition parser_fuel :: "query_token list \<Rightarrow> nat" where
  "parser_fuel ts = 4 * length ts + 4"

definition parse_tokens :: "query_token list \<Rightarrow> (query_error, query_expr) result" where
  "parse_tokens ts = bind_res (parse_or (parser_fuel ts) ts) (\<lambda>(e, rest). (case rest of
      t # _ \<Rightarrow> Err (UnexpectedAt (length ts - length rest) t)
    | [] \<Rightarrow> Ok e))"

text \<open>The first half of \<^verbatim>\<open>QueryDsl::parse\<close>, up to the syntax tree.\<close>

definition parse_query :: "string \<Rightarrow> (query_error, query_expr) result" where
  "parse_query input =
     (let input = trim input
      in if input = [] then Err EmptyQuery
         else bind_res (tokenize input) (\<lambda>tokens.
           if tokens = [] then Err EmptyQuery else parse_tokens tokens))"

subsection \<open>The fuel is enough\<close>

lemma peek_Some: "peek ts = Some t \<longleftrightarrow> (\<exists>ts'. ts = t # ts')"
  by (cases ts) (simp_all add: peek_def)

lemma expect_Ok: "expect t ts = Ok rest \<longleftrightarrow> ts = t # rest"
  by (cases ts) (auto simp: expect_def)

lemma expect_fuel: "expect t ts \<noteq> Err OutOfFuel"
  by (cases ts) (auto simp: expect_def)

lemma read_value_facts:
  "read_value ts = Ok (v, rest) \<Longrightarrow> length rest < length ts" "read_value ts \<noteq> Err OutOfFuel"
  by (auto simp: read_value_def split: list.splits query_token.splits)

lemma read_value_with_wildcards_facts:
  "read_value_with_wildcards ts = Ok (v, w, rest) \<Longrightarrow> length rest < length ts"
  "read_value_with_wildcards ts \<noteq> Err OutOfFuel"
  by (auto simp: read_value_with_wildcards_def split: list.splits query_token.splits)

lemma parse_field_value_facts:
  "parse_field_value f ts = Ok (e, rest) \<Longrightarrow> length rest < length ts" "parse_field_value f ts \<noteq> Err OutOfFuel"
proof -
  assume "parse_field_value f ts = Ok (e, rest)"
  then show "length rest < length ts"
    using read_value_facts(1) [of "tl ts"] read_value_with_wildcards_facts(1) [of ts]
    by (fastforce simp: parse_field_value_def bind_res_Ok_iff split: option.splits)
next
  show "parse_field_value f ts \<noteq> Err OutOfFuel"
    using read_value_facts(2) [of "tl ts"] read_value_with_wildcards_facts(2) [of ts]
    by (auto simp: parse_field_value_def bind_res_Err_iff split: option.splits)
qed

lemma parse_field_expr_facts:
  "parse_field_expr ts = Ok (e, rest) \<Longrightarrow> length rest < length ts" "parse_field_expr ts \<noteq> Err OutOfFuel"
  using parse_field_value_facts
  by (fastforce simp: parse_field_expr_def bind_res_Ok_iff bind_res_Err_iff expect_Ok expect_fuel
      split: list.splits query_token.splits)+

lemma parse_atom_facts:
  "parse_atom ts = Ok (e, rest) \<Longrightarrow> length rest < length ts" "parse_atom ts \<noteq> Err OutOfFuel"
  using parse_field_expr_facts [of "tl ts"]
  by (force simp: parse_atom_def split: list.splits query_token.splits if_splits)+

text \<open>Every parser consumes a token, the two loops may consume none.\<close>

lemma parsers_consume:
  "(\<forall>ts e rest. parse_or k ts = Ok (e, rest) \<longrightarrow> length rest < length ts) \<and>
   (\<forall>l ts e rest. parse_or_loop k l ts = Ok (e, rest) \<longrightarrow> length rest \<le> length ts) \<and>
   (\<forall>ts e rest. parse_and k ts = Ok (e, rest) \<longrightarrow> length rest < length ts) \<and>
   (\<forall>l ts e rest. parse_and_loop k l ts = Ok (e, rest) \<longrightarrow> length rest \<le> length ts) \<and>
   (\<forall>ts e rest. parse_unary k ts = Ok (e, rest) \<longrightarrow> length rest < length ts) \<and>
   (\<forall>ts e rest. parse_primary k ts = Ok (e, rest) \<longrightarrow> length rest < length ts)"
proof (induction k)
  case 0
  show ?case by simp
next
  case (Suc k)
  note IH = Suc.IH
  have "length rest < length ts" if "parse_or (Suc k) ts = Ok (e, rest)" for ts e rest
    using that IH by (fastforce simp: bind_res_Ok_iff)
  moreover have "length rest \<le> length ts" if "parse_or_loop (Suc k) l ts = Ok (e, rest)" for l ts e rest
    using that IH by (fastforce simp: bind_res_Ok_iff peek_Some split: if_splits)
  moreover have "length rest < length ts" if "parse_and (Suc k) ts = Ok (e, rest)" for ts e rest
    using that IH by (fastforce simp: bind_res_Ok_iff)
  moreover have "length rest \<le> length ts" if "parse_and_loop (Suc k) l ts = Ok (e, rest)" for l ts e rest
    using that IH by (fastforce simp: bind_res_Ok_iff peek_Some split: if_splits)
  moreover have "length rest < length ts" if "parse_unary (Suc k) ts = Ok (e, rest)" for ts e rest
    using that IH by (fastforce simp: bind_res_Ok_iff peek_Some negates_def split: if_splits)
  moreover have "length rest < length ts" if "parse_primary (Suc k) ts = Ok (e, rest)" for ts e rest
    using that IH parse_atom_facts(1) by (fastforce simp: bind_res_Ok_iff peek_Some expect_Ok split: if_splits)
  ultimately show ?case by blast
qed

lemma parse_primary_nil: "parse_primary (Suc k) [] = Err UnexpectedEnd"
  by (simp add: peek_def parse_atom_def)

lemma parsers_fuel:
  "(\<forall>ts. 4 * length ts + 4 \<le> k \<longrightarrow> parse_or k ts \<noteq> Err OutOfFuel) \<and>
   (\<forall>l ts. 4 * length ts + 4 \<le> k \<longrightarrow> parse_or_loop k l ts \<noteq> Err OutOfFuel) \<and>
   (\<forall>ts. 4 * length ts + 3 \<le> k \<longrightarrow> parse_and k ts \<noteq> Err OutOfFuel) \<and>
   (\<forall>l ts. 4 * length ts + 3 \<le> k \<longrightarrow> parse_and_loop k l ts \<noteq> Err OutOfFuel) \<and>
   (\<forall>ts. 4 * length ts + 2 \<le> k \<longrightarrow> parse_unary k ts \<noteq> Err OutOfFuel) \<and>
   (\<forall>ts. 4 * length ts + 1 \<le> k \<longrightarrow> parse_primary k ts \<noteq> Err OutOfFuel)"
proof (induction k)
  case 0
  show ?case by simp
next
  case (Suc k)
  from Suc.IH have f_or: "4 * length ts + 4 \<le> k \<Longrightarrow> parse_or k ts \<noteq> Err OutOfFuel"
    and f_or_loop: "4 * length ts + 4 \<le> k \<Longrightarrow> parse_or_loop k l ts \<noteq> Err OutOfFuel"
    and f_and: "4 * length ts + 3 \<le> k \<Longrightarrow> parse_and k ts \<noteq> Err OutOfFuel"
    and f_and_loop: "4 * length ts + 3 \<le> k \<Longrightarrow> parse_and_loop k l ts \<noteq> Err OutOfFuel"
    and f_unary: "4 * length ts + 2 \<le> k \<Longrightarrow> parse_unary k ts \<noteq> Err OutOfFuel"
    and f_primary: "4 * length ts + 1 \<le> k \<Longrightarrow> parse_primary k ts \<noteq> Err OutOfFuel" for l ts
    by blast+
  from parsers_consume [of k] have e_and: "parse_and k ts = Ok (e, rest) \<Longrightarrow> length rest < length ts"
    and e_unary: "parse_unary k ts = Ok (e, rest) \<Longrightarrow> length rest < length ts" for ts e rest
    by blast+
  have or_then: "bind_res (parse_and k ts) (\<lambda>(x, rest). parse_or_loop k (f x) rest) \<noteq> Err OutOfFuel"
    if "4 * length ts + 3 \<le> k" for f ts
    using f_and [OF that] f_or_loop e_and [of ts] that by (fastforce simp: bind_res_Err_iff)
  have and_then: "bind_res (parse_unary k ts) (\<lambda>(x, rest). parse_and_loop k (f x) rest) \<noteq> Err OutOfFuel"
    if "4 * length ts + 2 \<le> k" for f ts
    using f_unary [OF that] f_and_loop e_unary [of ts] that by (fastforce simp: bind_res_Err_iff)
  have "parse_or (Suc k) ts \<noteq> Err OutOfFuel" if "4 * length ts + 4 \<le> Suc k" for ts
    using or_then [of ts "\<lambda>x. x"] that by simp
  moreover have "parse_or_loop (Suc k) l ts \<noteq> Err OutOfFuel" if "4 * length ts + 4 \<le> Suc k" for l ts
    using or_then [of "tl ts" "QOr l"] that by simp
  moreover have "parse_and (Suc k) ts \<noteq> Err OutOfFuel" if "4 * length ts + 3 \<le> Suc k" for ts
    using and_then [of ts "\<lambda>x. x"] that by simp
  moreover have "parse_and_loop (Suc k) l ts \<noteq> Err OutOfFuel" if "4 * length ts + 3 \<le> Suc k" for l ts
    using and_then [of "tl ts" "QAnd l"] and_then [of ts "QAnd l"] that by simp
  moreover have "parse_unary (Suc k) ts \<noteq> Err OutOfFuel" if "4 * length ts + 2 \<le> Suc k" for ts
    using f_primary [of ts] f_primary [of "tl ts"] that by (auto simp: bind_res_Err_iff)
  moreover have "parse_primary (Suc k) ts \<noteq> Err OutOfFuel" if "4 * length ts + 1 \<le> Suc k" for ts
    using f_or [of "tl ts"] that parse_atom_facts(2) [of ts]
    by (cases ts) (auto simp: bind_res_Err_iff expect_fuel peek_def)
  ultimately show ?case by blast
qed

lemma parse_tokens_fuel: "parse_tokens ts \<noteq> Err OutOfFuel"
  using parsers_fuel [of "parser_fuel ts"]
  by (auto simp: parse_tokens_def parser_fuel_def bind_res_Err_iff split: list.splits)

subsection \<open>A text for every expression\<close>

fun comp_token :: "comp_op \<Rightarrow> query_token" where
  "comp_token CompGt = TGt"
| "comp_token CompGte = TGte"
| "comp_token CompLt = TLt"
| "comp_token CompLte = TLte"

definition value_token :: "string \<Rightarrow> bool \<Rightarrow> query_token" where
  "value_token v w = (if w then TWord v else TQuotedString v)"

text \<open>The tokens of an expression with every operand in parentheses.\<close>

fun expr_tokens :: "query_expr \<Rightarrow> query_token list" where
  "expr_tokens (FullText t w) = [value_token t w]"
| "expr_tokens (FieldMatch f v w) = [TAt, TWord f, TColon, value_token v w]"
| "expr_tokens (Comparison f op v) = [TAt, TWord f, TColon, comp_token op, TQuotedString v]"
| "expr_tokens (QAnd a b) = TLeftParen # expr_tokens a @ [TRightParen, TAnd, TLeftParen] @ expr_tokens b @ [TRightParen]"
| "expr_tokens (QOr a b) = TLeftParen # expr_tokens a @ [TRightParen, TOr, TLeftParen] @ expr_tokens b @ [TRightParen]"
| "expr_tokens (QNot a) = [TNot, TLeftParen] @ expr_tokens a @ [TRightParen]"

text \<open>Only a value that contains a wildcard is matched as a pattern.\<close>

fun wildcards_ok :: "query_expr \<Rightarrow> bool" where
  "wildcards_ok (FullText t w) = (w \<longrightarrow> has_wildcard t)"
| "wildcards_ok (FieldMatch f v w) = (w \<longrightarrow> has_wildcard v)"
| "wildcards_ok (Comparison f op v) = True"
| "wildcards_ok (QAnd a b) = (wildcards_ok a \<and> wildcards_ok b)"
| "wildcards_ok (QOr a b) = (wildcards_ok a \<and> wildcards_ok b)"
| "wildcards_ok (QNot a) = wildcards_ok a"

text \<open>What may follow an expression: nothing, or the parenthesis that closes it.\<close>

definition expr_end :: "query_token list \<Rightarrow> bool" where
  "expr_end rest \<longleftrightarrow> rest = [] \<or> (\<exists>r. rest = TRightParen # r)"

lemma expr_end_peek: "expr_end rest \<Longrightarrow> peek rest \<in> {None, Some TRightParen}"
  by (auto simp: expr_end_def peek_def)

lemma loops_stop:
  assumes "peek rest \<in> {None, Some TRightParen}"
  shows "parse_and_loop (Suc k) e rest = Ok (e, rest)" "parse_or_loop (Suc k) e rest = Ok (e, rest)"
  using assms by (auto simp: starts_operand_def)

lemma and_loop_stops_at_or: "peek rest = Some TOr \<Longrightarrow> parse_and_loop (Suc k) e rest = Ok (e, rest)"
  by (simp add: starts_operand_def)

lemma parse_or_primary:
  assumes "\<And>j. k \<le> j \<Longrightarrow> parse_primary (Suc j) ts = Ok (e, rest)" "\<not> negates (peek ts)" "expr_end rest"
  shows "parse_or (Suc (Suc (Suc (Suc k)))) ts = Ok (e, rest)"
  using assms(2,3) assms(1) [of k] loops_stop [OF expr_end_peek] by simp

lemma parse_leaf:
  assumes "parse_atom ts = Ok (e, rest)" "peek ts \<noteq> Some TLeftParen" "\<not> negates (peek ts)" "expr_end rest"
  shows "parse_or (Suc (Suc (Suc (Suc k)))) ts = Ok (e, rest)"
  using assms by (intro parse_or_primary) simp_all

lemma fuel_Suc: "Suc n \<le> k \<Longrightarrow> \<exists>j. k = Suc j \<and> n \<le> j"
  by (cases k) auto

lemma four_Suc: "4 \<le> k \<Longrightarrow> \<exists>j. k = Suc (Suc (Suc (Suc j)))"
  by (rule exI [of _ "k - 4"]) simp

lemma parse_group:
  assumes "\<And>k rest. expr_end rest \<Longrightarrow> 4 * length ts + 4 \<le> k \<Longrightarrow> parse_or k (ts @ rest) = Ok (e, rest)"
    "4 * length ts + 5 \<le> k"
  shows "parse_primary k (TLeftParen # ts @ TRightParen # rest) = Ok (e, rest)"
proof -
  from assms(2) obtain j where "k = Suc j" "4 * length ts + 4 \<le> j" using fuel_Suc [of "4 * length ts + 4" k] by auto
  with assms(1) [of "TRightParen # rest" j] show ?thesis by (simp add: peek_def expect_def expr_end_def)
qed

lemma parse_group_unary:
  assumes "\<And>k rest. expr_end rest \<Longrightarrow> 4 * length ts + 4 \<le> k \<Longrightarrow> parse_or k (ts @ rest) = Ok (e, rest)"
    "4 * length ts + 6 \<le> k"
  shows "parse_unary k (TLeftParen # ts @ TRightParen # rest) = Ok (e, rest)"
proof -
  from assms(2) obtain j where "k = Suc j" "4 * length ts + 5 \<le> j" using fuel_Suc [of "4 * length ts + 5" k] by auto
  with parse_group [OF assms(1), of j rest] show ?thesis by (simp add: peek_def negates_def)
qed

lemma parse_or_expr_tokens:
  assumes "wildcards_ok e" "expr_end rest" "4 * length (expr_tokens e) + 4 \<le> k"
  shows "parse_or k (expr_tokens e @ rest) = Ok (e, rest)"
  using assms
proof (induction e arbitrary: k rest)
  case (FullText t w)
  obtain j where k: "k = Suc (Suc (Suc (Suc j)))" using four_Suc [OF add_leD2 [OF FullText.prems(3)]] by blast
  have "parse_atom (expr_tokens (FullText t w) @ rest) = Ok (FullText t w, rest)"
    using FullText.prems expr_end_peek [of rest] by (cases w) (auto simp: value_token_def parse_atom_def)
  then show ?case
    unfolding k by (rule parse_leaf) (use FullText.prems in \<open>simp_all add: value_token_def peek_def negates_def\<close>)
next
  case (FieldMatch f v w)
  obtain j where k: "k = Suc (Suc (Suc (Suc j)))" using four_Suc [OF add_leD2 [OF FieldMatch.prems(3)]] by blast
  have "parse_atom (expr_tokens (FieldMatch f v w) @ rest) = Ok (FieldMatch f v w, rest)"
    using FieldMatch.prems by (cases w) (simp_all add: value_token_def parse_atom_def parse_field_expr_def
        parse_field_value_def expect_def comparison_token_def read_value_with_wildcards_def peek_def)
  then show ?case
    unfolding k by (rule parse_leaf) (use FieldMatch.prems in \<open>simp_all add: peek_def negates_def\<close>)
next
  case (Comparison f op v)
  obtain j where k: "k = Suc (Suc (Suc (Suc j)))" using four_Suc [OF add_leD2 [OF Comparison.prems(3)]] by blast
  have "parse_atom (expr_tokens (Comparison f op v) @ rest) = Ok (Comparison f op v, rest)"
    by (cases op) (simp_all add: parse_atom_def parse_field_expr_def parse_field_value_def expect_def
        comparison_token_def read_value_def peek_def)
  then show ?case
    unfolding k by (rule parse_leaf) (use Comparison.prems in \<open>simp_all add: peek_def negates_def\<close>)
next
  case (QAnd a b)
  obtain j where k: "k = Suc (Suc (Suc (Suc j)))" using four_Suc [OF add_leD2 [OF QAnd.prems(3)]] by blast
  have "parse_unary (Suc (Suc j)) (TLeftParen # expr_tokens a @ TRightParen # r) = Ok (a, r)" for r
    using QAnd.prems k by (intro parse_group_unary QAnd.IH(1)) auto
  moreover have "parse_unary (Suc j) (TLeftParen # expr_tokens b @ TRightParen # r) = Ok (b, r)" for r
    using QAnd.prems k by (intro parse_group_unary QAnd.IH(2)) auto
  ultimately show ?case
    using k loops_stop [OF expr_end_peek [OF QAnd.prems(2)]]
    by (simp add: peek_def [of "_ # _"])
next
  case (QOr a b)
  obtain j where k: "k = Suc (Suc (Suc (Suc j)))" using four_Suc [OF add_leD2 [OF QOr.prems(3)]] by blast
  have "parse_unary (Suc (Suc j)) (TLeftParen # expr_tokens a @ TRightParen # r) = Ok (a, r)" for r
    using QOr.prems k by (intro parse_group_unary QOr.IH(1)) auto
  moreover have "parse_unary (Suc j) (TLeftParen # expr_tokens b @ TRightParen # r) = Ok (b, r)" for r
    using QOr.prems k by (intro parse_group_unary QOr.IH(2)) auto
  ultimately show ?case
    using k loops_stop [OF expr_end_peek [OF QOr.prems(2)]]
    by (simp add: peek_def [of "_ # _"] starts_operand_def)
next
  case (QNot a)
  obtain j where k: "k = Suc (Suc (Suc (Suc j)))" using four_Suc [OF add_leD2 [OF QNot.prems(3)]] by blast
  have "parse_primary (Suc j) (TLeftParen # expr_tokens a @ TRightParen # r) = Ok (a, r)" for r
    using QNot.prems k by (intro parse_group QNot.IH) auto
  then show ?case
    using k loops_stop [OF expr_end_peek [OF QNot.prems(2)]] by (simp add: peek_def [of "_ # _"] negates_def)
qed

text \<open>Tokens as text; quotes and backslashes inside a quoted string are escaped.\<close>

definition escape_quoted :: "string \<Rightarrow> string" where
  "escape_quoted s = concat (map (\<lambda>c. if c = CHR 0x22 \<or> c = CHR 0x5C then [CHR 0x5C, c] else [c]) s)"

fun token_text :: "query_token \<Rightarrow> string" where
  "token_text (TWord w) = w"
| "token_text (TQuotedString s) = CHR 0x22 # escape_quoted s @ [CHR 0x22]"
| "token_text TColon = '':''"
| "token_text TAt = ''@''"
| "token_text TLeftParen = ''(''"
| "token_text TRightParen = '')''"
| "token_text TAnd = ''AND''"
| "token_text TOr = ''OR''"
| "token_text TNot = ''NOT''"
| "token_text TMinus = ''-''"
| "token_text TBang = ''!''"
| "token_text TGt = ''>''"
| "token_text TGte = ''>=''"
| "token_text TLt = ''<''"
| "token_text TLte = ''<=''"

definition word_ok :: "string \<Rightarrow> bool" where
  "word_ok w = (case w of
      [] \<Rightarrow> False
    | c # cs \<Rightarrow> \<not> ends_word c \<and> c \<noteq> CHR ''-'' \<and> list_all (\<lambda>x. \<not> ends_word x) cs \<and> word_token w = TWord w)"

fun token_ok :: "query_token \<Rightarrow> bool" where
  "token_ok (TWord w) = word_ok w"
| "token_ok _ = True"

definition expr_text :: "query_expr \<Rightarrow> string" where
  "expr_text e = join '' '' (map token_text (TLeftParen # expr_tokens e @ [TRightParen]))"

lemma escape_quoted_simps [simp]:
  "escape_quoted [] = []"
  "escape_quoted (c # cs) = (if c = CHR 0x22 \<or> c = CHR 0x5C then CHR 0x5C # c # escape_quoted cs else c # escape_quoted cs)"
  by (simp_all add: escape_quoted_def)

lemma close_quote_escaped: "close_quote (CHR 0x22) (escape_quoted s @ CHR 0x22 # rest) = Some (escape_quoted s, rest)"
  by (induction s) simp_all

lemma unescape_plain: "c \<noteq> CHR 0x5C \<Longrightarrow> unescape (c # cs) = c # unescape cs"
  by (cases cs) simp_all

lemma unescape_escaped: "unescape (escape_quoted s) = s"
  by (induction s) (simp_all add: unescape_plain)

lemma read_escaped: "read_quoted_string (CHR 0x22) (escape_quoted s @ CHR 0x22 # rest) = Ok (TQuotedString s, rest)"
  by (simp add: read_quoted_string_def close_quote_escaped unescape_escaped)

definition at_space :: "string \<Rightarrow> bool" where
  "at_space rest \<longleftrightarrow> rest = [] \<or> (\<exists>r. rest = CHR '' '' # r)"

lemma ends_word_space: "ends_word (CHR '' '')"
  by (simp add: ends_word_def query_space_def)

lemma read_word_whole:
  assumes "list_all (\<lambda>x. \<not> ends_word x) cs" "at_space rest"
  shows "read_word c (cs @ rest) = (word_token (c # cs), rest)"
proof -
  have "\<forall>x \<in> set cs. \<not> ends_word x" using assms(1) by (simp add: list_all_iff)
  with assms(2) show ?thesis
    by (auto simp: read_word_def at_space_def takeWhile_append2 ends_word_space)
qed

lemma next_token_word:
  assumes "\<not> ends_word c" "c \<noteq> CHR ''-''"
  shows "next_token c cs = Ok (read_word c cs)"
  using assms by (simp add: next_token_def ends_word_def)

lemma word_token_keywords: "word_token ''AND'' = TAnd" "word_token ''OR'' = TOr" "word_token ''NOT'' = TNot"
  by code_simp+

lemma next_token_text:
  assumes "token_ok t" "at_space rest"
  shows "\<exists>c cs. token_text t = c # cs \<and> \<not> query_space c \<and> next_token c (cs @ rest) = Ok (t, rest)"
proof (cases t)
  case (TWord w)
  then obtain c cs where w: "w = c # cs" "\<not> ends_word c" "c \<noteq> CHR ''-''"
    "list_all (\<lambda>x. \<not> ends_word x) cs" "word_token w = TWord w"
    using assms(1) by (auto simp: word_ok_def split: list.splits)
  with TWord assms(2) show ?thesis
    by (simp add: next_token_word read_word_whole) (simp add: ends_word_def)
next
  case (TQuotedString s)
  then show ?thesis by (simp add: query_space_def next_token_def read_escaped)
qed (use assms(2) in \<open>auto simp: query_space_def next_token_def after_eq_def at_space_def read_word_def
      ends_word_def word_token_keywords split: list.splits\<close>)

lemma tokenize_token:
  assumes "token_ok t" "at_space rest"
  shows "tokenize (token_text t @ rest) = bind_res (tokenize rest) (\<lambda>ts. Ok (t # ts))"
proof -
  from next_token_text [OF assms] obtain c cs where "token_text t = c # cs" "\<not> query_space c"
    "next_token c (cs @ rest) = Ok (t, rest)" by blast
  then show ?thesis by (subst tokenize.simps) simp
qed

lemma tokenize_space: "tokenize (CHR '' '' # s) = tokenize s"
  by (subst tokenize.simps) (simp add: query_space_def)

lemma tokenize_Nil: "tokenize [] = Ok []"
  by (subst tokenize.simps) simp

lemma tokenize_join: "list_all token_ok ts \<Longrightarrow> tokenize (join '' '' (map token_text ts)) = Ok ts"
proof (induction ts)
  case Nil
  then show ?case by (simp add: tokenize_Nil)
next
  case (Cons t ts)
  show ?case
  proof (cases ts)
    case Nil
    with Cons.prems tokenize_token [of t "[]"] show ?thesis by (simp add: at_space_def tokenize_Nil)
  next
    case (Cons u us)
    with Cons.prems Cons.IH tokenize_token [of t "CHR '' '' # join '' '' (map token_text ts)"] show ?thesis
      by (simp add: at_space_def tokenize_space)
  qed
qed

text \<open>The names and patterns of an expression can be written as words.\<close>

fun words_ok :: "query_expr \<Rightarrow> bool" where
  "words_ok (FullText t w) = (w \<longrightarrow> word_ok t)"
| "words_ok (FieldMatch f v w) = (word_ok f \<and> (w \<longrightarrow> word_ok v))"
| "words_ok (Comparison f op v) = word_ok f"
| "words_ok (QAnd a b) = (words_ok a \<and> words_ok b)"
| "words_ok (QOr a b) = (words_ok a \<and> words_ok b)"
| "words_ok (QNot a) = words_ok a"

lemma expr_tokens_ok: "words_ok e \<Longrightarrow> list_all token_ok (expr_tokens e)"
proof (induction e)
  case (Comparison f op v)
  then show ?case by (cases op) simp_all
qed (simp_all add: value_token_def)

lemma expr_text_trim: "trim (expr_text e) = expr_text e"
proof -
  have "join '' '' (p # qs @ [z]) = p @ concat (map (\<lambda>q. CHR '' '' # q) qs) @ CHR '' '' # z" for p qs z
    by (induction qs arbitrary: p) simp_all
  then have "expr_text e = CHR ''('' # concat (map (\<lambda>q. CHR '' '' # q) (map token_text (expr_tokens e))) @ [CHR '' '', CHR '')'']"
    by (simp add: expr_text_def)
  then show ?thesis by (intro trim_printable) (simp_all add: printable_def)
qed

text \<open>
  C32. Every expression whose names and patterns are words has a text that the language parses back to
  it, whatever characters its other values contain.
\<close>

theorem parse_query_expr_text:
  assumes "wildcards_ok e" "words_ok e"
  shows "parse_query (expr_text e) = Ok e"
proof -
  let ?ts = "TLeftParen # expr_tokens e @ [TRightParen]"
  have "tokenize (expr_text e) = Ok ?ts"
    unfolding expr_text_def using expr_tokens_ok [OF assms(2)] by (intro tokenize_join) simp
  moreover have "expr_text e \<noteq> []" by (cases "expr_tokens e") (simp_all add: expr_text_def)
  moreover have "parse_tokens ?ts = Ok e"
  proof -
    have k: "parser_fuel ?ts = Suc (Suc (Suc (Suc (4 * length ?ts))))" by (simp add: parser_fuel_def)
    have "parse_primary (Suc j) ?ts = Ok (e, [])" if "4 * length ?ts \<le> j" for j
      using parse_group [of "expr_tokens e" e "Suc j" "[]"] parse_or_expr_tokens [OF assms(1)] that by simp
    then have "parse_or (parser_fuel ?ts) ?ts = Ok (e, [])"
      unfolding k by (rule parse_or_primary) (simp_all add: peek_def negates_def expr_end_def)
    then show ?thesis by (simp add: parse_tokens_def)
  qed
  ultimately show ?thesis
    by (simp add: parse_query_def expr_text_trim)
qed

theorem parse_query_expr_text_witness:
  "let e = QAnd (FieldMatch ''service'' ''web*'' True) (QNot (FullText (CHR 0x22 # '' OR ) '' @ [CHR 0x5C]) False))
   in parse_query (expr_text e) = Ok e"
proof -
  let ?e = "QAnd (FieldMatch ''service'' ''web*'' True) (QNot (FullText (CHR 0x22 # '' OR ) '' @ [CHR 0x5C]) False))"
  have "wildcards_ok ?e" "words_ok ?e" by code_simp+
  from parse_query_expr_text [OF this] show ?thesis unfolding Let_def .
qed

end
