(* ===== verification/Query_Sql.thy ===== *)
theory Query_Sql
  imports Query_Dsl
begin

text \<open>
  SQL from the search language (\<^verbatim>\<open>kepler-daemon/src/query/dsl.rs\<close>, \<^verbatim>\<open>query/filter.rs\<close>), and the
  queries on the log and metrics databases it is put into (\<^verbatim>\<open>logs/log_reader.rs\<close>,
  \<^verbatim>\<open>monitor/query.rs\<close>). Executing a query is SQLite's and not modelled: an operation gives the text of
  the statement and the values bound to its parameters. Rounding of decimal numbers to \<^verbatim>\<open>f64\<close> is
  the parameter \<open>rnd\<close>.
\<close>

subsection \<open>Schema\<close>

datatype column_type = ColText | ColInt | ColReal

record dsl_field =
  fd_name :: string
  fd_column :: string
  fd_column_type :: column_type
  fd_fts :: bool

definition field_text :: "string \<Rightarrow> dsl_field" where
  "field_text name = \<lparr>fd_name = name, fd_column = name, fd_column_type = ColText, fd_fts = False\<rparr>"

definition field_int :: "string \<Rightarrow> dsl_field" where
  "field_int name = \<lparr>fd_name = name, fd_column = name, fd_column_type = ColInt, fd_fts = False\<rparr>"

definition field_real :: "string \<Rightarrow> dsl_field" where
  "field_real name = \<lparr>fd_name = name, fd_column = name, fd_column_type = ColReal, fd_fts = False\<rparr>"

definition field_alias :: "string \<Rightarrow> dsl_field \<Rightarrow> dsl_field" where
  "field_alias column f = f\<lparr>fd_column := column\<rparr>"

definition field_fts :: "dsl_field \<Rightarrow> dsl_field" where
  "field_fts f = f\<lparr>fd_fts := True\<rparr>"

datatype sql_value = SqlText string | SqlInteger int | SqlReal f64

record sql_fragment =
  sf_sql :: string
  sf_params :: "sql_value list"

definition fragment_raw :: "string \<Rightarrow> sql_fragment" where
  "fragment_raw sql = \<lparr>sf_sql = sql, sf_params = []\<rparr>"

record query_dsl =
  qd_fields :: "string \<rightharpoonup> dsl_field"
  qd_fts_column :: "string option"
  qd_attributes_column :: "string option"

definition dsl_build :: "dsl_field list \<Rightarrow> string option \<Rightarrow> query_dsl" where
  "dsl_build fs attributes_column =
     \<lparr>qd_fields = foldl (\<lambda>m f. m(to_ascii_lowercase (fd_name f) \<mapsto> f)) Map.empty fs,
      qd_fts_column = foldl (\<lambda>c f. if fd_fts f then Some (fd_column f) else c) None fs,
      qd_attributes_column = attributes_column\<rparr>"

definition log_query_dsl :: query_dsl where
  "log_query_dsl = dsl_build [field_text ''service'', field_text ''level'',
     field_fts (field_alias ''line'' (field_text ''message'')), field_text ''hook'',
     field_int ''timestamp'', field_int ''id''] (Some ''attributes'')"

definition monitor_query_dsl :: query_dsl where
  "monitor_query_dsl = dsl_build [field_text ''service'', field_int ''timestamp'', field_real ''cpu_percent'',
     field_int ''memory_rss'', field_int ''memory_vss''] None"

subsection \<open>Decimal numbers\<close>

text \<open>\<^verbatim>\<open>str::parse::<f64>()\<close>: a sign, then \<^verbatim>\<open>inf\<close>, \<^verbatim>\<open>infinity\<close>, \<^verbatim>\<open>nan\<close> or a decimal number.\<close>

definition parse_exponent :: "string \<Rightarrow> int option" where
  "parse_exponent s = (case s of
      [] \<Rightarrow> Some 0
    | c # r \<Rightarrow>
        if c = CHR ''e'' \<or> c = CHR ''E'' then
          (let neg = (case r of d # _ \<Rightarrow> d = CHR ''-'' | [] \<Rightarrow> False);
               ds = (case r of d # ds \<Rightarrow> if d = CHR ''-'' \<or> d = CHR ''+'' then ds else r | [] \<Rightarrow> [])
           in if ds \<noteq> [] \<and> list_all is_ascii_digit ds
              then Some (if neg then - int (digits_val 0 ds) else int (digits_val 0 ds)) else None)
        else None)"

definition parse_decimal :: "string \<Rightarrow> rat option" where
  "parse_decimal s =
     (let (ip, r1) = split_digits s;
          (fp, r2) = (case r1 of c # r \<Rightarrow> if c = CHR ''.'' then split_digits r else ([], r1) | [] \<Rightarrow> ([], r1))
      in if ip = [] \<and> fp = [] then None
         else map_option (\<lambda>e. of_nat (digits_val 0 (ip @ fp)) *
                (if 0 \<le> e - int (length fp) then 10 ^ nat (e - int (length fp))
                 else inverse (10 ^ nat (int (length fp) - e)))) (parse_exponent r2))"

definition parse_f64 :: "(rat \<Rightarrow> f64) \<Rightarrow> string \<Rightarrow> f64 option" where
  "parse_f64 rnd s =
     (let neg = (case s of c # _ \<Rightarrow> c = CHR ''-'' | [] \<Rightarrow> False);
          body = (case s of c # cs \<Rightarrow> if c = CHR ''-'' \<or> c = CHR ''+'' then cs else s | [] \<Rightarrow> [])
      in if eq_ignore_ascii_case body ''inf'' \<or> eq_ignore_ascii_case body ''infinity'' then Some (F64_inf neg)
         else if eq_ignore_ascii_case body ''nan'' then Some F64_nan
         else map_option (\<lambda>q. rnd (if neg then - q else q)) (parse_decimal body))"

definition f64_is_finite :: "f64 \<Rightarrow> bool" where
  "f64_is_finite x = (case x of F64 _ \<Rightarrow> True | _ \<Rightarrow> False)"

text \<open>The finite number a value stands for, if any.\<close>

definition finite_number :: "(rat \<Rightarrow> f64) \<Rightarrow> string \<Rightarrow> f64 option" where
  "finite_number rnd v = (case parse_f64 rnd v of Some n \<Rightarrow> if f64_is_finite n then Some n else None | None \<Rightarrow> None)"

subsection \<open>SQL of an expression\<close>

datatype resolved_field = KnownField string column_type | AttributeField string

definition sql_escape :: "string \<Rightarrow> string" where
  "sql_escape s = replace_char (CHR 0x27) [CHR 0x27, CHR 0x27] s"

definition wildcard_to_like :: "string \<Rightarrow> string" where
  "wildcard_to_like s = concat (map (\<lambda>c.
     if c = CHR ''*'' then ''%''
     else if c = CHR ''?'' then ''_''
     else if c = CHR 0x5C \<or> c = CHR ''%'' \<or> c = CHR ''_'' then [CHR 0x5C, c]
     else [c]) s)"

text \<open>A text to be found anywhere, with the wildcards of LIKE escaped.\<close>

definition contains_like :: "string \<Rightarrow> string" where
  "contains_like text = ''%'' @ replace_char (CHR ''_'') [CHR 0x5C, CHR ''_'']
     (replace_char (CHR ''%'') [CHR 0x5C, CHR ''%''] (replace_char (CHR 0x5C) [CHR 0x5C, CHR 0x5C] text)) @ ''%''"

definition resolve_field :: "query_dsl \<Rightarrow> string \<Rightarrow> (query_error, resolved_field) result" where
  "resolve_field dsl name = (case qd_fields dsl (to_ascii_lowercase name) of
      Some f \<Rightarrow> Ok (KnownField (fd_column f) (fd_column_type f))
    | None \<Rightarrow> (case qd_attributes_column dsl of
        Some col \<Rightarrow> Ok (AttributeField (''json_extract('' @ col @ '', '' @ CHR 0x27 # ''$.'' @ sql_escape name @ CHR 0x27 # '')''))
      | None \<Rightarrow> Err (UnknownField name)))"

fun resolved_col :: "resolved_field \<Rightarrow> string" where
  "resolved_col (KnownField column t) = column"
| "resolved_col (AttributeField expr) = expr"

definition placeholder :: "nat \<Rightarrow> string" where
  "placeholder n = CHR ''?'' # show_nat n"

definition escape_clause :: string where
  "escape_clause = '' ESCAPE '' @ [CHR 0x27, CHR 0x5C, CHR 0x27]"

type_synonym counted_fragment = "sql_fragment \<times> nat"

definition full_text_sql :: "query_dsl \<Rightarrow> string \<Rightarrow> bool \<Rightarrow> nat \<Rightarrow> (query_error, counted_fragment) result" where
  "full_text_sql dsl text has_wildcards counter = bind_res (ok_or NoFullText (qd_fts_column dsl)) (\<lambda>col.
     Ok (\<lparr>sf_sql = col @ '' LIKE '' @ placeholder (counter + 1) @ escape_clause,
          sf_params = [SqlText (if has_wildcards then wildcard_to_like text else contains_like text)]\<rparr>, counter + 1))"

definition known_param :: "(rat \<Rightarrow> f64) \<Rightarrow> column_type \<Rightarrow> string \<Rightarrow> sql_value" where
  "known_param rnd t v = (case t of
      ColInt \<Rightarrow> (case parse_signed 64 v of Some n \<Rightarrow> SqlInteger n | None \<Rightarrow> SqlText v)
    | ColReal \<Rightarrow> (case finite_number rnd v of Some n \<Rightarrow> SqlReal n | None \<Rightarrow> SqlText v)
    | ColText \<Rightarrow> SqlText v)"

definition field_match_sql ::
    "(rat \<Rightarrow> f64) \<Rightarrow> query_dsl \<Rightarrow> string \<Rightarrow> string \<Rightarrow> bool \<Rightarrow> nat \<Rightarrow> (query_error, counted_fragment) result" where
  "field_match_sql rnd dsl field v has_wildcards counter = bind_res (resolve_field dsl field) (\<lambda>resolved.
     if has_wildcards
     then Ok (\<lparr>sf_sql = resolved_col resolved @ '' LIKE '' @ placeholder (counter + 1) @ escape_clause,
               sf_params = [SqlText (wildcard_to_like v)]\<rparr>, counter + 1)
     else (case resolved of
         KnownField column t \<Rightarrow>
           Ok (\<lparr>sf_sql = column @ '' = '' @ placeholder (counter + 1), sf_params = [known_param rnd t v]\<rparr>, counter + 1)
       | AttributeField expr \<Rightarrow> (case finite_number rnd v of
           Some n \<Rightarrow> Ok (\<lparr>sf_sql = ''('' @ expr @ '' = '' @ placeholder (counter + 1) @ '' OR '' @
                                   expr @ '' = '' @ placeholder (counter + 2) @ '')'',
                          sf_params = [SqlText v, SqlReal n]\<rparr>, counter + 2)
         | None \<Rightarrow> Ok (\<lparr>sf_sql = expr @ '' = '' @ placeholder (counter + 1), sf_params = [SqlText v]\<rparr>, counter + 1))))"

fun needs_cast :: "resolved_field \<Rightarrow> bool" where
  "needs_cast (KnownField _ t) = (t = ColText)"
| "needs_cast (AttributeField _) = True"

definition comparison_sql ::
    "(rat \<Rightarrow> f64) \<Rightarrow> query_dsl \<Rightarrow> string \<Rightarrow> comp_op \<Rightarrow> string \<Rightarrow> nat \<Rightarrow> (query_error, counted_fragment) result" where
  "comparison_sql rnd dsl field op v counter = bind_res (resolve_field dsl field) (\<lambda>resolved.
     let col = resolved_col resolved; p = placeholder (counter + 1)
     in case finite_number rnd v of
          Some n \<Rightarrow> Ok (\<lparr>sf_sql = (if needs_cast resolved then ''CAST('' @ col @ '' AS REAL) '' else col @ '' '')
                             @ comp_as_sql op @ '' '' @ p,
                        sf_params = [SqlReal n]\<rparr>, counter + 1)
        | None \<Rightarrow> Ok (\<lparr>sf_sql = col @ '' '' @ comp_as_sql op @ '' '' @ p, sf_params = [SqlText v]\<rparr>, counter + 1))"

primrec expr_to_sql ::
    "(rat \<Rightarrow> f64) \<Rightarrow> query_dsl \<Rightarrow> query_expr \<Rightarrow> nat \<Rightarrow> (query_error, counted_fragment) result" where
  "expr_to_sql rnd dsl (FullText text w) counter = full_text_sql dsl text w counter"
| "expr_to_sql rnd dsl (FieldMatch f v w) counter = field_match_sql rnd dsl f v w counter"
| "expr_to_sql rnd dsl (Comparison f op v) counter = comparison_sql rnd dsl f op v counter"
| "expr_to_sql rnd dsl (QAnd left right) counter =
     bind_res (expr_to_sql rnd dsl left counter) (\<lambda>(l, c). bind_res (expr_to_sql rnd dsl right c) (\<lambda>(r, c').
       Ok (\<lparr>sf_sql = ''('' @ sf_sql l @ '' AND '' @ sf_sql r @ '')'', sf_params = sf_params l @ sf_params r\<rparr>, c')))"
| "expr_to_sql rnd dsl (QOr left right) counter =
     bind_res (expr_to_sql rnd dsl left counter) (\<lambda>(l, c). bind_res (expr_to_sql rnd dsl right c) (\<lambda>(r, c').
       Ok (\<lparr>sf_sql = ''('' @ sf_sql l @ '' OR '' @ sf_sql r @ '')'', sf_params = sf_params l @ sf_params r\<rparr>, c')))"
| "expr_to_sql rnd dsl (QNot inner) counter =
     bind_res (expr_to_sql rnd dsl inner counter) (\<lambda>(f, c).
       Ok (\<lparr>sf_sql = ''NOT ('' @ sf_sql f @ '')'', sf_params = sf_params f\<rparr>, c))"

text \<open>\<^verbatim>\<open>QueryDsl::parse\<close>.\<close>

definition dsl_parse :: "(rat \<Rightarrow> f64) \<Rightarrow> query_dsl \<Rightarrow> string \<Rightarrow> nat \<Rightarrow> (query_error, sql_fragment) result" where
  "dsl_parse rnd dsl input param_offset =
     bind_res (parse_query input) (\<lambda>e. bind_res (expr_to_sql rnd dsl e param_offset) (\<lambda>(f, _). Ok f))"

subsection \<open>Placing a fragment behind other parameters\<close>

text \<open>
  A byte pushed as a character: above 127 it becomes the two bytes of the code point with its
  number.
\<close>

definition byte_as_char :: "char \<Rightarrow> string" where
  "byte_as_char b = (let n = (of_char b :: nat)
     in if n < 128 then [b] else [char_of (192 + n div 64), char_of (128 + n mod 64)])"

text \<open>
  \<^verbatim>\<open>sql_with_offset\<close>. A number that does not fit \<^verbatim>\<open>usize\<close> panics, which is \<open>None\<close>; the sum wraps, as
  in a release build.
\<close>

function shift_placeholders :: "nat \<Rightarrow> string \<Rightarrow> string option" where
  "shift_placeholders offset s = (case s of
      [] \<Rightarrow> Some []
    | c # cs \<Rightarrow>
        if c = CHR ''?'' \<and> cs \<noteq> [] \<and> is_ascii_digit (hd cs) then
          (case parse_unsigned 64 (takeWhile is_ascii_digit cs) of
             None \<Rightarrow> None
           | Some n \<Rightarrow> map_option (\<lambda>r. placeholder ((n + offset) mod 2 ^ 64) @ r)
               (shift_placeholders offset (dropWhile is_ascii_digit cs)))
        else map_option (\<lambda>r. byte_as_char c @ r) (shift_placeholders offset cs))"
  by pat_completeness auto
termination
  by (relation "measure (length \<circ> snd)") (auto simp: less_Suc_eq_le length_dropWhile_le)

declare shift_placeholders.simps [simp del]

definition sql_with_offset :: "sql_fragment \<Rightarrow> nat \<Rightarrow> string option" where
  "sql_with_offset f offset = (if offset = 0 then Some (sf_sql f) else shift_placeholders offset (sf_sql f))"

subsection \<open>Filters\<close>

definition MAX_FILTER_LENGTH :: nat where
  "MAX_FILTER_LENGTH = 4096"

datatype filter_error = EmptyFilter | FilterTooLong nat | FilterPlaceholder

definition validate_filter :: "string \<Rightarrow> (filter_error, unit) result" where
  "validate_filter f =
     (let f = trim f
      in if f = [] then Err EmptyFilter
         else if length f > MAX_FILTER_LENGTH then Err (FilterTooLong (length f))
         else if CHR ''?'' \<in> set f then Err FilterPlaceholder
         else Ok ())"

definition ALLOWED_FUNCTIONS :: "string list" where
  "ALLOWED_FUNCTIONS = [''json'', ''json_extract'', ''json_type'', ''json_valid'', ''json_array_length'',
     ''json_each'', ''json_tree'', ''json_object'', ''json_array'', ''json_quote'',
     ''length'', ''lower'', ''upper'', ''trim'', ''ltrim'', ''rtrim'', ''substr'', ''substring'',
     ''replace'', ''instr'', ''like'', ''glob'',
     ''coalesce'', ''ifnull'', ''iif'', ''nullif'', ''typeof'', ''min'', ''max'',
     ''abs'', ''round'', ''count'', ''sum'', ''total'', ''avg'', ''group_concat'']"

datatype auth_action = AuthSelect | AuthRead string string | AuthFunction string | AuthOther

text \<open>The callback given to SQLite's authorizer: whether an action is allowed.\<close>

definition filter_authorizer :: "string list \<Rightarrow> auth_action \<Rightarrow> bool" where
  "filter_authorizer tables action = (case action of
      AuthSelect \<Rightarrow> True
    | AuthRead table_name _ \<Rightarrow> list_ex (\<lambda>t. t = table_name) tables
    | AuthFunction function_name \<Rightarrow> list_ex (\<lambda>f. eq_ignore_ascii_case f function_name) ALLOWED_FUNCTIONS
    | AuthOther \<Rightarrow> False)"

subsection \<open>Log queries\<close>

text \<open>\<^verbatim>\<open>n as i64\<close> of an unsigned number.\<close>

definition as_i64 :: "nat \<Rightarrow> int" where
  "as_i64 n = (let m = n mod 2 ^ 64 in if m < 2 ^ 63 then int m else int m - 2 ^ 64)"

datatype bind_value = BindText string | BindInt int | BindReal f64

fun bind_from :: "sql_value \<Rightarrow> bind_value" where
  "bind_from (SqlText s) = BindText s"
| "bind_from (SqlInteger i) = BindInt i"
| "bind_from (SqlReal x) = BindReal x"

text \<open>A condition on a value, which is bound to the next parameter.\<close>

definition bind_condition ::
    "string \<Rightarrow> bind_value \<Rightarrow> string list \<times> bind_value list \<Rightarrow> string list \<times> bind_value list" where
  "bind_condition text v st = (case st of (conditions, bind) \<Rightarrow>
     (conditions @ [text @ placeholder (length bind + 1)], bind @ [v]))"

definition bind_optional ::
    "string \<Rightarrow> bind_value option \<Rightarrow> string list \<times> bind_value list \<Rightarrow> string list \<times> bind_value list" where
  "bind_optional text v st = (case v of Some v \<Rightarrow> bind_condition text v st | None \<Rightarrow> st)"

definition service_condition :: "string list \<Rightarrow> string list \<times> bind_value list" where
  "service_condition services = (case services of
      [] \<Rightarrow> ([], [])
    | [s] \<Rightarrow> ([''service = '' @ placeholder 1], [BindText s])
    | _ \<Rightarrow> ([''service IN ('' @ join '', '' (map (\<lambda>i. placeholder (i + 1)) [0..<length services]) @ '')''],
           map BindText services))"

text \<open>The fragment of the user, its parameters behind those that are bound already.\<close>

definition filter_condition ::
    "sql_fragment \<Rightarrow> string list \<times> bind_value list \<Rightarrow> (string list \<times> bind_value list) option" where
  "filter_condition f st = (case st of (conditions, bind) \<Rightarrow>
     map_option (\<lambda>sql. (conditions @ [''('' @ sql @ '')''], bind @ map bind_from (sf_params f)))
       (sql_with_offset f (length bind)))"

definition where_clause :: "string list \<Rightarrow> string" where
  "where_clause conditions = (if conditions = [] then [] else ''WHERE '' @ join '' AND '' conditions)"

definition build_filter ::
    "string list \<Rightarrow> bool \<Rightarrow> sql_fragment option \<Rightarrow> int option \<Rightarrow> int option \<Rightarrow> (string \<times> bind_value list) option" where
  "build_filter services no_hooks flt after_ts before_ts =
     (let st1 = service_condition services;
          st2 = (if no_hooks then (fst st1 @ [''hook IS NULL''], snd st1) else st1);
          st3 = bind_optional ''timestamp >= '' (map_option BindInt after_ts) st2;
          st4 = bind_optional ''timestamp <= '' (map_option BindInt before_ts) st3
      in map_option (\<lambda>(conditions, bind). (where_clause conditions, bind))
           (case flt of Some f \<Rightarrow> filter_condition f st4 | None \<Rightarrow> Some st4))"

definition tail_query ::
    "nat \<Rightarrow> string list \<Rightarrow> bool \<Rightarrow> sql_fragment option \<Rightarrow> int option \<Rightarrow> int option \<Rightarrow> (string \<times> bind_value list) option" where
  "tail_query count services no_hooks flt after_ts before_ts =
     map_option (\<lambda>(w, bind). (''SELECT * FROM (SELECT id, timestamp, service, hook, level, line, attributes FROM logs ''
         @ w @ '' ORDER BY id DESC LIMIT '' @ placeholder (length bind + 1) @ '') ORDER BY id ASC'', bind @ [BindInt (as_i64 count)]))
       (build_filter services no_hooks flt after_ts before_ts)"

definition head_query ::
    "nat \<Rightarrow> string list \<Rightarrow> bool \<Rightarrow> sql_fragment option \<Rightarrow> int option \<Rightarrow> int option \<Rightarrow> (string \<times> bind_value list) option" where
  "head_query count services no_hooks flt after_ts before_ts =
     map_option (\<lambda>(w, bind). (''SELECT id, timestamp, service, hook, level, line, attributes FROM logs ''
         @ w @ '' ORDER BY id ASC LIMIT '' @ placeholder (length bind + 1), bind @ [BindInt (as_i64 count)]))
       (build_filter services no_hooks flt after_ts before_ts)"

text \<open>For a positive count; with count 0 there is no query.\<close>

definition tail_start_id_query ::
    "nat \<Rightarrow> string list \<Rightarrow> bool \<Rightarrow> sql_fragment option \<Rightarrow> int option \<Rightarrow> int option \<Rightarrow> (string \<times> bind_value list) option" where
  "tail_start_id_query count services no_hooks flt after_ts before_ts =
     map_option (\<lambda>(w, bind). (''SELECT id FROM logs '' @ w @ '' ORDER BY id DESC LIMIT 1 OFFSET '' @ placeholder (length bind + 1),
         bind @ [BindInt (as_i64 (count - 1))]))
       (build_filter services no_hooks flt after_ts before_ts)"

definition after_query ::
    "int \<Rightarrow> nat \<Rightarrow> string list \<Rightarrow> bool \<Rightarrow> sql_fragment option \<Rightarrow> int option \<Rightarrow> int option \<Rightarrow> (string \<times> bind_value list) option" where
  "after_query after_id limit services no_hooks flt after_ts before_ts =
     map_option (\<lambda>(filter_clause, bind).
         let w = (if filter_clause = [] then ''WHERE id > ?1''
                  else filter_clause @ '' AND id > '' @ placeholder (length bind + 1));
             bind' = bind @ [BindInt after_id]
         in (''SELECT id, timestamp, service, hook, level, line, attributes FROM logs ''
             @ w @ '' ORDER BY id ASC LIMIT '' @ placeholder (length bind' + 1), bind' @ [BindInt (as_i64 (limit + 1))]))
       (build_filter services no_hooks flt after_ts before_ts)"

text \<open>The test on a raw filter that comes before the query: only fragments without parameters are raw.\<close>

definition checked_filter :: "sql_fragment option \<Rightarrow> (filter_error, unit) result" where
  "checked_filter flt = (case flt of
      Some f \<Rightarrow> if sf_params f = [] then validate_filter (sf_sql f) else Ok ()
    | None \<Rightarrow> Ok ())"

subsection \<open>Metric queries\<close>

definition bucket_select_clause :: "int option \<Rightarrow> string \<times> string" where
  "bucket_select_clause bucket_ms =
     (let plain = (''SELECT timestamp, service, cpu_percent, memory_rss, memory_vss, pids'', [])
      in case bucket_ms of
           Some b \<Rightarrow> if b > 0
             then (''SELECT (timestamp / '' @ show_int b @ '') * '' @ show_int b @ '' AS timestamp, service, AVG(cpu_percent) AS cpu_percent, MAX(memory_rss) AS memory_rss, MAX(memory_vss) AS memory_vss, '' @ CHR 0x27 # ''[]'' @ CHR 0x27 # '' AS pids'',
                   ''GROUP BY 1, service'')
             else plain
         | None \<Rightarrow> plain)"

definition metrics_query :: "int option \<Rightarrow> nat option \<Rightarrow> string list \<Rightarrow> bind_value list \<Rightarrow> string \<times> bind_value list" where
  "metrics_query bucket_ms limit conditions bind =
     (let (select, group_by) = bucket_select_clause bucket_ms;
          bind' = bind @ [BindInt (as_i64 (case limit of Some l \<Rightarrow> l | None \<Rightarrow> 10000))]
      in (select @ '' FROM metrics '' @ where_clause conditions @ '' '' @ group_by @ '' ORDER BY 1 ASC LIMIT ''
          @ placeholder (length bind'), bind'))"

definition query_history ::
    "string option \<Rightarrow> int \<Rightarrow> nat option \<Rightarrow> int option \<Rightarrow> int option \<Rightarrow> string \<times> bind_value list" where
  "query_history service since limit bucket_ms before_ts =
     (let st1 = ([''timestamp >= ?1''], [BindInt since]);
          st2 = bind_optional ''service = '' (map_option BindText service) st1;
          st3 = bind_optional ''timestamp <= '' (map_option BindInt before_ts) st2
      in metrics_query bucket_ms limit (fst st3) (snd st3))"

definition query_filtered ::
    "string option \<Rightarrow> int option \<Rightarrow> nat option \<Rightarrow> sql_fragment \<Rightarrow> int option \<Rightarrow> int option \<Rightarrow> int option
      \<Rightarrow> (string \<times> bind_value list) option" where
  "query_filtered service since limit frag bucket_ms after_ts before_ts =
     (let st1 = bind_optional ''service = '' (map_option BindText service) ([], []);
          st2 = bind_optional ''timestamp >= '' (map_option BindInt since) st1;
          st3 = bind_optional ''timestamp >= '' (map_option BindInt after_ts) st2;
          st4 = bind_optional ''timestamp <= '' (map_option BindInt before_ts) st3
      in map_option (\<lambda>(conditions, bind). metrics_query bucket_ms limit conditions bind) (filter_condition frag st4))"

end
