(* ===== verification/Query_Safety.thy ===== *)
theory Query_Safety
  imports Query_Sql
begin

text \<open>
  Whatever a user types, the statement built from it has the parameters that are bound to it, in
  order, and user text stays inside string literals; where putting a fragment behind other
  parameters changes a field name; and the patterns given to LIKE.
\<close>

subsection \<open>Reading the lexical structure of a statement\<close>

text \<open>
  A statement as SQL splits it: string literals in single quotes, in which a doubled quote stands
  for a quote, and numbered parameters outside of them. \<open>sql_params\<close> gives the numbers in order;
  it is \<open>None\<close> for a literal that does not end and for a parameter without a number.
\<close>

fun skip_literal :: "string \<Rightarrow> string option" where
  "skip_literal [] = None"
| "skip_literal [c] = (if c = CHR 0x27 then Some [] else None)"
| "skip_literal (c # d # s) =
     (if c = CHR 0x27 then (if d = CHR 0x27 then skip_literal s else Some (d # s)) else skip_literal (d # s))"

lemma skip_literal_length: "skip_literal s = Some r \<Longrightarrow> length r < length s"
  by (induction s arbitrary: r rule: skip_literal.induct) (auto split: if_splits dest: less_SucI)

function sql_params :: "string \<Rightarrow> nat list option" where
  "sql_params s = (case s of
      [] \<Rightarrow> Some []
    | c # cs \<Rightarrow>
        if c = CHR 0x27 then (case skip_literal cs of None \<Rightarrow> None | Some r \<Rightarrow> sql_params r)
        else if c = CHR ''?'' then
          (if takeWhile is_ascii_digit cs = [] then None
           else map_option (\<lambda>ns. digits_val 0 (takeWhile is_ascii_digit cs) # ns) (sql_params (dropWhile is_ascii_digit cs)))
        else sql_params cs)"
  by pat_completeness auto
termination
  by (relation "measure length") (auto simp: less_Suc_eq_le length_dropWhile_le dest: skip_literal_length)

declare sql_params.simps [simp del]

text \<open>Text without quotes and question marks is skipped.\<close>

definition plain_sql :: "string \<Rightarrow> bool" where
  "plain_sql s = list_all (\<lambda>c. c \<noteq> CHR 0x27 \<and> c \<noteq> CHR ''?'') s"

lemma sql_params_Nil [simp]: "sql_params [] = Some []"
  by (subst sql_params.simps) simp

lemma sql_params_Cons: "c \<noteq> CHR 0x27 \<Longrightarrow> c \<noteq> CHR ''?'' \<Longrightarrow> sql_params (c # s) = sql_params s"
  by (subst sql_params.simps) simp

lemma sql_params_plain: "plain_sql p \<Longrightarrow> sql_params (p @ s) = sql_params s"
  by (induction p) (simp_all add: plain_sql_def sql_params_Cons)

lemma sql_params_plain_all: "plain_sql p \<Longrightarrow> sql_params p = Some []"
  using sql_params_plain [of p "[]"] by simp

text \<open>What may follow a parameter or a literal: not a digit and not a quote.\<close>

definition breaks :: "string \<Rightarrow> bool" where
  "breaks s = (case s of [] \<Rightarrow> True | c # _ \<Rightarrow> \<not> is_ascii_digit c \<and> c \<noteq> CHR 0x27)"

lemma takeWhile_show_nat:
  assumes "breaks s"
  shows "takeWhile is_ascii_digit (show_nat n @ s) = show_nat n" "dropWhile is_ascii_digit (show_nat n @ s) = s"
proof -
  have "\<forall>c \<in> set (show_nat n). is_ascii_digit c" using show_nat_digits [of n] by (simp add: list_all_iff)
  with assms show "takeWhile is_ascii_digit (show_nat n @ s) = show_nat n" "dropWhile is_ascii_digit (show_nat n @ s) = s"
    by (cases s; simp add: breaks_def takeWhile_append2 dropWhile_append2)+
qed

lemma sql_params_placeholder: "breaks s \<Longrightarrow> sql_params (placeholder n @ s) = map_option ((#) n) (sql_params s)"
  unfolding placeholder_def append_Cons
  by (subst sql_params.simps) (simp add: takeWhile_show_nat digits_val_show_nat)

lemma sql_escape_simps [simp]:
  "sql_escape [] = []"
  "sql_escape (c # s) = (if c = CHR 0x27 then CHR 0x27 # CHR 0x27 # sql_escape s else c # sql_escape s)"
  by (simp_all add: sql_escape_def replace_char_def)

lemma skip_literal_plain: "c \<noteq> CHR 0x27 \<Longrightarrow> skip_literal (c # s) = skip_literal s"
  by (cases s) simp_all

text \<open>An escaped name is read back as one literal.\<close>

lemma skip_literal_escape:
  assumes "breaks s"
  shows "skip_literal (sql_escape t @ CHR 0x27 # s) = Some s"
proof (induction t)
  case Nil
  with assms show ?case by (cases s) (simp_all add: breaks_def)
qed (simp add: skip_literal_plain)

lemma sql_params_literal: "breaks s \<Longrightarrow> sql_params (CHR 0x27 # sql_escape t @ CHR 0x27 # s) = sql_params s"
  by (subst sql_params.simps) (simp add: skip_literal_escape)

subsection \<open>Fragments\<close>

text \<open>Text with no parameters that can be put before anything, and text with given parameters.\<close>

definition neutral :: "string \<Rightarrow> bool" where
  "neutral p \<longleftrightarrow> (\<forall>s. sql_params (p @ s) = sql_params s)"

definition has_params :: "string \<Rightarrow> nat list \<Rightarrow> bool" where
  "has_params sql ns \<longleftrightarrow> (\<forall>s. breaks s \<longrightarrow> sql_params (sql @ s) =
     (case sql_params s of Some ms \<Rightarrow> Some (ns @ ms) | None \<Rightarrow> None))"

lemma neutral_plain: "plain_sql p \<Longrightarrow> neutral p"
  by (simp add: neutral_def sql_params_plain)

lemma neutral_append: "neutral p \<Longrightarrow> neutral q \<Longrightarrow> neutral (p @ q)"
  by (simp add: neutral_def)

lemma has_params_neutral: "neutral p \<Longrightarrow> has_params q ns \<Longrightarrow> has_params (p @ q) ns"
  by (simp add: neutral_def has_params_def)

lemma has_params_placeholder: "has_params (placeholder n) [n]"
  by (auto simp: has_params_def sql_params_placeholder split: option.splits)

lemma breaks_append: "breaks q \<Longrightarrow> q \<noteq> [] \<Longrightarrow> breaks (q @ s)"
  by (cases q) (simp_all add: breaks_def)

lemma has_params_append:
  assumes "has_params p ns" "has_params q ms" "breaks q" "q \<noteq> []"
  shows "has_params (p @ q) (ns @ ms)"
  using assms by (auto simp: has_params_def breaks_append split: option.splits)

lemma has_params_plain: "plain_sql p \<Longrightarrow> has_params p []"
  by (auto simp: has_params_def sql_params_plain split: option.splits)

lemma has_params_end: "has_params p ns \<Longrightarrow> plain_sql q \<Longrightarrow> breaks q \<Longrightarrow> q \<noteq> [] \<Longrightarrow> has_params (p @ q) ns"
  using has_params_append [of p ns q "[]"] by (simp add: has_params_plain)

lemma has_params_sql_params: "has_params p ns \<Longrightarrow> sql_params p = Some ns"
  using has_params_def [of p ns] by (auto simp: breaks_def dest: spec [of _ "[]"])

definition plain_schema :: "query_dsl \<Rightarrow> bool" where
  "plain_schema dsl \<longleftrightarrow> (\<forall>f \<in> ran (qd_fields dsl). plain_sql (fd_column f)) \<and>
     (\<forall>c \<in> set_option (qd_fts_column dsl) \<union> set_option (qd_attributes_column dsl). plain_sql c)"

lemma resolved_col_neutral:
  assumes "plain_schema dsl" "resolve_field dsl name = Ok r"
  shows "neutral (resolved_col r)"
proof (cases "qd_fields dsl (to_ascii_lowercase name)")
  case (Some f)
  then have "f \<in> ran (qd_fields dsl)" by (rule ranI)
  with Some assms show ?thesis
    by (auto simp: resolve_field_def plain_schema_def intro: neutral_plain)
next
  case None
  with assms(2) obtain col where col: "qd_attributes_column dsl = Some col"
    "r = AttributeField (''json_extract('' @ col @ '', '' @ CHR 0x27 # ''$.'' @ sql_escape name @ CHR 0x27 # '')'')"
    by (auto simp: resolve_field_def split: option.splits)
  have "plain_sql col" using assms(1) col(1) by (simp add: plain_schema_def)
  then show ?thesis
    using sql_params_literal [of "'')'' @ s" "''$.'' @ name" for s] col(2)
    by (simp add: neutral_def sql_params_Cons sql_params_plain breaks_def is_ascii_digit_def)
qed

lemma neutral_Cons: "c \<noteq> CHR 0x27 \<Longrightarrow> c \<noteq> CHR ''?'' \<Longrightarrow> neutral (c # p) = neutral p"
  by (simp add: neutral_def sql_params_Cons)

lemma has_params_Cons: "c \<noteq> CHR 0x27 \<Longrightarrow> c \<noteq> CHR ''?'' \<Longrightarrow> has_params (c # p) ns = has_params p ns"
  by (simp add: has_params_def sql_params_Cons)

lemma has_params_neutral_iff: "neutral p \<Longrightarrow> has_params (p @ q) ns = has_params q ns"
  by (simp add: neutral_def has_params_def)

text \<open>A column compared with a parameter, and a pattern match with its escape clause.\<close>

lemma breaks_chars: "breaks (CHR '' '' # s)" "breaks (CHR '')'' # s)" "breaks (CHR '','' # s)"
  by (simp_all add: breaks_def is_ascii_digit_def)

lemma sql_params_escape_clause: "breaks s \<Longrightarrow> sql_params (escape_clause @ s) = sql_params s"
  using sql_params_literal [of s "[CHR 0x5C]"] by (simp add: escape_clause_def sql_params_Cons)

lemma has_params_like:
  assumes "neutral col"
  shows "has_params (col @ '' LIKE '' @ placeholder n @ escape_clause) [n]"
proof -
  have "breaks (escape_clause @ s)" for s by (simp add: escape_clause_def breaks_chars)
  then show ?thesis
    using assms by (auto simp: neutral_def sql_params_Cons has_params_def sql_params_placeholder
        sql_params_escape_clause split: option.splits)
qed

lemma has_params_op:
  assumes "neutral col" "plain_sql op"
  shows "has_params (col @ op @ placeholder n) [n]"
  using assms by (simp add: has_params_neutral_iff neutral_plain has_params_placeholder)

text \<open>The parameters of a fragment are numbered from the counter on, one for each value.\<close>

definition nums :: "nat \<Rightarrow> nat \<Rightarrow> nat list" where
  "nums c c' = [c + 1..<c' + 1]"

lemma nums_one [simp]: "nums c (Suc c) = [Suc c]" "nums c (Suc (Suc c)) = [Suc c, Suc (Suc c)]" "nums c c = []"
  by (simp_all add: nums_def upt_rec)

lemma nums_append: "nums c (c + m) @ nums (c + m) (c + m + n) = nums c (c + m + n)"
  using upt_add_eq_append [of "c + 1" "c + m + 1" n] by (simp add: nums_def del: upt_Suc)

definition numbered :: "nat \<Rightarrow> sql_fragment \<Rightarrow> nat \<Rightarrow> bool" where
  "numbered counter f counter' \<longleftrightarrow> counter' = counter + length (sf_params f) \<and> sf_params f \<noteq> [] \<and>
     has_params (sf_sql f) (nums counter counter')"

lemma full_text_numbered:
  "plain_schema dsl \<Longrightarrow> full_text_sql dsl text w c = Ok (f, c') \<Longrightarrow> numbered c f c'"
  by (auto simp: full_text_sql_def bind_res_Ok_iff ok_or_def numbered_def plain_schema_def
      intro!: has_params_like [simplified] neutral_plain split: option.splits)

lemma comp_as_sql_plain: "plain_sql ('' '' @ comp_as_sql op @ '' '')"
  by (cases op) (simp_all add: plain_sql_def)

lemma comparison_numbered:
  assumes "plain_schema dsl" "comparison_sql rnd dsl field op v c = Ok (f, c')"
  shows "numbered c f c'"
proof -
  from assms(2) obtain r where r: "resolve_field dsl field = Ok r" by (auto simp: comparison_sql_def bind_res_Ok_iff)
  note col = resolved_col_neutral [OF assms(1) r]
  have "neutral (''CAST('' @ resolved_col r @ '' AS REAL)'')"
    using col by (simp add: neutral_def sql_params_Cons)
  from has_params_op [OF col comp_as_sql_plain [of op]] has_params_op [OF this comp_as_sql_plain [of op]] assms(2) r
  show ?thesis
    by (auto simp: comparison_sql_def bind_res_def Let_def numbered_def split: option.splits if_splits)
qed

lemma field_match_numbered:
  assumes "plain_schema dsl" "field_match_sql rnd dsl field v w c = Ok (f, c')"
  shows "numbered c f c'"
proof -
  from assms(2) obtain r where r: "resolve_field dsl field = Ok r" by (auto simp: field_match_sql_def bind_res_Ok_iff)
  note col = resolved_col_neutral [OF assms(1) r]
  have eq: "plain_sql '' = ''" by (simp add: plain_sql_def)
  have both: "has_params (''('' @ e @ '' = '' @ placeholder n @ '' OR '' @ e @ '' = '' @ placeholder m @ '')'') [n, m]"
    if "neutral e" for e n m
    using that by (auto simp: neutral_def has_params_def sql_params_Cons sql_params_placeholder breaks_chars
        split: option.splits)
  show ?thesis
    using assms(2) r has_params_like [OF col] has_params_op [OF col eq] both [OF col, of "Suc c" "Suc (Suc c)"]
    by (cases r) (auto simp: field_match_sql_def bind_res_def numbered_def split: option.splits if_splits)
qed

lemma numbered_join:
  assumes "numbered c l c1" "numbered c1 r c2" "plain_sql op" "breaks op" "op \<noteq> []"
  shows "numbered c \<lparr>sf_sql = ''('' @ sf_sql l @ op @ sf_sql r @ '')'', sf_params = sf_params l @ sf_params r\<rparr> c2"
proof -
  from assms(1,2) have c: "c1 = c + length (sf_params l)" "c2 = c1 + length (sf_params r)"
    and lr: "has_params (sf_sql l) (nums c c1)" "has_params (sf_sql r) (nums c1 c2)"
    unfolding numbered_def by blast+
  from lr(1) have "has_params (sf_sql l @ op @ sf_sql r) (nums c c1 @ nums c1 c2)"
    by (rule has_params_append) (use lr(2) assms(3-5) in \<open>simp_all add: has_params_neutral_iff neutral_plain breaks_append\<close>)
  then have join: "has_params (sf_sql l @ op @ sf_sql r) (nums c c2)"
    using nums_append [of c "length (sf_params l)" "length (sf_params r)"] by (simp add: c)
  have "has_params ((sf_sql l @ op @ sf_sql r) @ '')'') (nums c c2)"
    by (rule has_params_end [OF join]) (simp_all add: plain_sql_def breaks_chars)
  then show ?thesis using assms(1,2) by (auto simp: numbered_def has_params_Cons)
qed

lemma numbered_not:
  assumes "numbered c f c'"
  shows "numbered c \<lparr>sf_sql = ''NOT ('' @ sf_sql f @ '')'', sf_params = sf_params f\<rparr> c'"
  using assms by (auto simp: numbered_def has_params_Cons plain_sql_def breaks_chars intro!: has_params_end)

lemma expr_to_sql_numbered:
  assumes "plain_schema dsl"
  shows "expr_to_sql rnd dsl e c = Ok (f, c') \<Longrightarrow> numbered c f c'"
proof (induction e arbitrary: c f c')
  case (QAnd a b)
  then show ?case
    by (auto simp: bind_res_Ok_iff plain_sql_def breaks_chars dest!: QAnd.IH intro!: numbered_join [of _ _ _ _ _ "'' AND ''", simplified])
next
  case (QOr a b)
  then show ?case
    by (auto simp: bind_res_Ok_iff plain_sql_def breaks_chars dest!: QOr.IH intro!: numbered_join [of _ _ _ _ _ "'' OR ''", simplified])
next
  case (QNot a)
  then show ?case
    by (auto simp: bind_res_Ok_iff dest!: QNot.IH intro!: numbered_not [simplified])
qed (auto intro: full_text_numbered [OF assms] field_match_numbered [OF assms] comparison_numbered [OF assms])

subsection \<open>Shifting parameters\<close>

lemma byte_as_char_ascii: "(of_char c :: nat) < 128 \<Longrightarrow> byte_as_char c = [c]"
  by (simp add: byte_as_char_def)

lemma of_char_of_256: "n < 256 \<Longrightarrow> of_char (char_of n :: char) = (n :: nat)"
  by (simp add: of_char_of)

lemma byte_as_char_high:
  assumes "\<not> (of_char c :: nat) < 128"
  shows "\<exists>x y. byte_as_char c = [x, y] \<and> 128 \<le> (of_char x :: nat) \<and> 128 \<le> (of_char y :: nat)"
proof -
  have "(of_char c :: nat) < 256" by (rule nat_of_char_less_256)
  then have "192 + (of_char c :: nat) div 64 < 256" "128 + (of_char c :: nat) mod 64 < 256"
    using less_mult_imp_div_less [of "of_char c" 4 64] by simp_all
  with assms show ?thesis by (simp add: byte_as_char_def Let_def of_char_of_256)
qed

lemma high_not_special:
  assumes "128 \<le> (of_char x :: nat)"
  shows "x \<noteq> CHR 0x27 \<and> x \<noteq> CHR ''?'' \<and> \<not> is_ascii_digit x"
  using assms by (auto simp: is_ascii_digit_def)

text \<open>A byte is copied, or replaced by two bytes that mean nothing to the lexer.\<close>

definition inert :: "char \<Rightarrow> bool" where
  "inert c \<longleftrightarrow> c \<noteq> CHR 0x27 \<and> c \<noteq> CHR ''?'' \<and> \<not> is_ascii_digit c"

lemma byte_as_char_cases: "byte_as_char c = [c] \<or> (\<exists>x y. byte_as_char c = [x, y] \<and> inert x \<and> inert y \<and> inert c)"
proof (cases "(of_char c :: nat) < 128")
  case True
  then show ?thesis by (simp add: byte_as_char_ascii)
next
  case False
  with byte_as_char_high [OF False] high_not_special show ?thesis by (auto simp: inert_def)
qed

lemma shift_Nil [simp]: "shift_placeholders off [] = Some []"
  by (subst shift_placeholders.simps) simp

lemma shift_Cons:
  assumes "\<not> (c = CHR ''?'' \<and> cs \<noteq> [] \<and> is_ascii_digit (hd cs))"
  shows "shift_placeholders off (c # cs) = map_option (\<lambda>r. byte_as_char c @ r) (shift_placeholders off cs)"
  using assms by (subst shift_placeholders.simps) auto

lemma shift_number:
  assumes "cs \<noteq> []" "is_ascii_digit (hd cs)" "shift_placeholders off (CHR ''?'' # cs) = Some s'"
  shows "\<exists>n r. parse_unsigned 64 (takeWhile is_ascii_digit cs) = Some n \<and>
    shift_placeholders off (dropWhile is_ascii_digit cs) = Some r \<and> s' = placeholder ((n + off) mod 2 ^ 64) @ r"
  using assms shift_placeholders.simps [of off "CHR ''?'' # cs"] by (auto split: option.splits)

lemma shift_first:
  assumes "shift_placeholders off (d # ds) = Some r"
  shows "\<exists>c cs. r = c # cs \<and> (d \<noteq> CHR 0x27 \<longrightarrow> c \<noteq> CHR 0x27) \<and> (\<not> is_ascii_digit d \<longrightarrow> \<not> is_ascii_digit c)"
proof (cases "d = CHR ''?'' \<and> ds \<noteq> [] \<and> is_ascii_digit (hd ds)")
  case True
  with shift_number [of ds off r] assms obtain n r' where "r = placeholder n @ r'" by auto
  then have "r = CHR ''?'' # show_nat n @ r'" by (simp add: placeholder_def)
  moreover have "\<not> is_ascii_digit (CHR ''?'')" by (simp add: is_ascii_digit_def)
  ultimately show ?thesis by simp
next
  case False
  with assms obtain r' where "r = byte_as_char d @ r'" by (auto simp: shift_Cons)
  with byte_as_char_cases [of d] show ?thesis by (auto simp: inert_def)
qed

lemma shift_breaks: "breaks s \<Longrightarrow> shift_placeholders off s = Some r \<Longrightarrow> breaks r"
  using shift_first [of off "hd s" "tl s" r] by (cases s) (auto simp: breaks_def)

lemma skip_literal_no_quote: "CHR 0x27 \<notin> set p \<Longrightarrow> skip_literal (p @ s) = skip_literal s"
  by (induction p) (auto simp: skip_literal_plain)

lemma skip_literal_byte: "c \<noteq> CHR 0x27 \<Longrightarrow> skip_literal (byte_as_char c @ s) = skip_literal s"
  using byte_as_char_cases [of c] by (auto simp: skip_literal_plain inert_def)

lemma digits_no_quote: "CHR 0x27 \<notin> set (takeWhile is_ascii_digit cs)" "CHR 0x27 \<notin> set (placeholder n)"
  by (auto simp: placeholder_def is_ascii_digit_def dest: set_takeWhileD) (simp add: show_nat_no_char is_ascii_digit_def)

lemma skip_literal_number:
  "is_ascii_digit (hd cs) \<Longrightarrow> skip_literal (CHR ''?'' # cs) = skip_literal (dropWhile is_ascii_digit cs)"
  using skip_literal_no_quote [OF digits_no_quote(1), of cs "dropWhile is_ascii_digit cs"]
  by (simp add: skip_literal_plain)

lemma shift_literal:
  assumes "skip_literal s = Some rest" "shift_placeholders off s = Some s'"
  shows "\<exists>rest'. shift_placeholders off rest = Some rest' \<and> skip_literal s' = Some rest'"
  using assms
proof (induction "length s" arbitrary: s rest s' rule: less_induct)
  case less
  from less.prems(1) obtain c cs where s: "s = c # cs" by (cases s) auto
  consider (number) "c = CHR ''?''" "cs \<noteq> []" "is_ascii_digit (hd cs)"
    | (other) "c \<noteq> CHR 0x27" "\<not> (c = CHR ''?'' \<and> cs \<noteq> [] \<and> is_ascii_digit (hd cs))"
    | (last) "c = CHR 0x27" "cs = []"
    | (double) ds where "c = CHR 0x27" "cs = CHR 0x27 # ds"
    | (close) d ds where "c = CHR 0x27" "cs = d # ds" "d \<noteq> CHR 0x27"
    by (cases "c = CHR 0x27"; cases cs) auto
  then show ?case
  proof cases
    case number
    with less.prems(2) s shift_number [of cs off s'] obtain n r where
      r: "shift_placeholders off (dropWhile is_ascii_digit cs) = Some r" "s' = placeholder n @ r" by auto
    with less.hyps [of "dropWhile is_ascii_digit cs" rest r] less.prems(1) number show ?thesis
      using length_dropWhile_le [of is_ascii_digit cs] digits_no_quote(2) [of n]
      by (simp add: s skip_literal_number skip_literal_no_quote)
  next
    case other
    with less.prems(2) obtain r where r: "shift_placeholders off cs = Some r" "s' = byte_as_char c @ r"
      by (auto simp: s shift_Cons)
    with less.hyps [of cs rest r] less.prems(1) other show ?thesis
      by (simp add: s skip_literal_plain skip_literal_byte)
  next
    case last
    with less.prems show ?thesis by (auto simp: s shift_Cons byte_as_char_def)
  next
    case double
    with less.prems(2) obtain r where r: "shift_placeholders off ds = Some r" "s' = CHR 0x27 # CHR 0x27 # r"
      by (auto simp: s shift_Cons byte_as_char_def)
    with less.hyps [of ds rest r] less.prems(1) double show ?thesis by (simp add: s)
  next
    case close
    with less.prems(2) obtain r where r: "shift_placeholders off cs = Some r" "s' = CHR 0x27 # r"
      by (auto simp: s shift_Cons byte_as_char_def)
    with close shift_first [of off d ds r] less.prems(1) show ?thesis by (auto simp: s)
  qed
qed

lemma sql_params_number:
  assumes "is_ascii_digit (hd cs)" "cs \<noteq> []"
  shows "sql_params (CHR ''?'' # cs) =
    map_option (\<lambda>ns. digits_val 0 (takeWhile is_ascii_digit cs) # ns) (sql_params (dropWhile is_ascii_digit cs))"
  using assms by (subst sql_params.simps) (cases cs; simp)

lemma sql_params_quote:
  "sql_params (CHR 0x27 # cs) = (case skip_literal cs of None \<Rightarrow> None | Some r \<Rightarrow> sql_params r)"
  by (subst sql_params.simps) simp

lemma parse_unsigned_digits:
  assumes "parse_unsigned 64 (takeWhile is_ascii_digit cs) = Some n" "cs \<noteq> []" "is_ascii_digit (hd cs)"
  shows "n = digits_val 0 (takeWhile is_ascii_digit cs)"
proof -
  obtain d ds where "takeWhile is_ascii_digit cs = d # ds" "is_ascii_digit d"
    using assms(2,3) by (cases cs) auto
  with assms(1) show ?thesis by (auto simp: parse_unsigned_def digit_not_sign split: if_splits)
qed

lemma placeholder_then:
  assumes "\<And>d ds. s = d # ds \<Longrightarrow> \<not> is_ascii_digit d"
  shows "sql_params (placeholder n @ s) = map_option (\<lambda>ns. n # ns) (sql_params s)"
proof -
  have "\<forall>c \<in> set (show_nat n). is_ascii_digit c" using show_nat_digits [of n] by (simp add: list_all_iff)
  then have "takeWhile is_ascii_digit (show_nat n @ s) = show_nat n" "dropWhile is_ascii_digit (show_nat n @ s) = s"
    using assms by (cases s; simp add: takeWhile_append2 dropWhile_append2)+
  then show ?thesis unfolding placeholder_def append_Cons by (subst sql_params.simps) (simp add: digits_val_show_nat)
qed

lemma shift_sql_params:
  assumes "sql_params s = Some ns" "shift_placeholders off s = Some s'" "\<forall>n \<in> set ns. n + off < 2 ^ 64"
  shows "sql_params s' = Some (map (\<lambda>n. n + off) ns)"
  using assms
proof (induction "length s" arbitrary: s ns s' rule: less_induct)
  case less
  show ?case
  proof (cases s)
    case Nil
    with less.prems show ?thesis by simp
  next
    case (Cons c cs)
    consider (quote) "c = CHR 0x27" | (number) "c = CHR ''?''" "cs \<noteq> []" "is_ascii_digit (hd cs)"
      | (other) "c \<noteq> CHR 0x27" "c \<noteq> CHR ''?''"
      using less.prems(1) Cons by (subst (asm) sql_params.simps) (cases cs; auto split: if_splits)
    then show ?thesis
    proof cases
      case quote
      with less.prems Cons obtain r rs where r: "skip_literal cs = Some r" "sql_params r = Some ns"
        "shift_placeholders off cs = Some rs" "s' = CHR 0x27 # rs"
        by (auto simp: sql_params_quote shift_Cons byte_as_char_def split: option.splits)
      from shift_literal [OF r(1,3)] obtain r' where "shift_placeholders off r = Some r'" "skip_literal rs = Some r'" by blast
      with less.hyps [of r ns r'] r less.prems(3) skip_literal_length [OF r(1)] Cons show ?thesis
        by (simp add: sql_params_quote)
    next
      case number
      let ?rest = "dropWhile is_ascii_digit cs"
      from less.prems Cons number obtain ms where ms: "sql_params ?rest = Some ms"
        "ns = digits_val 0 (takeWhile is_ascii_digit cs) # ms" by (auto simp: sql_params_number)
      from shift_number [of cs off s'] less.prems(2) Cons number obtain n r where
        r: "parse_unsigned 64 (takeWhile is_ascii_digit cs) = Some n" "shift_placeholders off ?rest = Some r"
          "s' = placeholder ((n + off) mod 2 ^ 64) @ r" by auto
      have n: "n = digits_val 0 (takeWhile is_ascii_digit cs)" using parse_unsigned_digits r(1) number by blast
      have "\<not> is_ascii_digit d" if "r = d # ds" for d ds
        using r(2) that shift_first [of off "hd ?rest" "tl ?rest" r] hd_dropWhile [of is_ascii_digit cs]
        by (cases ?rest) auto
      with less.hyps [of ?rest ms r] r n ms less.prems(3) length_dropWhile_le [of is_ascii_digit cs] Cons show ?thesis
        by (simp add: placeholder_then)
    next
      case other
      with less.prems Cons obtain r where r: "shift_placeholders off cs = Some r" "s' = byte_as_char c @ r"
        "sql_params cs = Some ns" by (auto simp: shift_Cons sql_params_Cons)
      with less.hyps [of cs ns r] less.prems(3) Cons byte_as_char_cases [of c] other show ?thesis
        by (auto simp: sql_params_Cons inert_def)
    qed
  qed
qed

subsection \<open>Statements\<close>

lemma skip_literal_append: "skip_literal p = Some r \<Longrightarrow> breaks s \<Longrightarrow> skip_literal (p @ s) = Some (r @ s)"
proof (induction p arbitrary: r rule: skip_literal.induct)
  case (2 c)
  then show ?case by (cases s) (auto simp: breaks_def split: if_splits)
next
  case (3 c d p)
  then show ?case by (auto split: if_split_asm)
qed simp

lemma digits_append:
  "breaks s \<Longrightarrow> takeWhile is_ascii_digit (cs @ s) = takeWhile is_ascii_digit cs"
  "breaks s \<Longrightarrow> dropWhile is_ascii_digit (cs @ s) = dropWhile is_ascii_digit cs @ s"
proof -
  have "takeWhile is_ascii_digit (cs @ s) = takeWhile is_ascii_digit cs \<and>
    dropWhile is_ascii_digit (cs @ s) = dropWhile is_ascii_digit cs @ s" if "breaks s"
    using that by (induction cs) (simp_all add: breaks_def split: list.splits)
  then show "breaks s \<Longrightarrow> takeWhile is_ascii_digit (cs @ s) = takeWhile is_ascii_digit cs"
    "breaks s \<Longrightarrow> dropWhile is_ascii_digit (cs @ s) = dropWhile is_ascii_digit cs @ s" by simp_all
qed

lemma sql_params_append:
  assumes "sql_params p = Some ns" "breaks s"
  shows "sql_params (p @ s) = (case sql_params s of Some ms \<Rightarrow> Some (ns @ ms) | None \<Rightarrow> None)"
  using assms(1)
proof (induction "length p" arbitrary: p ns rule: less_induct)
  case less
  show ?case
  proof (cases p)
    case Nil
    with less.prems show ?thesis by (auto split: option.splits)
  next
    case (Cons c cs)
    consider (quote) "c = CHR 0x27" | (number) "c = CHR ''?''" "cs \<noteq> []" "is_ascii_digit (hd cs)"
      | (other) "c \<noteq> CHR 0x27" "c \<noteq> CHR ''?''"
      using less.prems(1) Cons by (subst (asm) sql_params.simps) (cases cs; auto split: if_splits)
    then show ?thesis
    proof cases
      case quote
      with less.prems Cons obtain r where r: "skip_literal cs = Some r" "sql_params r = Some ns"
        by (auto simp: sql_params_quote split: option.splits)
      with less.hyps [of r ns] skip_literal_length [OF r(1)] skip_literal_append [OF r(1) assms(2)] Cons quote show ?thesis
        by (simp add: sql_params_quote)
    next
      case number
      let ?rest = "dropWhile is_ascii_digit cs"
      from less.prems Cons number obtain ms where ms: "sql_params ?rest = Some ms"
        "ns = digits_val 0 (takeWhile is_ascii_digit cs) # ms" by (auto simp: sql_params_number)
      note split = digits_append [OF assms(2), of cs]
      from less.hyps [of ?rest ms] ms length_dropWhile_le [of is_ascii_digit cs] Cons number split show ?thesis
        by (auto simp: sql_params_number split: option.splits)
    next
      case other
      with less.hyps [of cs ns] less.prems Cons show ?thesis by (simp add: sql_params_Cons)
    qed
  qed
qed

lemma has_params_iff: "has_params p ns \<longleftrightarrow> sql_params p = Some ns"
proof
  show "sql_params p = Some ns \<Longrightarrow> has_params p ns"
    unfolding has_params_def by (blast intro: sql_params_append)
qed (rule has_params_sql_params)

lemma nums_snoc: "nums c (c + Suc k) = nums c (c + k) @ [c + Suc k]"
  using nums_append [of c k 1] by simp

lemma nums_shift: "map (\<lambda>n. n + off) (nums 0 k) = nums off (off + k)"
proof (induction k)
  case (Suc k)
  with nums_snoc [of 0 k] nums_snoc [of off k] show ?case by (simp add: add.commute)
qed simp

lemma shifted_has_params:
  assumes "numbered 0 f c" "sql_with_offset f off = Some sql" "off + length (sf_params f) < 2 ^ 64"
  shows "has_params sql (nums off (off + length (sf_params f)))"
proof (cases "off = 0")
  case True
  with assms show ?thesis by (auto simp: numbered_def sql_with_offset_def)
next
  case False
  let ?n = "length (sf_params f)"
  have "sql_params (sf_sql f) = Some (nums 0 ?n)" using assms(1) by (auto simp: numbered_def has_params_iff)
  moreover have "\<forall>n \<in> set (nums 0 ?n). n + off < 2 ^ 64" using assms(3) by (auto simp: nums_def)
  ultimately have "sql_params sql = Some (map (\<lambda>n. n + off) (nums 0 ?n))"
    using shift_sql_params assms(2) False by (simp add: sql_with_offset_def)
  moreover have "map (\<lambda>n. n + off) (nums 0 ?n) = nums off (off + ?n)"
    by (rule nums_shift)
  ultimately show ?thesis by (simp add: has_params_iff)
qed

text \<open>A list of conditions and the parameters that occur in them.\<close>

inductive conditions_params :: "string list \<Rightarrow> nat list \<Rightarrow> bool" where
  no_condition: "conditions_params [] []"
| more_condition: "conditions_params cs ns \<Longrightarrow> has_params c ms \<Longrightarrow> conditions_params (cs @ [c]) (ns @ ms)"

lemma join_snoc: "join sep (ps @ [p]) = (if ps = [] then p else join sep ps @ sep @ p)"
  by (induction sep ps rule: join.induct) auto

lemma conditions_join:
  "conditions_params cs ns \<Longrightarrow> cs = [] \<and> ns = [] \<or> cs \<noteq> [] \<and> has_params (join '' AND '' cs) ns"
proof (induction rule: conditions_params.induct)
  case (more_condition cs ns c ms)
  have "has_params (join '' AND '' cs @ '' AND '' @ c) (ns @ ms)" if "has_params (join '' AND '' cs) ns"
    using that by (rule has_params_append) (use more_condition.hyps in \<open>simp_all add: has_params_Cons breaks_chars\<close>)
  with more_condition show ?case by (auto simp: join_snoc)
qed simp

lemma where_clause_params: "conditions_params cs ns \<Longrightarrow> has_params (where_clause cs) ns"
  using conditions_join [of cs ns] by (auto simp: where_clause_def has_params_Cons) (simp add: has_params_iff)

text \<open>Conditions whose parameters are those that are bound so far.\<close>

definition bound :: "string list \<times> bind_value list \<Rightarrow> bool" where
  "bound st \<longleftrightarrow> conditions_params (fst st) (nums 0 (length (snd st)))"

lemma nums_0_Suc: "nums 0 (Suc n) = nums 0 n @ [Suc n]"
  using nums_snoc [of 0 n] by simp

lemma bound_empty: "bound ([], [])"
  by (simp add: bound_def no_condition)

lemma bound_condition: "plain_sql text \<Longrightarrow> bound st \<Longrightarrow> bound (bind_condition text v st)"
  using more_condition [of "fst st" "nums 0 (length (snd st))" "text @ placeholder (Suc (length (snd st)))"
      "[Suc (length (snd st))]"]
  by (simp add: bound_def bind_condition_def split_def nums_0_Suc has_params_neutral_iff neutral_plain has_params_placeholder)

lemma bound_optional: "plain_sql text \<Longrightarrow> bound st \<Longrightarrow> bound (bind_optional text v st)"
  by (simp add: bind_optional_def bound_condition split: option.splits)

lemma bound_plain: "plain_sql text \<Longrightarrow> bound st \<Longrightarrow> bound (fst st @ [text], snd st)"
  using more_condition [of "fst st" "nums 0 (length (snd st))" "text" "[]"]
  by (simp add: bound_def has_params_plain)

lemma placeholders_join:
  "has_params (join '', '' (map (\<lambda>i. placeholder (Suc i)) [0..<Suc n])) (nums 0 (Suc n))"
proof (induction n)
  case 0
  show ?case by (simp add: has_params_placeholder)
next
  case (Suc n)
  have "has_params (join '', '' (map (\<lambda>i. placeholder (Suc i)) [0..<Suc n]) @ '', '' @ placeholder (Suc (Suc n)))
      (nums 0 (Suc n) @ [Suc (Suc n)])"
    using Suc by (rule has_params_append) (simp_all add: has_params_Cons has_params_placeholder breaks_chars)
  then show ?case
    by (simp add: join_snoc nums_0_Suc [of "Suc n"] upt_Suc_append [of 0 "Suc n"] del: upt_Suc)
qed

lemma bound_services: "bound (service_condition services)"
proof -
  consider "services = []" | s where "services = [s]" | n where "length services = Suc (Suc n)"
    by (cases services; cases "tl services") auto
  then show ?thesis
  proof cases
    case 1
    then show ?thesis by (simp add: service_condition_def bound_empty)
  next
    case (2 s)
    then show ?thesis
      using bound_condition [OF _ bound_empty, of "''service = ''" "BindText s"]
      by (simp add: service_condition_def bind_condition_def plain_sql_def)
  next
    case (3 n)
    then obtain s t ss where s: "services = s # t # ss" by (cases services; cases "tl services") auto
    have "has_params ((''service IN ('' @ join '', '' (map (\<lambda>i. placeholder (Suc i)) [0..<Suc (Suc n)])) @ '')'')
        (nums 0 (Suc (Suc n)))"
      by (rule has_params_end) (simp_all add: has_params_Cons placeholders_join plain_sql_def breaks_chars del: upt_Suc)
    from more_condition [OF no_condition this] show ?thesis
      using 3 by (simp add: s service_condition_def bound_def del: upt_Suc)
  qed
qed

lemma bound_filter:
  assumes "numbered 0 f c" "bound st" "filter_condition f st = Some st'" "length (snd st') < 2 ^ 64"
  shows "bound st'"
proof -
  from assms(3) obtain sql where sql: "sql_with_offset f (length (snd st)) = Some sql"
    "st' = (fst st @ [''('' @ sql @ '')''], snd st @ map bind_from (sf_params f))"
    by (auto simp: filter_condition_def split_def)
  have "has_params sql (nums (length (snd st)) (length (snd st) + length (sf_params f)))"
    using assms(4) sql by (intro shifted_has_params [OF assms(1)]) simp_all
  then have open_paren: "has_params (''('' @ sql) (nums (length (snd st)) (length (snd st) + length (sf_params f)))"
    by (simp add: has_params_Cons)
  have "has_params ((''('' @ sql) @ '')'') (nums (length (snd st)) (length (snd st) + length (sf_params f)))"
    by (rule has_params_end [OF open_paren]) (simp_all add: plain_sql_def breaks_chars)
  from more_condition [OF assms(2) [unfolded bound_def] this] show ?thesis
    using nums_append [of 0 "length (snd st)" "length (sf_params f)"] by (simp add: sql bound_def)
qed

definition parsed_filter :: "(rat \<Rightarrow> f64) \<Rightarrow> query_dsl \<Rightarrow> sql_fragment option \<Rightarrow> bool" where
  "parsed_filter rnd dsl flt \<longleftrightarrow> (\<forall>f. flt = Some f \<longrightarrow> (\<exists>input. dsl_parse rnd dsl input 0 = Ok f))"

lemma dsl_parse_numbered:
  "plain_schema dsl \<Longrightarrow> dsl_parse rnd dsl input c = Ok f \<Longrightarrow> \<exists>c'. numbered c f c'"
  by (auto simp: dsl_parse_def bind_res_Ok_iff dest: expr_to_sql_numbered)

lemma build_filter_params:
  assumes "plain_schema dsl" "parsed_filter rnd dsl flt"
    "build_filter services no_hooks flt after_ts before_ts = Some (w, bind)" "length bind < 2 ^ 64"
  shows "has_params w (nums 0 (length bind))"
proof -
  let ?st = "bind_optional ''timestamp <= '' (map_option BindInt before_ts)
    (bind_optional ''timestamp >= '' (map_option BindInt after_ts)
      (if no_hooks then (fst (service_condition services) @ [''hook IS NULL''], snd (service_condition services))
       else service_condition services))"
  have st: "bound ?st"
    by (intro bound_optional) (simp_all add: bound_plain bound_services plain_sql_def)
  obtain st' where st': "w = where_clause (fst st')" "bind = snd st'"
    "(case flt of Some f \<Rightarrow> filter_condition f ?st | None \<Rightarrow> Some ?st) = Some st'"
    using assms(3) unfolding build_filter_def Let_def by auto
  have "bound st'"
  proof (cases flt)
    case None
    with st st' show ?thesis by simp
  next
    case (Some f)
    with assms(1,2) obtain c where "numbered 0 f c" by (auto simp: parsed_filter_def dest: dsl_parse_numbered)
    from bound_filter [OF this st] st' Some assms(4) show ?thesis by simp
  qed
  then show ?thesis by (simp add: bound_def st' where_clause_params)
qed

lemma plain_schema_build:
  assumes "list_all (\<lambda>f. plain_sql (fd_column f)) fs" "case attr of Some c \<Rightarrow> plain_sql c | None \<Rightarrow> True"
  shows "plain_schema (dsl_build fs attr)"
proof -
  have "ran (foldl (\<lambda>m f. m(to_ascii_lowercase (fd_name f) \<mapsto> f)) Map.empty fs) \<subseteq> set fs"
  proof (induction fs rule: rev_induct)
    case (snoc f fs)
    then show ?case by (auto simp: ran_def split: if_splits)
  qed simp
  moreover have "set_option (foldl (\<lambda>c f. if fd_fts f then Some (fd_column f) else c) None fs) \<subseteq> fd_column ` set fs"
    by (induction fs rule: rev_induct) auto
  ultimately show ?thesis
    using assms by (auto simp: plain_schema_def dsl_build_def list_all_iff split: option.splits)
qed

lemma plain_log_schema: "plain_schema log_query_dsl"
  unfolding log_query_dsl_def by (rule plain_schema_build) code_simp+

lemma plain_monitor_schema: "plain_schema monitor_query_dsl"
  unfolding monitor_query_dsl_def by (rule plain_schema_build) code_simp+

text \<open>
  C6. The SQL of every query in the search language, over a schema whose column names have no quotes
  and question marks, has all string literals closed and exactly the parameters that follow the
  given offset, one for each bound value and in their order: no text of the user gets outside a
  literal or takes the place of a parameter.
\<close>

theorem dsl_sql_well_formed:
  assumes "plain_schema dsl" "dsl_parse rnd dsl input c = Ok f"
  shows "sf_params f \<noteq> [] \<and> sql_params (sf_sql f) = Some [c + 1..<c + 1 + length (sf_params f)]"
proof -
  from dsl_parse_numbered [OF assms] obtain c' where "numbered c f c'" ..
  then have "sf_params f \<noteq> []" "has_params (sf_sql f) (nums c (c + length (sf_params f)))"
    by (auto simp: numbered_def)
  then show ?thesis by (simp add: has_params_iff nums_def add.commute add.left_commute)
qed

theorem dsl_sql_well_formed_witness:
  "\<exists>f. dsl_parse F64 log_query_dsl ''@latency:5 AND x*'' 2 = Ok f \<and> length (sf_params f) = 3 \<and>
     sql_params (sf_sql f) = Some [3, 4, 5]"
proof -
  have "case dsl_parse F64 log_query_dsl ''@latency:5 AND x*'' 2 of Inl _ \<Rightarrow> False | Inr f \<Rightarrow> length (sf_params f) = 3"
    by code_simp
  then obtain f where f: "dsl_parse F64 log_query_dsl ''@latency:5 AND x*'' 2 = Ok f" "length (sf_params f) = 3"
    by (auto split: sum.splits)
  from dsl_sql_well_formed [OF plain_log_schema f(1)] f show ?thesis by (simp add: upt_rec)
qed

text \<open>A statement around a WHERE clause with one more parameter behind it.\<close>

lemma statement_params:
  assumes "has_params w (nums 0 n)" "plain_sql pre" "plain_sql mid" "breaks mid" "mid \<noteq> []" "plain_sql post" "breaks post"
  shows "sql_params (pre @ w @ mid @ placeholder (n + 1) @ post) = Some (nums 0 (n + 1))"
proof -
  have "has_params (mid @ placeholder (n + 1)) [n + 1]"
    using assms(3) by (simp add: has_params_neutral_iff neutral_plain has_params_placeholder)
  with assms(1) have "has_params (w @ mid @ placeholder (n + 1)) (nums 0 n @ [n + 1])"
    by (rule has_params_append) (use assms(4,5) in \<open>simp_all add: breaks_append\<close>)
  then have "sql_params ((w @ mid @ placeholder (n + 1)) @ post) = Some (nums 0 n @ [n + 1])"
    using assms(6,7) by (simp add: has_params_def sql_params_plain_all)
  then show ?thesis using assms(2) by (simp add: sql_params_plain nums_0_Suc)
qed

lemma tail_query_params:
  assumes "has_params w (nums 0 (length b))" "build_filter services nh flt x y = Some (w, b)"
    "tail_query count services nh flt x y = Some (sql, bind)"
  shows "sql_params sql = Some (nums 0 (length bind))"
proof -
  have "sql = ''SELECT * FROM (SELECT id, timestamp, service, hook, level, line, attributes FROM logs ''
      @ w @ '' ORDER BY id DESC LIMIT '' @ placeholder (length b + 1) @ '') ORDER BY id ASC''" "length bind = length b + 1"
    using assms(2,3) by (auto simp only: tail_query_def map_option_eq_Some split_conv prod.inject length_append_singleton Suc_eq_plus1)
  then show ?thesis
    by (simp only:) (rule statement_params [OF assms(1)]; code_simp)
qed

lemma head_query_params:
  assumes "has_params w (nums 0 (length b))" "build_filter services nh flt x y = Some (w, b)"
    "head_query count services nh flt x y = Some (sql, bind)"
  shows "sql_params sql = Some (nums 0 (length bind))"
proof -
  have "sql = ''SELECT id, timestamp, service, hook, level, line, attributes FROM logs ''
      @ w @ '' ORDER BY id ASC LIMIT '' @ placeholder (length b + 1) @ []" "length bind = length b + 1"
    using assms(2,3) by (auto simp only: head_query_def map_option_eq_Some split_conv prod.inject length_append_singleton Suc_eq_plus1 append_Nil2)
  then show ?thesis
    by (simp only:) (rule statement_params [OF assms(1)]; code_simp)
qed

lemma tail_start_query_params:
  assumes "has_params w (nums 0 (length b))" "build_filter services nh flt x y = Some (w, b)"
    "tail_start_id_query count services nh flt x y = Some (sql, bind)"
  shows "sql_params sql = Some (nums 0 (length bind))"
proof -
  have "sql = ''SELECT id FROM logs '' @ w @ '' ORDER BY id DESC LIMIT 1 OFFSET '' @ placeholder (length b + 1) @ []"
    "length bind = length b + 1"
    using assms(2,3) by (auto simp only: tail_start_id_query_def map_option_eq_Some split_conv prod.inject length_append_singleton Suc_eq_plus1 append_Nil2)
  then show ?thesis
    by (simp only:) (rule statement_params [OF assms(1)]; code_simp)
qed

lemma after_query_params:
  assumes "has_params w (nums 0 (length b))" "build_filter services nh flt x y = Some (w, b)" "w = [] \<Longrightarrow> b = []"
    "after_query after_id limit services nh flt x y = Some (sql, bind)"
  shows "sql_params sql = Some (nums 0 (length bind))"
proof -
  let ?w = "if w = [] then ''WHERE id > ?1'' else w @ '' AND id > '' @ placeholder (length b + 1)"
  have sql: "sql = ''SELECT id, timestamp, service, hook, level, line, attributes FROM logs ''
      @ ?w @ '' ORDER BY id ASC LIMIT '' @ placeholder (length b + 1 + 1) @ []" "length bind = length b + 1 + 1"
    using assms(2,4) by (auto simp only: after_query_def map_option_eq_Some split_conv Let_def prod.inject
        length_append_singleton Suc_eq_plus1 append_Nil2)
  have cond: "has_params ?w (nums 0 (length b + 1))"
  proof (cases "w = []")
    case True
    have "sql_params ''WHERE id > ?1'' = Some [1]" by code_simp
    with True assms(3) show ?thesis by (simp add: has_params_iff)
  next
    case False
    have "plain_sql '' AND id > ''" "breaks '' AND id > ''" "plain_sql []" "breaks []" by code_simp+
    with statement_params [OF assms(1), of "[]" "'' AND id > ''" "[]"] False show ?thesis
      by (simp only: has_params_iff append_Nil append_Nil2 if_False list.distinct not_False_eq_True)
  qed
  show ?thesis
    unfolding sql by (rule statement_params [OF cond]; code_simp)
qed

lemma build_filter_no_where:
  assumes "build_filter services nh flt x y = Some ([], b)"
  shows "b = []"
proof -
  define P where "P st \<longleftrightarrow> (fst st = [] \<longrightarrow> snd st = [])" for st :: "string list \<times> bind_value list"
  have opt: "P st \<Longrightarrow> P (bind_optional t v st)" for t v st
    by (cases v) (auto simp: P_def bind_optional_def bind_condition_def split_def)
  have "P (service_condition services)"
    by (auto simp: P_def service_condition_def split: list.splits)
  then have "P (if nh then (fst (service_condition services) @ [''hook IS NULL''], snd (service_condition services))
      else service_condition services)" by (simp add: P_def)
  then have "P (bind_optional ''timestamp <= '' (map_option BindInt y) (bind_optional ''timestamp >= '' (map_option BindInt x)
      (if nh then (fst (service_condition services) @ [''hook IS NULL''], snd (service_condition services))
       else service_condition services)))" by (intro opt)
  with assms show ?thesis
    by (auto simp: P_def build_filter_def where_clause_def filter_condition_def Let_def split_def
        simp del: if_image_distrib split: option.splits if_split_asm)
qed

text \<open>
  C21. Every query on the log database, with any services, time bounds and a filter in the search
  language, has exactly the parameters 1 to n for its n bound values, in order.
\<close>

theorem log_query_parameters:
  assumes "parsed_filter rnd log_query_dsl flt" "length bind \<le> 2 ^ 64"
    and "Some (sql, bind) \<in> {tail_query count services no_hooks flt after_ts before_ts,
      head_query count services no_hooks flt after_ts before_ts,
      tail_start_id_query count services no_hooks flt after_ts before_ts,
      after_query after_id count services no_hooks flt after_ts before_ts}"
  shows "sql_params sql = Some [1..<length bind + 1]"
proof -
  note defs = tail_query_def head_query_def tail_start_id_query_def after_query_def
  obtain w b where w: "build_filter services no_hooks flt after_ts before_ts = Some (w, b)"
    using assms(3) by (cases "build_filter services no_hooks flt after_ts before_ts") (auto simp: defs)
  have "length b < length bind"
    using assms(3) by (auto simp: defs w Let_def)
  then have "length b < 2 ^ 64" using assms(2) by linarith
  note cond = build_filter_params [OF plain_log_schema assms(1) w this]
  have "w = [] \<Longrightarrow> b = []" using w build_filter_no_where by blast
  then have "sql_params sql = Some (nums 0 (length bind))"
    using assms(3) tail_query_params [OF cond w] head_query_params [OF cond w] tail_start_query_params [OF cond w]
      after_query_params [OF cond w] by auto
  then show ?thesis by (simp add: nums_def)
qed

theorem log_query_parameters_witness:
  "\<exists>f sql bind. dsl_parse F64 log_query_dsl ''@latency:5 AND x*'' 0 = Ok f \<and>
     tail_query 10 [] True (Some f) None None = Some (sql, bind) \<and> length bind = 4 \<and>
     sql_params sql = Some [1, 2, 3, 4]"
proof -
  have "case dsl_parse F64 log_query_dsl ''@latency:5 AND x*'' 0 of Inl _ \<Rightarrow> False | Inr f \<Rightarrow> length (sf_params f) = 3"
    by code_simp
  then obtain f where f: "dsl_parse F64 log_query_dsl ''@latency:5 AND x*'' 0 = Ok f" "length (sf_params f) = 3"
    by (auto split: sum.splits)
  obtain sql bind where q: "tail_query 10 [] True (Some f) None None = Some (sql, bind)" "length bind = 4"
    by (simp add: tail_query_def build_filter_def service_condition_def bind_optional_def filter_condition_def
        sql_with_offset_def f(2))
  have "parsed_filter F64 log_query_dsl (Some f)" using f(1) by (auto simp: parsed_filter_def)
  from log_query_parameters [OF this, of bind sql 10 "[]" True None None 0] f q show ?thesis
    by (simp add: upt_rec)
qed

subsection \<open>Metric queries\<close>

lemma show_int_plain: "plain_sql (show_int b)"
proof -
  have digits: "list_all is_ascii_digit (show_nat n)" for n using show_nat_digits [of n] by simp
  have "plain_sql (show_nat n)" for n
    using digits [of n] unfolding plain_sql_def list_all_iff is_ascii_digit_def by auto
  then show ?thesis by (auto simp: show_int_def plain_sql_def)
qed

lemma select_neutral:
  "neutral (fst (bucket_select_clause bucket_ms))" "plain_sql (snd (bucket_select_clause bucket_ms))"
proof -
  have lit: "neutral (CHR 0x27 # ''[]'' @ CHR 0x27 # '' AS pids'')"
    by (auto simp: neutral_def sql_params_quote sql_params_Cons)
  have "neutral []" by (simp add: neutral_plain plain_sql_def)
  then show "neutral (fst (bucket_select_clause bucket_ms))"
    using lit show_int_plain
    by (auto simp: bucket_select_clause_def neutral_Cons neutral_append neutral_plain Let_def split: option.splits)
  show "plain_sql (snd (bucket_select_clause bucket_ms))"
    by (auto simp: bucket_select_clause_def plain_sql_def Let_def split: option.splits)
qed

lemma metrics_query_params:
  assumes "bound (cs, b)" "metrics_query bucket_ms limit cs b = (sql, bind)"
  shows "sql_params sql = Some (nums 0 (length bind)) \<and> length bind = length b + 1"
proof -
  obtain sel grp where g: "bucket_select_clause bucket_ms = (sel, grp)" by fastforce
  have sel: "neutral sel" "plain_sql grp" using select_neutral [of bucket_ms] by (simp_all add: g)
  have w: "has_params (where_clause cs) (nums 0 (length b))"
    using assms(1) by (simp add: bound_def where_clause_params)
  have sql: "sql = sel @ '' FROM metrics '' @ where_clause cs @ ('' '' @ grp @ '' ORDER BY 1 ASC LIMIT '') @ placeholder (length b + 1) @ []"
    "length bind = length b + 1"
    using assms(2) by (auto simp: metrics_query_def g)
  have "sql_params ('' FROM metrics '' @ where_clause cs @ ('' '' @ grp @ '' ORDER BY 1 ASC LIMIT '') @ placeholder (length b + 1) @ [])
      = Some (nums 0 (length b + 1))"
    by (rule statement_params [OF w]) (use sel(2) in \<open>simp_all add: plain_sql_def breaks_def is_ascii_digit_def\<close>)
  then show ?thesis using sel(1) sql by (simp add: neutral_def)
qed

text \<open>
  Every query on the metrics database, with any service, time bounds, bucket width and limit,
  and with or without a filter in the search language, has exactly the parameters 1 to n for its n
  bound values, in order.
\<close>

lemma metric_query_parameters:
  assumes "Some (sql, bind) = Some (query_history service since limit bucket_ms before_ts) \<or>
      dsl_parse rnd monitor_query_dsl input 0 = Ok frag \<and>
      query_filtered service since' limit frag bucket_ms after_ts before_ts = Some (sql, bind)"
    and "length bind \<le> 2 ^ 64"
  shows "sql_params sql = Some [1..<length bind + 1]"
proof -
  have "sql_params sql = Some (nums 0 (length bind))"
  proof (cases "query_history service since limit bucket_ms before_ts = (sql, bind)")
    case True
    let ?h = "bind_optional ''timestamp <= '' (map_option BindInt before_ts)
      (bind_optional ''service = '' (map_option BindText service) ([''timestamp >= ?1''], [BindInt since]))"
    have "bound ([''timestamp >= ?1''], [BindInt since])"
    proof -
      have "sql_params ''timestamp >= ?1'' = Some [1]" by code_simp
      with more_condition [OF no_condition, of "''timestamp >= ?1''" "[1]"] show ?thesis
        by (simp add: bound_def has_params_iff)
    qed
    then have "bound ?h"
      by (intro bound_optional) (simp_all add: plain_sql_def)
    then have "bound (fst ?h, snd ?h)" by simp
    with True metrics_query_params show ?thesis unfolding query_history_def Let_def by blast
  next
    case False
    with assms(1) obtain input where f: "dsl_parse rnd monitor_query_dsl input 0 = Ok frag"
      and q: "query_filtered service since' limit frag bucket_ms after_ts before_ts = Some (sql, bind)" by auto
    let ?st = "bind_optional ''timestamp <= '' (map_option BindInt before_ts)
      (bind_optional ''timestamp >= '' (map_option BindInt after_ts)
        (bind_optional ''timestamp >= '' (map_option BindInt since')
          (bind_optional ''service = '' (map_option BindText service) ([], []))))"
    from q obtain cs b where st: "filter_condition frag ?st = Some (cs, b)"
      and m: "metrics_query bucket_ms limit cs b = (sql, bind)"
      unfolding query_filtered_def Let_def by auto
    from dsl_parse_numbered [OF plain_monitor_schema f] obtain c where num: "numbered 0 frag c" ..
    have "bound ?st" by (intro bound_optional) (simp_all add: plain_sql_def bound_empty)
    moreover have "length b < length bind" using m by (auto simp: metrics_query_def split_def Let_def)
    ultimately have "bound (cs, b)" using bound_filter [OF num _ st] assms(2) by simp
    from metrics_query_params [OF this m] show ?thesis ..
  qed
  then show ?thesis by (simp add: nums_def)
qed

lemma metric_query_parameters_example:
  "\<exists>f sql bind. dsl_parse F64 monitor_query_dsl ''@cpu_percent:>50 AND @service:web'' 0 = Ok f \<and>
     query_filtered None None None f (Some 1000) None None = Some (sql, bind) \<and> length bind = 3 \<and>
     sql_params sql = Some [1, 2, 3]"
proof -
  have "case dsl_parse F64 monitor_query_dsl ''@cpu_percent:>50 AND @service:web'' 0 of Inl _ \<Rightarrow> False
      | Inr f \<Rightarrow> length (sf_params f) = 2"
    by code_simp
  then obtain f where f: "dsl_parse F64 monitor_query_dsl ''@cpu_percent:>50 AND @service:web'' 0 = Ok f"
      "length (sf_params f) = 2"
    by (auto split: sum.splits)
  obtain sql bind where q: "query_filtered None None None f (Some 1000) None None = Some (sql, bind)" "length bind = 3"
    by (simp add: query_filtered_def bind_optional_def filter_condition_def sql_with_offset_def f(2) metrics_query_def
        split_def Let_def)
  from metric_query_parameters [of sql bind None 0 None "Some 1000" None F64
      "''@cpu_percent:>50 AND @service:web''" f None None] f q
  show ?thesis by (simp add: upt_rec)
qed

lemma shift_number_eq:
  assumes "cs \<noteq> []" "is_ascii_digit (hd cs)"
  shows "shift_placeholders off (CHR ''?'' # cs) =
    (case parse_unsigned 64 (takeWhile is_ascii_digit cs) of None \<Rightarrow> None
     | Some n \<Rightarrow> map_option (\<lambda>r. placeholder ((n + off) mod 2 ^ 64) @ r)
         (shift_placeholders off (dropWhile is_ascii_digit cs)))"
  using assms by (subst shift_placeholders.simps) simp

lemma show_nat_digit: "n < 10 \<Longrightarrow> show_nat n = [digit_char n]"
  by (subst show_nat.simps) simp

lemma digit_char_two: "digit_char (Suc (Suc 0)) = CHR ''2''"
  by code_simp

lemma dsl_attribute_query:
  "dsl_parse F64 log_query_dsl ''@a?1:x'' 0 =
     Ok \<lparr>sf_sql = ''json_extract(attributes, '' @ CHR 0x27 # ''$.a?1'' @ CHR 0x27 # '') = ?1'', sf_params = [SqlText ''x'']\<rparr>"
  "dsl_parse F64 log_query_dsl ''@a?18446744073709551616:x'' 0 =
     Ok \<lparr>sf_sql = ''json_extract(attributes, '' @ CHR 0x27 # ''$.a?18446744073709551616'' @ CHR 0x27 # '') = ?1'',
          sf_params = [SqlText ''x'']\<rparr>"
  by code_simp+

text \<open>
  Placing a fragment behind other parameters also rewrites a question mark with a number inside a
  string literal: a search on the attribute \<^verbatim>\<open>a?1\<close> behind one other parameter searches the attribute
  \<^verbatim>\<open>a?2\<close>, and a number beyond 64 bits there panics.
\<close>

lemma offset_changes_attribute_name:
  "map_option (\<lambda>f. sql_with_offset f 1) (res_ok (dsl_parse F64 log_query_dsl ''@a?1:x'' 0)) =
     Some (Some (''json_extract(attributes, '' @ CHR 0x27 # ''$.a?2'' @ CHR 0x27 # '') = ?2'')) \<and>
   map_option (\<lambda>f. sql_with_offset f 1) (res_ok (dsl_parse F64 log_query_dsl ''@a?18446744073709551616:x'' 0)) = Some None"
  by (simp add: dsl_attribute_query res_ok_def sql_with_offset_def shift_Cons shift_number_eq byte_as_char_def
      is_ascii_digit_def parse_unsigned_def digit_val_def placeholder_def show_nat_digit digit_char_two)

subsection \<open>Patterns\<close>

text \<open>
  The documented wildcards of the language on ASCII texts: a star stands for any characters, a
  question mark for one, and letters match in either case.
\<close>

fun suffixes_of :: "string \<Rightarrow> string list" where
  "suffixes_of [] = [[]]"
| "suffixes_of (c # s) = (c # s) # suffixes_of s"

fun wildcard_match :: "string \<Rightarrow> string \<Rightarrow> bool" where
  "wildcard_match [] t = (t = [])"
| "wildcard_match (c # p) t =
     (if c = CHR ''*'' then list_ex (wildcard_match p) (suffixes_of t)
      else (case t of [] \<Rightarrow> False | d # t' \<Rightarrow> (c = CHR ''?'' \<or> lower_char c = lower_char d) \<and> wildcard_match p t'))"

definition ascii_text :: "string \<Rightarrow> bool" where
  "ascii_text t = list_all (\<lambda>c. (of_char c :: nat) < 128) t"

text \<open>What SQLite documents of LIKE with a backslash as escape character.\<close>

definition like_laws :: "(string \<Rightarrow> string \<Rightarrow> bool) \<Rightarrow> bool" where
  "like_laws like \<longleftrightarrow> (\<forall>t. ascii_text t \<longrightarrow>
     like [] t = (t = []) \<and>
     (\<forall>p. like (CHR ''%'' # p) t = (\<exists>v \<in> set (suffixes_of t). like p v)) \<and>
     (\<forall>p. like (CHR ''_'' # p) t = (\<exists>d v. t = d # v \<and> like p v)) \<and>
     (\<forall>c p. like (CHR 0x5C # c # p) t = (\<exists>d v. t = d # v \<and> lower_char c = lower_char d \<and> like p v)) \<and>
     (\<forall>c p. c \<noteq> CHR ''%'' \<and> c \<noteq> CHR ''_'' \<and> c \<noteq> CHR 0x5C \<longrightarrow>
       like (c # p) t = (\<exists>d v. t = d # v \<and> lower_char c = lower_char d \<and> like p v)))"

lemma like_lawsD:
  assumes "like_laws like" "ascii_text t"
  shows "like [] t = (t = [])"
    "like (CHR ''%'' # p) t = (\<exists>v \<in> set (suffixes_of t). like p v)"
    "like (CHR ''_'' # p) t = (\<exists>d v. t = d # v \<and> like p v)"
    "like (CHR 0x5C # c # p) t = (\<exists>d v. t = d # v \<and> lower_char c = lower_char d \<and> like p v)"
    "c \<noteq> CHR ''%'' \<Longrightarrow> c \<noteq> CHR ''_'' \<Longrightarrow> c \<noteq> CHR 0x5C \<Longrightarrow>
       like (c # p) t = (\<exists>d v. t = d # v \<and> lower_char c = lower_char d \<and> like p v)"
proof -
  note laws = assms(1) [unfolded like_laws_def, THEN spec, THEN mp, OF assms(2)]
  show "like [] t = (t = [])" using laws by (elim conjE)
  show "like (CHR ''%'' # p) t = (\<exists>v \<in> set (suffixes_of t). like p v)" using laws by (elim conjE) (erule spec)
  show "like (CHR ''_'' # p) t = (\<exists>d v. t = d # v \<and> like p v)" using laws by (elim conjE) (erule spec)
  show "like (CHR 0x5C # c # p) t = (\<exists>d v. t = d # v \<and> lower_char c = lower_char d \<and> like p v)"
    using laws by (elim conjE) (erule allE, erule spec)
  assume "c \<noteq> CHR ''%''" "c \<noteq> CHR ''_''" "c \<noteq> CHR 0x5C"
  then show "like (c # p) t = (\<exists>d v. t = d # v \<and> lower_char c = lower_char d \<and> like p v)"
    using laws by (elim conjE) (drule spec [of _ c], drule spec [of _ p], simp)
qed

lemma suffixes_ascii: "ascii_text t \<Longrightarrow> v \<in> set (suffixes_of t) \<Longrightarrow> ascii_text v"
  by (induction t) (auto simp: ascii_text_def)

lemma wildcard_to_like_simps [simp]:
  "wildcard_to_like [] = []"
  "wildcard_to_like (c # p) = (if c = CHR ''*'' then ''%'' else if c = CHR ''?'' then ''_''
     else if c = CHR 0x5C \<or> c = CHR ''%'' \<or> c = CHR ''_'' then [CHR 0x5C, c] else [c]) @ wildcard_to_like p"
  by (simp_all add: wildcard_to_like_def)

text \<open>
  With LIKE as SQLite documents it, the pattern made from a search value matches an ASCII text
  exactly when the wildcards of the search language do.
\<close>

lemma wildcard_to_like_correct:
  assumes "like_laws like" "ascii_text t"
  shows "like (wildcard_to_like p) t = wildcard_match p t"
  using assms(2)
proof (induction p arbitrary: t)
  case Nil
  then show ?case using like_lawsD(1) [OF assms(1)] by simp
next
  case (Cons c p)
  have IH: "ascii_text v \<Longrightarrow> like (wildcard_to_like p) v = wildcard_match p v" for v by (rule Cons.IH)
  have tl: "t = d # v \<Longrightarrow> ascii_text v" for d v using Cons.prems by (simp add: ascii_text_def)
  note law = like_lawsD [OF assms(1)]
  consider "c = CHR ''*''" | "c = CHR ''?''" | "c = CHR 0x5C \<or> c = CHR ''%'' \<or> c = CHR ''_''"
    | "c \<noteq> CHR ''*''" "c \<noteq> CHR ''?''" "c \<noteq> CHR 0x5C" "c \<noteq> CHR ''%''" "c \<noteq> CHR ''_''" by blast
  then show ?case
  proof cases
    case 1
    with IH suffixes_ascii [OF Cons.prems] Cons.prems show ?thesis by (simp add: law list_ex_iff)
  next
    case 2
    with IH tl Cons.prems show ?thesis by (cases t) (simp_all add: law)
  next
    case 3
    then have "wildcard_to_like (c # p) = CHR 0x5C # c # wildcard_to_like p" "c \<noteq> CHR ''*''" "c \<noteq> CHR ''?''" by auto
    with IH tl Cons.prems show ?thesis by (cases t) (simp_all add: law del: wildcard_to_like_simps)
  next
    case 4
    then have "wildcard_to_like (c # p) = c # wildcard_to_like p" by simp
    with 4 IH tl Cons.prems show ?thesis by (cases t) (simp_all add: law del: wildcard_to_like_simps)
  qed
qed

fun like_example :: "string \<Rightarrow> string \<Rightarrow> bool" where
  "like_example [] t = (t = [])"
| "like_example (c # p) t =
     (if c = CHR ''%'' then list_ex (like_example p) (suffixes_of t)
      else if c = CHR ''_'' then (case t of [] \<Rightarrow> False | d # v \<Rightarrow> like_example p v)
      else if c = CHR 0x5C then
        (case p of [] \<Rightarrow> False
         | e # q \<Rightarrow> (case t of [] \<Rightarrow> False | d # v \<Rightarrow> lower_char e = lower_char d \<and> like_example q v))
      else (case t of [] \<Rightarrow> False | d # v \<Rightarrow> lower_char c = lower_char d \<and> like_example p v))"

lemma like_example_laws: "like_laws like_example"
  unfolding like_laws_def by (auto simp: list_ex_iff split: list.splits)

lemma like_text_examples:
  "ascii_text ''10% of Root''" "ascii_text ''100 of Root''"
  "wildcard_match ''10%*r??t'' ''10% of Root''" "\<not> wildcard_match ''10%*r??t'' ''100 of Root''"
  by code_simp+

lemma wildcard_to_like_correct_example:
  "like_example (wildcard_to_like ''10%*r??t'') ''10% of Root'' \<and>
   \<not> like_example (wildcard_to_like ''10%*r??t'') ''100 of Root''"
  using wildcard_to_like_correct [OF like_example_laws, of "''10% of Root''" "''10%*r??t''"]
    wildcard_to_like_correct [OF like_example_laws, of "''100 of Root''" "''10%*r??t''"]
    like_text_examples by simp

end
