(* ===== verification/Log_Stream.thy ===== *)
theory Log_Stream
  imports Query_Safety
begin

text \<open>
  Reading logs in pages: the reader of the log database (\<^verbatim>\<open>kepler-daemon/src/logs/log_reader.rs\<close>), the
  daemon's answer to a \<^verbatim>\<open>LogsStream\<close> request (\<^verbatim>\<open>main.rs\<close>), and the loop of the client that follows the
  pages (\<^verbatim>\<open>stream_logs\<close> of \<^verbatim>\<open>kepler-cli/src/main.rs\<close>). SQLite is a parameter, the record \<open>log_db\<close>:
  whether the file opens, and the answer to a statement with its bound values. A panic of the query
  builder is the value \<open>None\<close>.
\<close>

subsection \<open>The reader\<close>

record log_line =
  ll_id :: int
  ll_service :: string
  ll_line :: string
  ll_timestamp :: int
  ll_level :: string
  ll_hook :: "string option"
  ll_attributes :: "string option"

type_synonym statement = "string \<times> bind_value list"

record log_db =
  db_opens :: bool
  db_lines :: "statement \<Rightarrow> (string, log_line list) result"
  db_first_id :: "statement \<Rightarrow> (string, int) result"
  db_max_id :: "(string, int) result"

definition query_or_empty :: "log_db \<Rightarrow> statement \<Rightarrow> log_line list" where
  "query_or_empty db q = (case db_lines db q of Inr entries \<Rightarrow> entries | Inl _ \<Rightarrow> [])"

definition reader_tail ::
    "log_db \<Rightarrow> nat \<Rightarrow> string list \<Rightarrow> bool \<Rightarrow> sql_fragment option \<Rightarrow> int option \<Rightarrow> int option \<Rightarrow> log_line list option" where
  "reader_tail db count services no_hooks flt after_ts before_ts =
     (if checked_filter flt \<noteq> Ok () \<or> \<not> db_opens db then Some []
      else map_option (query_or_empty db) (tail_query count services no_hooks flt after_ts before_ts))"

definition reader_head ::
    "log_db \<Rightarrow> nat \<Rightarrow> string list \<Rightarrow> bool \<Rightarrow> sql_fragment option \<Rightarrow> int option \<Rightarrow> int option \<Rightarrow> log_line list option" where
  "reader_head db count services no_hooks flt after_ts before_ts =
     (if checked_filter flt \<noteq> Ok () \<or> \<not> db_opens db then Some []
      else map_option (query_or_empty db) (head_query count services no_hooks flt after_ts before_ts))"

fun within_budget :: "nat \<Rightarrow> nat \<Rightarrow> log_line list \<Rightarrow> log_line list" where
  "within_budget budget used [] = []"
| "within_budget budget used (e # es) =
     (let used' = used + length (ll_line e) + length (ll_service e) + 32
      in if used' \<le> budget then e # within_budget budget used' es else [])"

definition tail_bounded ::
    "log_db \<Rightarrow> nat \<Rightarrow> string list \<Rightarrow> nat option \<Rightarrow> bool \<Rightarrow> sql_fragment option \<Rightarrow> int option \<Rightarrow> int option \<Rightarrow> log_line list option" where
  "tail_bounded db count services max_bytes no_hooks flt after_ts before_ts =
     map_option (\<lambda>entries. case max_bytes of Some budget \<Rightarrow> within_budget budget 0 entries | None \<Rightarrow> entries)
       (reader_tail db count services no_hooks flt after_ts before_ts)"

definition tail_start_id ::
    "log_db \<Rightarrow> nat \<Rightarrow> string list \<Rightarrow> bool \<Rightarrow> sql_fragment option \<Rightarrow> int option \<Rightarrow> int option
     \<Rightarrow> (filter_error, int option) result option" where
  "tail_start_id db count services no_hooks flt after_ts before_ts =
     (if count = 0 then Some (Ok None)
      else case checked_filter flt of
        Inl e \<Rightarrow> Some (Err e)
      | Inr _ \<Rightarrow>
          if \<not> db_opens db then Some (Ok None)
          else map_option (\<lambda>q. Ok (res_ok (db_first_id db q)))
                 (tail_start_id_query count services no_hooks flt after_ts before_ts))"

definition reader_after ::
    "log_db \<Rightarrow> int \<Rightarrow> nat \<Rightarrow> string list \<Rightarrow> bool \<Rightarrow> sql_fragment option \<Rightarrow> int option \<Rightarrow> int option
     \<Rightarrow> (filter_error, log_line list \<times> bool) result option" where
  "reader_after db after_id limit services no_hooks flt after_ts before_ts = (case checked_filter flt of
      Inl e \<Rightarrow> Some (Err e)
    | Inr _ \<Rightarrow>
        if \<not> db_opens db then Some (Ok ([], False))
        else map_option (\<lambda>q. let entries = query_or_empty db q in Ok (take limit entries, length entries > limit))
               (after_query after_id limit services no_hooks flt after_ts before_ts))"

definition max_id :: "log_db \<Rightarrow> int" where
  "max_id db = (if \<not> db_opens db then 0 else case db_max_id db of Inr i \<Rightarrow> i | Inl _ \<Rightarrow> 0)"

subsection \<open>The answer of the daemon\<close>

definition STREAM_CHUNK_SIZE :: nat where
  "STREAM_CHUNK_SIZE = 5000"

record stream_log_entry =
  se_id :: int
  se_service_id :: "16 word"
  se_line :: string
  se_timestamp :: int
  se_level :: string
  se_hook :: "string option"
  se_attributes :: "string option"

record log_stream_data =
  ls_service_table :: "string list"
  ls_entries :: "stream_log_entry list"
  ls_last_id :: int
  ls_has_more :: bool

text \<open>Raw entries have only their position and their line.\<close>

definition raw_entry :: "log_line \<Rightarrow> stream_log_entry" where
  "raw_entry l = \<lparr>se_id = ll_id l, se_service_id = 0, se_line = ll_line l, se_timestamp = 0, se_level = [],
     se_hook = None, se_attributes = None\<rparr>"

text \<open>A service gets the next number of the table when it is first met, cut to 16 bits.\<close>

definition service_number :: "string list \<times> (string \<rightharpoonup> 16 word) \<Rightarrow> string \<Rightarrow> 16 word \<times> string list \<times> (string \<rightharpoonup> 16 word)" where
  "service_number st s = (case st of (service_table, service_map) \<Rightarrow>
     (case service_map s of
        Some ident \<Rightarrow> (ident, service_table, service_map)
      | None \<Rightarrow> let ident = of_nat (length service_table)
                in (ident, service_table @ [s], service_map(s \<mapsto> ident))))"

fun compact_entries ::
    "string list \<times> (string \<rightharpoonup> 16 word) \<Rightarrow> log_line list \<Rightarrow> stream_log_entry list \<times> string list" where
  "compact_entries st [] = ([], fst st)"
| "compact_entries st (l # ls) =
     (let (ident, st') = service_number st (ll_service l); (es, table) = compact_entries st' ls
      in (\<lparr>se_id = ll_id l, se_service_id = ident, se_line = ll_line l, se_timestamp = ll_timestamp l,
           se_level = ll_level l, se_hook = ll_hook l, se_attributes = ll_attributes l\<rparr> # es, table))"

text \<open>The error of a filter is represented by the first words of its message.\<close>

datatype stream_response = StreamOk log_stream_data | StreamDenied | StreamError string | StreamOther

record stream_request =
  sr_services :: "string list"
  sr_after_id :: "int option"
  sr_from_end :: bool
  sr_limit :: nat
  sr_no_hooks :: bool
  sr_filter :: "string option"
  sr_sql :: bool
  sr_raw :: bool
  sr_tail :: bool
  sr_after_ts :: "int option"
  sr_before_ts :: "int option"

definition stream_filter :: "(rat \<Rightarrow> f64) \<Rightarrow> stream_request \<Rightarrow> (query_error, sql_fragment option) result" where
  "stream_filter rnd q = (case sr_filter q of
      Some f \<Rightarrow> if \<not> sr_sql q then bind_res (dsl_parse rnd log_query_dsl f 0) (\<lambda>frag. Ok (Some frag))
               else Ok (Some (fragment_raw f))
    | None \<Rightarrow> Ok None)"

text \<open>
  The position to read from: in a tail request just before the first entry of the window, otherwise
  the given cursor, the end of the log, or its start.
\<close>

definition effective_after_id ::
    "log_db \<Rightarrow> sql_fragment option \<Rightarrow> stream_request \<Rightarrow> (filter_error, int) result option" where
  "effective_after_id db flt q =
     (if sr_tail q
      then map_option (\<lambda>r. bind_res r (\<lambda>start. Ok (case start of Some start_id \<Rightarrow> start_id - 1 | None \<Rightarrow> 0)))
             (tail_start_id db (sr_limit q) (sr_services q) (sr_no_hooks q) flt (sr_after_ts q) (sr_before_ts q))
      else Some (Ok (case sr_after_id q of Some i \<Rightarrow> i | None \<Rightarrow> if sr_from_end q then max_id db else 0)))"

definition read_page ::
    "log_db \<Rightarrow> bool \<Rightarrow> sql_fragment option \<Rightarrow> stream_request \<Rightarrow> (filter_error, log_line list \<times> bool \<times> int) result option" where
  "read_page db has_pending flt q = Option.bind (effective_after_id db flt q) (\<lambda>r. case r of
      Inl e \<Rightarrow> Some (Err e)
    | Inr position \<Rightarrow>
        map_option (\<lambda>r. bind_res r (\<lambda>(entries, more).
            Ok (entries, more \<or> has_pending, if entries = [] then position else ll_id (last entries))))
          (reader_after db position (min (sr_limit q) STREAM_CHUNK_SIZE) (sr_services q) (sr_no_hooks q) flt
             (sr_after_ts q) (sr_before_ts q)))"

definition stream_data :: "bool \<Rightarrow> log_line list \<Rightarrow> bool \<Rightarrow> int \<Rightarrow> log_stream_data" where
  "stream_data raw entries has_more last_id =
     (if raw then \<lparr>ls_service_table = [], ls_entries = map raw_entry entries, ls_last_id = last_id, ls_has_more = has_more\<rparr>
      else case compact_entries ([], Map.empty) entries of (es, table) \<Rightarrow>
        \<lparr>ls_service_table = table, ls_entries = es, ls_last_id = last_id, ls_has_more = has_more\<rparr>)"

definition logs_stream :: "(rat \<Rightarrow> f64) \<Rightarrow> log_db \<Rightarrow> bool \<Rightarrow> stream_request \<Rightarrow> stream_response option" where
  "logs_stream rnd db has_pending q = (case stream_filter rnd q of
      Inl _ \<Rightarrow> Some (StreamError ''invalid filter'')
    | Inr flt \<Rightarrow> map_option (\<lambda>r. case r of
          Inl _ \<Rightarrow> StreamError ''invalid filter''
        | Inr (entries, has_more, last_id) \<Rightarrow> StreamOk (stream_data (sr_raw q) entries has_more last_id))
        (read_page db has_pending flt q))"

subsection \<open>The loop of the client\<close>

datatype stream_mode = All | Follow | UntilQuiescent

datatype stream_exit = Done | ShutdownRequested | ServerError | PermissionDenied

record stream_params =
  sp_services :: "string list"
  sp_no_hooks :: bool
  sp_mode :: stream_mode
  sp_limit :: nat
  sp_filter :: "string option"
  sp_sql :: bool
  sp_raw :: bool
  sp_tail :: bool
  sp_max_total :: "nat option"
  sp_start_after_id :: "int option"

definition MAX_FLUSH_WAITS :: nat where
  "MAX_FLUSH_WAITS = 80"

record stream_state =
  st_last_id :: "int option"
  st_quiescent :: bool
  st_remaining :: "nat option"
  st_flush_waits :: nat
  st_batches :: "(string list \<times> stream_log_entry list) list"

definition stream_init :: "stream_params \<Rightarrow> stream_state" where
  "stream_init p = \<lparr>st_last_id = sp_start_after_id p, st_quiescent = False, st_remaining = sp_max_total p,
     st_flush_waits = 0, st_batches = []\<rparr>"

text \<open>Only the first request is a tail request, and none asks for more than may still be printed.\<close>

definition next_request :: "stream_params \<Rightarrow> stream_state \<Rightarrow> stream_request" where
  "next_request p st =
     (let tail_request = (sp_tail p \<and> st_last_id st = None)
      in \<lparr>sr_services = sp_services p, sr_after_id = st_last_id st,
          sr_from_end = (sp_mode p = Follow \<and> st_last_id st = None),
          sr_limit = (case st_remaining st of
              Some n \<Rightarrow> if \<not> tail_request then min n (sp_limit p) else sp_limit p
            | None \<Rightarrow> sp_limit p),
          sr_no_hooks = sp_no_hooks p, sr_filter = sp_filter p, sr_sql = sp_sql p, sr_raw = sp_raw p,
          sr_tail = tail_request, sr_after_ts = None, sr_before_ts = None\<rparr>)"

text \<open>How the wait for the answer ends, and what the loop does next.\<close>

datatype attempt = AtShutdown | AtTimeout | AtDisconnected | AtResponse stream_response

datatype next_action = Leave stream_exit | Retry | AwaitFlush | AwaitLoaded | AwaitLogs | PollShutdown

text \<open>The entries of an answer: those still owed are printed, and the cursor moves.\<close>

definition take_batch :: "log_stream_data \<Rightarrow> stream_state \<Rightarrow> stream_state \<times> stream_log_entry list \<times> bool" where
  "take_batch ls st =
     (let entries = (case st_remaining st of Some n \<Rightarrow> take n (ls_entries ls) | None \<Rightarrow> ls_entries ls);
          exhausted = (case st_remaining st of Some n \<Rightarrow> length entries = n | None \<Rightarrow> False)
      in (st\<lparr>st_last_id := Some (ls_last_id ls),
             st_remaining := map_option (\<lambda>n. n - length entries) (st_remaining st),
             st_batches := st_batches st @ (if entries = [] then [] else [(ls_service_table ls, entries)])\<rparr>,
          entries, exhausted))"

definition mode_action :: "stream_params \<Rightarrow> bool \<Rightarrow> bool \<Rightarrow> stream_state \<Rightarrow> stream_state \<times> next_action" where
  "mode_action p has_more_data pending_flush st =
     (if sp_mode p = All then
        (if \<not> has_more_data then
           (if pending_flush \<and> st_flush_waits st < MAX_FLUSH_WAITS
            then (st\<lparr>st_flush_waits := st_flush_waits st + 1\<rparr>, AwaitFlush)
            else (st, Leave Done))
         else (st\<lparr>st_flush_waits := 0\<rparr>, Retry))
      else if st_quiescent st \<and> \<not> has_more_data then (st, Leave Done)
      else if has_more_data then (st, PollShutdown)
      else (st, AwaitLogs))"

definition stream_iteration :: "stream_params \<Rightarrow> attempt \<Rightarrow> stream_state \<Rightarrow> stream_state \<times> next_action" where
  "stream_iteration p got st = (case got of
      AtShutdown \<Rightarrow> (st, Leave ShutdownRequested)
    | AtTimeout \<Rightarrow> (st, Retry)
    | AtDisconnected \<Rightarrow> (st, Leave Done)
    | AtResponse (StreamOk ls) \<Rightarrow>
        (case take_batch ls st of (st', entries, exhausted) \<Rightarrow>
           if exhausted then (st', Leave Done)
           else mode_action p (ls_has_more ls \<and> entries \<noteq> []) (ls_has_more ls \<and> entries = []) st')
    | AtResponse StreamDenied \<Rightarrow> (st, Leave PermissionDenied)
    | AtResponse (StreamError message) \<Rightarrow>
        if message = ''Config not loaded'' then
          (if sp_mode p = UntilQuiescent then (if st_quiescent st then (st, Leave Done) else (st, AwaitLoaded))
           else (st, Leave Done))
        else (st, Leave ServerError)
    | AtResponse StreamOther \<Rightarrow> mode_action p False False st)"

text \<open>What ends a wait; quiescence is waited for only while it has not been seen.\<close>

datatype wake = WakeShutdown | WakeQuiescence | WakeOther

definition after_wait :: "next_action \<Rightarrow> wake \<Rightarrow> stream_state \<Rightarrow> stream_state \<times> next_action" where
  "after_wait act w st = (case w of
      WakeShutdown \<Rightarrow> (st, Leave ShutdownRequested)
    | WakeQuiescence \<Rightarrow> if act = AwaitLoaded \<or> act = AwaitLogs then (st\<lparr>st_quiescent := True\<rparr>, Retry) else (st, Retry)
    | WakeOther \<Rightarrow> (st, Retry))"

text \<open>The loop in the mode \<^verbatim>\<open>All\<close> against a server that answers; waits for a flush end by themselves.\<close>

partial_function (option) stream_all ::
    "(stream_request \<Rightarrow> stream_response) \<Rightarrow> stream_params \<Rightarrow> stream_state \<Rightarrow> (stream_exit \<times> stream_state) option" where
  "stream_all serve p st = (case stream_iteration p (AtResponse (serve (next_request p st))) st of
      (st', act) \<Rightarrow> (case act of Leave r \<Rightarrow> Some (r, st') | _ \<Rightarrow> stream_all serve p st'))"

text \<open>What is written for a batch: the name of a service is looked up in the table of its batch.\<close>

definition entry_line :: "string list \<Rightarrow> stream_log_entry \<Rightarrow> log_line option" where
  "entry_line service_table e = (if unat (se_service_id e) < length service_table
     then Some \<lparr>ll_id = se_id e, ll_service = service_table ! unat (se_service_id e), ll_line = se_line e,
        ll_timestamp = se_timestamp e, ll_level = se_level e, ll_hook = se_hook e, ll_attributes = se_attributes e\<rparr>
     else None)"

definition printed :: "stream_state \<Rightarrow> log_line option list" where
  "printed st = concat (map (\<lambda>(table, es). map (entry_line table) es) (st_batches st))"

text \<open>The parameters of \<^verbatim>\<open>kepler logs\<close>: a count from \<^verbatim>\<open>--head\<close> or \<^verbatim>\<open>--tail\<close> is a total unless following.\<close>

definition MAX_STREAM_BATCH_SIZE :: nat where
  "MAX_STREAM_BATCH_SIZE = 50000"

definition logs_window :: "nat option \<Rightarrow> nat option \<Rightarrow> bool \<times> nat option" where
  "logs_window head tail = (case head of Some n \<Rightarrow> (False, Some n)
    | None \<Rightarrow> (case tail of Some n \<Rightarrow> (True, Some n) | None \<Rightarrow> (False, None)))"

definition handle_logs_params ::
    "string list \<Rightarrow> bool \<Rightarrow> nat option \<Rightarrow> bool \<Rightarrow> bool \<Rightarrow> bool \<Rightarrow> string option \<Rightarrow> bool \<Rightarrow> int option \<Rightarrow> stream_params" where
  "handle_logs_params services follow lines tail no_hooks raw flt sql start_after_id =
     \<lparr>sp_services = services, sp_no_hooks = no_hooks, sp_mode = (if follow then UntilQuiescent else All),
      sp_limit = (case lines of Some n \<Rightarrow> n | None \<Rightarrow> MAX_STREAM_BATCH_SIZE), sp_filter = flt, sp_sql = sql,
      sp_raw = raw, sp_tail = tail, sp_max_total = (if follow then None else lines), sp_start_after_id = start_after_id\<rparr>"

end
