(* ===== verification/Request_Handler.thy ===== *)
theory Request_Handler
  imports Request_Gate Log_Stream
begin

text \<open>
  What the daemon does with a request that passed the authorization pipeline (the match of
  \<^verbatim>\<open>handle_request\<close> in \<^verbatim>\<open>kepler-daemon/src/main.rs\<close>, with the functions around it): the answers it gives
  from the state it has, and the operations it passes on to the orchestrator, the configuration actor
  and the databases, with all their arguments. Carrying out these operations is the part of other
  components; here an operation is a value. What is read from disk is the record \<open>disk\<close>, a parameter.
\<close>

subsection \<open>Phases shown to clients\<close>

datatype service_target = TargetStarted | TargetHealthy

datatype service_phase =
    PhPending service_target | PhWaiting | PhStarting | PhStarted | PhHealthy | PhRestarting | PhStopping | PhStopped
  | PhCleaning | PhCleaned | PhSkipped string | PhFailed string
  | PhHookStarted string | PhHookCompleted string | PhHookFailed string string

definition status_to_phase :: "service_state option \<Rightarrow> service_target \<Rightarrow> service_phase" where
  "status_to_phase state target = (case state of
      None \<Rightarrow> PhPending target
    | Some s \<Rightarrow> (case ss_status s of
          Waiting \<Rightarrow> PhWaiting
        | Starting \<Rightarrow> PhStarting
        | Running \<Rightarrow> PhStarted
        | Healthy \<Rightarrow> PhHealthy
        | Restarting \<Rightarrow> PhRestarting
        | Stopping \<Rightarrow> PhStopping
        | Stopped \<Rightarrow> PhStopped | Exited \<Rightarrow> PhStopped | Killed \<Rightarrow> PhStopped
        | Skipped \<Rightarrow> PhSkipped (case ss_skip_reason s of Some r \<Rightarrow> r | None \<Rightarrow> ''skipped'')
        | Failed \<Rightarrow> PhFailed (case ss_fail_reason s of Some r \<Rightarrow> r | None \<Rightarrow> ''failed'')
        | Unhealthy \<Rightarrow> PhFailed ''unhealthy''))"

definition phase_target :: "raw_service_config option \<Rightarrow> service_target" where
  "phase_target raw = (case raw of Some r \<Rightarrow> if has_healthcheck r then TargetHealthy else TargetStarted | None \<Rightarrow> TargetStarted)"

datatype server_event = SeProgress string service_phase | SeReady | SeQuiescent | SeUnhandledFailure string "int option"

definition in_filter :: "string list option \<Rightarrow> string \<Rightarrow> bool" where
  "in_filter services n = (case services of None \<Rightarrow> True | Some s \<Rightarrow> n \<in> set s)"

subsection \<open>Forwarding the events of a configuration\<close>

text \<open>
  A subscriber first gets the phase of every service, then the failures that were not handled before
  it subscribed, then the events as they come. The state of a service is asked for at each point, so
  it is an argument.
\<close>

definition snapshot_events ::
    "(string \<Rightarrow> service_state option) \<Rightarrow> services \<Rightarrow> string list option \<Rightarrow> server_event list" where
  "snapshot_events state_of svs services =
     map (\<lambda>(n, raw). SeProgress n (status_to_phase (state_of n) (phase_target (Some raw))))
       (filter (\<lambda>(n, _). in_filter services n) svs)"

definition replays_failure :: "(string \<Rightarrow> service_state option) \<Rightarrow> services \<Rightarrow> string \<Rightarrow> raw_service_config \<Rightarrow> bool" where
  "replays_failure state_of svs n raw = (case state_of n of
      None \<Rightarrow> False
    | Some s \<Rightarrow> is_failure (ss_status s) (ss_exit_code s)
        \<and> \<not> restart_follows (ss_status s) (ss_exit_code s) (static_restart raw)
        \<and> \<not> is_failure_handled n svs)"

definition replay_failures ::
    "(string \<Rightarrow> service_state option) \<Rightarrow> services \<Rightarrow> string list option \<Rightarrow> server_event list" where
  "replay_failures state_of svs services =
     map (\<lambda>(n, _). SeUnhandledFailure n (Option.bind (state_of n) ss_exit_code))
       (filter (\<lambda>(n, raw). in_filter services n \<and> replays_failure state_of svs n raw) svs)"

definition forward_event ::
    "(string \<Rightarrow> service_state option) \<Rightarrow> services \<Rightarrow> string list option \<Rightarrow> config_event \<Rightarrow> server_event list" where
  "forward_event state_of svs services ev = (case ev of
      StatusChange n _ \<Rightarrow>
        if in_filter services n then [SeProgress n (status_to_phase (state_of n) (phase_target (hm_get svs n)))] else []
    | EvReady \<Rightarrow> [SeReady]
    | EvQuiescent \<Rightarrow> [SeQuiescent]
    | UnhandledFailure n exit_code \<Rightarrow> [SeUnhandledFailure n exit_code])"

text \<open>The progress of a stop and of a restart: which services are shown, and how their changes are.\<close>

definition selected_services :: "services \<Rightarrow> string list \<Rightarrow> string list" where
  "selected_services svs services = (if services = [] then hm_keys svs else filter (hm_contains svs) services)"

definition stop_tracked :: "config_actor \<Rightarrow> string list \<Rightarrow> string list" where
  "stop_tracked a services = filter (\<lambda>n. case hm_get (ca_services a) n of Some s \<Rightarrow> is_active (ss_status s) | None \<Rightarrow> False)
     (selected_services (kc_services (ca_config a)) services)"

definition clean_targets :: "config_actor \<Rightarrow> bool \<Rightarrow> string list \<Rightarrow> string list" where
  "clean_targets a clean services = (if clean then
     filter (\<lambda>n. case hm_get (ca_services a) n of Some s \<Rightarrow> ss_status s \<noteq> Skipped \<and> ss_status s \<noteq> Waiting | None \<Rightarrow> True)
       (selected_services (kc_services (ca_config a)) services) else [])"

definition stop_progress :: "bool \<Rightarrow> string list \<Rightarrow> string \<Rightarrow> service_status \<Rightarrow> server_event list" where
  "stop_progress clean tracked n status =
     (if n \<notin> set tracked \<or> clean \<and> status = Stopped then []
      else case status of
        Stopping \<Rightarrow> [SeProgress n PhStopping]
      | Stopped \<Rightarrow> [SeProgress n PhStopped]
      | _ \<Rightarrow> [])"

definition restart_tracked :: "config_actor \<Rightarrow> string list \<Rightarrow> restart_state list \<Rightarrow> string list" where
  "restart_tracked a services states = filter (\<lambda>n. case hm_get (ca_services a) n of
      Some s \<Rightarrow> ss_initialized s \<and> (is_running (ss_status s) \<or> list_ex (\<lambda>x. state_includes x (status_as_str (ss_status s))) states)
    | None \<Rightarrow> False)
     (selected_services (kc_services (ca_config a)) services)"

definition restart_progress :: "(string \<Rightarrow> service_state option) \<Rightarrow> string list \<Rightarrow> string \<Rightarrow> service_status \<Rightarrow> server_event list" where
  "restart_progress state_of tracked n status =
     (if n \<notin> set tracked then []
      else case status of
        Waiting \<Rightarrow> [SeProgress n PhWaiting]
      | Restarting \<Rightarrow> [SeProgress n PhRestarting]
      | Stopping \<Rightarrow> [SeProgress n PhStopping]
      | Stopped \<Rightarrow> [SeProgress n PhStopped] | Exited \<Rightarrow> [SeProgress n PhStopped] | Killed \<Rightarrow> [SeProgress n PhStopped]
      | Skipped \<Rightarrow> [SeProgress n (PhSkipped (case Option.bind (state_of n) ss_skip_reason of Some r \<Rightarrow> r | None \<Rightarrow> ''skipped''))]
      | Starting \<Rightarrow> [SeProgress n PhStarting]
      | Running \<Rightarrow> [SeProgress n PhStarted]
      | Healthy \<Rightarrow> [SeProgress n PhHealthy]
      | Failed \<Rightarrow> [SeProgress n (PhFailed (case Option.bind (state_of n) ss_fail_reason of Some r \<Rightarrow> r | None \<Rightarrow> ''failed''))]
      | Unhealthy \<Rightarrow> [])"

subsection \<open>Inspection\<close>

definition MAX_OUTPUT_VALUE_LEN :: nat where
  "MAX_OUTPUT_VALUE_LEN = 512"

text \<open>A slice of a string must end at the start of a character; otherwise the slice panics, the value \<open>None\<close>.\<close>

definition is_char_boundary :: "string \<Rightarrow> nat \<Rightarrow> bool" where
  "is_char_boundary s i = (if i \<ge> length s then i = length s
     else (of_char (s ! i) :: nat) < 128 \<or> (of_char (s ! i) :: nat) \<ge> 192)"

definition truncate_output_value :: "string \<Rightarrow> string option" where
  "truncate_output_value v =
     (if length v > MAX_OUTPUT_VALUE_LEN
      then (if is_char_boundary v MAX_OUTPUT_VALUE_LEN then Some (take MAX_OUTPUT_VALUE_LEN v @ ''... (truncated)'') else None)
      else Some v)"

fun truncate_output_map :: "str_map \<Rightarrow> str_map option" where
  "truncate_output_map [] = Some []"
| "truncate_output_map ((k, v) # m) =
     Option.bind (truncate_output_value v) (\<lambda>v'. map_option ((#) (k, v')) (truncate_output_map m))"

record inspect_service =
  is_config :: "raw_service_config option"
  is_state :: "service_info option"
  is_outputs_path :: path
  is_process_outputs :: str_map
  is_hook_outputs :: "(string, (string, str_map) hmap) hmap"
  is_environment :: "env_map option"

record inspect_doc =
  in_config_path :: path
  in_config_hash :: string
  in_state_dir :: path
  in_kepler :: "kepler_global_config option"
  in_logs_degraded :: bool
  in_services :: "(string, inspect_service) hmap option"
  in_environment :: "env_map option option"
  in_flags :: "env_map option option"

text \<open>The log writer of a loaded configuration, as the handler sees it: its database, whether lines wait to
  be written, and whether writing keeps failing.\<close>

record log_store_info =
  lo_db_path :: path
  lo_has_pending :: bool
  lo_is_degraded :: bool

record disk =
  dk_snapshot :: "path \<Rightarrow> (string, expanded_config_snapshot option) result"
  dk_service_outputs :: "path \<Rightarrow> string \<Rightarrow> str_map"
  dk_hook_outputs :: "path \<Rightarrow> string \<Rightarrow> (string, (string, str_map) hmap) hmap"
  dk_log_store :: "path \<Rightarrow> log_store_info option"
  dk_log_db :: "path \<Rightarrow> log_db"
  dk_round :: "rat \<Rightarrow> f64"

fun map_values :: "('a \<Rightarrow> 'b option) \<Rightarrow> ('k \<times> 'a) list \<Rightarrow> ('k \<times> 'b) list option" where
  "map_values f [] = Some []"
| "map_values f ((k, v) # m) = Option.bind (f v) (\<lambda>v'. map_option ((#) (k, v')) (map_values f m))"

definition build_inspect_service ::
    "disk \<Rightarrow> string \<Rightarrow> raw_service_config option \<Rightarrow> service_info option \<Rightarrow> path \<Rightarrow> env_map option \<Rightarrow> inspect_service option" where
  "build_inspect_service dk name raw_config info state_dir resolved_env =
     Option.bind (truncate_output_map (dk_service_outputs dk state_dir name)) (\<lambda>process_json.
     map_option (\<lambda>hooks_json. \<lparr>is_config = raw_config, is_state = info,
         is_outputs_path = state_dir @ ''/outputs/'' @ name, is_process_outputs = process_json,
         is_hook_outputs = hooks_json, is_environment = resolved_env\<rparr>)
       (map_values (map_values truncate_output_map) (dk_hook_outputs dk state_dir name)))"

text \<open>The status of a configuration that is not loaded: nothing of it can be running.\<close>

definition persisted_info :: "persisted_service_state \<Rightarrow> service_info" where
  "persisted_info ps =
     (let status = restore_status (ps_status ps);
          (status, pid) = (if is_active status then (Stopped, None) else (status, ps_pid ps))
      in \<lparr>si_status = status_as_str status, si_pid = pid, si_started_at = ps_started_at ps, si_stopped_at = ps_stopped_at ps,
          si_health_check_failures = ps_health_check_failures ps, si_restart_count = ps_restart_count ps,
          si_exit_code = ps_exit_code ps, si_signal = ps_signal ps, si_initialized = ps_initialized ps,
          si_skip_reason = ps_skip_reason ps, si_fail_reason = ps_fail_reason ps\<rparr>)"

definition read_persisted_status :: "('v, 'k, 'f) daemon_env \<Rightarrow> path \<Rightarrow> (string, service_info) hmap" where
  "read_persisted_status env state_dir = (case de_load_state env state_dir of
      Inr (Some state) \<Rightarrow> map (\<lambda>(n, ps). (n, persisted_info ps)) (pc_services state)
    | _ \<Rightarrow> [])"

text \<open>The rights of the caller on a path, which decide what an inspection shows.\<close>

definition path_rights ::
    "('v, 'k, 'f) daemon_env \<Rightarrow> 'k auth_context \<Rightarrow> path \<Rightarrow> ('v, 'k) daemon \<Rightarrow> string set option \<times> ('v, 'k) daemon" where
  "path_rights env auth_ctx c d = (case hm_get (dm_registry d) c of
      Some handle \<Rightarrow> (Option.bind (res_ok (effective_rights (de_db env) auth_ctx (hd_owner_uid handle) (hd_acl handle))) (\<lambda>r. r), d)
    | None \<Rightarrow> (case compute_state_dir env c of
        Some state_dir \<Rightarrow> (case get_unloaded_acl_entry env state_dir (dm_acl_cache d) of
            (r, cache') \<Rightarrow> (Option.bind (res_ok r) (\<lambda>entry.
                Option.bind (res_ok (effective_rights (de_db env) auth_ctx (ue_owner_uid entry) (ue_acl entry))) (\<lambda>r. r)),
              d\<lparr>dm_acl_cache := cache'\<rparr>))
      | None \<Rightarrow> (None, d)))"

end
