(* ===== verification/Request_Dispatch.thy ===== *)
theory Request_Dispatch
  imports Request_Handler
begin

text \<open>
  The dispatch of an authorized request (the match of \<^verbatim>\<open>handle_request\<close> in
  \<^verbatim>\<open>kepler-daemon/src/main.rs\<close>), one definition per request, and \<open>serve\<close>, which puts the authorization
  pipeline in front of it. The outcome of a request is an answer, or an operation on the services, the
  databases or the daemon with all its arguments and the progress shown before it runs;
  \<open>finish_operation\<close> is what the daemon does when the operation has returned.
\<close>

subsection \<open>Answers and operations\<close>

datatype handler_error =
    ConfigNotFound path | CanonicalizeFailed path string
  | InvalidHardening string | UnknownSignal string
  | ConfigNotLoaded | NoStateDirectory | InvalidFilter query_error | LogFilterError string | MonitorQueryFailed
  | AuthFailed string | PathNotFound path
  | OperationFailed string

datatype denial = RootOnly | HardeningFloor string | NotReadable file_denial | NoRights acl_denial

record config_status =
  cs_config_path :: path
  cs_config_hash :: string
  cs_services :: "(string, service_info) hmap"
  cs_log_degraded :: bool

record loaded_config_info =
  li_config_path :: path
  li_config_hash :: string
  li_service_count :: nat
  li_running_count :: nat

record pruned_config_info =
  pi_config_path :: string
  pi_config_hash :: string
  pi_bytes_freed :: nat
  pi_status :: string

datatype response_data =
    RdServiceStatus "(string, service_info) hmap"
  | RdMultiConfigStatus "config_status list"
  | RdConfigList "loaded_config_info list"
  | RdLogStream log_stream_data
  | RdPrunedConfigs "pruned_config_info list"
  | RdInspect inspect_doc
  | RdCheckResult bool
  | RdUserRights "string set"
  | RdConfigOwner "nat option" bool

datatype response =
    RespOk "string option" "response_data option"
  | RespError handler_error
  | RespDenied denial

abbreviation ok_with_message :: "string \<Rightarrow> response" where
  "ok_with_message m \<equiv> RespOk (Some m) None"

abbreviation ok_with_data :: "response_data \<Rightarrow> response" where
  "ok_with_data x \<equiv> RespOk None (Some x)"

record start_args =
  sa_config_path :: path
  sa_services :: "string list"
  sa_sys_env :: "str_map option"
  sa_owner :: "nat \<times> nat"
  sa_no_deps :: bool
  sa_override_envs :: "str_map option"
  sa_hardening :: "hardening_level option"
  sa_permission_ceiling :: "string set option"
  sa_define_flags :: "str_map option"

datatype operation =
    \<comment> \<open>arguments, follow\<close>
    StartServices start_args bool
    \<comment> \<open>arguments, follow, start clean\<close>
  | RunServices start_args bool bool
    \<comment> \<open>arguments; a recreation starts all services with their dependencies\<close>
  | RecreateServices start_args
    \<comment> \<open>config path, services, clean, signal; the services tracked and those to clean; discard the logs first\<close>
  | StopServices path "string list" bool "int option" "string list" "string list" bool
    \<comment> \<open>config path, services, no deps, override envs, define flags, states; the services tracked\<close>
  | RestartServices path "string list" bool "str_map option" "str_map option" "restart_state list" "string list"
  | ShutdownDaemon
  | PruneAll bool bool
  | NotifyLogs path
  | AwaitConfig path "string list option"
    \<comment> \<open>state directory, statement\<close>
  | QueryMetrics path "string \<times> bind_value list"

datatype outcome = Respond response | Perform "server_event list" operation | Panic

subsection \<open>Helpers\<close>

definition canonicalize_config_path :: "('v, 'k, 'f) daemon_env \<Rightarrow> path \<Rightarrow> (handler_error, path) result" where
  "canonicalize_config_path env p = (case de_canonicalize env p of
      Inr c \<Rightarrow> Ok c
    | Inl IoNotFound \<Rightarrow> Err (ConfigNotFound p)
    | Inl (IoOther e) \<Rightarrow> Err (CanonicalizeFailed p e))"

definition parse_hardening :: "string option \<Rightarrow> (handler_error, hardening_level option) result" where
  "parse_hardening h = (case h of
      None \<Rightarrow> Ok None
    | Some s \<Rightarrow> bind_res (map_err InvalidHardening (hardening_from_str s)) (\<lambda>l. Ok (Some l)))"

definition permission_ceiling :: "'k auth_context \<Rightarrow> string set option" where
  "permission_ceiling auth_ctx = (case auth_ctx of AuthToken _ _ ctx \<Rightarrow> Some (tc_allow ctx) | _ \<Rightarrow> None)"

definition invalidate_acl :: "('v, 'k, 'f) daemon_env \<Rightarrow> path \<Rightarrow> ('v, 'k) daemon \<Rightarrow> ('v, 'k) daemon" where
  "invalidate_acl env c d = (case compute_state_dir env c of
      Some state_dir \<Rightarrow> d\<lparr>dm_acl_cache := (dm_acl_cache d)(state_dir := None)\<rparr>
    | None \<Rightarrow> d)"

text \<open>
  The upper case of a signal name. Besides the ASCII letters, the characters whose upper case is
  ASCII are a dotless i, a long s, a sharp s and the Latin ligatures; a name with any other character
  beyond ASCII keeps one, and so equals none of the names it is compared with.
\<close>

definition special_uppercase :: "nat list \<Rightarrow> (string \<times> nat) option" where
  "special_uppercase bs =
     (if take 2 bs = [196, 177] then Some (''I'', 2)
      else if take 2 bs = [197, 191] then Some (''S'', 2)
      else if take 2 bs = [195, 159] then Some (''SS'', 2)
      else if take 3 bs = [239, 172, 128] then Some (''FF'', 3)
      else if take 3 bs = [239, 172, 129] then Some (''FI'', 3)
      else if take 3 bs = [239, 172, 130] then Some (''FL'', 3)
      else if take 3 bs = [239, 172, 131] then Some (''FFI'', 3)
      else if take 3 bs = [239, 172, 132] then Some (''FFL'', 3)
      else if take 3 bs = [239, 172, 133] \<or> take 3 bs = [239, 172, 134] then Some (''ST'', 3)
      else None)"

fun to_uppercase :: "nat list \<Rightarrow> string" where
  "to_uppercase [] = []"
| "to_uppercase (b # bs) = (case special_uppercase (b # bs) of
      Some (u, n) \<Rightarrow> u @ to_uppercase (drop (n - 1) bs)
    | None \<Rightarrow> (if 97 \<le> b \<and> b \<le> 122 then char_of (b - 32) else char_of b) # to_uppercase bs)"

fun trim_start_SIG :: "string \<Rightarrow> string" where
  "trim_start_SIG (a # b # c # s) =
     (if a = CHR ''S'' \<and> b = CHR ''I'' \<and> c = CHR ''G'' then trim_start_SIG s else a # b # c # s)"
| "trim_start_SIG s = s"

definition parse_signal_name :: "string \<Rightarrow> int option" where
  "parse_signal_name name =
     (let n = trim_start_SIG (to_uppercase (map of_char name))
      in if n = ''TERM'' then Some 15
         else if n = ''KILL'' then Some 9
         else if n = ''INT'' then Some 2
         else if n = ''HUP'' then Some 1
         else if n = ''QUIT'' then Some 3
         else if n = ''USR1'' then Some 10
         else if n = ''USR2'' then Some 12
         else parse_signed 32 name)"

definition parse_stop_signal :: "string option \<Rightarrow> (handler_error, int option) result" where
  "parse_stop_signal s = (case s of
      None \<Rightarrow> Ok None
    | Some n \<Rightarrow> (case parse_signal_name n of Some i \<Rightarrow> Ok (Some i) | None \<Rightarrow> Err (UnknownSignal n)))"

subsection \<open>Starting, stopping and restarting\<close>

definition start_args_of ::
    "('v, 'k, 'f) daemon_env \<Rightarrow> 'k auth_context \<Rightarrow> peer_credentials \<Rightarrow> path \<Rightarrow> string list \<Rightarrow> str_map option \<Rightarrow> bool
      \<Rightarrow> str_map option \<Rightarrow> string option \<Rightarrow> str_map option \<Rightarrow> (handler_error, start_args) result" where
  "start_args_of env auth_ctx peer p services sys_env no_deps override_envs hardening define_flags =
     bind_res (canonicalize_config_path env p) (\<lambda>c.
     bind_res (parse_hardening hardening) (\<lambda>level.
       Ok \<lparr>sa_config_path = c, sa_services = services, sa_sys_env = sys_env, sa_owner = (pc_uid peer, pc_gid peer),
           sa_no_deps = no_deps, sa_override_envs = override_envs, sa_hardening = level,
           sa_permission_ceiling = permission_ceiling auth_ctx, sa_define_flags = define_flags\<rparr>))"

definition launching ::
    "('v, 'k, 'f) daemon_env \<Rightarrow> (start_args \<Rightarrow> operation) \<Rightarrow> (handler_error, start_args) result \<Rightarrow> ('v, 'k) daemon
      \<Rightarrow> outcome \<times> ('v, 'k) daemon" where
  "launching env op r d = (case r of
      Inl e \<Rightarrow> (Respond (RespError e), d)
    | Inr args \<Rightarrow> (Perform [] (op args), invalidate_acl env (sa_config_path args) d))"

definition handle_stop ::
    "('v, 'k, 'f) daemon_env \<Rightarrow> path \<Rightarrow> string list \<Rightarrow> bool \<Rightarrow> string option \<Rightarrow> ('v, 'k) daemon \<Rightarrow> outcome" where
  "handle_stop env p services clean signal d =
     (case bind_res (canonicalize_config_path env p) (\<lambda>c.
           bind_res (parse_stop_signal signal) (\<lambda>sig. Ok (c, sig))) of
        Inl e \<Rightarrow> Respond (RespError e)
      | Inr (c, sig) \<Rightarrow> (case hm_get (dm_registry d) c of
          None \<Rightarrow> Perform [] (StopServices c services clean sig [] [] False)
        | Some handle \<Rightarrow>
            let tracked = stop_tracked (hd_actor handle) services
            in Perform (map (\<lambda>n. SeProgress n PhStopping) tracked)
                 (StopServices c services clean sig tracked (clean_targets (hd_actor handle) clean services)
                    (clean \<and> services = []))))"

definition actor_running :: "config_actor \<Rightarrow> string \<Rightarrow> bool" where
  "actor_running a n = (case hm_get (ca_services a) n of Some s \<Rightarrow> is_running (ss_status s) | None \<Rightarrow> False)"

definition handle_restart ::
    "('v, 'k, 'f) daemon_env \<Rightarrow> path \<Rightarrow> string list \<Rightarrow> bool \<Rightarrow> str_map option \<Rightarrow> str_map option \<Rightarrow> restart_state list
      \<Rightarrow> ('v, 'k) daemon \<Rightarrow> outcome" where
  "handle_restart env p services no_deps override_envs define_flags states d =
     (case canonicalize_config_path env p of
        Inl e \<Rightarrow> Respond (RespError e)
      | Inr c \<Rightarrow> (case hm_get (dm_registry d) c of
          None \<Rightarrow> Perform [] (RestartServices c services no_deps override_envs define_flags states [])
        | Some handle \<Rightarrow>
            let tracked = restart_tracked (hd_actor handle) services states
            in Perform (map (\<lambda>n. SeProgress n (if actor_running (hd_actor handle) n then PhStopping else PhWaiting)) tracked)
                 (RestartServices c services no_deps override_envs define_flags states tracked)))"

text \<open>
  What an operation returns, and what is done then. The environment is the one after the operation.
\<close>

datatype operation_result = OpMessage string | OpPruned "pruned_config_info list" | OpFailed string

definition quiet_message :: "string \<Rightarrow> response" where
  "quiet_message m = (if m = [] then RespOk None None else ok_with_message m)"

fun finish_operation ::
    "('v, 'k, 'f) daemon_env \<Rightarrow> operation \<Rightarrow> operation_result \<Rightarrow> ('v, 'k) daemon
      \<Rightarrow> server_event list \<times> response \<times> ('v, 'k) daemon" where
  "finish_operation env (StopServices c services clean sig tracked clean_services discard) r d =
     (if clean then map (\<lambda>n. SeProgress n PhCleaning) clean_services @ map (\<lambda>n. SeProgress n PhCleaned) clean_services else [],
      (case r of OpMessage m \<Rightarrow> ok_with_message m | OpPruned _ \<Rightarrow> RespOk None None | OpFailed e \<Rightarrow> RespError (OperationFailed e)),
      if clean then invalidate_acl env c d else d)"
| "finish_operation env (PruneAll force dry_run) r d = (case r of
      OpPruned results \<Rightarrow> ([], ok_with_data (RdPrunedConfigs results), if dry_run then d else d\<lparr>dm_acl_cache := Map.empty\<rparr>)
    | OpMessage m \<Rightarrow> ([], ok_with_message m, d)
    | OpFailed e \<Rightarrow> ([], RespError (OperationFailed e), d))"
| "finish_operation env op r d = ([], (case r of
      OpMessage m \<Rightarrow> (case op of
          RestartServices _ _ _ _ _ _ _ \<Rightarrow> quiet_message m
        | RecreateServices _ \<Rightarrow> quiet_message m
        | _ \<Rightarrow> ok_with_message m)
    | OpPruned _ \<Rightarrow> RespOk None None
    | OpFailed e \<Rightarrow> RespError (OperationFailed e)), d)"

subsection \<open>Status\<close>

definition service_status :: "('v, 'k) config_handle \<Rightarrow> (string, service_info) hmap" where
  "service_status handle = (case get_service_status (hd_actor handle) None of Inr s \<Rightarrow> s | Inl _ \<Rightarrow> [])"

definition log_degraded :: "disk \<Rightarrow> path \<Rightarrow> bool" where
  "log_degraded dk c = (case dk_log_store dk c of Some store \<Rightarrow> lo_is_degraded store | None \<Rightarrow> False)"

definition visible_handles ::
    "('v, 'k, 'f) daemon_env \<Rightarrow> 'k auth_context \<Rightarrow> ('v, 'k) daemon \<Rightarrow> (path \<times> ('v, 'k) config_handle) list" where
  "visible_handles env auth_ctx d = filter (\<lambda>(_, h). can_read_config_status env auth_ctx h) (dm_registry d)"

definition handle_status ::
    "('v, 'k, 'f) daemon_env \<Rightarrow> disk \<Rightarrow> 'k auth_context \<Rightarrow> path option \<Rightarrow> ('v, 'k) daemon \<Rightarrow> response" where
  "handle_status env dk auth_ctx config_path d = (case config_path of
      Some p \<Rightarrow> (case canonicalize_config_path env p of
          Inl e \<Rightarrow> RespError e
        | Inr c \<Rightarrow> ok_with_data (RdServiceStatus (case hm_get (dm_registry d) c of
              Some handle \<Rightarrow> service_status handle
            | None \<Rightarrow> (case compute_state_dir env c of Some dir \<Rightarrow> read_persisted_status env dir | None \<Rightarrow> []))))
    | None \<Rightarrow> ok_with_data (RdMultiConfigStatus (map (\<lambda>(c, h).
          \<lparr>cs_config_path = c, cs_config_hash = compute_config_hash env c, cs_services = service_status h,
           cs_log_degraded = log_degraded dk c\<rparr>) (visible_handles env auth_ctx d))))"

definition running_count :: "(string, service_info) hmap \<Rightarrow> nat" where
  "running_count services = length (filter (\<lambda>(_, s). si_status s \<in> {''running'', ''healthy'', ''unhealthy''}) services)"

definition handle_list_configs ::
    "('v, 'k, 'f) daemon_env \<Rightarrow> 'k auth_context \<Rightarrow> ('v, 'k) daemon \<Rightarrow> response" where
  "handle_list_configs env auth_ctx d = ok_with_data (RdConfigList (map (\<lambda>(c, h).
     \<lparr>li_config_path = c, li_config_hash = compute_config_hash env c,
      li_service_count = length (kc_services (ca_config (hd_actor h))),
      li_running_count = running_count (service_status h)\<rparr>) (visible_handles env auth_ctx d)))"

subsection \<open>Inspection\<close>

definition inspect_source ::
    "('v, 'k, 'f) daemon_env \<Rightarrow> disk \<Rightarrow> path \<Rightarrow> bool \<Rightarrow> bool \<Rightarrow> bool \<Rightarrow> ('v, 'k) daemon
      \<Rightarrow> (kepler_config option \<times> (string, service_info) hmap \<times> env_map option \<times> env_map option \<times> path) option" where
  "inspect_source env dk c show_services show_environment show_flags d = (case hm_get (dm_registry d) c of
      Some handle \<Rightarrow>
        Some (Some (ca_config (hd_actor handle)),
              if show_services then service_status handle else [],
              if show_environment then Some (ca_kepler_env (hd_actor handle)) else None,
              if show_flags then Some (ca_kepler_flags (hd_actor handle)) else None,
              hd_state_dir handle)
    | None \<Rightarrow> map_option (\<lambda>dir.
        let snapshot = Option.bind (res_ok (dk_snapshot dk dir)) (\<lambda>s. s)
        in (map_option sn_config snapshot,
            if show_services then read_persisted_status env dir else [],
            if show_environment then map_option sn_kepler_env snapshot else None,
            if show_flags then map_option sn_kepler_flags snapshot else None,
            dir)) (compute_state_dir env c))"

definition inspect_configured ::
    "disk \<Rightarrow> path \<Rightarrow> (string \<Rightarrow> env_map option) \<Rightarrow> string list \<Rightarrow> kepler_config option \<Rightarrow> (string, service_info) hmap
      \<Rightarrow> (string, inspect_service) hmap option" where
  "inspect_configured dk state_dir env_of services config status = (case config of
      None \<Rightarrow> Some []
    | Some cfg \<Rightarrow> map_values (\<lambda>(n, raw). build_inspect_service dk n (Some raw) (hm_get status n) state_dir (env_of n))
        (map (\<lambda>(n, raw). (n, n, raw)) (filter (\<lambda>(n, _). services = [] \<or> n \<in> set services) (kc_services cfg))))"

definition inspect_unconfigured ::
    "disk \<Rightarrow> path \<Rightarrow> (string \<Rightarrow> env_map option) \<Rightarrow> string list \<Rightarrow> string list \<Rightarrow> (string, service_info) hmap
      \<Rightarrow> (string, inspect_service) hmap option" where
  "inspect_unconfigured dk state_dir env_of services seen status =
     map_values (\<lambda>(n, info). build_inspect_service dk n None (Some info) state_dir (env_of n))
       (map (\<lambda>(n, info). (n, n, info)) (filter (\<lambda>(n, _). (services = [] \<or> n \<in> set services) \<and> n \<notin> set seen) status))"

definition inspect_services ::
    "disk \<Rightarrow> path \<Rightarrow> (string \<Rightarrow> env_map option) \<Rightarrow> string list \<Rightarrow> kepler_config option \<Rightarrow> (string, service_info) hmap
      \<Rightarrow> (string, inspect_service) hmap option" where
  "inspect_services dk state_dir env_of services config status =
     Option.bind (inspect_configured dk state_dir env_of services config status) (\<lambda>js.
     map_option (\<lambda>more. js @ more) (inspect_unconfigured dk state_dir env_of services (map fst js) status))"

definition resolved_env_of :: "('v, 'k) daemon \<Rightarrow> path \<Rightarrow> bool \<Rightarrow> string \<Rightarrow> env_map option" where
  "resolved_env_of d c show_environment n =
     (if show_environment
      then Option.bind (hm_get (dm_registry d) c) (\<lambda>h. map_option ss_computed_env (hm_get (ca_services (hd_actor h)) n))
      else None)"

definition handle_inspect ::
    "('v, 'k, 'f) daemon_env \<Rightarrow> disk \<Rightarrow> 'k auth_context \<Rightarrow> path \<Rightarrow> string list \<Rightarrow> bool \<Rightarrow> bool \<Rightarrow> bool \<Rightarrow> ('v, 'k) daemon
      \<Rightarrow> outcome \<times> ('v, 'k) daemon" where
  "handle_inspect env dk auth_ctx p services include_services include_environment include_flags d =
     (case canonicalize_config_path env p of
        Inl e \<Rightarrow> (Respond (RespError e), d)
      | Inr c \<Rightarrow>
          let (effective, d') = path_rights env auth_ctx c d;
              rights = (case effective of Some r \<Rightarrow> r | None \<Rightarrow> {});
              show_services = (include_services \<and> ''inspect:services'' \<in> rights);
              show_environment = (include_environment \<and> ''inspect:environment'' \<in> rights);
              show_flags = (include_flags \<and> ''inspect:flags'' \<in> rights)
          in case inspect_source env dk c show_services show_environment show_flags d' of
               None \<Rightarrow> (Respond (RespError NoStateDirectory), d')
             | Some (config, status, kepler_env, kepler_flags, state_dir) \<Rightarrow>
                 (case (if show_services
                        then map_option Some (inspect_services dk state_dir (resolved_env_of d' c show_environment) services config status)
                        else Some None) of
                    None \<Rightarrow> (Panic, d')
                  | Some services_json \<Rightarrow> (Respond (ok_with_data (RdInspect
                      \<lparr>in_config_path = c, in_config_hash = compute_config_hash env c, in_state_dir = state_dir,
                       in_kepler = Option.bind config kc_kepler,
                       in_logs_degraded = (hm_contains (dm_registry d') c \<and> log_degraded dk c),
                       in_services = services_json,
                       in_environment = (if show_environment then Some kepler_env else None),
                       in_flags = (if show_flags then Some kepler_flags else None)\<rparr>)), d')))"

subsection \<open>Rights and owners\<close>

text \<open>The owner and the list of a configuration, both absent when nothing is known of it or its list is unusable.\<close>

definition known_access ::
    "('v, 'k, 'f) daemon_env \<Rightarrow> path \<Rightarrow> ('v, 'k) daemon \<Rightarrow> (nat option \<times> ('v, 'k) resolved_acl option) \<times> ('v, 'k) daemon" where
  "known_access env c d = (case hm_get (dm_registry d) c of
      Some handle \<Rightarrow> ((hd_owner_uid handle, hd_acl handle), d)
    | None \<Rightarrow> (case compute_state_dir env c of
        Some state_dir \<Rightarrow> (case get_unloaded_acl_entry env state_dir (dm_acl_cache d) of
            (Inr entry, cache') \<Rightarrow> ((ue_owner_uid entry, ue_acl entry), d\<lparr>dm_acl_cache := cache'\<rparr>)
          | (Inl _, cache') \<Rightarrow> ((None, None), d\<lparr>dm_acl_cache := cache'\<rparr>))
      | None \<Rightarrow> ((None, None), d)))"

definition handle_user_rights ::
    "('v, 'k, 'f) daemon_env \<Rightarrow> 'k auth_context \<Rightarrow> path \<Rightarrow> ('v, 'k) daemon \<Rightarrow> response \<times> ('v, 'k) daemon" where
  "handle_user_rights env auth_ctx p d = (case canonicalize_config_path env p of
      Inl e \<Rightarrow> (RespError e, d)
    | Inr c \<Rightarrow> (case known_access env c d of ((owner_uid, acl), d') \<Rightarrow>
        (ok_with_data (RdUserRights (case effective_rights (de_db env) auth_ctx owner_uid acl of
            Inr (Some r) \<Rightarrow> r | _ \<Rightarrow> {})), d')))"

definition handle_config_owner ::
    "('v, 'k, 'f) daemon_env \<Rightarrow> 'k auth_context \<Rightarrow> path \<Rightarrow> ('v, 'k) daemon \<Rightarrow> response \<times> ('v, 'k) daemon" where
  "handle_config_owner env auth_ctx p d =
     (if auth_uid auth_ctx \<noteq> 0 then (RespDenied RootOnly, d)
      else case canonicalize_config_path env p of
        Inl e \<Rightarrow> (RespError e, d)
      | Inr c \<Rightarrow> (case known_access env c d of ((owner_uid, _), d') \<Rightarrow>
          (ok_with_data (RdConfigOwner owner_uid (hm_contains (dm_registry d) c)), d')))"

subsection \<open>Logs and metrics\<close>

definition handle_logs_stream ::
    "('v, 'k, 'f) daemon_env \<Rightarrow> disk \<Rightarrow> path \<Rightarrow> stream_request \<Rightarrow> ('v, 'k) daemon \<Rightarrow> outcome" where
  "handle_logs_stream env dk p q d =
     (case stream_filter (dk_round dk) q of
        Inl e \<Rightarrow> Respond (RespError (InvalidFilter e))
      | Inr _ \<Rightarrow> (case canonicalize_config_path env p of
          Inl e \<Rightarrow> Respond (RespError e)
        | Inr c \<Rightarrow> (case (case hm_get (dm_registry d) c of
              Some _ \<Rightarrow> map_option (\<lambda>store. (lo_db_path store, lo_has_pending store)) (dk_log_store dk c)
            | None \<Rightarrow> map_option (\<lambda>dir. (dir @ ''/logs/logs.db'', False)) (compute_state_dir env c)) of
              None \<Rightarrow> Respond (RespError ConfigNotLoaded)
            | Some (db_path, has_pending) \<Rightarrow>
                (case logs_stream (dk_round dk) (dk_log_db dk db_path) has_pending q of
                   None \<Rightarrow> Panic
                 | Some (StreamOk data) \<Rightarrow> Respond (ok_with_data (RdLogStream data))
                 | Some (StreamError e) \<Rightarrow> Respond (RespError (LogFilterError e))
                 | Some _ \<Rightarrow> Respond (RespOk None None)))))"

definition query_latest :: "string option \<Rightarrow> string \<times> bind_value list" where
  "query_latest service = (case service of
      Some svc \<Rightarrow> (''SELECT timestamp, service, cpu_percent, memory_rss, memory_vss, pids FROM metrics WHERE service = ?1 ORDER BY timestamp DESC LIMIT 1'',
        [BindText svc])
    | None \<Rightarrow> (''SELECT m.timestamp, m.service, m.cpu_percent, m.memory_rss, m.memory_vss, m.pids FROM metrics m INNER JOIN (SELECT service, MAX(timestamp) as max_ts FROM metrics GROUP BY service) latest ON m.service = latest.service AND m.timestamp = latest.max_ts'', []))"

definition metrics_statement ::
    "string option \<Rightarrow> int option \<Rightarrow> nat option \<Rightarrow> sql_fragment option \<Rightarrow> int option \<Rightarrow> int option \<Rightarrow> int option
      \<Rightarrow> (string \<times> bind_value list) option" where
  "metrics_statement service since limit flt bucket_ms after_ts before_ts = (case flt of
      Some frag \<Rightarrow> query_filtered service since limit frag bucket_ms after_ts before_ts
    | None \<Rightarrow> Some (case (since, after_ts, before_ts) of
        (Some since_ts, _, _) \<Rightarrow> query_history service since_ts limit bucket_ms before_ts
      | (None, Some t, _) \<Rightarrow> query_history service t limit bucket_ms before_ts
      | (None, None, Some _) \<Rightarrow> query_history service 0 limit bucket_ms before_ts
      | (None, None, None) \<Rightarrow> query_latest service))"

definition metrics_filter :: "(rat \<Rightarrow> f64) \<Rightarrow> string option \<Rightarrow> bool \<Rightarrow> (query_error, sql_fragment option) result" where
  "metrics_filter rnd flt sql = (case flt of
      Some f \<Rightarrow> if \<not> sql then bind_res (dsl_parse rnd monitor_query_dsl f 0) (\<lambda>frag. Ok (Some frag))
               else Ok (Some (fragment_raw f))
    | None \<Rightarrow> Ok None)"

definition handle_monitor_metrics ::
    "('v, 'k, 'f) daemon_env \<Rightarrow> disk \<Rightarrow> path \<Rightarrow> string option \<Rightarrow> int option \<Rightarrow> nat option \<Rightarrow> string option \<Rightarrow> bool
      \<Rightarrow> int option \<Rightarrow> int option \<Rightarrow> int option \<Rightarrow> ('v, 'k) daemon \<Rightarrow> outcome" where
  "handle_monitor_metrics env dk p service since limit filter_text sql bucket_ms after_ts before_ts d =
     (case metrics_filter (dk_round dk) filter_text sql of
        Inl e \<Rightarrow> Respond (RespError (InvalidFilter e))
      | Inr flt \<Rightarrow> (case canonicalize_config_path env p of
          Inl e \<Rightarrow> Respond (RespError e)
        | Inr c \<Rightarrow> (case (case hm_get (dm_registry d) c of
              Some handle \<Rightarrow> Some (hd_state_dir handle) | None \<Rightarrow> compute_state_dir env c) of
              None \<Rightarrow> Respond (RespError NoStateDirectory)
            | Some state_dir \<Rightarrow> (case metrics_statement service since limit flt bucket_ms after_ts before_ts of
                None \<Rightarrow> Respond (RespError MonitorQueryFailed)
              | Some stmt \<Rightarrow> Perform [] (QueryMetrics state_dir stmt)))))"

subsection \<open>Dispatch\<close>

definition handle_check ::
    "('v, 'k, 'f) daemon_env \<Rightarrow> io \<Rightarrow> command \<Rightarrow> response \<Rightarrow> path \<Rightarrow> ('v, 'k) daemon \<Rightarrow> response \<times> ('v, 'k) daemon" where
  "handle_check env io cmd absent p d = (case canonicalize_config_path env p of
      Inl e \<Rightarrow> (RespError e, d)
    | Inr c \<Rightarrow> (case hm_get (dm_registry d) c of
        None \<Rightarrow> (absent, d)
      | Some handle \<Rightarrow> (case process_command io cmd (hd_actor handle) of (a', r) \<Rightarrow>
          (ok_with_data (RdCheckResult (case r of RBool b \<Rightarrow> b | _ \<Rightarrow> False)),
           d\<lparr>dm_registry := hm_set (dm_registry d) c (handle\<lparr>hd_actor := a'\<rparr>)\<rparr>))))"

definition is_root :: "'k auth_context \<Rightarrow> bool" where
  "is_root auth_ctx = (case auth_ctx of AuthRoot _ _ \<Rightarrow> True | _ \<Rightarrow> False)"

definition on_path ::
    "('v, 'k, 'f) daemon_env \<Rightarrow> path \<Rightarrow> (path \<Rightarrow> operation) \<Rightarrow> outcome" where
  "on_path env p op = (case canonicalize_config_path env p of
      Inl e \<Rightarrow> Respond (RespError e) | Inr c \<Rightarrow> Perform [] (op c))"

fun handle_request ::
    "('v, 'k, 'f) daemon_env \<Rightarrow> disk \<Rightarrow> io \<Rightarrow> 'k auth_context \<Rightarrow> peer_credentials \<Rightarrow> request \<Rightarrow> ('v, 'k) daemon
      \<Rightarrow> outcome \<times> ('v, 'k) daemon" where
  "handle_request env dk io auth_ctx peer Ping d = (Respond (ok_with_message ''pong''), d)"
| "handle_request env dk io auth_ctx peer Shutdown d =
     (if is_root auth_ctx then Perform [] ShutdownDaemon else Respond (RespDenied RootOnly), d)"
| "handle_request env dk io auth_ctx peer (Start p services sys_env no_deps oe hardening follow flags) d =
     launching env (\<lambda>a. StartServices a follow) (start_args_of env auth_ctx peer p services sys_env no_deps oe hardening flags) d"
| "handle_request env dk io auth_ctx peer (Run p services sys_env no_deps oe hardening follow start_clean flags) d =
     launching env (\<lambda>a. RunServices a follow start_clean)
       (start_args_of env auth_ctx peer p services sys_env no_deps oe hardening flags) d"
| "handle_request env dk io auth_ctx peer (Stop p services clean signal) d =
     (handle_stop env p services clean signal d, d)"
| "handle_request env dk io auth_ctx peer (Restart p services _ no_deps oe flags states) d =
     (handle_restart env p services no_deps oe flags states d, d)"
| "handle_request env dk io auth_ctx peer (Recreate p sys_env hardening flags) d =
     launching env RecreateServices (start_args_of env auth_ctx peer p [] sys_env False None hardening flags) d"
| "handle_request env dk io auth_ctx peer (Status p) d = (Respond (handle_status env dk auth_ctx p d), d)"
| "handle_request env dk io auth_ctx peer ListConfigs d = (Respond (handle_list_configs env auth_ctx d), d)"
| "handle_request env dk io auth_ctx peer (Prune force dry_run) d =
     (if is_root auth_ctx then Perform [] (PruneAll force dry_run) else Respond (RespDenied RootOnly), d)"
| "handle_request env dk io auth_ctx peer (LogsStream p services after_id from_end limit no_hooks flt sql raw tail after_ts before_ts) d =
     (handle_logs_stream env dk p \<lparr>sr_services = services, sr_after_id = after_id, sr_from_end = from_end, sr_limit = limit,
        sr_no_hooks = no_hooks, sr_filter = flt, sr_sql = sql, sr_raw = raw, sr_tail = tail, sr_after_ts = after_ts,
        sr_before_ts = before_ts\<rparr> d, d)"
| "handle_request env dk io auth_ctx peer (SubscribeLogs p) d = (on_path env p NotifyLogs, d)"
| "handle_request env dk io auth_ctx peer (Subscribe p services) d = (on_path env p (\<lambda>c. AwaitConfig c services), d)"
| "handle_request env dk io auth_ctx peer (Inspect p services inc_s inc_e inc_f) d =
     handle_inspect env dk auth_ctx p services inc_s inc_e inc_f d"
| "handle_request env dk io auth_ctx peer (CheckQuiescence p) d =
     (case handle_check env io CmdCheckQuiescence (ok_with_data (RdCheckResult True)) p d of (r, d') \<Rightarrow> (Respond r, d'))"
| "handle_request env dk io auth_ctx peer (CheckReadiness p) d =
     (case handle_check env io CmdCheckReadiness (RespError ConfigNotLoaded) p d of (r, d') \<Rightarrow> (Respond r, d'))"
| "handle_request env dk io auth_ctx peer (UserRights p) d =
     (case handle_user_rights env auth_ctx p d of (r, d') \<Rightarrow> (Respond r, d'))"
| "handle_request env dk io auth_ctx peer (ConfigOwner p) d =
     (case handle_config_owner env auth_ctx p d of (r, d') \<Rightarrow> (Respond r, d'))"
| "handle_request env dk io auth_ctx peer (MonitorMetrics p service since limit flt sql bucket_ms after_ts before_ts) d =
     (handle_monitor_metrics env dk p service since limit flt sql bucket_ms after_ts before_ts d, d)"

fun rejection_response :: "rejection \<Rightarrow> response" where
  "rejection_response (AuthenticationFailed e) = RespError (AuthFailed e)"
| "rejection_response (HardeningDenied e) = RespDenied (HardeningFloor e)"
| "rejection_response (FileDenied e) = RespDenied (NotReadable e)"
| "rejection_response (ConfigPathNotFound p) = RespError (PathNotFound p)"
| "rejection_response (AclDenial e) = RespDenied (NoRights e)"

definition serve ::
    "('v, 'k, 'f) daemon_env \<Rightarrow> disk \<Rightarrow> io \<Rightarrow> peer_credentials \<Rightarrow> request \<Rightarrow> ('v, 'k) daemon \<Rightarrow> outcome \<times> ('v, 'k) daemon" where
  "serve env dk io peer q d = (case authorize env peer q d of
      (Inl e, d') \<Rightarrow> (Respond (rejection_response e), d')
    | (Inr (auth_ctx, q'), d') \<Rightarrow> handle_request env dk io auth_ctx peer q' d')"

text \<open>
  A subscription waits, with a deadline, until the configuration is loaded.
\<close>

datatype 'h poll = PollLoaded 'h | PollAgain | PollDeadline | PollClosed

fun await_loaded :: "'h poll list \<Rightarrow> (string, 'h) result option" where
  "await_loaded [] = None"
| "await_loaded (PollLoaded h # _) = Some (Ok h)"
| "await_loaded (PollAgain # ps) = await_loaded ps"
| "await_loaded (PollDeadline # _) = Some (Err ''Config not loaded'')"
| "await_loaded (PollClosed # _) = Some (Err ''Client disconnected'')"

end
