(* ===== verification/Request_Safety.thy ===== *)
theory Request_Safety
  imports Request_Dispatch
begin

text \<open>
  What the daemon answers and does for a caller: the properties of \<open>serve\<close>, the authorization
  pipeline followed by the dispatch.
\<close>

subsection \<open>Authorization keeps the rights\<close>

text \<open>Running the authorizers changes the Lua machine of a list only.\<close>

definition same_rules :: "('v, 'k) resolved_acl option \<Rightarrow> ('v, 'k) resolved_acl option \<Rightarrow> bool" where
  "same_rules x y = (map_option user_rules x = map_option user_rules y \<and> map_option group_rules x = map_option group_rules y)"

lemma same_rules_refl [simp]: "same_rules x x"
  by (simp add: same_rules_def)

lemma collect_rights_same:
  "user_rules a = user_rules b \<Longrightarrow> group_rules a = group_rules b \<Longrightarrow> collect_rights db a uid gid = collect_rights db b uid gid"
  by (simp add: collect_rights_def)

lemma effective_rights_same:
  assumes "same_rules x y"
  shows "effective_rights db auth_ctx owner x = effective_rights db auth_ctx owner y"
proof (cases x)
  case (Some a)
  with assms obtain b where "y = Some b" "user_rules a = user_rules b" "group_rules a = group_rules b"
    by (cases y) (auto simp: same_rules_def)
  with Some show ?thesis by (cases auth_ctx) (simp_all add: effective_rights_def collect_rights_same [of a b])
qed (use assms in \<open>simp add: same_rules_def effective_rights_def\<close>)

lemma run_authorizers_same: "same_rules (Some (snd (run_authorizers env a auth_ctx q))) (Some a)"
  by (auto simp: run_authorizers_def check_authorizers_def same_rules_def Let_def split: auth_context.splits option.splits sum.splits prod.splits)

lemma run_acl_same: "same_rules (snd (run_acl env auth_ctx owner acl q)) acl"
proof -
  have "same_rules (Some a') (Some a)" if "run_authorizers env a auth_ctx q = (r, a')" for a r a'
    using run_authorizers_same [of env a auth_ctx q] that by simp
  then show ?thesis by (auto simp: run_acl_def split: sum.splits option.splits prod.splits)
qed

lemma run_acl_same': "run_acl env auth_ctx owner acl q = (r, acl') \<Longrightarrow> same_rules acl' acl"
  using run_acl_same [of env auth_ctx owner acl q] by simp

text \<open>What the rights of a caller on a configuration rest on: its owner and the rules of its list.\<close>

definition access_rules ::
    "('v, 'k, 'f) daemon_env \<Rightarrow> ('v, 'k) daemon \<Rightarrow> path \<Rightarrow> (nat option \<times> ('v, 'k) resolved_acl option) option \<Rightarrow> bool" where
  "access_rules env d c x = (case access_data env d c of
      None \<Rightarrow> x = None
    | Some (owner, acl) \<Rightarrow> (\<exists>acl'. x = Some (owner, acl') \<and> same_rules acl' acl))"

lemma acl_gate_access: "access_rules env d c (access_data env (snd (acl_gate env auth_ctx q d)) c)"
proof (cases "hm_get (dm_registry d) c")
  case (Some h)
  then show ?thesis
    by (auto simp: access_rules_def access_data_def acl_gate_def check_config_acl_def hm_get_set hm_get_Some_contains
        split: option.splits sum.splits prod.splits dest: run_acl_same')
next
  case None
  then show ?thesis
    by (auto simp: access_rules_def access_data_def acl_gate_def check_config_acl_def check_unloaded_config_acl_def
        get_unloaded_acl_entry_def hm_get_set hm_get_Some_contains
        split: option.splits sum.splits prod.splits if_splits dest: run_acl_same')
qed

lemma path_rights_access:
  "fst (path_rights env ax c d) = (case access_data env d c of
      None \<Rightarrow> None
    | Some (owner, acl) \<Rightarrow> Option.bind (res_ok (effective_rights (de_db env) ax owner acl)) (\<lambda>r. r))"
  by (auto simp: path_rights_def access_data_def res_ok_def split: option.splits sum.splits prod.splits)

lemma acl_gate_path_rights:
  "fst (path_rights env ax c (snd (acl_gate env auth_ctx q d))) = fst (path_rights env ax c d)"
  using acl_gate_access [of env d c auth_ctx q]
  by (auto simp: path_rights_access access_rules_def effective_rights_same split: option.splits prod.splits)

lemma authorize_state:
  "authorize env peer q d = (Ok (auth_ctx, q'), d') \<Longrightarrow> d' = snd (acl_gate env auth_ctx q' d)"
  by (auto simp: authorize_def bind_res_Ok_iff split: sum.splits prod.splits)

lemma serve_Perform:
  assumes "serve env dk io peer q d = (Perform evs op, d')"
  obtains auth_ctx q' d1 where "authorize env peer q d = (Ok (auth_ctx, q'), d1)"
    "handle_request env dk io auth_ctx peer q' d1 = (Perform evs op, d')"
  using assms by (auto simp: serve_def split: prod.splits sum.splits)

lemma serve_Respond_Ok:
  assumes "serve env dk io peer q d = (Respond (RespOk m x), d')"
  obtains auth_ctx q' d1 where "authorize env peer q d = (Ok (auth_ctx, q'), d1)"
    "handle_request env dk io auth_ctx peer q' d1 = (Respond (RespOk m x), d')"
proof -
  have "rejection_response e \<noteq> RespOk m x" for e by (cases e) simp_all
  with assms that show ?thesis by (auto simp: serve_def split: prod.splits sum.splits)
qed

text \<open>Requests other than the three that start services pass the hardening check unchanged.\<close>

lemma floor_unchanged: "\<not> starts_services q \<Longrightarrow> apply_hardening_floor auth_ctx q = Ok q' \<Longrightarrow> q' = q"
  by (cases q) (auto simp: starts_services_def apply_hardening_floor_def bind_res_Ok_iff split: auth_context.splits option.splits)

subsection \<open>Rights of a caller that is neither root nor owner\<close>

definition peer_token :: "('v, 'k) daemon \<Rightarrow> peer_credentials \<Rightarrow> 'k token_context option" where
  "peer_token d peer = Option.bind (pc_token peer) (\<lambda>bytes. store_get (dm_tokens d) (Token bytes))"

definition granted_to ::
    "('v, 'k, 'f) daemon_env \<Rightarrow> ('v, 'k) daemon \<Rightarrow> peer_credentials \<Rightarrow> path \<Rightarrow> string \<Rightarrow> bool" where
  "granted_to env d peer c right = (\<exists>owner a gids. access_data env d c = Some (owner, Some a) \<and>
     get_all_gids (de_db env) (pc_uid peer) (pc_gid peer) = Ok gids \<and> right \<in> acl_granted a (pc_uid peer) gids \<and>
     (case peer_token d peer of Some ctx \<Rightarrow> right \<in> tc_allow ctx | None \<Rightarrow> True))"

lemma peer_token_auth:
  assumes "resolve_auth (de_db env) (pc_token peer) (pc_uid peer) (pc_gid peer) gid (dm_tokens d) = Ok auth_ctx"
  shows "(case peer_token d peer of Some ctx \<Rightarrow> auth_ctx = AuthToken (pc_uid peer) (pc_gid peer) ctx
     | None \<Rightarrow> auth_ctx = AuthRoot (pc_uid peer) (pc_gid peer) \<and> pc_uid peer = 0 \<or>
         auth_ctx = AuthGroup (pc_uid peer) (pc_gid peer) \<and> pc_uid peer \<noteq> 0)"
  using assms by (auto simp: resolve_auth_def peer_token_def split: option.splits if_splits)

lemma effective_rights_token: "effective_rights db (AuthToken uid gid ctx) owner acl = Ok (Some rights) \<Longrightarrow> rights \<subseteq> tc_allow ctx"
  by (auto simp: effective_rights_def bind_res_Ok_iff split: if_splits option.splits)

lemma effective_rights_granted:
  assumes "resolve_auth (de_db env) (pc_token peer) (pc_uid peer) (pc_gid peer) gid (dm_tokens d) = Ok auth_ctx"
    and "access_data env d c = Some (owner, acl)" "effective_rights (de_db env) auth_ctx owner acl = Ok (Some rights)"
    and "pc_uid peer \<noteq> 0" "owner \<noteq> Some (pc_uid peer)" "r \<in> rights"
  shows "granted_to env d peer c r"
proof -
  have auth: "auth_uid auth_ctx = pc_uid peer" "auth_gid auth_ctx = pc_gid peer" "\<forall>u g. auth_ctx \<noteq> AuthRoot u g"
    using assms(1,4) by (auto elim: resolve_auth_cases)
  from effective_rights_other [OF assms(3) _ _ auth(3) assms(6)] assms(4,5) auth assms(6)
  obtain a gids where "acl = Some a" "get_all_gids (de_db env) (pc_uid peer) (pc_gid peer) = Ok gids"
    "r \<in> acl_granted a (pc_uid peer) gids" by auto
  moreover have "case peer_token d peer of Some ctx \<Rightarrow> r \<in> tc_allow ctx | None \<Rightarrow> True"
    using peer_token_auth [OF assms(1)] assms(3,6) by (auto split: option.splits dest: effective_rights_token)
  ultimately show ?thesis unfolding granted_to_def assms(2) by blast
qed

lemma path_rights_granted:
  assumes "authorize env peer q d = (Ok (auth_ctx, q'), d1)" "fst (path_rights env auth_ctx c d1) = Some rights" "r \<in> rights"
    and "pc_uid peer \<noteq> 0" "\<forall>acl. access_data env d c \<noteq> Some (Some (pc_uid peer), acl)"
  shows "granted_to env d peer c r"
proof -
  have "fst (path_rights env auth_ctx c d) = Some rights"
    using assms(2) unfolding authorize_state [OF assms(1)] acl_gate_path_rights .
  then obtain owner acl where "access_data env d c = Some (owner, acl)"
    "effective_rights (de_db env) auth_ctx owner acl = Ok (Some rights)"
    by (auto simp: path_rights_access res_ok_def Option.bind_eq_Some_conv split: option.splits sum.splits)
  with effective_rights_granted [OF authorize_Ok(1) [OF assms(1)]] assms(3-5) show ?thesis by blast
qed

subsection \<open>Inspection shows only what the caller may see\<close>

lemma build_inspect_environment:
  "build_inspect_service dk n raw info dir env' = Some sv \<Longrightarrow> is_environment sv = env'"
  by (auto simp: build_inspect_service_def Option.bind_eq_Some_conv)

lemma map_values_set:
  "map_values f m = Some r \<Longrightarrow> (k, v') \<in> set r \<Longrightarrow> \<exists>v. (k, v) \<in> set m \<and> f v = Some v'"
  by (induction m arbitrary: r) (fastforce simp: Option.bind_eq_Some_conv)+

lemma inspect_services_environment:
  assumes "inspect_services dk dir env_of services config status = Some js" "(n, sv) \<in> set js"
  shows "is_environment sv = env_of n"
proof -
  obtain js1 js2 where js: "js = js1 @ js2" "inspect_configured dk dir env_of services config status = Some js1"
    "inspect_unconfigured dk dir env_of services (map fst js1) status = Some js2"
    using assms(1) by (auto simp: inspect_services_def Option.bind_eq_Some_conv)
  from assms(2) js(1) consider "(n, sv) \<in> set js1" | "(n, sv) \<in> set js2" by auto
  then show ?thesis
    by cases (use js(2,3) in \<open>auto simp: inspect_configured_def inspect_unconfigured_def
      dest!: map_values_set build_inspect_environment split: option.splits\<close>)
qed

lemma handle_inspect_sections:
  assumes "handle_inspect env dk auth_ctx p services s e f d = (Respond (RespOk m (Some (RdInspect doc))), d')"
    and "de_canonicalize env p = Ok c"
  shows "in_services doc \<noteq> None \<Longrightarrow> s \<and> (\<exists>r. fst (path_rights env auth_ctx c d) = Some r \<and> ''inspect:services'' \<in> r)"
    "in_environment doc \<noteq> None \<Longrightarrow> e \<and> (\<exists>r. fst (path_rights env auth_ctx c d) = Some r \<and> ''inspect:environment'' \<in> r)"
    "in_flags doc \<noteq> None \<Longrightarrow> f \<and> (\<exists>r. fst (path_rights env auth_ctx c d) = Some r \<and> ''inspect:flags'' \<in> r)"
    "in_services doc = Some js \<Longrightarrow> (n, sv) \<in> set js \<Longrightarrow> is_environment sv \<noteq> None \<Longrightarrow>
      e \<and> (\<exists>r. fst (path_rights env auth_ctx c d) = Some r \<and> ''inspect:environment'' \<in> r)"
proof -
  obtain eff d1 where eff: "path_rights env auth_ctx c d = (eff, d1)" by (cases "path_rights env auth_ctx c d")
  let ?in = "\<lambda>r. case eff of Some rs \<Rightarrow> r \<in> rs | None \<Rightarrow> False"
  have in_iff: "r \<in> (case eff of Some rs \<Rightarrow> rs | None \<Rightarrow> {}) \<longleftrightarrow> ?in r" for r by (simp split: option.splits)
  note unfolded = assms(1) [unfolded handle_inspect_def canonicalize_config_path_def assms(2), simplified, unfolded eff, simplified, unfolded in_iff]
  show "in_services doc \<noteq> None \<Longrightarrow> s \<and> (\<exists>r. fst (path_rights env auth_ctx c d) = Some r \<and> ''inspect:services'' \<in> r)"
    "in_environment doc \<noteq> None \<Longrightarrow> e \<and> (\<exists>r. fst (path_rights env auth_ctx c d) = Some r \<and> ''inspect:environment'' \<in> r)"
    "in_flags doc \<noteq> None \<Longrightarrow> f \<and> (\<exists>r. fst (path_rights env auth_ctx c d) = Some r \<and> ''inspect:flags'' \<in> r)"
    using unfolded by (auto simp: eff Let_def split: option.splits prod.splits if_splits)
  assume "in_services doc = Some js" "(n, sv) \<in> set js" "is_environment sv \<noteq> None"
  with unfolded show "e \<and> (\<exists>r. fst (path_rights env auth_ctx c d) = Some r \<and> ''inspect:environment'' \<in> r)"
    by (auto simp: eff Let_def resolved_env_of_def dest!: inspect_services_environment split: option.splits prod.splits if_splits)
qed

text \<open>
  C13. Confidentiality of an inspection. When a caller that is neither root nor the owner gets the
  description of a configuration, then each of its sections, services, environment and flags, is
  there only if it was asked for and the right for it is granted to the caller by the access list of
  the configuration, and by the token if the caller has one; and the resolved environment of a
  service is there only under the right for the environment.
\<close>

theorem inspect_confidential:
  assumes "serve env dk io peer (Inspect p services s e f) d = (Respond (RespOk m (Some (RdInspect doc))), d')"
    and "de_canonicalize env p = Ok c" "pc_uid peer \<noteq> 0" "\<forall>acl. access_data env d c \<noteq> Some (Some (pc_uid peer), acl)"
  shows "(in_services doc \<noteq> None \<longrightarrow> s \<and> granted_to env d peer c ''inspect:services'') \<and>
    (in_environment doc \<noteq> None \<longrightarrow> e \<and> granted_to env d peer c ''inspect:environment'') \<and>
    (in_flags doc \<noteq> None \<longrightarrow> f \<and> granted_to env d peer c ''inspect:flags'') \<and>
    (\<forall>js n sv. in_services doc = Some js \<and> (n, sv) \<in> set js \<and> is_environment sv \<noteq> None \<longrightarrow>
      e \<and> granted_to env d peer c ''inspect:environment'')"
proof -
  obtain auth_ctx q' d1 where auth: "authorize env peer (Inspect p services s e f) d = (Ok (auth_ctx, q'), d1)"
    and run: "handle_request env dk io auth_ctx peer q' d1 = (Respond (RespOk m (Some (RdInspect doc))), d')"
    using assms(1) by (elim serve_Respond_Ok) auto
  have "q' = Inspect p services s e f"
    using floor_unchanged [OF _ authorize_Ok(2) [OF auth]] by (simp add: starts_services_def)
  with run have "handle_inspect env dk auth_ctx p services s e f d1 = (Respond (RespOk m (Some (RdInspect doc))), d')" by simp
  note sections = handle_inspect_sections [OF this assms(2)]
  show ?thesis
    using sections path_rights_granted [OF auth _ _ assms(3,4)] by metis
qed

text \<open>A member of the daemon's group whose rule grants the inspection of services but not of the environment.\<close>

definition viewer_acl :: "(unit, nat) resolved_acl" where
  "viewer_acl = acl_empty\<lparr>user_rules := [1000 \<mapsto> {''inspect'', ''inspect:services''}]\<rparr>"

definition viewer :: peer_credentials where
  "viewer = \<lparr>pc_token = None, pc_uid = 1000, pc_gid = 44\<rparr>"

definition viewer_daemon :: "(unit, nat) daemon" where
  "viewer_daemon = \<lparr>dm_registry = [(''/srv/k.yaml'', \<lparr>hd_owner_uid = Some 5, hd_acl = Some viewer_acl, hd_state_dir = ''/var'', hd_actor = sample_actor\<rparr>)],
     dm_acl_cache = Map.empty, dm_tokens = []\<rparr>"

definition sample_disk :: disk where
  "sample_disk = \<lparr>dk_snapshot = (\<lambda>_. Ok None), dk_service_outputs = (\<lambda>_ _. [(''port'', ''80'')]), dk_hook_outputs = (\<lambda>_ _. []),
     dk_log_store = (\<lambda>_. None),
     dk_log_db = (\<lambda>_. \<lparr>db_opens = False, db_lines = (\<lambda>_. Err ''closed''), db_first_id = (\<lambda>_. Err ''closed''), db_max_id = Err ''closed''\<rparr>),
     dk_round = F64\<rparr>"

lemmas eval_dispatch = eval_gate serve_def canonicalize_config_path_def viewer_def viewer_daemon_def viewer_acl_def
  sample_disk_def

lemma viewer_example:
  "\<exists>m doc d' js sv. serve gate_env sample_disk sample_io viewer (Inspect ''/srv/k.yaml'' [] True True True) viewer_daemon =
     (Respond (RespOk m (Some (RdInspect doc))), d') \<and> in_services doc = Some js \<and> (''web'', sv) \<in> set js \<and>
     in_environment doc = None \<and> is_environment sv = None"
  by (simp add: eval_dispatch handle_inspect_def path_rights_def inspect_source_def inspect_services_def inspect_configured_def
      inspect_unconfigured_def build_inspect_service_def truncate_output_value_def MAX_OUTPUT_VALUE_LEN_def eval_actor
      resolved_env_of_def res_ok_def service_status_def get_service_status_def hm_set_def)

theorem inspect_confidential_witness:
  "\<exists>m doc d'. serve gate_env sample_disk sample_io viewer (Inspect ''/srv/k.yaml'' [] True True True) viewer_daemon =
     (Respond (RespOk m (Some (RdInspect doc))), d') \<and> in_services doc \<noteq> None \<and>
     granted_to gate_env viewer_daemon viewer ''/srv/k.yaml'' ''inspect:services''"
proof -
  obtain m doc d' where run: "serve gate_env sample_disk sample_io viewer (Inspect ''/srv/k.yaml'' [] True True True) viewer_daemon =
     (Respond (RespOk m (Some (RdInspect doc))), d')" and shown: "in_services doc \<noteq> None"
    using viewer_example by (metis option.distinct(1))
  have "de_canonicalize gate_env ''/srv/k.yaml'' = Ok ''/srv/k.yaml''" "pc_uid viewer \<noteq> 0"
    "\<forall>acl. access_data gate_env viewer_daemon ''/srv/k.yaml'' \<noteq> Some (Some (pc_uid viewer), acl)"
    by (simp_all add: gate_env_def viewer_def viewer_daemon_def access_data_def hm_get_def)
  from inspect_confidential [OF run this] run shown show ?thesis by blast
qed

subsection \<open>Services start under the limits of the caller\<close>

fun launch_args :: "operation \<Rightarrow> start_args option" where
  "launch_args (StartServices a _) = Some a"
| "launch_args (RunServices a _ _) = Some a"
| "launch_args (RecreateServices a) = Some a"
| "launch_args _ = None"

lemma launching_Perform:
  assumes "launching env op r d = (Perform evs op', d')" "\<And>a. launch_args (op a) = Some a" "launch_args op' = Some args"
  shows "r = Ok args"
  using assms by (auto simp: launching_def split: sum.splits)

lemma start_args_Ok:
  assumes "start_args_of env auth_ctx peer p services sys_env nd oe h fl = Ok args"
  shows "de_canonicalize env p = Ok (sa_config_path args)" "sa_owner args = (pc_uid peer, pc_gid peer)"
    "sa_permission_ceiling args = permission_ceiling auth_ctx"
    "sa_hardening args = Option.bind h (\<lambda>s. res_ok (hardening_from_str s))"
  using assms
  by (auto simp: start_args_of_def bind_res_Ok_iff canonicalize_config_path_def parse_hardening_def map_err_Ok_iff res_ok_def
      split: sum.splits io_error.splits option.splits)

lemma handle_request_launch:
  assumes "handle_request env dk io auth_ctx peer q d = (Perform evs op, d')" "launch_args op = Some args"
  shows "starts_services q \<and> (\<exists>p. extract_config_path q = Some p \<and> de_canonicalize env p = Ok (sa_config_path args)) \<and>
    sa_owner args = (pc_uid peer, pc_gid peer) \<and> sa_permission_ceiling args = permission_ceiling auth_ctx \<and>
    sa_hardening args = request_level q"
proof (cases q)
  case (Start p services sys_env nd oe h follow fl)
  with launching_Perform [OF _ _ assms(2)] assms(1) have "start_args_of env auth_ctx peer p services sys_env nd oe h fl = Ok args"
    by fastforce
  from start_args_Ok [OF this] Start show ?thesis by (simp add: starts_services_def request_level_def)
next
  case (Run p services sys_env nd oe h follow clean fl)
  with launching_Perform [OF _ _ assms(2)] assms(1) have "start_args_of env auth_ctx peer p services sys_env nd oe h fl = Ok args"
    by fastforce
  from start_args_Ok [OF this] Run show ?thesis by (simp add: starts_services_def request_level_def)
next
  case (Recreate p sys_env h fl)
  with launching_Perform [OF _ _ assms(2)] assms(1) have "start_args_of env auth_ctx peer p [] sys_env False None h fl = Ok args"
    by fastforce
  from start_args_Ok [OF this] Recreate show ?thesis by (simp add: starts_services_def request_level_def)
qed (use assms in \<open>auto simp: handle_stop_def handle_restart_def on_path_def handle_logs_stream_def handle_inspect_def
    handle_monitor_metrics_def Let_def split: if_splits sum.splits option.splits prod.splits stream_response.splits\<close>)


lemma launch_example:
  "\<exists>args d'. serve gate_env sample_disk sample_io \<lparr>pc_token = Some [7], pc_uid = 1000, pc_gid = 9\<rparr>
     (Run ''/srv/new.yaml'' [] None False None None False True None) (gate_daemon ''/srv/k.yaml'') =
     (Perform [] (RunServices args False True), d') \<and> sa_config_path args = ''/srv/new.yaml''"
  by (simp add: eval_dispatch launching_def start_args_of_def parse_hardening_def hardening_from_str_def invalidate_acl_def)


subsection \<open>Which configurations a caller sees\<close>

text \<open>What lets a caller other than root see a loaded configuration: ownership or a rule that grants \<^verbatim>\<open>status\<close>, within the token.\<close>

definition may_see :: "('v, 'k, 'f) daemon_env \<Rightarrow> ('v, 'k) daemon \<Rightarrow> peer_credentials \<Rightarrow> ('v, 'k) config_handle \<Rightarrow> bool" where
  "may_see env d peer h =
     ((case peer_token d peer of Some ctx \<Rightarrow> ''status'' \<in> tc_allow ctx | None \<Rightarrow> True) \<and>
      (hd_owner_uid h = Some (pc_uid peer) \<or>
       (\<exists>a gids. hd_acl h = Some a \<and> get_all_gids (de_db env) (pc_uid peer) (pc_gid peer) = Ok gids \<and>
          ''status'' \<in> acl_granted a (pc_uid peer) gids)))"

lemma status_in_all_rights: "''status'' \<in> all_rights"
  by code_simp

lemma can_read_iff:
  assumes "resolve_auth (de_db env) (pc_token peer) (pc_uid peer) (pc_gid peer) gid (dm_tokens d) = Ok auth_ctx" "pc_uid peer \<noteq> 0"
  shows "can_read_config_status env auth_ctx h \<longleftrightarrow> may_see env d peer h"
proof (cases "peer_token d peer")
  case None
  with peer_token_auth [OF assms(1)] assms(2) have "auth_ctx = AuthGroup (pc_uid peer) (pc_gid peer)" by simp
  with None show ?thesis
    by (auto simp: can_read_config_status_def may_see_def effective_rights_def bind_res_def collect_rights_eq status_in_all_rights
        granted_unmatched split: option.splits sum.splits if_splits)
next
  case (Some ctx)
  with peer_token_auth [OF assms(1)] have "auth_ctx = AuthToken (pc_uid peer) (pc_gid peer) ctx" by simp
  with Some assms(2) show ?thesis
    by (auto simp: can_read_config_status_def may_see_def effective_rights_def bind_res_def collect_rights_eq status_in_all_rights
        granted_unmatched split: option.splits sum.splits if_splits)
qed

lemma authorize_no_path:
  "authorize env peer q d = (Ok (auth_ctx, q'), d') \<Longrightarrow> extract_config_path q = None \<Longrightarrow> d' = d"
  using authorize_state authorize_Ok(5) by (fastforce simp: acl_gate_def)

text \<open>
  C25. The list of all configurations and the status of all of them show a caller other than root
  exactly the loaded configurations that the caller owns or has the right \<^verbatim>\<open>status\<close> on by a
  rule, for the bearer of a token only if the token allows it, each once and with the status of its services.
\<close>

theorem listings_show_visible:
  assumes "serve env dk io peer q d = (Respond (RespOk m (Some x)), d')" "pc_uid peer \<noteq> 0"
  shows "(q = ListConfigs \<longrightarrow> (\<exists>infos. x = RdConfigList infos \<and>
      map li_config_path infos = map fst (filter (\<lambda>(_, h). may_see env d peer h) (dm_registry d)))) \<and>
    (q = Status None \<longrightarrow> (\<exists>sts. x = RdMultiConfigStatus sts \<and>
      map (\<lambda>st. (cs_config_path st, cs_services st)) sts =
      map (\<lambda>(c, h). (c, map (\<lambda>(n, st). (n, to_service_info st)) (ca_services (hd_actor h))))
        (filter (\<lambda>(_, h). may_see env d peer h) (dm_registry d))))"
proof -
  obtain auth_ctx q' d1 where auth: "authorize env peer q d = (Ok (auth_ctx, q'), d1)"
    and run: "handle_request env dk io auth_ctx peer q' d1 = (Respond (RespOk m (Some x)), d')"
    using assms(1) by (elim serve_Respond_Ok) auto
  note facts = authorize_Ok [OF auth]
  have q': "q' = q" "d1 = d" if "q = ListConfigs \<or> q = Status None"
    using that floor_unchanged [OF _ facts(2)] authorize_no_path [OF auth] by (auto simp: starts_services_def)
  have see: "can_read_config_status env auth_ctx h = may_see env d peer h" for h
    by (rule can_read_iff [OF facts(1) assms(2)])
  show ?thesis
    using run q' by (auto simp: handle_list_configs_def handle_status_def visible_handles_def see service_status_def get_service_status_def)
qed

lemma listing_example:
  "\<exists>m x d'. serve gate_env sample_disk sample_io viewer ListConfigs (gate_daemon ''/srv/k.yaml'') = (Respond (RespOk m (Some x)), d')"
  by (simp add: eval_dispatch handle_list_configs_def)

theorem listings_show_visible_witness:
  "\<exists>m infos d'. serve gate_env sample_disk sample_io viewer ListConfigs (gate_daemon ''/srv/k.yaml'') =
     (Respond (RespOk m (Some (RdConfigList infos))), d') \<and> map li_config_path infos = [''/srv/k.yaml'']"
proof -
  let ?d = "gate_daemon ''/srv/k.yaml''"
  obtain m x d' where run: "serve gate_env sample_disk sample_io viewer ListConfigs ?d = (Respond (RespOk m (Some x)), d')"
    using listing_example by blast
  have "pc_uid viewer \<noteq> 0" by (simp add: viewer_def)
  from listings_show_visible [OF run this] obtain infos where infos: "x = RdConfigList infos"
    "map li_config_path infos = map fst (filter (\<lambda>(_, h). may_see gate_env ?d viewer h) (dm_registry ?d))" by auto
  have "filter (\<lambda>(_, h). may_see gate_env ?d viewer h) (dm_registry ?d) = dm_registry ?d"
    by (simp add: may_see_def peer_token_def viewer_def gate_daemon_def gate_acl_def gate_env_def empty_db_def
        get_all_gids_def acl_granted_def acl_empty_def)
  with infos have "map li_config_path infos = [''/srv/k.yaml'']" by (simp add: gate_daemon_def)
  with run infos(1) show ?thesis by auto
qed

subsection \<open>Refusals\<close>

lemma authorize_root:
  assumes "authorize env peer q d = (Ok (auth_ctx, q'), d')"
  shows "is_root auth_ctx \<longleftrightarrow> pc_uid peer = 0 \<and> peer_token d peer = None" "auth_uid auth_ctx = pc_uid peer"
  using peer_token_auth [OF authorize_Ok(1) [OF assms]]
  by (auto simp: is_root_def split: option.splits)

definition privileged :: "('v, 'k) daemon \<Rightarrow> peer_credentials \<Rightarrow> request \<Rightarrow> bool" where
  "privileged d peer q = (case q of
      Shutdown \<Rightarrow> pc_uid peer = 0 \<and> peer_token d peer = None
    | Prune _ _ \<Rightarrow> pc_uid peer = 0 \<and> peer_token d peer = None
    | ConfigOwner _ \<Rightarrow> pc_uid peer = 0
    | _ \<Rightarrow> True)"

lemma handle_request_denied:
  "fst (handle_request env dk io auth_ctx peer q d) = Respond (RespDenied x) \<longleftrightarrow>
   x = RootOnly \<and> (case q of Shutdown \<Rightarrow> \<not> is_root auth_ctx | Prune _ _ \<Rightarrow> \<not> is_root auth_ctx
     | ConfigOwner _ \<Rightarrow> auth_uid auth_ctx \<noteq> 0 | _ \<Rightarrow> False)"
  by (cases q)
    (auto simp: launching_def handle_stop_def handle_restart_def handle_status_def handle_list_configs_def handle_logs_stream_def
      on_path_def handle_inspect_def handle_check_def handle_user_rights_def handle_config_owner_def handle_monitor_metrics_def
      Let_def split: sum.splits option.splits prod.splits stream_response.splits)

text \<open>
  C24. A client is told that permission is denied exactly when the authorization pipeline refuses it
  on the hardening floor, on the permission bits of the file or on its rights; or when it asks for an
  operation of the daemon itself, a shutdown or a pruning, without being root and free of a token, or
  for the owner of a configuration without being root. A failed authentication and a path that does
  not resolve are errors of their own.
\<close>

theorem denied_exactly:
  "(\<exists>x. fst (serve env dk io peer q d) = Respond (RespDenied x)) \<longleftrightarrow> (case fst (authorize env peer q d) of
      Inl e \<Rightarrow> (\<forall>m. e \<noteq> AuthenticationFailed m) \<and> (\<forall>p. e \<noteq> ConfigPathNotFound p)
    | Inr _ \<Rightarrow> \<not> privileged d peer q)"
proof (cases "authorize env peer q d")
  case (Pair r d1)
  show ?thesis
  proof (cases r)
    case (Inl e)
    with Pair show ?thesis by (cases e) (simp_all add: serve_def)
  next
    case (Inr y)
    obtain auth_ctx q' where y: "y = (auth_ctx, q')" by (cases y)
    with Pair Inr have auth: "authorize env peer q d = (Ok (auth_ctx, q'), d1)" by simp
    have "starts_services q \<or> q' = q" using floor_unchanged authorize_Ok(2) [OF auth] by blast
    moreover have "starts_services q' = starts_services q"
      using authorize_Ok(2) [OF auth]
      by (cases q) (auto simp: apply_hardening_floor_def bind_res_Ok_iff starts_services_def split: auth_context.splits option.splits)
    ultimately show ?thesis
      using authorize_root [OF auth]
      by (auto simp: serve_def auth handle_request_denied privileged_def starts_services_def split: request.splits)
  qed
qed

subsection \<open>Late subscribers\<close>

lemma emit_inj: "emit es a = emit es' a \<longleftrightarrow> es = es'"
proof
  assume "emit es a = emit es' a"
  then have "ca_effects (emit es a) = ca_effects (emit es' a)" by simp
  then show "es = es'" by (simp add: emit_def)
qed simp

lemma emit_changes: "a = emit (e # es) a \<longleftrightarrow> False"
  using emit_inj [of "[]" a "e # es"] by (simp add: emit_def)

text \<open>
  C27. A client that subscribes late is told of the same failures. As long as no service runs with a
  restart setting that differs from the one in its configuration file, the failures replayed to a new
  subscriber are exactly those of the services it follows for which the actor, entering the present
  status, sends the event that the failure is not handled, with the same exit code.
\<close>

theorem replay_matches_notification:
  assumes "hm_wf (kc_services (ca_config a))"
    and "\<And>n rc raw. ca_resolved_configs a n = Some rc \<Longrightarrow> hm_get (kc_services (ca_config a)) n = Some raw \<Longrightarrow>
      rc_restart rc = static_restart raw"
  shows "SeUnhandledFailure n code \<in> set (replay_failures (hm_get (ca_services a)) (kc_services (ca_config a)) services) \<longleftrightarrow>
    in_filter services n \<and> n \<in> set (hm_keys (kc_services (ca_config a))) \<and>
    (\<exists>s. hm_get (ca_services a) n = Some s \<and>
      notify_unhandled n (ss_status s) a = emit [ToSubscribers (UnhandledFailure n code)] a)"
proof -
  let ?svs = "kc_services (ca_config a)"
  have follows: "actor_restart_follows a n st c = restart_follows st c (static_restart raw)"
    if "hm_get ?svs n = Some raw" for st c raw
    using assms(2) [of n _ raw] that by (auto simp: actor_restart_follows_def split: option.splits)
  have "SeUnhandledFailure n code \<in> set (replay_failures (hm_get (ca_services a)) ?svs services) \<longleftrightarrow>
    in_filter services n \<and> code = Option.bind (hm_get (ca_services a) n) ss_exit_code \<and>
    (\<exists>raw. hm_get ?svs n = Some raw \<and> replays_failure (hm_get (ca_services a)) ?svs n raw)"
    by (auto simp: replay_failures_def hm_get_set_iff [OF assms(1)])
  also have "\<dots> \<longleftrightarrow> in_filter services n \<and> (\<exists>raw s. hm_get ?svs n = Some raw \<and> hm_get (ca_services a) n = Some s \<and>
      notify_unhandled n (ss_status s) a = emit [ToSubscribers (UnhandledFailure n code)] a)"
    by (auto simp: follows emit_inj emit_changes  replays_failure_def notify_unhandled_def Let_def split: option.splits)
  finally show ?thesis
    by (force simp: hm_get_set_iff [OF assms(1)] hm_keys_def)
qed

text \<open>A service that was killed and is not restarted.\<close>

definition killed_actor :: config_actor where
  "killed_actor = sample_actor\<lparr>ca_services := [(''web'', service_state_default\<lparr>ss_status := Killed\<rparr>)]\<rparr>"

theorem replay_matches_notification_witness:
  "SeUnhandledFailure ''web'' None \<in> set (replay_failures (hm_get (ca_services killed_actor)) (kc_services (ca_config killed_actor)) None) \<and>
   (\<exists>s. hm_get (ca_services killed_actor) ''web'' = Some s \<and>
      notify_unhandled ''web'' (ss_status s) killed_actor = emit [ToSubscribers (UnhandledFailure ''web'' None)] killed_actor)"
proof -
  let ?a = killed_actor
  have "hm_wf (kc_services (ca_config ?a))"
    by (simp add: killed_actor_def eval_actor hm_wf_def)
  moreover have "rc_restart rc = static_restart raw" if "ca_resolved_configs ?a n = Some rc" for n rc raw
    using that by (simp add: killed_actor_def eval_actor)
  moreover have "SeUnhandledFailure ''web'' None \<in> set (replay_failures (hm_get (ca_services ?a)) (kc_services (ca_config ?a)) None)"
    by code_simp
  ultimately show ?thesis
    using replay_matches_notification [of ?a "''web''" None None] by blast
qed

subsection \<open>Limits\<close>

text \<open>
  A value with a character across the limit of 512 bytes stops an inspection: the slice panics.
\<close>

lemma inspect_slice_panics:
  assumes "length v > 512" "128 \<le> (of_char (v ! 512) :: nat)" "(of_char (v ! 512) :: nat) < 192"
  shows "truncate_output_map [(k, v)] = None"
  using assms by (simp add: truncate_output_value_def MAX_OUTPUT_VALUE_LEN_def is_char_boundary_def)

text \<open>
  A subscription to a configuration that nothing is known of passes without a look at the caller's
  rights, and then waits until the configuration is loaded.
\<close>

lemma subscription_before_load:
  assumes "de_canonicalize env p = Ok c" "hm_get (dm_registry d) c = None" "compute_state_dir env c = None"
    and "resolve_auth (de_db env) (pc_token peer) (pc_uid peer) (pc_gid peer) (de_kepler_gid env) (dm_tokens d) = Ok auth_ctx"
    and "apply_hardening_floor auth_ctx (Subscribe p services) = Ok (Subscribe p services)"
    and "filesystem_gate env auth_ctx (Subscribe p services) = Ok ()"
  shows "serve env dk io peer (Subscribe p services) d = (Perform [] (AwaitConfig c services), d)"
  using unknown_config_no_rights [of "Subscribe p services" p env c d peer] assms
  by (simp add: serve_def on_path_def canonicalize_config_path_def)

text \<open>
  The cached access data of a configuration outlives its cleaning: when the operation has removed the
  state directory, there is no directory to look the entry up by.
\<close>

lemma clean_keeps_cached_access:
  assumes "compute_state_dir env c = None"
  shows "snd (snd (finish_operation env (StopServices c services True sig tracked targets discard) r d)) = d"
  using assms by (simp add: invalidate_acl_def)

end
