(* ===== verification/Log_Paging.thy ===== *)
theory Log_Paging
  imports Log_Stream
begin

text \<open>
  What the pages of the log stream add up to: the table of a page gives back its service names, the
  loop of \<^verbatim>\<open>kepler logs\<close> prints exactly the window that was asked for and ends, and a following
  client prints every line once, however it interleaves with the writer.
\<close>

subsection \<open>Pages\<close>

text \<open>The table of a page gives back every service name.\<close>

definition numbers_ok :: "string list \<times> (string \<rightharpoonup> 16 word) \<Rightarrow> bool" where
  "numbers_ok st \<longleftrightarrow> (\<forall>s i. snd st s = Some i \<longrightarrow> unat i < length (fst st) \<and> fst st ! unat i = s)"

lemma service_number_ok:
  assumes "numbers_ok st" "length (fst st) < 65536" "service_number st s = (i, st')"
  shows "numbers_ok st'" "unat i < length (fst st')" "fst st' ! unat i = s" "length (fst st') \<le> length (fst st) + 1"
    "\<exists>t. fst st' = fst st @ t"
proof -
  obtain table m where st: "st = (table, m)" by fastforce
  have n: "unat (of_nat (length table) :: 16 word) = length table"
    using assms(2) by (simp add: st unat_of_nat)
  show "numbers_ok st'" "unat i < length (fst st')" "fst st' ! unat i = s" "length (fst st') \<le> length (fst st) + 1"
    "\<exists>t. fst st' = fst st @ t"
    using assms n unfolding st numbers_ok_def service_number_def
    by (auto simp: Let_def nth_append less_Suc_eq split: option.splits if_splits)
qed

lemma compact_entries_table: "compact_entries st ls = (es, table) \<Longrightarrow> \<exists>t. table = fst st @ t"
proof (induction ls arbitrary: st es table)
  case (Cons l ls)
  obtain i st' where n: "service_number st (ll_service l) = (i, st')" by (cases "service_number st (ll_service l)")
  obtain es' where "compact_entries st' ls = (es', table)"
    using Cons.prems n by (auto simp: split_def Let_def) (metis prod.collapse)
  from Cons.IH [OF this] obtain t where "table = fst st' @ t" by blast
  moreover have "\<exists>t. fst st' = fst st @ t"
    using n by (auto simp: service_number_def Let_def split: prod.splits option.splits)
  ultimately show ?case by auto
qed simp

lemma compact_entries_decode:
  assumes "compact_entries st ls = (es, table)" "numbers_ok st" "length (fst st) + length ls \<le> 65536"
  shows "map (entry_line table) es = map Some ls"
  using assms
proof (induction ls arbitrary: st es)
  case (Cons l ls)
  obtain i st' where n: "service_number st (ll_service l) = (i, st')" by (cases "service_number st (ll_service l)")
  obtain es' where es': "compact_entries st' ls = (es', table)"
    using Cons.prems(1) n by (auto simp: split_def Let_def) (metis prod.collapse)
  note ok = service_number_ok [OF Cons.prems(2) _ n]
  have len: "length (fst st) < 65536" using Cons.prems(3) by simp
  obtain t where table: "table = fst st' @ t" using compact_entries_table [OF es'] by blast
  have "map (entry_line table) es' = map Some ls"
    using Cons.IH [OF es' ok(1)] len ok(4) Cons.prems(3) by simp
  moreover have "unat i < length table" "table ! unat i = ll_service l"
    using ok(2,3) len by (auto simp: table nth_append)
  then have "entry_line table \<lparr>se_id = ll_id l, se_service_id = i, se_line = ll_line l, se_timestamp = ll_timestamp l,
      se_level = ll_level l, se_hook = ll_hook l, se_attributes = ll_attributes l\<rparr> = Some l"
    by (simp add: entry_line_def)
  ultimately show ?case
    using Cons.prems(1) n es' by auto
qed simp

lemma stream_data_decode:
  assumes "length ls \<le> STREAM_CHUNK_SIZE" "k \<le> length ls"
  shows "map (entry_line (ls_service_table (stream_data False ls hm c))) (take k (ls_entries (stream_data False ls hm c)))
    = map Some (take k ls)"
proof -
  obtain es table where c: "compact_entries ([], Map.empty) ls = (es, table)" by fastforce
  have "map (entry_line table) es = map Some ls"
    using compact_entries_decode [OF c] assms(1) by (simp add: numbers_ok_def STREAM_CHUNK_SIZE_def)
  then have "map (entry_line table) (take k es) = map Some (take k ls)" by (metis take_map)
  then show ?thesis by (simp add: stream_data_def c)
qed

lemma stream_data_simps [simp]:
  "ls_last_id (stream_data raw ls hm c) = c" "ls_has_more (stream_data raw ls hm c) = hm"
  by (simp_all add: stream_data_def split_def)

lemma stream_data_raw: "map se_line (ls_entries (stream_data True ls hm c)) = map ll_line ls"
  by (simp add: stream_data_def raw_entry_def)

lemma stream_data_length [simp]: "length (ls_entries (stream_data raw ls hm c)) = length ls"
proof -
  have "length (fst (compact_entries st ls)) = length ls" for st
    by (induction ls arbitrary: st) (auto simp: split_def Let_def)
  then show ?thesis by (auto simp: stream_data_def split_def)
qed

lemma stream_data_empty [simp]: "ls_entries (stream_data raw ls hm c) = [] \<longleftrightarrow> ls = []"
  using stream_data_length [of raw ls hm c] by (metis length_0_conv)

text \<open>
  What SQLite is relied on for: the statements of the reader answer from the list of the entries that
  satisfy their conditions, in the order of their positive and distinct positions.
\<close>

definition answers :: "log_db \<Rightarrow> string list \<Rightarrow> bool \<Rightarrow> sql_fragment option \<Rightarrow> log_line list \<Rightarrow> bool" where
  "answers db services no_hooks flt m \<longleftrightarrow> db_opens db \<and>
     sorted_wrt (\<lambda>a b. ll_id a < ll_id b) m \<and> list_all (\<lambda>l. 0 < ll_id l) m \<and>
     (\<forall>after limit q. limit \<le> STREAM_CHUNK_SIZE \<and> after_query after limit services no_hooks flt None None = Some q
        \<longrightarrow> db_lines db q = Ok (take (limit + 1) (filter (\<lambda>l. after < ll_id l) m))) \<and>
     (\<forall>count q. 0 < count \<and> count \<le> 2 ^ 63 \<and> tail_start_id_query count services no_hooks flt None None = Some q
        \<longrightarrow> res_ok (db_first_id db q) = (if count \<le> length m then Some (ll_id (m ! (length m - count))) else None))"

lemma last_take_Suc: "j < length t \<Longrightarrow> last (take (Suc j) t) = t ! j"
  by (simp add: take_Suc_conv_app_nth)

lemma answers_after:
  assumes "answers db services no_hooks flt m" "limit \<le> STREAM_CHUNK_SIZE"
    "after_query after limit services no_hooks flt None None = Some q"
  shows "db_lines db q = Ok (take (limit + 1) (filter (\<lambda>l. after < ll_id l) m))"
  using assms unfolding answers_def by blast

lemma answers_first_id:
  assumes "answers db services no_hooks flt m" "0 < count" "count \<le> 2 ^ 63"
    "tail_start_id_query count services no_hooks flt None None = Some q"
  shows "res_ok (db_first_id db q) = (if count \<le> length m then Some (ll_id (m ! (length m - count))) else None)"
  using assms unfolding answers_def by blast

lemma answers_sorted:
  assumes "answers db services no_hooks flt m"
  shows "db_opens db" "sorted_wrt (\<lambda>a b. ll_id a < ll_id b) m" "list_all (\<lambda>l. 0 < ll_id l) m"
  using assms unfolding answers_def by blast+

lemma filter_after_last:
  assumes "sorted_wrt (\<lambda>a b. ll_id a < ll_id b) m" "k < length (filter (\<lambda>l. c < ll_id l) m)"
  shows "filter (\<lambda>l. ll_id (filter (\<lambda>l. c < ll_id l) m ! k) < ll_id l) m = drop (Suc k) (filter (\<lambda>l. c < ll_id l) m)"
proof -
  let ?t = "filter (\<lambda>l. c < ll_id l) m"
  have sorted: "sorted_wrt (\<lambda>a b. ll_id a < ll_id b) ?t" using assms(1) by (rule sorted_wrt_filter)
  have split: "?t = take (Suc k) ?t @ drop (Suc k) ?t" by simp
  have "filter (\<lambda>l. ll_id (?t ! k) < ll_id l) m = filter (\<lambda>l. ll_id (?t ! k) < ll_id l) ?t"
  proof -
    have "c < ll_id (?t ! k)" using nth_mem [OF assms(2)] by auto
    then show ?thesis by (auto simp: filter_filter intro!: filter_cong)
  qed
  also have "\<dots> = filter (\<lambda>l. ll_id (?t ! k) < ll_id l) (take (Suc k) ?t) @ filter (\<lambda>l. ll_id (?t ! k) < ll_id l) (drop (Suc k) ?t)"
    by (subst split) (rule filter_append)
  also have "filter (\<lambda>l. ll_id (?t ! k) < ll_id l) (take (Suc k) ?t) = []"
  proof -
    have "\<not> ll_id (?t ! k) < ll_id (?t ! i)" if "i \<le> k" for i
      using sorted_wrt_nth_less [OF sorted, of i k] assms(2) that by (cases "i = k") simp_all
    then show ?thesis using assms(2) by (auto simp: filter_empty_conv in_set_conv_nth)
  qed
  also have "filter (\<lambda>l. ll_id (?t ! k) < ll_id l) (drop (Suc k) ?t) = drop (Suc k) ?t"
    using sorted_wrt_nth_less [OF sorted, of k] assms(2) by (auto simp: filter_id_conv in_set_conv_nth)
  finally show ?thesis by simp
qed

text \<open>The setting of the theorems on pages: a filter that is accepted and a database that answers.\<close>

definition page_setting ::
    "(rat \<Rightarrow> f64) \<Rightarrow> log_db \<Rightarrow> stream_params \<Rightarrow> sql_fragment option \<Rightarrow> log_line list \<Rightarrow> bool" where
  "page_setting rnd db p flt m \<longleftrightarrow>
     stream_filter rnd (next_request p (stream_init p)) = Ok flt \<and> checked_filter flt = Ok () \<and>
     build_filter (sp_services p) (sp_no_hooks p) flt None None \<noteq> None \<and>
     answers db (sp_services p) (sp_no_hooks p) flt m"

lemma page_at:
  assumes "page_setting rnd db p flt m" "effective_after_id db flt q = Some (Ok c)"
    and "sr_services q = sp_services p" "sr_no_hooks q = sp_no_hooks p" "sr_after_ts q = None" "sr_before_ts q = None"
  shows "read_page db hp flt q = (let t = filter (\<lambda>l. c < ll_id l) m; k = min (sr_limit q) STREAM_CHUNK_SIZE
     in Some (Ok (take k t, k < length t \<or> hp, if take k t = [] then c else ll_id (last (take k t)))))"
proof -
  let ?k = "min (sr_limit q) STREAM_CHUNK_SIZE" and ?t = "filter (\<lambda>l. c < ll_id l) m"
  obtain st where "after_query c ?k (sp_services p) (sp_no_hooks p) flt None None = Some st"
    using assms(1) by (auto simp: page_setting_def after_query_def)
  moreover from this have "db_lines db st = Ok (take (?k + 1) ?t)"
    using assms(1) answers_after by (metis page_setting_def min.cobounded2)
  ultimately have "reader_after db c ?k (sr_services q) (sr_no_hooks q) flt (sr_after_ts q) (sr_before_ts q)
      = Some (Ok (take ?k ?t, ?k < length ?t))"
    using assms answers_sorted(1) by (auto simp: reader_after_def page_setting_def query_or_empty_def)
  then show ?thesis
    by (simp add: read_page_def assms(2) Let_def)
qed

lemma next_request_simps [simp]:
  "sr_services (next_request p st) = sp_services p" "sr_no_hooks (next_request p st) = sp_no_hooks p"
  "sr_filter (next_request p st) = sp_filter p" "sr_sql (next_request p st) = sp_sql p"
  "sr_after_ts (next_request p st) = None" "sr_before_ts (next_request p st) = None"
  "sr_raw (next_request p st) = sp_raw p" "sr_after_id (next_request p st) = st_last_id st"
  "sr_tail (next_request p st) = (sp_tail p \<and> st_last_id st = None)"
  "sr_from_end (next_request p st) = (sp_mode p = Follow \<and> st_last_id st = None)"
  by (simp_all add: next_request_def Let_def)

lemma stream_filter_next: "stream_filter rnd (next_request p st) = stream_filter rnd (next_request p (stream_init p))"
  by (simp add: stream_filter_def split: option.splits)

lemma logs_stream_at:
  assumes "page_setting rnd db p flt m" "effective_after_id db flt (next_request p st) = Some (Ok c)"
  shows "logs_stream rnd db hp (next_request p st) =
    (let t = filter (\<lambda>l. c < ll_id l) m; k = min (sr_limit (next_request p st)) STREAM_CHUNK_SIZE
     in Some (StreamOk (stream_data (sp_raw p) (take k t) (k < length t \<or> hp) (if take k t = [] then c else ll_id (last (take k t))))))"
proof -
  have "stream_filter rnd (next_request p st) = Ok flt"
    using assms(1) stream_filter_next [of rnd p st] by (simp add: page_setting_def)
  then show ?thesis
    using page_at [OF assms] by (simp add: logs_stream_def Let_def)
qed

subsection \<open>Following the pages\<close>

lemma stream_all_step:
  assumes "stream_iteration p (AtResponse (serve (next_request p st))) st = (st', act)"
  shows "stream_all serve p st = (case act of Leave r \<Rightarrow> Some (r, st') | _ \<Rightarrow> stream_all serve p st')"
  by (subst stream_all.simps) (simp add: assms)

lemma printed_append [simp]:
  "printed (st\<lparr>st_last_id := x, st_remaining := y, st_batches := st_batches st @ bs\<rparr>) =
   printed st @ concat (map (\<lambda>(table, es). map (entry_line table) es) bs)"
  "printed (st\<lparr>st_flush_waits := n\<rparr>) = printed st" "printed (st\<lparr>st_last_id := x\<rparr>) = printed st"
  by (simp_all add: printed_def)

text \<open>What is printed for a page, and how the state moves on.\<close>

definition owed :: "nat option \<Rightarrow> 'a list \<Rightarrow> 'a list" where
  "owed r xs = (case r of Some n \<Rightarrow> take n xs | None \<Rightarrow> xs)"

lemma take_batch_page:
  assumes "take_batch (stream_data False ls hm c) st = (st', entries, exhausted)" "length ls \<le> STREAM_CHUNK_SIZE"
  shows "printed st' = printed st @ map Some (owed (st_remaining st) ls)" "st_last_id st' = Some c"
    "length entries = length (owed (st_remaining st) ls)"
    "st_remaining st' = map_option (\<lambda>n. n - length (owed (st_remaining st) ls)) (st_remaining st)"
    "exhausted = (\<exists>n. st_remaining st = Some n \<and> n \<le> length ls)"
proof -
  let ?d = "stream_data False ls hm c"
  have "map (entry_line (ls_service_table ?d)) (ls_entries ?d) = map Some ls"
    using stream_data_decode [OF assms(2), of "length ls" hm c] by simp
  moreover have "map (entry_line (ls_service_table ?d)) (take n (ls_entries ?d)) = map Some (take n ls)" for n
    using calculation by (metis take_map)
  moreover have "map (entry_line t) es = [] \<Longrightarrow> es = []" for t es by simp
  ultimately show "printed st' = printed st @ map Some (owed (st_remaining st) ls)"
    using assms(1) by (cases "st_remaining st") (auto simp: take_batch_def owed_def Let_def)
qed (use assms in \<open>auto simp: take_batch_def owed_def Let_def min_def split: option.splits if_splits\<close>)

text \<open>From a cursor on, the loop prints what is owed of the entries behind the cursor, and ends.\<close>

lemma stream_all_from:
  assumes "page_setting rnd db p flt m" "sp_mode p = All" "\<not> sp_raw p" "0 < sp_limit p"
    and serve: "\<And>q r. logs_stream rnd db False q = Some r \<Longrightarrow> serve q = r"
  shows "st_last_id st = Some c \<Longrightarrow> st_remaining st \<noteq> Some 0 \<Longrightarrow>
    \<exists>st'. stream_all serve p st = Some (Done, st') \<and>
      printed st' = printed st @ map Some (owed (st_remaining st) (filter (\<lambda>l. c < ll_id l) m))"
proof (induction "length (filter (\<lambda>l. c < ll_id l) m)" arbitrary: st c rule: less_induct)
  case less
  define t where "t = filter (\<lambda>l. c < ll_id l) m"
  define k where "k = min (sr_limit (next_request p st)) STREAM_CHUNK_SIZE"
  define c' where "c' = (if take k t = [] then c else ll_id (last (take k t)))"
  have k: "0 < k" "k \<le> STREAM_CHUNK_SIZE" "\<And>n. st_remaining st = Some n \<Longrightarrow> k \<le> n"
    using assms(4) less.prems by (auto simp: k_def next_request_def STREAM_CHUNK_SIZE_def Let_def split: option.splits)
  have pos: "effective_after_id db flt (next_request p st) = Some (Ok c)"
    using less.prems(1) by (simp add: effective_after_id_def)
  have resp: "serve (next_request p st) = StreamOk (stream_data False (take k t) (k < length t) c')"
    unfolding t_def k_def c'_def by (rule serve) (use assms(3) in \<open>simp only: logs_stream_at [OF assms(1) pos] Let_def simp_thms\<close>)
  obtain st1 entries exhausted where b: "take_batch (stream_data False (take k t) (k < length t) c') st = (st1, entries, exhausted)"
    using prod_cases3 by blast
  have len: "length (take k t) \<le> STREAM_CHUNK_SIZE" using k(2) by simp
  note batch = take_batch_page [OF b len]
  have all: "owed (st_remaining st) (take k t) = take k t"
    using k(3) by (auto simp: owed_def min_def split: option.splits)
  show ?case
  proof (cases exhausted)
    case True
    then obtain n where n: "st_remaining st = Some n" "n \<le> length (take k t)" using batch(5) by blast
    then have "k = n" using k(3) by auto
    then have "owed (st_remaining st) t = take k t" by (simp add: owed_def n)
    moreover have "stream_all serve p st = Some (Done, st1)"
      by (subst stream_all_step) (auto simp: stream_iteration_def resp b True)
    ultimately show ?thesis using batch(1) all by (simp add: t_def)
  next
    case left: False
    have step_to: "stream_iteration p (AtResponse (serve (next_request p st))) st =
        mode_action p (k < length t \<and> entries \<noteq> []) (k < length t \<and> entries = []) st1"
      by (simp add: stream_iteration_def resp b left)
    show ?thesis
    proof (cases "k < length t")
      case True
      define st2 where "st2 = st1\<lparr>st_flush_waits := 0\<rparr>"
      have "entries \<noteq> []" using batch(3) all True k(1) by auto
      then have step: "stream_all serve p st = stream_all serve p st2"
        using True stream_all_step [of p serve st st2 Retry] step_to by (simp add: mode_action_def assms(2) st2_def)
      have "take k t \<noteq> []" "last (take k t) = t ! (k - 1)"
        using True k(1) last_take_Suc [of "k - 1" t] by (cases t; simp)+
      then have c': "filter (\<lambda>l. c' < ll_id l) m = drop k t"
        using filter_after_last [of m "k - 1" c] True k(1) answers_sorted(2) assms(1)
        by (auto simp: c'_def t_def page_setting_def)
      have rem: "st_remaining st2 = map_option (\<lambda>n. n - k) (st_remaining st)"
        using batch(4) all True by (simp add: st2_def min_def)
      have "\<And>n. st_remaining st = Some n \<Longrightarrow> k < n" using batch(5) left True by auto
      then have "st_remaining st2 \<noteq> Some 0" using rem by (cases "st_remaining st") auto
      moreover have "length (filter (\<lambda>l. c' < ll_id l) m) < length (filter (\<lambda>l. c < ll_id l) m)"
        using True k(1) by (simp add: c' t_def [symmetric])
      moreover have "st_last_id st2 = Some c'" using batch(2) by (simp add: st2_def)
      ultimately obtain st' where "stream_all serve p st2 = Some (Done, st')"
        "printed st' = printed st2 @ map Some (owed (st_remaining st2) (drop k t))"
        using less.hyps [of c' st2] unfolding c' by blast
      moreover have "owed (st_remaining st) t = take k t @ owed (st_remaining st2) (drop k t)"
        using rem k(3) by (auto simp: owed_def take_add [symmetric] split: option.splits)
      moreover have "printed st2 = printed st @ map Some (take k t)" using batch(1) all by (simp add: st2_def)
      ultimately show ?thesis using step by (simp add: t_def)
    next
      case False
      then have "stream_all serve p st = Some (Done, st1)"
        using stream_all_step [of p serve st st1 "Leave Done"] step_to by (simp add: mode_action_def assms(2))
      moreover have "owed (st_remaining st) t = t" using batch(5) left False by (auto simp: owed_def split: option.splits)
      ultimately show ?thesis using batch(1) all False by (simp add: t_def)
    qed
  qed
qed

text \<open>A first request, with no cursor, acts like one with the cursor at the position it resolves to.\<close>

lemma stream_all_first:
  assumes "page_setting rnd db p flt m" "st_last_id st = None"
    and "effective_after_id db flt (next_request p st) = Some (Ok c)"
    and "sr_limit (next_request p st) = sr_limit (next_request p (st\<lparr>st_last_id := Some c\<rparr>))"
    and serve: "\<And>q r. logs_stream rnd db False q = Some r \<Longrightarrow> serve q = r"
  shows "stream_all serve p st = stream_all serve p (st\<lparr>st_last_id := Some c\<rparr>)"
proof -
  let ?st = "st\<lparr>st_last_id := Some c\<rparr>"
  have pos: "effective_after_id db flt (next_request p ?st) = Some (Ok c)" by (simp add: effective_after_id_def)
  obtain ls where ls: "logs_stream rnd db False (next_request p st) = Some (StreamOk ls)"
    using logs_stream_at [OF assms(1,3)] by (simp add: Let_def)
  moreover have "logs_stream rnd db False (next_request p ?st) = Some (StreamOk ls)"
    using ls logs_stream_at [OF assms(1,3)] logs_stream_at [OF assms(1) pos] assms(4) by (simp add: Let_def)
  moreover have "take_batch ls ?st = take_batch ls st" by (simp add: take_batch_def)
  ultimately have "stream_iteration p (AtResponse (serve (next_request p ?st))) ?st =
      stream_iteration p (AtResponse (serve (next_request p st))) st"
    using serve by (simp add: stream_iteration_def)
  then show ?thesis by (subst (1 2) stream_all.simps) simp
qed

lemma tail_window:
  assumes "page_setting rnd db p flt m" "0 < n" "n \<le> 2 ^ 63"
  shows "tail_start_id db n (sp_services p) (sp_no_hooks p) flt None None
      = Some (Ok (if n \<le> length m then Some (ll_id (m ! (length m - n))) else None))"
proof -
  obtain q where q: "tail_start_id_query n (sp_services p) (sp_no_hooks p) flt None None = Some q"
    using assms(1) by (auto simp: page_setting_def tail_start_id_query_def)
  have a: "answers db (sp_services p) (sp_no_hooks p) flt m" "checked_filter flt = Ok ()"
    using assms(1) by (simp_all add: page_setting_def)
  show ?thesis
    using answers_first_id [OF a(1) assms(2,3) q] answers_sorted(1) [OF a(1)] a(2) assms(2) q by (simp add: tail_start_id_def)
qed

lemma filter_from:
  assumes "sorted_wrt (\<lambda>a b. ll_id a < ll_id b) m" "k < length m"
  shows "filter (\<lambda>l. ll_id (m ! k) - 1 < ll_id l) m = drop k m"
proof -
  have "filter (\<lambda>l. ll_id (m ! k) - 1 < ll_id l) m =
      filter (\<lambda>l. ll_id (m ! k) - 1 < ll_id l) (take k m) @ filter (\<lambda>l. ll_id (m ! k) - 1 < ll_id l) (drop k m)"
    by (metis append_take_drop_id filter_append)
  moreover have "filter (\<lambda>l. ll_id (m ! k) - 1 < ll_id l) (take k m) = []"
    using sorted_wrt_nth_less [OF assms(1), of _ k] assms(2) by (fastforce simp: filter_empty_conv in_set_conv_nth)
  moreover have "filter (\<lambda>l. ll_id (m ! k) - 1 < ll_id l) (drop k m) = drop k m"
  proof -
    have "ll_id (m ! k) \<le> ll_id (m ! (k + i))" if "k + i < length m" for i
      using sorted_wrt_nth_less [OF assms(1), of k "k + i"] that by (cases i) auto
    then have "ll_id (m ! k) - 1 < ll_id l" if "l \<in> set (drop k m)" for l
      using that by (auto simp: in_set_conv_nth) (smt (verit) less_diff_conv add.commute)
    then show ?thesis by (simp add: filter_id_conv)
  qed
  ultimately show ?thesis by simp
qed

text \<open>The entries that the options of \<^verbatim>\<open>kepler logs\<close> ask for.\<close>

definition window_of :: "nat option \<Rightarrow> nat option \<Rightarrow> 'a list \<Rightarrow> 'a list" where
  "window_of head tail m = (case head of Some n \<Rightarrow> take n m
    | None \<Rightarrow> (case tail of Some n \<Rightarrow> drop (length m - n) m | None \<Rightarrow> m))"

lemma first_position:
  assumes "page_setting rnd db p flt m" "sp_mode p \<noteq> Follow" "st_last_id st = None"
    and "sp_tail p \<Longrightarrow> 0 < n \<and> n \<le> 2 ^ 63 \<and> sr_limit (next_request p st) = n"
  shows "\<exists>c. effective_after_id db flt (next_request p st) = Some (Ok c) \<and>
    filter (\<lambda>l. c < ll_id l) m = (if sp_tail p then drop (length m - n) m else m)"
proof -
  have a: "answers db (sp_services p) (sp_no_hooks p) flt m" using assms(1) by (simp add: page_setting_def)
  have all: "filter (\<lambda>l. 0 < ll_id l) m = m" using answers_sorted(3) [OF a] by (auto simp: filter_id_conv list_all_iff)
  show ?thesis
  proof (cases "sp_tail p")
    case False
    with assms(2,3) all show ?thesis by (simp add: effective_after_id_def)
  next
    case True
    then have n: "0 < n" "n \<le> 2 ^ 63" "sr_limit (next_request p st) = n" using assms(4) by auto
    note start = tail_window [OF assms(1) n(1,2)]
    show ?thesis
    proof (cases "n \<le> length m")
      case False
      with True start n(3) assms(3) all show ?thesis by (simp add: effective_after_id_def)
    next
      case le: True
      then have "filter (\<lambda>l. ll_id (m ! (length m - n)) - 1 < ll_id l) m = drop (length m - n) m"
        using n(1) by (intro filter_from answers_sorted(2) [OF a]) simp
      with True start le n(3) assms(3) show ?thesis by (simp add: effective_after_id_def)
    qed
  qed
qed

text \<open>
  C7. Reading logs to the end. Against a daemon whose database answers as documented and has nothing
  left to flush, \<^verbatim>\<open>kepler logs\<close> without following ends, and prints exactly the entries that match
  its services and filter: the first \<open>n\<close> with \<^verbatim>\<open>--head n\<close>, the last \<open>n\<close> with \<^verbatim>\<open>--tail n\<close>, all of them
  otherwise; each once, in order, with its own service name, however many pages it takes.
\<close>

theorem logs_complete:
  assumes "page_setting rnd db p flt m"
    and "p = handle_logs_params services False (snd (logs_window head tail)) (fst (logs_window head tail)) no_hooks False f sql None"
    and "\<And>n. tail = Some n \<Longrightarrow> n \<le> 2 ^ 63"
  shows "\<exists>st. stream_all (\<lambda>q. the (logs_stream rnd db False q)) p (stream_init p) = Some (Done, st) \<and>
    printed st = map Some (window_of head tail m)"
proof -
  let ?serve = "\<lambda>q. the (logs_stream rnd db False q)" and ?st = "stream_init p"
  have serve: "\<And>q r. logs_stream rnd db False q = Some r \<Longrightarrow> ?serve q = r" by simp
  have p: "sp_mode p = All" "\<not> sp_raw p" "sp_max_total p = snd (logs_window head tail)" "sp_tail p = fst (logs_window head tail)"
    "sp_start_after_id p = None" "sp_limit p = (case snd (logs_window head tail) of Some n \<Rightarrow> n | None \<Rightarrow> MAX_STREAM_BATCH_SIZE)"
    by (simp_all add: assms(2) handle_logs_params_def)
  have st: "st_last_id ?st = None" "st_remaining ?st = snd (logs_window head tail)" "printed ?st = []"
    using p by (simp_all add: stream_init_def printed_def)
  have lim: "sr_limit (next_request p ?st) = sp_limit p"
    "sr_limit (next_request p (?st\<lparr>st_last_id := Some c\<rparr>)) = sp_limit p" for c
    using p st by (auto simp: next_request_def Let_def split: option.splits)
  show ?thesis
  proof (cases "snd (logs_window head tail) = Some 0")
    case True
    then have empty: "window_of head tail m = []"
      by (auto simp: window_of_def logs_window_def split: option.splits)
    have "effective_after_id db flt (next_request p ?st) = Some (Ok 0)"
      using True lim(1) p st by (simp add: effective_after_id_def tail_start_id_def)
    from logs_stream_at [OF assms(1) this] obtain ls where
      ls: "logs_stream rnd db False (next_request p ?st) = Some (StreamOk (stream_data False [] ls 0))"
      using True lim(1) p by (auto simp: Let_def)
    obtain st1 es ex where b: "take_batch (stream_data False [] ls 0) ?st = (st1, es, ex)" using prod_cases3 by blast
    have "ex" "printed st1 = []"
      using take_batch_page [OF b] True st by (auto simp: owed_def)
    moreover from this have "stream_all ?serve p ?st = Some (Done, st1)"
      using stream_all_step [of p ?serve ?st st1 "Leave Done"] by (simp add: stream_iteration_def ls b)
    ultimately show ?thesis by (auto simp: empty)
  next
    case False
    have n: "sp_tail p \<Longrightarrow> 0 < sp_limit p \<and> sp_limit p \<le> 2 ^ 63 \<and> sr_limit (next_request p ?st) = sp_limit p"
      using False p lim(1) assms(3) by (auto simp: logs_window_def split: option.splits)
    have mode: "sp_mode p \<noteq> Follow" using p(1) by simp
    from first_position [OF assms(1) mode st(1) n] obtain c where
      c: "effective_after_id db flt (next_request p ?st) = Some (Ok c)"
        "filter (\<lambda>l. c < ll_id l) m = (if sp_tail p then drop (length m - sp_limit p) m else m)" by blast
    have first: "stream_all ?serve p ?st = stream_all ?serve p (?st\<lparr>st_last_id := Some c\<rparr>)"
      by (rule stream_all_first [OF assms(1) st(1) c(1) _ serve]) (simp_all add: lim)
    have pos: "0 < sp_limit p"
      using False p(6) by (auto simp: MAX_STREAM_BATCH_SIZE_def split: option.splits)
    have "owed (snd (logs_window head tail)) (filter (\<lambda>l. c < ll_id l) m) = window_of head tail m"
      unfolding c(2) using p(4,6) by (auto simp: owed_def window_of_def logs_window_def split: option.splits)
    then show ?thesis
      using stream_all_from [OF assms(1) p(1,2) pos, where serve = ?serve and st = "?st\<lparr>st_last_id := Some c\<rparr>" and c = c] first False st
      by simp
  qed
qed

text \<open>A database that answers the statements without a filter.\<close>

definition sample_db :: "log_line list \<Rightarrow> log_db" where
  "sample_db m = \<lparr>db_opens = True,
     db_lines = (\<lambda>(sql, bind). case bind of [BindInt a, BindInt l] \<Rightarrow> Ok (take (nat l) (filter (\<lambda>x. a < ll_id x) m)) | _ \<Rightarrow> Err sql),
     db_first_id = (\<lambda>(sql, bind). case bind of
         [BindInt off] \<Rightarrow> if nat off < length m then Ok (ll_id (m ! (length m - 1 - nat off))) else Err sql
       | _ \<Rightarrow> Err sql),
     db_max_id = Ok 0\<rparr>"

definition sample_line :: "int \<Rightarrow> string \<Rightarrow> log_line" where
  "sample_line i s = \<lparr>ll_id = i, ll_service = s, ll_line = ''ready'', ll_timestamp = 0, ll_level = ''info'', ll_hook = None,
     ll_attributes = None\<rparr>"

lemma sample_db_answers:
  assumes "sorted_wrt (\<lambda>a b. ll_id a < ll_id b) m" "list_all (\<lambda>l. 0 < ll_id l) m"
  shows "answers (sample_db m) [] False None m"
proof -
  have w: "build_filter [] False None None None = Some ([], [])"
    by (simp add: build_filter_def service_condition_def bind_optional_def where_clause_def)
  have i1: "as_i64 (n + 1) = int n + 1" if "n \<le> STREAM_CHUNK_SIZE" for n
    using that by (simp add: as_i64_def STREAM_CHUNK_SIZE_def Let_def)
  have i2: "as_i64 (n - 1) = int (n - 1)" if "0 < n" "n \<le> 2 ^ 63" for n
    using that by (simp add: as_i64_def Let_def)
  have n1: "nat (int n + 1) = n + 1" for n by simp
  have n2: "Suc (nat (int n - 1)) = n" if "0 < n" for n using that by simp
  show ?thesis
    unfolding answers_def using assms
    by (auto simp: sample_db_def after_query_def tail_start_id_query_def w Let_def i1 [simplified] i2 [simplified] n1 [simplified] n2)
qed

theorem logs_complete_witness:
  "\<exists>st p. stream_all (\<lambda>q. the (logs_stream F64 (sample_db [sample_line 3 ''web'', sample_line 4 ''db'', sample_line 9 ''web'']) False q))
      p (stream_init p) = Some (Done, st) \<and> printed st = map Some [sample_line 4 ''db'', sample_line 9 ''web'']"
proof -
  let ?m = "[sample_line 3 ''web'', sample_line 4 ''db'', sample_line 9 ''web'']"
  let ?p = "handle_logs_params [] False (snd (logs_window None (Some 2))) (fst (logs_window None (Some 2))) False False None False None"
  have "page_setting F64 (sample_db ?m) ?p None ?m"
    using sample_db_answers [of ?m]
    by (simp add: page_setting_def handle_logs_params_def stream_filter_def checked_filter_def sample_line_def
        build_filter_def service_condition_def bind_optional_def)
  from logs_complete [OF this refl] show ?thesis by (auto simp: window_of_def)
qed

subsection \<open>Following while logs are written\<close>

text \<open>
  The client and the log together, in any interleaving: the writer adds entries with growing
  positions, among them entries the client did not ask for, which only raise the highest position; the
  client asks and gets an answer from the log as it is then, with or without more to be flushed, or
  gets none; and its waits end for whatever reason. The parameter \<open>dbs\<close> gives the database for the
  matching entries written so far.
\<close>

inductive follow ::
    "(rat \<Rightarrow> f64) \<Rightarrow> (log_line list \<Rightarrow> log_db) \<Rightarrow> stream_params \<Rightarrow> log_line list \<Rightarrow> int \<Rightarrow> stream_state \<Rightarrow> next_action \<Rightarrow> bool"
    for rnd dbs p where
  follow_start: "follow rnd dbs p m hi (stream_init p) Retry"
    if "sorted_wrt (\<lambda>a b. ll_id a < ll_id b) m" "list_all (\<lambda>l. 0 < ll_id l \<and> ll_id l \<le> hi) m" "0 \<le> hi" "\<And>c. sp_start_after_id p = Some c \<Longrightarrow> c \<le> hi"
| follow_write: "follow rnd dbs p (m @ [l]) (ll_id l) st act" if "follow rnd dbs p m hi st act" "hi < ll_id l"
| follow_write_other: "follow rnd dbs p m hi' st act" if "follow rnd dbs p m hi st act" "hi < hi'"
| follow_answer: "follow rnd dbs p m hi st' act"
    if "follow rnd dbs p m hi st Retry" "logs_stream rnd (dbs m) has_pending (next_request p st) = Some r"
      "stream_iteration p (AtResponse r) st = (st', act)"
| follow_failure: "follow rnd dbs p m hi st' act"
    if "follow rnd dbs p m hi st Retry" "stream_iteration p got st = (st', act)" "\<And>ls. got \<noteq> AtResponse (StreamOk ls)"
| follow_wake: "follow rnd dbs p m hi st' act'"
    if "follow rnd dbs p m hi st act" "after_wait act w st = (st', act')"

lemma mode_action_frame:
  assumes "mode_action p a b st = (st', act)"
  shows "printed st' = printed st" "st_last_id st' = st_last_id st" "st_remaining st' = st_remaining st"
  using assms by (auto simp: mode_action_def split: if_splits)

lemma failure_frame:
  assumes "stream_iteration p got st = (st', act)" "\<And>ls. got \<noteq> AtResponse (StreamOk ls)"
  shows "printed st' = printed st \<and> st_last_id st' = st_last_id st \<and> st_remaining st' = st_remaining st"
  using assms mode_action_frame [of p False False st st' act]
  by (auto simp: stream_iteration_def split: attempt.splits stream_response.splits if_splits)

lemma wake_frame:
  assumes "after_wait act w st = (st', act')"
  shows "printed st' = printed st \<and> st_last_id st' = st_last_id st \<and> st_remaining st' = st_remaining st"
  using assms by (auto simp: after_wait_def printed_def split: wake.splits if_splits)

definition start_of :: "stream_params \<Rightarrow> int" where
  "start_of p = (case sp_start_after_id p of Some c \<Rightarrow> c | None \<Rightarrow> 0)"

text \<open>What has been printed is what lies between the start and the cursor.\<close>

definition follow_inv :: "stream_params \<Rightarrow> log_line list \<Rightarrow> int \<Rightarrow> stream_state \<Rightarrow> bool" where
  "follow_inv p m hi st \<longleftrightarrow> st_remaining st = None \<and> list_all (\<lambda>l. ll_id l \<le> hi) m \<and>
     (st_last_id st = None \<longrightarrow> sp_start_after_id p = None) \<and>
     (let c = (case st_last_id st of Some c \<Rightarrow> c | None \<Rightarrow> start_of p) in
      start_of p \<le> c \<and> c \<le> hi \<and> printed st = map Some (filter (\<lambda>l. start_of p < ll_id l \<and> ll_id l \<le> c) m))"

lemma follow_inv_frame:
  "follow_inv p m hi st \<Longrightarrow> printed st' = printed st \<and> st_last_id st' = st_last_id st \<and> st_remaining st' = st_remaining st
   \<Longrightarrow> follow_inv p m hi st'"
  by (simp add: follow_inv_def)

lemma follow_inv_grow:
  assumes "follow_inv p m hi st" "hi < hi'"
  shows "follow_inv p m hi' st" "ll_id l = hi' \<Longrightarrow> follow_inv p (m @ [l]) hi' st"
  using assms by (auto simp: follow_inv_def Let_def list_all_iff)

lemma page_end:
  assumes "sorted_wrt (\<lambda>a b. ll_id a < ll_id b) m" "take k (filter (\<lambda>l. c < ll_id l) m) \<noteq> []"
  shows "filter (\<lambda>l. c < ll_id l \<and> ll_id l \<le> ll_id (last (take k (filter (\<lambda>l. c < ll_id l) m)))) m =
    take k (filter (\<lambda>l. c < ll_id l) m)"
proof -
  let ?t = "filter (\<lambda>l. c < ll_id l) m"
  define j where "j = min k (length ?t) - 1"
  have j: "j < length ?t" "take k ?t = take (Suc j) ?t" using assms(2) by (auto simp: j_def min_def)
  have "filter (\<lambda>l. c < ll_id l \<and> ll_id l \<le> ll_id (?t ! j)) m = filter (\<lambda>l. \<not> ll_id (?t ! j) < ll_id l) ?t"
    by (simp add: filter_filter not_less conj_commute)
  also have "\<dots> = take (Suc j) ?t"
  proof -
    have s: "sorted_wrt (\<lambda>a b. ll_id a < ll_id b) ?t" using assms(1) by (rule sorted_wrt_filter)
    have "filter (\<lambda>l. \<not> ll_id (?t ! j) < ll_id l) (take (Suc j) ?t) = take (Suc j) ?t"
      using sorted_wrt_nth_less [OF s, of _ j] j(1) by (fastforce simp: filter_id_conv in_set_conv_nth less_Suc_eq)
    moreover have "filter (\<lambda>l. \<not> ll_id (?t ! j) < ll_id l) (drop (Suc j) ?t) = []"
      using sorted_wrt_nth_less [OF s, of j] by (fastforce simp: filter_empty_conv in_set_conv_nth)
    ultimately show ?thesis by (metis append_Nil2 append_take_drop_id filter_append)
  qed
  finally show ?thesis by (simp only: j(2) last_take_Suc [OF j(1)])
qed

lemma filter_between:
  assumes "sorted_wrt (\<lambda>a b. ll_id a < ll_id b) m" "(a :: int) \<le> b" "b \<le> c"
  shows "filter (\<lambda>l. a < ll_id l \<and> ll_id l \<le> c) m =
    filter (\<lambda>l. a < ll_id l \<and> ll_id l \<le> b) m @ filter (\<lambda>l. b < ll_id l \<and> ll_id l \<le> c) m"
  using assms(1)
proof (induction m)
  case (Cons x m)
  show ?case
  proof (cases "ll_id x \<le> b")
    case True
    with Cons assms(2,3) show ?thesis by auto
  next
    case False
    with Cons.prems have "filter (\<lambda>l. a < ll_id l \<and> ll_id l \<le> b) m = []" by (force simp: filter_empty_conv)
    with Cons False assms(2) show ?thesis by auto
  qed
qed simp

lemma follow_inv_answer:
  assumes "page_setting rnd db p flt m" "\<not> sp_raw p" "\<not> sp_tail p" "sp_mode p \<noteq> Follow" "follow_inv p m hi st"
    and "logs_stream rnd db hp (next_request p st) = Some r" "stream_iteration p (AtResponse r) st = (st', act)"
  shows "follow_inv p m hi st'"
proof -
  define c where "c = (case st_last_id st of Some c \<Rightarrow> c | None \<Rightarrow> start_of p)"
  define t where "t = filter (\<lambda>l. c < ll_id l) m"
  define k where "k = min (sr_limit (next_request p st)) STREAM_CHUNK_SIZE"
  define c' where "c' = (if take k t = [] then c else ll_id (last (take k t)))"
  have inv: "st_remaining st = None" "list_all (\<lambda>l. ll_id l \<le> hi) m" "start_of p \<le> c" "c \<le> hi"
    "printed st = map Some (filter (\<lambda>l. start_of p < ll_id l \<and> ll_id l \<le> c) m)"
    using assms(5) unfolding follow_inv_def Let_def c_def [symmetric] by simp_all
  have pos: "effective_after_id db flt (next_request p st) = Some (Ok c)"
    using assms(3-5) by (auto simp: effective_after_id_def c_def follow_inv_def start_of_def split: option.splits)
  have r: "r = StreamOk (stream_data False (take k t) (k < length t \<or> hp) c')"
    using assms(2,6) unfolding t_def k_def c'_def
    by (simp only: logs_stream_at [OF assms(1) pos] Let_def option.inject)
  obtain st1 es ex where b: "take_batch (stream_data False (take k t) (k < length t \<or> hp) c') st = (st1, es, ex)"
    using prod_cases3 by blast
  have len: "length (take k t) \<le> STREAM_CHUNK_SIZE" by (simp add: k_def)
  note batch = take_batch_page [OF b len]
  have st1: "printed st1 = printed st @ map Some (take k t)" "st_last_id st1 = Some c'" "st_remaining st1 = None" "\<not> ex"
    using batch inv(1) by (simp_all add: owed_def)
  have "mode_action p (ls_has_more (stream_data False (take k t) (k < length t \<or> hp) c') \<and> es \<noteq> [])
      (ls_has_more (stream_data False (take k t) (k < length t \<or> hp) c') \<and> es = []) st1 = (st', act)"
    using assms(7) st1(4) by (simp only: stream_iteration_def r attempt.case stream_response.case b prod.case if_False)
  note frame = mode_action_frame [OF this]
  have sorted: "sorted_wrt (\<lambda>a b. ll_id a < ll_id b) m"
    using assms(1) by (auto simp: page_setting_def dest: answers_sorted(2))
  have page: "filter (\<lambda>l. c < ll_id l \<and> ll_id l \<le> c') m = take k t"
  proof (cases "take k t = []")
    case True
    then show ?thesis by (auto simp: c'_def filter_empty_conv)
  next
    case False
    with page_end [OF sorted, of k c] show ?thesis by (simp add: c'_def t_def)
  qed
  have "c \<le> c'" "c' \<le> hi"
  proof -
    have "l \<in> set m \<and> c < ll_id l" if "l \<in> set (take k t)" for l using in_set_takeD [OF that] by (simp add: t_def)
    then have "take k t \<noteq> [] \<Longrightarrow> last (take k t) \<in> set m \<and> c < ll_id (last (take k t))" by (meson last_in_set)
    then show "c \<le> c'" "c' \<le> hi" using inv(2,4) by (auto simp: c'_def list_all_iff)
  qed
  with inv frame st1 page filter_between [OF sorted inv(3), of c'] show ?thesis
    by (simp add: follow_inv_def)
qed

lemma follow_log:
  assumes "follow rnd dbs p m hi st act"
  shows "sorted_wrt (\<lambda>a b. ll_id a < ll_id b) m" "list_all (\<lambda>l. 0 < ll_id l) m"
proof -
  have "sorted_wrt (\<lambda>a b. ll_id a < ll_id b) m \<and> list_all (\<lambda>l. 0 < ll_id l \<and> ll_id l \<le> hi) m \<and> 0 \<le> hi"
    using assms by (induction rule: follow.induct) (auto simp: sorted_wrt_append list_all_iff)
  then show "sorted_wrt (\<lambda>a b. ll_id a < ll_id b) m" "list_all (\<lambda>l. 0 < ll_id l) m" by (auto simp: list_all_iff)
qed

text \<open>
  C14. Following never loses and never repeats a line. However the writer, the answers, lost answers,
  notifications and timeouts interleave, when the cursor of a following client stands at \<open>c\<close>, then
  the client has printed exactly the matching entries written so far with positions above the
  start and up to \<open>c\<close>, each once and in order.
\<close>

theorem follow_prints_each_once:
  assumes "follow rnd dbs p m hi st act" "st_last_id st = Some c"
    and "\<not> sp_raw p" "\<not> sp_tail p" "sp_mode p \<noteq> Follow" "sp_max_total p = None"
    and "\<And>m. sorted_wrt (\<lambda>a b. ll_id a < ll_id b) m \<Longrightarrow> list_all (\<lambda>l. 0 < ll_id l) m \<Longrightarrow> page_setting rnd (dbs m) p flt m"
  shows "printed st = map Some (filter (\<lambda>l. start_of p < ll_id l \<and> ll_id l \<le> c) m)"
proof -
  have "follow_inv p m hi st"
    using assms(1)
  proof (induction rule: follow.induct)
    case (follow_start m hi)
    then show ?case
      using assms(6)
      by (auto simp: follow_inv_def stream_init_def printed_def start_of_def filter_empty_conv list_all_iff split: option.splits)
  next
    case (follow_answer m hi st hp r st' act)
    show ?case
      by (rule follow_inv_answer [OF assms(7) [OF follow_log [OF follow_answer.hyps(1)]] assms(3-5) follow_answer.IH follow_answer.hyps(2,3)])
  qed (auto intro: follow_inv_grow follow_inv_frame dest: failure_frame wake_frame)
  then show ?thesis using assms(2) by (simp add: follow_inv_def)
qed

theorem follow_prints_each_once_witness:
  "\<exists>st p act. follow F64 sample_db p [sample_line 3 ''web'', sample_line 7 ''db''] 7 st act \<and>
     st_last_id st = Some 3 \<and> printed st = map Some [sample_line 3 ''web'']"
proof -
  define p where "p = handle_logs_params [] True None False False False None False None"
  let ?m = "[sample_line 3 ''web'']"
  have setting: "page_setting F64 (sample_db m) p None m"
    if "sorted_wrt (\<lambda>a b. ll_id a < ll_id b) m" "list_all (\<lambda>l. 0 < ll_id l) m" for m
    using sample_db_answers [OF that]
    by (simp add: p_def page_setting_def handle_logs_params_def stream_filter_def checked_filter_def
        build_filter_def service_condition_def bind_optional_def)
  have start: "follow F64 sample_db p ?m 3 (stream_init p) Retry"
    by (rule follow_start) (simp_all add: p_def sample_line_def handle_logs_params_def)
  have set1: "page_setting F64 (sample_db ?m) p None ?m" by (rule setting) (simp_all add: sample_line_def)
  have pos: "effective_after_id (sample_db ?m) None (next_request p (stream_init p)) = Some (Ok 0)"
    by (simp add: effective_after_id_def p_def handle_logs_params_def stream_init_def)
  obtain r where r: "logs_stream F64 (sample_db ?m) False (next_request p (stream_init p)) = Some (StreamOk r)" "ls_last_id r = 3"
    using logs_stream_at [OF set1 pos, of False]
    by (auto simp: Let_def sample_line_def next_request_def p_def handle_logs_params_def stream_init_def MAX_STREAM_BATCH_SIZE_def
        STREAM_CHUNK_SIZE_def)
  obtain st act where s: "stream_iteration p (AtResponse (StreamOk r)) (stream_init p) = (st, act)" by fastforce
  have cursor: "st_last_id st = Some 3"
    using s r(2) by (auto simp: stream_iteration_def take_batch_def Let_def split: if_splits dest!: mode_action_frame(2))
  have run: "follow F64 sample_db p (?m @ [sample_line 7 ''db'']) (ll_id (sample_line 7 ''db'')) st act"
    using follow_answer [OF start r(1) s] by (rule follow_write) (simp add: sample_line_def)
  have "printed st = map Some (filter (\<lambda>l. start_of p < ll_id l \<and> ll_id l \<le> 3) (?m @ [sample_line 7 ''db'']))"
    by (rule follow_prints_each_once [OF run cursor _ _ _ _ setting]) (simp_all add: p_def handle_logs_params_def)
  with run cursor show ?thesis
    by (auto simp: sample_line_def start_of_def p_def handle_logs_params_def)
qed

end
