(* ===== verification/Orchestrator.thy ===== *)
theory Orchestrator
  imports Privileges Permissions Config_Actor
begin

text \<open>
  The orchestrator (\<^verbatim>\<open>kepler-daemon/src/orchestrator/mod.rs\<close>) runs many tasks at once: a startup per
  service, the handling of an exit, a stop, a restart. They meet in the actor of the configuration,
  which takes one message at a time. A task is a value of the type \<open>prog\<close>: what it does next, and how
  it goes on with the answer. Reading the actor and sending it a command are steps of their own, so
  that other tasks can come in between; a hook, the evaluation of the settings in Lua, a new token,
  a new process and waiting are answered by the environment.
\<close>

subsection \<open>Tasks\<close>

datatype service_hook_type =
    PreStart | PostStart | PreStop | PostStop | PreRestart | PostRestart | PostExit | PreCleanup
  | PostHealthcheckSuccess | PostHealthcheckFail

datatype restart_reason = ReasonWatch | ReasonFailure "int option" | ReasonManual | ReasonDependency string | ReasonUnhealthy

datatype health_status = CheckSuccess | CheckFailure nat

datatype service_event =
    EvStart | EvRestart restart_reason | EvExit "int option" | EvStop | EvCleanup
  | EvHealthcheck health_status | EvHealthy | EvUnhealthy

datatype lifecycle_event = LcInit | LcStart | LcStop | LcRestart | LcExit | LcExitSuccess | LcExitFailure | LcSkipped

text \<open>Chosen when a service is claimed for a restart.\<close>

datatype selected_lifecycle = StartWith "64 word" | RestartWith "64 word"

text \<open>Effects that only answer whether they succeeded.\<close>

datatype task_act =
    RunHook string service_hook_type
  | EmitEvent string service_event
  | ClearServiceLogs string
  | ClearOutputs string
  | ClearProcessOutputs string
  | WriteErrorLog string string
  | CleanupCgroup string
  | SuppressWatcher string
  | CancelWatcher string
  | StartWatcher string "string list"
  | StartHealthChecker string health_check "64 word"
  | StartMonitor
  | RevokeGuard token_guard
    \<comment> \<open>process handle, signal, grace period\<close>
  | Terminate nat int duration
  | AbandonProcess string
  | FinishOutput string
  | StoreOutputs string
  | SleepFor duration
  | SpawnEventHandler
  | StartTask string "64 word" bool
  | CreateEvaluator
  | DiscardLogs
  | RemoveStateDir
  | UnloadConfig
  | RevokeForConfig

text \<open>What the evaluation of a service's settings sees of the actor; it reads outputs of services from the disk by itself.\<close>

record dep_info =
  di_status :: string
  di_exit_code :: "int option"
  di_initialized :: bool
  di_restart_count :: "32 word"
  di_restart_count_since_healthy :: "32 word"
  di_env :: env_map

record eval_ctx =
  ec_name :: string
  ec_env_file :: env_map
  ec_env :: env_map
  ec_initialized :: "bool option"
  ec_restart_count :: "32 word option"
  ec_restart_count_since_healthy :: "32 word option"
  ec_exit_code :: "int option"
  ec_status :: "string option"
  ec_deps :: "(string, dep_info) hmap"
  ec_owner :: "(nat \<times> nat) option"
  ec_hardening :: hardening_level
  ec_kepler_env :: env_map
  ec_kepler_flags :: env_map
  ec_kepler_env_denied :: bool

text \<open>What it gives: the settings, and the environment and env file variables as the evaluation left them.\<close>

record resolution =
  re_config :: resolved_config
  re_env :: env_map
  re_env_file :: env_map

record process_info =
  pr_pid :: "nat option"
  pr_started_at :: datetime
  pr_handle :: nat

datatype wakeup = Changed | ChannelClosed | TimedOut

datatype ('k, 'a) prog =
    Done 'a
  | Waits
  | Panics
  | Look "config_actor \<Rightarrow> ('k, 'a) prog"
  | Cmd Config_Actor.command "reply \<Rightarrow> ('k, 'a) prog"
  | Act task_act "(string, unit) result \<Rightarrow> ('k, 'a) prog"
  | Resolve eval_ctx "string option" "(string, resolution) result \<Rightarrow> ('k, 'a) prog"
  | NewToken "'k token_context" "(string, token_guard) result \<Rightarrow> ('k, 'a) prog"
  | Spawn string command_spec "(string, process_info) result \<Rightarrow> ('k, 'a) prog"
  | AwaitChange bool "wakeup \<Rightarrow> ('k, 'a) prog"
  | RunTasks bool "(string \<times> selected_lifecycle) list" "(string \<times> (string, unit) result) list \<Rightarrow> ('k, 'a) prog"

text \<open>
  \<open>RunTasks\<close> runs startups side by side, or one after the other if its first argument says so, and
  answers their results in the order in which they finish.
  \<open>Waits\<close> is a task that waits for longer than the model follows it, \<open>Panics\<close> one that has panicked.
\<close>

primrec andThen :: "('k, 'a) prog \<Rightarrow> ('a \<Rightarrow> ('k, 'b) prog) \<Rightarrow> ('k, 'b) prog" where
  "andThen (Done x) f = f x"
| "andThen Waits f = Waits"
| "andThen Panics f = Panics"
| "andThen (Look k) f = Look (\<lambda>a. andThen (k a) f)"
| "andThen (Cmd c k) f = Cmd c (\<lambda>r. andThen (k r) f)"
| "andThen (Act t k) f = Act t (\<lambda>r. andThen (k r) f)"
| "andThen (Resolve ec u k) f = Resolve ec u (\<lambda>r. andThen (k r) f)"
| "andThen (NewToken ctx k) f = NewToken ctx (\<lambda>r. andThen (k r) f)"
| "andThen (Spawn n spec k) f = Spawn n spec (\<lambda>r. andThen (k r) f)"
| "andThen (AwaitChange t k) f = AwaitChange t (\<lambda>w. andThen (k w) f)"
| "andThen (RunTasks s ts k) f = RunTasks s ts (\<lambda>rs. andThen (k rs) f)"

text \<open>A task whose error ends the task that called it, as with the question mark.\<close>

definition onOk :: "('k, ('e, 'a) result) prog \<Rightarrow> ('a \<Rightarrow> ('k, ('e, 'b) result) prog) \<Rightarrow> ('k, ('e, 'b) result) prog" where
  "onOk p f = andThen p (\<lambda>r. case r of Inl e \<Rightarrow> Done (Err e) | Inr x \<Rightarrow> f x)"

definition perform :: "task_act \<Rightarrow> ('k, unit) prog" where
  "perform t = Act t (\<lambda>_. Done ())"

definition send :: "Config_Actor.command \<Rightarrow> ('k, unit) prog" where
  "send c = Cmd c (\<lambda>_. Done ())"

definition get_state :: "string \<Rightarrow> ('k, service_state option) prog" where
  "get_state n = Look (\<lambda>a. Done (hm_get (ca_services a) n))"

fun for_each :: "('x \<Rightarrow> ('k, unit) prog) \<Rightarrow> 'x list \<Rightarrow> ('k, unit) prog" where
  "for_each f [] = Done ()"
| "for_each f (x # xs) = andThen (f x) (\<lambda>_. for_each f xs)"

text \<open>Reading the answers of the actor.\<close>

fun yes :: "reply \<Rightarrow> bool" where
  "yes (RBool b) = b"
| "yes _ = False"

fun granted :: "reply \<Rightarrow> 64 word option" where
  "granted (RGeneration g) = g"
| "granted _ = None"

fun guard_kept :: "reply \<Rightarrow> bool" where
  "guard_kept (RGuard None) = True"
| "guard_kept _ = False"

subsection \<open>Errors\<close>

datatype orch_error =
    ServiceContextNotFound
  | OrchConfigNotFound string
  | ServiceNotFound string
  | ServiceNotInitialized string
  | StopFailed string
  | SpawnFailed string
  | HookFailed string
  | ConfigError string
  | IoError string
    \<comment> \<open>service, dependency, condition\<close>
  | DependencyTimeout string string dependency_condition
    \<comment> \<open>service, dependency, condition, reason\<close>
  | DependencyUnsatisfied string string dependency_condition string
  | DependencySkipped string string
  | StartupCancelled string
  | DaemonError string

fun condition_name :: "dependency_condition \<Rightarrow> string" where
  "condition_name ServiceStarted = ''ServiceStarted''"
| "condition_name ServiceHealthy = ''ServiceHealthy''"
| "condition_name ServiceCompletedSuccessfully = ''ServiceCompletedSuccessfully''"
| "condition_name ServiceUnhealthy = ''ServiceUnhealthy''"
| "condition_name ServiceFailed = ''ServiceFailed''"
| "condition_name ServiceStopped = ''ServiceStopped''"

fun error_text :: "orch_error \<Rightarrow> string" where
  "error_text ServiceContextNotFound = ''Service context not found''"
| "error_text (OrchConfigNotFound s) = ''Config not found: '' @ s"
| "error_text (ServiceNotFound s) = ''Service not found: '' @ s"
| "error_text (ServiceNotInitialized s) =
     ''Service '' @ [CHR 0x27] @ s @ [CHR 0x27] @ '' has not completed its first startup; use '' @ [CHR 0x27] @ ''kepler start '' @ s
       @ [CHR 0x27] @ '' before restarting''"
| "error_text (StopFailed s) = ''Failed to stop service: '' @ s"
| "error_text (SpawnFailed s) = ''Failed to spawn service: '' @ s"
| "error_text (HookFailed s) = s"
| "error_text (ConfigError s) = ''Config error: '' @ s"
| "error_text (IoError s) = ''IO error: '' @ s"
| "error_text (DependencyTimeout n d c) =
     ''Dependency timeout: '' @ n @ '' timed out waiting for '' @ d @ '' to satisfy condition '' @ condition_name c"
| "error_text (DependencyUnsatisfied n d c r) =
     ''Dependency unsatisfied: '' @ n @ '' cannot start because '' @ d @ '' (condition: '' @ condition_name c
       @ '') is permanently unsatisfied: '' @ r"
| "error_text (DependencySkipped n d) = ''Service '' @ n @ '' skipped because dependency '' @ d @ '' was skipped''"
| "error_text (StartupCancelled n) = ''Startup cancelled for service '' @ n"
| "error_text (DaemonError s) = s"

end
