(* ===== verification/Orchestrator_Start.thy ===== *)
theory Orchestrator_Start
  imports Orchestrator
begin

text \<open>
  The tasks that start a service (\<^verbatim>\<open>kepler-daemon/src/orchestrator/mod.rs\<close>): waiting for its
  dependencies, evaluating its settings, its token, its process and the tasks beside it; and
  \<^verbatim>\<open>stop_service\<close> of \<^verbatim>\<open>kepler-daemon/src/process/mod.rs\<close>. The record \<open>orch\<close> holds what is fixed while a
  configuration is loaded.
\<close>

record 'k orch =
  oc_db :: os_db
  oc_hardening :: hardening_level
  oc_kepler_gid :: "nat option"
  oc_config_path :: path
  oc_config_dir :: string
  oc_config_hardening :: "hardening_level option"
  oc_owner_uid :: "nat option"
  oc_owner_gid :: "nat option"
  oc_permission_ceiling :: "string set option"
  oc_compile_authorizer :: "(string \<Rightarrow> (string, 'k) result) option"
  oc_socket_path :: "path option"
  oc_token_hex :: "token \<Rightarrow> string"
  oc_env_file :: "string \<Rightarrow> raw_service_config \<Rightarrow> env_map"
  oc_cgroup_path :: "string \<Rightarrow> string option"
  oc_join :: "string \<Rightarrow> string \<Rightarrow> string"
  oc_round :: "rat \<Rightarrow> f64"
  oc_powi :: "f64 \<Rightarrow> int \<Rightarrow> f64"
  oc_partition_point :: partition_fn

record service_context =
  sc_service_config :: raw_service_config
  sc_resolved_config :: "resolved_config option"
  sc_token :: "token option"
  sc_global_log_config :: "log_config option"
  sc_env :: env_map
  sc_working_dir :: string

definition build_service_context :: "config_actor \<Rightarrow> string \<Rightarrow> service_context option" where
  "build_service_context a n =
     Option.bind (hm_get (kc_services (ca_config a)) n) (\<lambda>raw.
     map_option (\<lambda>st. \<lparr>sc_service_config = raw, sc_resolved_config = ca_resolved_configs a n,
         sc_token = Option.bind (ca_token_guards a n) (\<lambda>g. res_ok (guard_raw_token g)),
         sc_global_log_config = global_logs (ca_config a), sc_env = ss_computed_env st,
         sc_working_dir = ss_working_dir st\<rparr>) (hm_get (ca_services a) n))"

definition get_service_context :: "string \<Rightarrow> ('k, (orch_error, service_context) result) prog" where
  "get_service_context n = Look (\<lambda>a. Done (ok_or ServiceContextNotFound (build_service_context a n)))"

definition orch_effective_hardening :: "'k orch \<Rightarrow> hardening_level" where
  "orch_effective_hardening oc = max (oc_hardening oc) (case oc_config_hardening oc of Some h \<Rightarrow> h | None \<Rightarrow> HNone)"

definition build_owner_ctx :: "'k orch \<Rightarrow> (nat \<times> nat) option" where
  "build_owner_ctx oc = map_option (\<lambda>uid. (uid, case oc_owner_gid oc of Some gid \<Rightarrow> gid | None \<Rightarrow> uid)) (oc_owner_uid oc)"

definition default_user :: "'k orch \<Rightarrow> string option" where
  "default_user oc = (case (oc_owner_uid oc, oc_owner_gid oc) of
      (Some uid, Some gid) \<Rightarrow> if uid \<noteq> 0 then Some (show_nat uid @ '':'' @ show_nat gid) else None
    | (Some uid, None) \<Rightarrow> if uid \<noteq> 0 then Some (show_nat uid) else None
    | _ \<Rightarrow> None)"

subsection \<open>Hooks, log retention, tokens\<close>

definition run_service_hook :: "service_context \<Rightarrow> string \<Rightarrow> service_hook_type \<Rightarrow> ('k, (orch_error, unit) result) prog" where
  "run_service_hook ctx n t = (case sc_resolved_config ctx of
      None \<Rightarrow> Done (Ok ())
    | Some _ \<Rightarrow> Act (RunHook n t) (\<lambda>r. Done (map_err HookFailed r)))"

text \<open>A hook whose failure is only logged.\<close>

definition try_hook :: "service_context \<Rightarrow> string \<Rightarrow> service_hook_type \<Rightarrow> ('k, unit) prog" where
  "try_hook ctx n t = andThen (run_service_hook ctx n t) (\<lambda>_. Done ())"

definition retention_of :: "service_context \<Rightarrow> lifecycle_event \<Rightarrow> log_retention option" where
  "retention_of ctx ev =
     (let logs = Option.bind (sc_resolved_config ctx) rc_logs;
          resolve = (\<lambda>f def. Some (resolve_log_retention logs (sc_global_log_config ctx) f def))
      in case ev of
           LcStart \<Rightarrow> resolve get_on_start Retain
         | LcStop \<Rightarrow> resolve get_on_stop Clear
         | LcRestart \<Rightarrow> resolve get_on_restart Retain
         | LcExit \<Rightarrow> None
         | LcExitSuccess \<Rightarrow> resolve get_on_success Retain
         | LcExitFailure \<Rightarrow> resolve get_on_failure Retain
         | LcSkipped \<Rightarrow> resolve get_on_skipped Retain
         | LcInit \<Rightarrow> None)"

definition apply_retention :: "string \<Rightarrow> service_context \<Rightarrow> lifecycle_event \<Rightarrow> ('k, unit) prog" where
  "apply_retention n ctx ev = (if retention_of ctx ev = Some Clear then perform (ClearServiceLogs n) else Done ())"

definition token_max_hardening :: "'k orch \<Rightarrow> service_permissions \<Rightarrow> (orch_error, hardening_level) result" where
  "token_max_hardening oc permissions = (case perm_hardening permissions of
      Some s \<Rightarrow> map_err (\<lambda>e. SpawnFailed (''invalid permissions.hardening value: '' @ e)) (hardening_from_str s)
    | None \<Rightarrow> Ok (orch_effective_hardening oc))"

text \<open>The rights a service hands on: its own, cut to what the caller that loaded the configuration has.\<close>

definition token_allow :: "'k orch \<Rightarrow> service_permissions \<Rightarrow> (orch_error, string set) result" where
  "token_allow oc permissions =
     bind_res (map_err (\<lambda>_. SpawnFailed ''invalid permission rights'') (expand_allow (perm_allow permissions) [])) (\<lambda>expanded.
       Ok (case oc_permission_ceiling oc of Some allowed \<Rightarrow> expanded \<inter> allowed | None \<Rightarrow> expanded))"

definition token_context_of ::
    "'k orch \<Rightarrow> string \<Rightarrow> service_permissions \<Rightarrow> (orch_error, 'k token_context) result option" where
  "token_context_of oc n permissions =
     (case bind_res (token_allow oc permissions) (\<lambda>allow. bind_res (token_max_hardening oc permissions) (\<lambda>level. Ok (allow, level))) of
        Inl e \<Rightarrow> Some (Err e)
      | Inr (allow, level) \<Rightarrow>
          let ctx = (\<lambda>key. \<lparr>tc_allow = allow, tc_max_hardening = level, tc_service = n,
                tc_config_path = oc_config_path oc, tc_authorizer = key\<rparr>)
          in case perm_authorize permissions of
               None \<Rightarrow> Some (Ok (ctx None))
             | Some source \<Rightarrow> map_option (\<lambda>compile.
                 bind_res (map_err (\<lambda>e. SpawnFailed (''failed to compile token authorizer: '' @ e)) (compile source)) (\<lambda>key.
                   Ok (ctx (Some key)))) (oc_compile_authorizer oc))"

definition create_service_token_guard_for_operation ::
    "'k orch \<Rightarrow> string \<Rightarrow> resolved_config \<Rightarrow> 64 word option \<Rightarrow> ('k, (orch_error, token option) result) prog" where
  "create_service_token_guard_for_operation oc n resolved startup = (case rc_permissions resolved of
      None \<Rightarrow> Done (Ok None)
    | Some permissions \<Rightarrow> (case token_context_of oc n permissions of
        None \<Rightarrow> Panics
      | Some (Inl e) \<Rightarrow> Done (Err e)
      | Some (Inr ctx) \<Rightarrow> NewToken ctx (\<lambda>r. case r of
          Inl e \<Rightarrow> Done (Err (SpawnFailed (''failed to generate auth token: '' @ e)))
        | Inr guard \<Rightarrow> (case startup of
            Some s \<Rightarrow> Cmd (StoreStartupTokenGuard n s guard) (\<lambda>r. if guard_kept r
                then Done (Ok (guard_token guard)) else Done (Err (StartupCancelled n)))
          | None \<Rightarrow> Cmd (StoreTokenGuard n guard) (\<lambda>_. Done (Ok (guard_token guard)))))))"

definition revoke_matching_service_token_guard :: "string \<Rightarrow> token option \<Rightarrow> ('k, unit) prog" where
  "revoke_matching_service_token_guard n token = (case token of
      None \<Rightarrow> Done ()
    | Some t \<Rightarrow> Cmd (TakeMatchingTokenGuard n t) (\<lambda>r. case r of
        RGuard (Some guard) \<Rightarrow> perform (RevokeGuard guard) | _ \<Rightarrow> Done ()))"

subsection \<open>Evaluating the settings\<close>

definition dep_info_of :: "service_state \<Rightarrow> dep_info" where
  "dep_info_of s = \<lparr>di_status = status_as_str (ss_status s), di_exit_code = ss_exit_code s, di_initialized = ss_initialized s,
     di_restart_count = ss_restart_count s, di_restart_count_since_healthy = ss_restart_count_since_healthy s,
     di_env = ss_computed_env s\<rparr>"

fun dep_infos :: "(string \<times> dependency_config) list \<Rightarrow> ('k, (string, dep_info) hmap) prog" where
  "dep_infos [] = Done []"
| "dep_infos ((d, _) # deps) = andThen (get_state d) (\<lambda>s. andThen (dep_infos deps) (\<lambda>infos.
     Done (case s of Some st \<Rightarrow> (d, dep_info_of st) # infos | None \<Rightarrow> infos)))"

text \<open>The variables that expressions see: those of the daemon, of the user, of the env file, the later ones winning.\<close>

definition full_env :: "'k orch \<Rightarrow> env_map \<Rightarrow> raw_service_config \<Rightarrow> env_map \<Rightarrow> env_map" where
  "full_env oc kepler_env raw env_file =
     (let user = (if rs_user_identity raw \<noteq> Some False
                  then Option.bind (case rs_user raw of Static u \<Rightarrow> u | Dynamic _ \<Rightarrow> None) (\<lambda>spec. res_ok (resolve_user_env (oc_db oc) spec))
                  else None)
      in kepler_env ++ (case user of Some e \<Rightarrow> e | None \<Rightarrow> Map.empty) ++ env_file)"

definition eval_context ::
    "'k orch \<Rightarrow> kepler_config \<Rightarrow> env_map \<Rightarrow> env_map \<Rightarrow> (string, dep_info) hmap \<Rightarrow> service_state option \<Rightarrow> string
      \<Rightarrow> raw_service_config \<Rightarrow> int option \<Rightarrow> eval_ctx" where
  "eval_context oc config kepler_env kepler_flags deps state n raw exit_code =
     (let env_file = oc_env_file oc n raw
      in \<lparr>ec_name = n, ec_env_file = env_file, ec_env = full_env oc kepler_env raw env_file,
          ec_initialized = map_option ss_initialized state, ec_restart_count = map_option ss_restart_count state,
          ec_restart_count_since_healthy = map_option ss_restart_count_since_healthy state,
          ec_exit_code = exit_code, ec_status = map_option (\<lambda>s. status_as_str (ss_status s)) state,
          ec_deps = deps, ec_owner = build_owner_ctx oc,
          ec_hardening = orch_effective_hardening oc, ec_kepler_env = kepler_env, ec_kepler_flags = kepler_flags,
          ec_kepler_env_denied = is_kepler_env_denied config\<rparr>)"

definition inject_user_identity :: "os_db \<Rightarrow> string \<Rightarrow> env_map \<Rightarrow> env_map" where
  "inject_user_identity db user_spec env = (case resolve_user_env db user_spec of Inr e \<Rightarrow> env ++ e | Inl _ \<Rightarrow> env)"

text \<open>The environment of the process; tokens and socket paths of others are taken out.\<close>

definition computed_env :: "'k orch \<Rightarrow> kepler_config \<Rightarrow> resolution \<Rightarrow> env_map" where
  "computed_env oc config re =
     (let resolved = re_config re;
          env = (if \<not> resolve_inherit_env None (rc_inherit_env resolved) (global_default_inherit_env config)
                 then insert_env_entries (re_env_file re) (rc_environment resolved)
                 else re_env re);
          env = env(''KEPLER_TOKEN'' := None, ''KEPLER_SOCKET_PATH'' := None)
      in case (rc_user_identity resolved \<noteq> Some False, rc_user resolved) of
           (True, Some spec) \<Rightarrow> inject_user_identity (oc_db oc) spec env
         | _ \<Rightarrow> env)"

definition working_dir_of :: "'k orch \<Rightarrow> resolved_config \<Rightarrow> string" where
  "working_dir_of oc resolved = (case rc_working_dir resolved of Some wd \<Rightarrow> oc_join oc (oc_config_dir oc) wd | None \<Rightarrow> oc_config_dir oc)"

text \<open>Evaluation, the check against privilege escalation, and the result stored in the actor.\<close>

definition resolve_and_store ::
    "'k orch \<Rightarrow> string \<Rightarrow> raw_service_config \<Rightarrow> (service_state option \<Rightarrow> int option) \<Rightarrow> ('k, (orch_error, resolved_config) result) prog" where
  "resolve_and_store oc n raw exit_code_of =
     Look (\<lambda>a1. Look (\<lambda>a2. Look (\<lambda>a3.
     andThen (dep_infos (dep_iter (rs_depends_on raw))) (\<lambda>deps.
     andThen (get_state n) (\<lambda>state.
     Resolve (eval_context oc (ca_config a3) (ca_kepler_env a1) (ca_kepler_flags a2) deps state n raw (exit_code_of state))
       (default_user oc) (\<lambda>r. case r of
         Inl e \<Rightarrow> Done (Err (ConfigError e))
       | Inr re \<Rightarrow>
           (case check_privilege_escalation (oc_db oc) (orch_effective_hardening oc) (rc_user (re_config re)) (oc_owner_uid oc) of
              Inl _ \<Rightarrow> Done (Err (ConfigError ''privilege escalation''))
            | Inr _ \<Rightarrow> Cmd (StoreResolvedConfig n (re_config re) (computed_env oc (ca_config a3) re)
                          (working_dir_of oc (re_config re)) (re_env_file re)) (\<lambda>_. Done (Ok (re_config re))))))))))"

definition re_resolve_service :: "'k orch \<Rightarrow> string \<Rightarrow> int option \<Rightarrow> ('k, (orch_error, service_context) result) prog" where
  "re_resolve_service oc n exit_code =
     onOk (get_service_context n) (\<lambda>ctx.
     onOk (resolve_and_store oc n (sc_service_config ctx) (\<lambda>_. exit_code)) (\<lambda>_.
     get_service_context n))"

subsection \<open>Waiting for dependencies\<close>

definition ensure_service_startup :: "string \<Rightarrow> 64 word \<Rightarrow> ('k, (orch_error, unit) result) prog" where
  "ensure_service_startup n startup = Cmd (GetServiceStartup n) (\<lambda>r.
     if granted r = Some startup then Done (Ok ()) else Done (Err (StartupCancelled n)))"

definition wont_restart_reason :: "string \<Rightarrow> dependency_config \<Rightarrow> service_state option \<Rightarrow> string" where
  "wont_restart_reason d dc state =
     ''dependency `'' @ d @ ''` '' @ (case state of Some s \<Rightarrow> status_as_str (ss_status s) | None \<Rightarrow> ''unknown'')
     @ (case Option.bind state ss_exit_code of Some code \<Rightarrow> '' (exit code '' @ show_int code @ '')'' | None \<Rightarrow> [])
     @ '' and won'' @ [CHR 0x27] @ ''t restart, condition `'' @ condition_as_str (dc_condition dc) @ ''` can never be met''"

definition unreachable_reason :: "string \<Rightarrow> dependency_condition \<Rightarrow> string" where
  "unreachable_reason d c =
     (let dash = [CHR 0xE2, CHR 0x80, CHR 0x94]
      in ''`'' @ d @ ''` has restart policy with '' @ (case c of
           ServiceFailed \<Rightarrow> ''`on-failure` '' @ dash @ '' it will always restart on failure, so `service_failed` can never be met''
         | ServiceStopped \<Rightarrow> ''`on-failure` and `on-success` '' @ dash @ '' it will always restart, so `service_stopped` can never be met''
         | _ \<Rightarrow> ''`on-success` '' @ dash @ '' it will always restart on success, so `service_completed_successfully` can never be met''))"

text \<open>
  One dependency. The number bounds how often the task is woken up; a task that is still waiting then
  is \<open>Waits\<close>. Each look at the actor is a message of its own.
\<close>

fun wait_for_dependency ::
    "nat \<Rightarrow> services \<Rightarrow> string \<Rightarrow> 64 word \<Rightarrow> string \<Rightarrow> dependency_config \<Rightarrow> ('k, (orch_error, unit) result) prog" where
  "wait_for_dependency 0 svs n startup d dc = Waits"
| "wait_for_dependency (Suc rounds) svs n startup d dc =
     (let again = onOk (ensure_service_startup n startup) (\<lambda>_. AwaitChange (dc_timeout dc \<noteq> None) (\<lambda>w. case w of
            Changed \<Rightarrow> wait_for_dependency rounds svs n startup d dc
          | ChannelClosed \<Rightarrow> Done (Err (StartupCancelled n))
          | TimedOut \<Rightarrow> Done (Err (DependencyTimeout n d (dc_condition dc)))))
      in onOk (ensure_service_startup n startup) (\<lambda>_.
         andThen (get_state d) (\<lambda>s1.
         if check_dependency_satisfied dc s1
         then andThen (get_state d) (\<lambda>s2.
              if (case (hm_get svs d, s2) of
                    (Some raw, Some s) \<Rightarrow> is_transient_satisfaction s (static_restart raw) | _ \<Rightarrow> False)
              then again else Done (Ok ()))
         else andThen (get_state d) (\<lambda>s2.
              if map_option ss_status s2 = Some Skipped \<and> \<not> dc_allow_skipped dc
              then Done (Err (DependencySkipped n d))
              else (case hm_get svs d of
                  None \<Rightarrow> again
                | Some raw \<Rightarrow> andThen (get_state d) (\<lambda>s3. andThen (get_state d) (\<lambda>s4.
                    if is_dependency_permanently_unsatisfied dc s3 s4 (static_restart raw)
                    then andThen (get_state d) (\<lambda>s5.
                         Done (Err (DependencyUnsatisfied n d (dc_condition dc) (wont_restart_reason d dc s5))))
                    else andThen (get_state d) (\<lambda>s5.
                         if (case s5 of Some s \<Rightarrow> is_running (ss_status s) | None \<Rightarrow> False)
                            \<and> is_condition_unreachable_by_policy d (dc_condition dc) (policy (static_restart raw)) \<noteq> None
                         then Done (Err (DependencyUnsatisfied n d (dc_condition dc) (unreachable_reason d (dc_condition dc))))
                         else again))))))))"

fun wait_each ::
    "nat \<Rightarrow> services \<Rightarrow> string \<Rightarrow> 64 word \<Rightarrow> (string \<times> dependency_config) list \<Rightarrow> ('k, (orch_error, unit) result) prog" where
  "wait_each rounds svs n startup [] = Done (Ok ())"
| "wait_each rounds svs n startup ((d, dc) # deps) =
     onOk (wait_for_dependency rounds svs n startup d dc) (\<lambda>_. wait_each rounds svs n startup deps)"

definition wait_for_dependencies :: "nat \<Rightarrow> string \<Rightarrow> 64 word \<Rightarrow> depends_on \<Rightarrow> ('k, (orch_error, unit) result) prog" where
  "wait_for_dependencies rounds n startup deps =
     Look (\<lambda>a. wait_each rounds (kc_services (ca_config a)) n startup (dep_iter deps))"

subsection \<open>Launching\<close>

text \<open>
  Everything up to the process: claim, dependencies, the new status, the settings, the condition.
  \<open>None\<close> is a service that is skipped.
\<close>

definition prepare_service_launch ::
    "'k orch \<Rightarrow> nat \<Rightarrow> string \<Rightarrow> 64 word \<Rightarrow> service_status \<Rightarrow> bool \<Rightarrow> bool
      \<Rightarrow> ('k, (orch_error, service_context option) result) prog" where
  "prepare_service_launch oc rounds n startup startup_status skip_condition no_deps =
     onOk (ensure_service_startup n startup) (\<lambda>_.
     onOk (get_service_context n) (\<lambda>ctx.
     onOk (if \<not> no_deps then wait_for_dependencies rounds n startup (rs_depends_on (sc_service_config ctx)) else Done (Ok ())) (\<lambda>_.
     Cmd (TransitionServiceStartup n startup startup_status None None) (\<lambda>r.
     if \<not> yes r then Done (Err (StartupCancelled n))
     else onOk (resolve_and_store oc n (sc_service_config ctx) (\<lambda>state. Option.bind state ss_exit_code)) (\<lambda>resolved.
          onOk (get_service_context n) (\<lambda>ctx.
          onOk (ensure_service_startup n startup) (\<lambda>_.
          if \<not> skip_condition \<and> rc_condition resolved = Some False
          then Cmd (TransitionServiceStartup n startup Skipped (Some ''`if` condition evaluated to false'') None) (\<lambda>r.
               if \<not> yes r then Done (Err (StartupCancelled n))
               else andThen (apply_retention n ctx LcSkipped) (\<lambda>_. Done (Ok None)))
          else Done (Ok (Some ctx)))))))))"

text \<open>The command of the process; the token is that of the guard made for it, and no other.\<close>

definition spawn_spec :: "'k orch \<Rightarrow> kepler_config \<Rightarrow> raw_service_config \<Rightarrow> service_context \<Rightarrow> resolved_config \<Rightarrow> string \<Rightarrow> token option \<Rightarrow> command_spec" where
  "spawn_spec oc config raw ctx resolved n token =
     (let clear_env = (\<not> resolve_inherit_env None (rs_inherit_env raw) (global_default_inherit_env config));
          groups = effective_groups (oc_db oc) (rc_groups resolved) (rc_user resolved) (oc_kepler_gid oc);
          env = (sc_env ctx)(''KEPLER_TOKEN'' := None, ''KEPLER_SOCKET_PATH'' := None);
          env = (case token of
              None \<Rightarrow> env
            | Some t \<Rightarrow> (let env = env(''KEPLER_TOKEN'' \<mapsto> oc_token_hex oc t)
                in case oc_socket_path oc of Some p \<Rightarrow> env(''KEPLER_SOCKET_PATH'' \<mapsto> p) | None \<Rightarrow> env));
          spec = with_all_options (rc_command resolved) (sc_working_dir ctx) env (rc_user resolved) groups (rc_limits resolved)
            clear_env (case rc_no_new_privileges resolved of Some b \<Rightarrow> b | None \<Rightarrow> True)
      in spec\<lparr>cs_cgroup_path := oc_cgroup_path oc n\<rparr>)"

text \<open>\<^verbatim>\<open>spawn_service\<close> of the process module: an empty command is refused, and a process that cannot be registered is killed.\<close>

definition spawn_process :: "string \<Rightarrow> command_spec \<Rightarrow> ('k, (string, process_info \<times> 64 word) result) prog" where
  "spawn_process n spec =
     (if cs_program_and_args spec = [] then Done (Err (''Service '' @ n @ '' has empty command''))
      else Spawn n spec (\<lambda>r. case r of
        Inl e \<Rightarrow> Done (Err e)
      | Inr p \<Rightarrow> Cmd (RegisterServiceInstance n (pr_pid p) (pr_started_at p)) (\<lambda>r. case r of
          RInstance (Inr instance) \<Rightarrow> Done (Ok (p, instance))
        | _ \<Rightarrow> Act (AbandonProcess n) (\<lambda>_. Done (Err (''Service not found: '' @ n))))))"

definition spawn_service_with_token_guard ::
    "'k orch \<Rightarrow> string \<Rightarrow> service_context \<Rightarrow> token option \<Rightarrow> ('k, (orch_error, 64 word) result) prog" where
  "spawn_service_with_token_guard oc n ctx token = (case sc_resolved_config ctx of
      None \<Rightarrow> Done (Err ServiceContextNotFound)
    | Some resolved \<Rightarrow> Look (\<lambda>a. case hm_get (kc_services (ca_config a)) n of
        None \<Rightarrow> Done (Err ServiceContextNotFound)
      | Some raw \<Rightarrow> andThen (spawn_process n (spawn_spec oc (ca_config a) raw ctx resolved n token)) (\<lambda>r. case r of
          Inl e \<Rightarrow> andThen (perform (CleanupCgroup n)) (\<lambda>_.
            andThen (revoke_matching_service_token_guard n token) (\<lambda>_. Done (Err (SpawnFailed e))))
        | Inr (p, instance) \<Rightarrow> Cmd (StoreProcessHandle n (pr_handle p)) (\<lambda>_.
            Cmd (SetServiceStatus n Running) (\<lambda>_. Done (Ok instance))))))"

definition spawn_auxiliary_tasks :: "string \<Rightarrow> service_context \<Rightarrow> 64 word \<Rightarrow> ('k, unit) prog" where
  "spawn_auxiliary_tasks n ctx instance = (case sc_resolved_config ctx of
      None \<Rightarrow> Done ()
    | Some resolved \<Rightarrow>
        andThen (case rc_healthcheck resolved of Some hc \<Rightarrow> perform (StartHealthChecker n hc instance) | None \<Rightarrow> Done ()) (\<lambda>_.
        Look (\<lambda>a. andThen (if global_monitor (ca_config a) \<noteq> None then perform StartMonitor else Done ()) (\<lambda>_.
        if watch_patterns (rc_restart resolved) \<noteq> []
        then perform (StartWatcher n (watch_patterns (rc_restart resolved)))
        else perform (CancelWatcher n)))))"

definition start_service_process ::
    "'k orch \<Rightarrow> string \<Rightarrow> 64 word \<Rightarrow> service_context \<Rightarrow> ('k, (orch_error, 64 word) result) prog" where
  "start_service_process oc n startup ctx =
     onOk (ensure_service_startup n startup) (\<lambda>_.
     case sc_resolved_config ctx of
       None \<Rightarrow> Done (Err ServiceContextNotFound)
     | Some resolved \<Rightarrow> Cmd (IsServiceInitialized n) (\<lambda>initialized.
         andThen (perform (EmitEvent n EvStart)) (\<lambda>_.
         onOk (create_service_token_guard_for_operation oc n resolved (Some startup)) (\<lambda>token.
         andThen (run_service_hook ctx n PreStart) (\<lambda>hook. case hook of
           Inl e \<Rightarrow> andThen (revoke_matching_service_token_guard n token) (\<lambda>_. Done (Err e))
         | Inr _ \<Rightarrow>
             andThen (apply_retention n ctx LcStart) (\<lambda>_.
             andThen (ensure_service_startup n startup) (\<lambda>current. case current of
               Inl e \<Rightarrow> andThen (revoke_matching_service_token_guard n token) (\<lambda>_. Done (Err e))
             | Inr _ \<Rightarrow>
                 onOk (spawn_service_with_token_guard oc n ctx token) (\<lambda>instance.
                 andThen (try_hook ctx n PostStart) (\<lambda>_.
                 if yes initialized then Done (Ok instance)
                 else Cmd (MarkServiceInitialized n) (\<lambda>r. case r of
                     RDone (Inr _) \<Rightarrow> Done (Ok instance)
                   | _ \<Rightarrow> Done (Err (DaemonError (''Service not found: '' @ n)))))))))))))"

definition execute_service_startup ::
    "'k orch \<Rightarrow> nat \<Rightarrow> string \<Rightarrow> 64 word \<Rightarrow> bool \<Rightarrow> bool \<Rightarrow> ('k, (orch_error, unit) result) prog" where
  "execute_service_startup oc rounds n startup skip_condition no_deps =
     onOk (prepare_service_launch oc rounds n startup Starting skip_condition no_deps) (\<lambda>prepared. case prepared of
       None \<Rightarrow> Done (Ok ())
     | Some ctx \<Rightarrow>
         andThen (perform (ClearOutputs n)) (\<lambda>_.
         onOk (start_service_process oc n startup ctx) (\<lambda>instance.
         andThen (spawn_auxiliary_tasks n ctx instance) (\<lambda>_. Done (Ok ())))))"

definition handle_service_launch_result ::
    "string \<Rightarrow> 64 word \<Rightarrow> (orch_error, unit) result \<Rightarrow> ('k, (orch_error, unit) result) prog" where
  "handle_service_launch_result n startup result = (case result of
      Inr _ \<Rightarrow> Done (Ok ())
    | Inl e \<Rightarrow> (case e of
        DependencySkipped _ d \<Rightarrow> Cmd (TransitionServiceStartup n startup Skipped (Some (''dependency `'' @ d @ ''` was skipped'')) None)
          (\<lambda>_. Done (Ok ()))
      | DependencyUnsatisfied _ _ _ reason \<Rightarrow> Cmd (TransitionServiceStartup n startup Skipped (Some reason) None) (\<lambda>_. Done (Ok ()))
      | StartupCancelled _ \<Rightarrow> Done (Ok ())
      | _ \<Rightarrow> Cmd (GetServiceStartup n) (\<lambda>r.
          if granted r \<noteq> Some startup then Done (Ok ())
          else andThen (case e of HookFailed _ \<Rightarrow> Done () | _ \<Rightarrow> perform (WriteErrorLog n (error_text e))) (\<lambda>_.
               Cmd (TransitionServiceStartup n startup Failed None (Some (error_text e))) (\<lambda>r.
               if \<not> yes r then Done (Ok ()) else Done (Err e))))))"

definition run_service_startup ::
    "'k orch \<Rightarrow> nat \<Rightarrow> string \<Rightarrow> 64 word \<Rightarrow> bool \<Rightarrow> bool \<Rightarrow> ('k, (orch_error, unit) result) prog" where
  "run_service_startup oc rounds n startup skip_condition no_deps =
     andThen (execute_service_startup oc rounds n startup skip_condition no_deps) (handle_service_launch_result n startup)"

definition run_manual_restart_startup ::
    "'k orch \<Rightarrow> nat \<Rightarrow> string \<Rightarrow> 64 word \<Rightarrow> bool \<Rightarrow> bool \<Rightarrow> ('k, (orch_error, unit) result) prog" where
  "run_manual_restart_startup oc rounds n startup skip_condition no_deps =
     andThen
       (onOk (ensure_service_startup n startup) (\<lambda>_.
        Cmd (IncrementRestartCount n) (\<lambda>r. case r of
          RDone (Inr _) \<Rightarrow>
            onOk (prepare_service_launch oc rounds n startup Restarting skip_condition no_deps) (\<lambda>prepared. case prepared of
              None \<Rightarrow> Done (Ok ())
            | Some ctx \<Rightarrow> Act (ClearProcessOutputs n) (\<lambda>r. case r of
                Inl e \<Rightarrow> Done (Err (DaemonError e))
              | Inr _ \<Rightarrow>
                  onOk (start_service_process oc n startup ctx) (\<lambda>instance.
                  andThen (try_hook ctx n PostRestart) (\<lambda>_.
                  andThen (spawn_auxiliary_tasks n ctx instance) (\<lambda>_. Done (Ok ()))))))
        | _ \<Rightarrow> Done (Err (DaemonError (''Service not found: '' @ n))))))
       (handle_service_launch_result n startup)"

definition start_single_service_with_evaluator ::
    "'k orch \<Rightarrow> nat \<Rightarrow> string \<Rightarrow> bool \<Rightarrow> bool \<Rightarrow> ('k, (orch_error, unit) result) prog" where
  "start_single_service_with_evaluator oc rounds n skip_condition no_deps = Cmd (ClaimServiceStart n) (\<lambda>r. case r of
      RGeneration (Some startup) \<Rightarrow> run_service_startup oc rounds n startup skip_condition no_deps
    | _ \<Rightarrow> Done (Ok ()))"

definition respawn_single_service :: "'k orch \<Rightarrow> nat \<Rightarrow> string \<Rightarrow> ('k, (orch_error, unit) result) prog" where
  "respawn_single_service oc rounds n = start_single_service_with_evaluator oc rounds n False False"

end
