(* ===== verification/Orchestrator_Stop.thy ===== *)
theory Orchestrator_Stop
  imports Orchestrator_Start
begin

text \<open>
  The tasks that stop and restart services (\<^verbatim>\<open>kepler-daemon/src/orchestrator/mod.rs\<close> and \<^verbatim>\<open>events.rs\<close>,
  \<^verbatim>\<open>stop_service\<close> of \<^verbatim>\<open>kepler-daemon/src/process/mod.rs\<close>): explicit stops, restarts of one service, the
  handling of an exit, and restarts that a dependency, a failed health check or a changed file causes.
\<close>

subsection \<open>Stopping\<close>

definition stop_service :: "string \<Rightarrow> int option \<Rightarrow> bool \<Rightarrow> duration \<Rightarrow> ('k, unit) prog" where
  "stop_service n signal skip_status_update grace =
     andThen (if \<not> skip_status_update then send (SetServiceStatus n Stopping) else Done ()) (\<lambda>_.
     Cmd (RemoveProcessHandle n) (\<lambda>r.
     andThen (case r of
         RHandle (Some h) \<Rightarrow> perform (Terminate h (case signal of Some s \<Rightarrow> s | None \<Rightarrow> 15) grace)
       | _ \<Rightarrow> Done ()) (\<lambda>_.
     andThen (send (CancelTaskHandle n)) (\<lambda>_.
     andThen (perform (CancelWatcher n)) (\<lambda>_.
     andThen (if \<not> skip_status_update then send (SetServiceStatus n Stopped) else Done ()) (\<lambda>_.
     send (SetServicePid n None None)))))))"

definition static_grace_period :: "raw_service_config \<Rightarrow> duration" where
  "static_grace_period raw = (case rs_restart raw of Static r \<Rightarrow> grace_period r | Dynamic _ \<Rightarrow> 0)"

definition is_active_state :: "service_state option \<Rightarrow> bool" where
  "is_active_state s = (case s of Some st \<Rightarrow> is_active (ss_status st) | None \<Rightarrow> False)"

text \<open>One service of a pass; whether it was stopped.\<close>

definition stop_one :: "int option \<Rightarrow> string \<Rightarrow> ('k, bool) prog" where
  "stop_one signal n = andThen (get_state n) (\<lambda>s.
     if \<not> is_active_state s then Done False
     else andThen (perform (EmitEvent n EvStop)) (\<lambda>_.
          Look (\<lambda>a. let ctx = build_service_context a n in
          andThen (case ctx of Some c \<Rightarrow> try_hook c n PreStop | None \<Rightarrow> Done ()) (\<lambda>_.
          andThen (stop_service n signal False (case ctx of Some c \<Rightarrow> static_grace_period (sc_service_config c) | None \<Rightarrow> 0)) (\<lambda>_.
          andThen (perform (CleanupCgroup n)) (\<lambda>_.
          andThen (case ctx of Some c \<Rightarrow> try_hook c n PostStop | None \<Rightarrow> Done ()) (\<lambda>_.
          andThen (send (ResetRestartCount n)) (\<lambda>_.
          andThen (revoke_matching_service_token_guard n (Option.bind ctx sc_token)) (\<lambda>_.
          Done True)))))))))"

fun stop_pass :: "int option \<Rightarrow> string list \<Rightarrow> ('k, string list) prog" where
  "stop_pass signal [] = Done []"
| "stop_pass signal (n # ns) = andThen (stop_one signal n) (\<lambda>stopped.
     andThen (stop_pass signal ns) (\<lambda>rest. Done (if stopped then n # rest else rest)))"

fun any_active :: "string list \<Rightarrow> ('k, bool) prog" where
  "any_active [] = Done False"
| "any_active (n # ns) = andThen (get_state n) (\<lambda>s. if is_active_state s then Done True else any_active ns)"

text \<open>As many passes as there are services; the first number counts the passes left, the second those done.\<close>

fun stop_passes :: "nat \<Rightarrow> nat \<Rightarrow> int option \<Rightarrow> string list \<Rightarrow> ('k, string list) prog" where
  "stop_passes 0 pass signal ns = Done []"
| "stop_passes (Suc left) pass signal ns = andThen (stop_pass signal ns) (\<lambda>stopped.
     if stopped \<noteq> []
     then andThen (stop_passes left (Suc pass) signal ns) (\<lambda>rest. Done (stopped @ rest))
     else if pass > 0
     then andThen (perform (SleepFor 200000000)) (\<lambda>_. andThen (any_active ns) (\<lambda>active.
            if active then stop_passes left (Suc pass) signal ns else Done []))
     else Done [])"

definition deps_error_text :: "deps_error \<Rightarrow> string" where
  "deps_error_text e = (case e of
      DependencyCycle ns \<Rightarrow> ''Dependency cycle detected: Cycle detected involving: '' @ join '', '' ns
    | MissingDependency s d \<Rightarrow> ''Missing dependency for service '' @ s @ '': '' @ d
    | Deps.ServiceNotFound s \<Rightarrow> ''Service not found: '' @ s
    | InternalError s \<Rightarrow> ''Internal error: '' @ s
    | DegreeUnderflow s \<Rightarrow> ''Internal error: '' @ s)"

definition requested_services ::
    "kepler_config \<Rightarrow> string list \<Rightarrow> (deps_error, string list) result \<Rightarrow> (orch_error, string list) result" where
  "requested_services config services order =
     (if services = [] then map_err (\<lambda>e. DaemonError (deps_error_text e)) order
      else case find (\<lambda>n. \<not> hm_contains (kc_services config) n) services of
        Some n \<Rightarrow> Err (ServiceNotFound n)
      | None \<Rightarrow> Ok services)"

definition clears_on_stop :: "kepler_config \<Rightarrow> bool \<Rightarrow> string \<Rightarrow> bool" where
  "clears_on_stop config clean n = (clean \<or>
     resolve_log_retention
       (Option.bind (hm_get (kc_services config) n) (\<lambda>raw. case rs_logs raw of Static l \<Rightarrow> l | Dynamic _ \<Rightarrow> None))
       (global_logs config) get_on_stop Clear = Clear)"

definition stop_message :: "bool \<Rightarrow> string list \<Rightarrow> string" where
  "stop_message clean stopped =
     (if stopped = [] \<and> \<not> clean then ''No services were running''
      else if clean \<and> stopped = [] then ''Cleaned up (no services were running)''
      else if clean then ''Stopped and cleaned services: '' @ join '', '' stopped
      else ''Stopped services: '' @ join '', '' stopped)"

fun cleanable :: "string list \<Rightarrow> ('k, string list) prog" where
  "cleanable [] = Done []"
| "cleanable (n # ns) = andThen (get_state n) (\<lambda>s. andThen (cleanable ns) (\<lambda>rest.
     Done (if map_option ss_status s \<in> {Some Skipped, Some Waiting} then rest else n # rest)))"

definition cleanup_hook :: "string \<Rightarrow> ('k, unit) prog" where
  "cleanup_hook n = Look (\<lambda>a. case build_service_context a n of
      Some ctx \<Rightarrow> try_hook ctx n PreCleanup | None \<Rightarrow> Done ())"

definition run_cleanup_hooks :: "string list \<Rightarrow> ('k, unit) prog" where
  "run_cleanup_hooks ns = andThen (cleanable ns) (\<lambda>cs.
     andThen (for_each (\<lambda>n. perform (EmitEvent n EvCleanup)) cs) (\<lambda>_. for_each cleanup_hook cs))"

definition stop_services :: "'k orch \<Rightarrow> string list \<Rightarrow> bool \<Rightarrow> int option \<Rightarrow> ('k, (orch_error, string) result) prog" where
  "stop_services oc services clean signal = Look (\<lambda>a. let config = ca_config a in
     case requested_services config services (get_stop_order (oc_partition_point oc) (kc_services config)) of
       Inl e \<Rightarrow> Done (Err e)
     | Inr ns \<Rightarrow>
         andThen (if clean \<and> services = [] then perform DiscardLogs else Done ()) (\<lambda>_.
         andThen (stop_passes (length ns) 0 signal ns) (\<lambda>stopped.
         andThen (if services = [] \<and> clean then run_cleanup_hooks ns else Done ()) (\<lambda>_.
         andThen (if \<not> (clean \<and> services = [])
                  then for_each (\<lambda>n. if clears_on_stop config clean n then perform (ClearServiceLogs n) else Done ())
                         (if services = [] then ns else stopped)
                  else Done ()) (\<lambda>_.
         andThen (if services = [] \<and> clean
                  then andThen (perform RevokeForConfig) (\<lambda>_. andThen (perform UnloadConfig) (\<lambda>_. perform RemoveStateDir))
                  else Done ()) (\<lambda>_.
         Done (Ok (stop_message clean stopped))))))))"

subsection \<open>Restarting one service\<close>

definition restart_delay :: "'k orch \<Rightarrow> service_context \<Rightarrow> service_state option \<Rightarrow> duration option" where
  "restart_delay oc ctx state =
     (let count = (case state of Some s \<Rightarrow> unat (ss_restart_count_since_healthy s) | None \<Rightarrow> 0)
      in case (case sc_resolved_config ctx of Some rc \<Rightarrow> Some (rc_restart rc)
               | None \<Rightarrow> (case rs_restart (sc_service_config ctx) of Static r \<Rightarrow> Some r | Dynamic _ \<Rightarrow> None)) of
           None \<Rightarrow> Some 0
         | Some cfg \<Rightarrow> compute_restart_delay (oc_round oc) (oc_powi oc) cfg count)"

definition back_off :: "'k orch \<Rightarrow> string \<Rightarrow> service_context \<Rightarrow> ('k, unit) prog" where
  "back_off oc n ctx = andThen (get_state n) (\<lambda>s. case restart_delay oc ctx s of
      None \<Rightarrow> Panics
    | Some d \<Rightarrow> if d \<noteq> 0 then perform (SleepFor d) else Done ())"

definition execute_restart_start_phase :: "'k orch \<Rightarrow> string \<Rightarrow> ('k, (orch_error, unit) result) prog" where
  "execute_restart_start_phase oc n =
     andThen (send (IncrementRestartCount n)) (\<lambda>_.
     onOk (re_resolve_service oc n None) (\<lambda>ctx.
     andThen (perform (EmitEvent n EvStart)) (\<lambda>_.
     onOk (case sc_resolved_config ctx of
         Some resolved \<Rightarrow> create_service_token_guard_for_operation oc n resolved None
       | None \<Rightarrow> Done (Ok None)) (\<lambda>token.
     andThen (run_service_hook ctx n PreStart) (\<lambda>hook. case hook of
       Inl e \<Rightarrow> andThen (revoke_matching_service_token_guard n token) (\<lambda>_. Done (Err e))
     | Inr _ \<Rightarrow>
         andThen (apply_retention n ctx LcStart) (\<lambda>_.
         onOk (spawn_service_with_token_guard oc n ctx token) (\<lambda>instance.
         andThen (try_hook ctx n PostStart) (\<lambda>_.
         andThen (try_hook ctx n PostRestart) (\<lambda>_.
         andThen (spawn_auxiliary_tasks n ctx instance) (\<lambda>_.
         Done (Ok ())))))))))))"

definition restart_single_service_with_reason :: "'k orch \<Rightarrow> string \<Rightarrow> restart_reason \<Rightarrow> ('k, (orch_error, unit) result) prog" where
  "restart_single_service_with_reason oc n reason =
     andThen (send (CancelTaskHandle n)) (\<lambda>_.
     andThen (perform (EmitEvent n (EvRestart reason))) (\<lambda>_.
     andThen (perform (SuppressWatcher n)) (\<lambda>_.
     onOk (get_service_context n) (\<lambda>ctx.
     andThen (try_hook ctx n PreRestart) (\<lambda>_.
     andThen (try_hook ctx n PreStop) (\<lambda>_.
     andThen (apply_retention n ctx LcRestart) (\<lambda>_.
     andThen (stop_service n None False (static_grace_period (sc_service_config ctx))) (\<lambda>_.
     andThen (perform (CleanupCgroup n)) (\<lambda>_.
     andThen (try_hook ctx n PostStop) (\<lambda>_.
     andThen (revoke_matching_service_token_guard n (sc_token ctx)) (\<lambda>_.
     andThen (back_off oc n ctx) (\<lambda>_.
     andThen (execute_restart_start_phase oc n) (\<lambda>r. case r of
       Inr _ \<Rightarrow> Done (Ok ())
     | Inl e \<Rightarrow>
         andThen (case e of HookFailed _ \<Rightarrow> Done () | _ \<Rightarrow> perform (WriteErrorLog n (error_text e))) (\<lambda>_.
         andThen (send (SetServiceStatusWithReason n Failed None (Some (error_text e)))) (\<lambda>_.
         Done (Err e))))))))))))))))"

subsection \<open>Exits\<close>

definition actively_running :: "service_state option \<Rightarrow> bool" where
  "actively_running s = (case s of Some st \<Rightarrow> ss_status st \<in> {Running, Healthy, Unhealthy, Starting} | None \<Rightarrow> False)"

definition exit_restarts :: "service_context \<Rightarrow> int option \<Rightarrow> bool" where
  "exit_restarts ctx exit_code = should_restart_on_exit
     (case sc_resolved_config ctx of Some rc \<Rightarrow> rc_restart rc | None \<Rightarrow> static_restart (sc_service_config ctx)) exit_code"

text \<open>The restart after an exit.\<close>

definition restart_after_exit :: "'k orch \<Rightarrow> string \<Rightarrow> service_context \<Rightarrow> int option \<Rightarrow> ('k, (orch_error, unit) result) prog" where
  "restart_after_exit oc n ctx exit_code =
     andThen (perform (FinishOutput n)) (\<lambda>_.
     andThen (perform (EmitEvent n (EvRestart (ReasonFailure exit_code)))) (\<lambda>_.
     andThen (send (IncrementRestartCount n)) (\<lambda>_.
     andThen (send (SetServiceStatus n Starting)) (\<lambda>_.
     andThen (back_off oc n ctx) (\<lambda>_.
     andThen (perform (SuppressWatcher n)) (\<lambda>_.
     andThen (case sc_resolved_config ctx of
         Some resolved \<Rightarrow> create_service_token_guard_for_operation oc n resolved None
       | None \<Rightarrow> Done (Ok None)) (\<lambda>guard. case guard of
       Inl _ \<Rightarrow> andThen (send (SetServiceStatus n Failed)) (\<lambda>_. Done (Ok ()))
     | Inr _ \<Rightarrow>
         andThen (try_hook ctx n PreRestart) (\<lambda>_.
         andThen (try_hook ctx n PreStart) (\<lambda>_.
         andThen (apply_retention n ctx LcRestart) (\<lambda>_.
         onOk (re_resolve_service oc n exit_code) (\<lambda>ctx.
         andThen (spawn_service_with_token_guard oc n ctx (sc_token ctx)) (\<lambda>r. case r of
           Inr instance \<Rightarrow>
             andThen (try_hook ctx n PostStart) (\<lambda>_.
             andThen (try_hook ctx n PostRestart) (\<lambda>_.
             andThen (spawn_auxiliary_tasks n ctx instance) (\<lambda>_.
             andThen (send (SetServiceStatus n Running)) (\<lambda>_. Done (Ok ())))))
         | Inl _ \<Rightarrow>
             andThen (perform (CleanupCgroup n)) (\<lambda>_.
             andThen (send (SetServiceStatus n Failed)) (\<lambda>_. Done (Ok ())))))))))))))))"

text \<open>Storing the outputs fails when no evaluator can be made; the task then ends without the cleanup.\<close>

definition handle_exit :: "'k orch \<Rightarrow> string \<Rightarrow> int option \<Rightarrow> int option \<Rightarrow> ('k, (orch_error, unit) result) prog" where
  "handle_exit oc n exit_code signal = Look (\<lambda>a. case build_service_context a n of
      None \<Rightarrow> Done (Ok ())
    | Some ctx \<Rightarrow>
        andThen (perform (EmitEvent n (EvExit exit_code))) (\<lambda>_.
        andThen (send (RecordProcessExit n exit_code signal)) (\<lambda>_.
        andThen (try_hook ctx n PostExit) (\<lambda>_.
        andThen (revoke_matching_service_token_guard n (sc_token ctx)) (\<lambda>_.
        andThen (apply_retention n ctx (if exit_code = Some 0 then LcExitSuccess else LcExitFailure)) (\<lambda>_.
        andThen (get_state n) (\<lambda>current.
        if actively_running current \<and> exit_restarts ctx exit_code
        then restart_after_exit oc n ctx exit_code
        else andThen (perform (FinishOutput n)) (\<lambda>_.
             Act (StoreOutputs n) (\<lambda>stored.
             andThen (if actively_running current
                      then send (SetServiceStatus n (if signal \<noteq> None then Killed else Exited)) else Done ()) (\<lambda>_.
             andThen (if is_ok stored then perform (CleanupCgroup n) else Done ()) (\<lambda>_. Done (Ok ()))))))))))))"

end
