(* ===== verification/Orchestrator_Flows.thy ===== *)
theory Orchestrator_Flows
  imports Orchestrator_Stop
begin

text \<open>
  The requests of clients for a loaded configuration, and what starts restarts without a client
  (\<^verbatim>\<open>start_services\<close>, \<^verbatim>\<open>restart_services_with_states\<close>, \<^verbatim>\<open>handle_file_change\<close> of
  \<^verbatim>\<open>kepler-daemon/src/orchestrator/mod.rs\<close>, the event handler of \<^verbatim>\<open>kepler-daemon/src/orchestrator/events.rs\<close>).
\<close>

subsection \<open>Starting services\<close>

fun any_needs_starting :: "string list \<Rightarrow> ('k, bool) prog" where
  "any_needs_starting [] = Done False"
| "any_needs_starting (n # ns) = andThen (get_state n) (\<lambda>s. case s of
      Some st \<Rightarrow> if is_active (ss_status st) then any_needs_starting ns else Done True
    | None \<Rightarrow> any_needs_starting ns)"

definition needs_event_handler :: "kepler_config \<Rightarrow> bool" where
  "needs_event_handler config = list_ex (\<lambda>(_, raw). dependencies_with_restart (rs_depends_on raw) \<noteq> []
     \<or> (case rs_restart raw of Static r \<Rightarrow> should_restart_on_unhealthy r | Dynamic _ \<Rightarrow> False)) (kc_services config)"

definition post_startup_work :: "kepler_config \<Rightarrow> string list \<Rightarrow> bool \<Rightarrow> ('k, (orch_error, unit) result) prog" where
  "post_startup_work config started initialized =
     (if started = [] then Done (Ok ())
      else andThen (send TakeSnapshotIfNeeded) (\<lambda>_.
           andThen (if needs_event_handler config
                    then Cmd HasEventHandler (\<lambda>r. if yes r then Done ()
                           else andThen (perform SpawnEventHandler) (\<lambda>_. send SetEventHandlerSpawned))
                    else Done ()) (\<lambda>_.
           if initialized then Done (Ok ())
           else Cmd MarkConfigInitialized (\<lambda>r. case r of
               RDone (Inl _) \<Rightarrow> Done (Err (DaemonError ''Failed to mark config initialized'')) | _ \<Rightarrow> Done (Ok ())))))"

fun start_named :: "'k orch \<Rightarrow> nat \<Rightarrow> bool \<Rightarrow> string list \<Rightarrow> ('k, (orch_error, string list) result) prog" where
  "start_named oc rounds no_deps [] = Done (Ok [])"
| "start_named oc rounds no_deps (n # ns) = Cmd (IsServiceRunning n) (\<lambda>r.
     if yes r then start_named oc rounds no_deps ns
     else andThen (start_single_service_with_evaluator oc rounds n True no_deps) (\<lambda>res. case res of
         Inr _ \<Rightarrow> onOk (start_named oc rounds no_deps ns) (\<lambda>started. Done (Ok (n # started)))
       | Inl (StartupCancelled _) \<Rightarrow> start_named oc rounds no_deps ns
       | Inl e \<Rightarrow> Done (Err e)))"

fun claim_each :: "string list \<Rightarrow> ('k, (string \<times> 64 word) list) prog" where
  "claim_each [] = Done []"
| "claim_each (n # ns) = Cmd (ClaimServiceStart n) (\<lambda>r. andThen (claim_each ns) (\<lambda>rest.
     Done (case r of RGeneration (Some s) \<Rightarrow> (n, s) # rest | _ \<Rightarrow> rest)))"

definition merge_settings :: "str_map option \<Rightarrow> str_map option \<Rightarrow> ('k, unit) prog" where
  "merge_settings override_envs define_flags =
     andThen (case override_envs of Some o' \<Rightarrow> send (MergeKeplerEnv (map_of o')) | None \<Rightarrow> Done ()) (\<lambda>_.
     case define_flags of Some f \<Rightarrow> send (MergeKeplerFlags (map_of f)) | None \<Rightarrow> Done ())"

definition start_services ::
    "'k orch \<Rightarrow> nat \<Rightarrow> string list \<Rightarrow> bool \<Rightarrow> str_map option \<Rightarrow> str_map option \<Rightarrow> ('k, (orch_error, string) result) prog" where
  "start_services oc rounds services no_deps override_envs define_flags =
     andThen (merge_settings override_envs define_flags) (\<lambda>_. Look (\<lambda>a. let config = ca_config a in
     case requested_services config services (get_start_order (oc_partition_point oc) (kc_services config)) of
       Inl e \<Rightarrow> Done (Err e)
     | Inr ns \<Rightarrow> andThen (any_needs_starting ns) (\<lambda>needed.
         if \<not> needed then Done (Ok ''All services already running'')
         else Act CreateEvaluator (\<lambda>ev. case ev of
           Inl e \<Rightarrow> Done (Err (ConfigError e))
         | Inr _ \<Rightarrow> Cmd IsConfigInitialized (\<lambda>initialized.
             if services \<noteq> []
             then onOk (start_named oc rounds no_deps ns) (\<lambda>started.
                  onOk (post_startup_work config started (yes initialized)) (\<lambda>_.
                  Done (Ok (if started = [] then ''All services already running''
                            else ''Started services: '' @ join '', '' started))))
             else andThen (send (SetStartupInProgress True)) (\<lambda>_.
                  andThen (claim_each ns) (\<lambda>newly_waiting.
                  andThen (send (SetStartupInProgress False)) (\<lambda>_.
                  andThen (for_each (\<lambda>(n, startup). perform (StartTask n startup no_deps)) newly_waiting) (\<lambda>_.
                  onOk (post_startup_work config ns (yes initialized)) (\<lambda>_.
                  Done (Ok (''Services starting: '' @ join '', '' ns))))))))))))"

subsection \<open>Restarting services\<close>

text \<open>The selected services, each with whether it is running.\<close>

fun select_restarts ::
    "bool \<Rightarrow> restart_state list \<Rightarrow> string list \<Rightarrow> ('k, (orch_error, (string \<times> bool) list) result) prog" where
  "select_restarts is_full states [] = Done (Ok [])"
| "select_restarts is_full states (n # ns) = andThen (get_state n) (\<lambda>s. case s of
      None \<Rightarrow> select_restarts is_full states ns
    | Some st \<Rightarrow>
        if \<not> ss_initialized st
        then (if is_full then select_restarts is_full states ns else Done (Err (ServiceNotInitialized n)))
        else onOk (select_restarts is_full states ns) (\<lambda>rest. Done (Ok (
             if is_running (ss_status st) then (n, True) # rest
             else if list_ex (\<lambda>x. state_includes x (status_as_str (ss_status st))) states then (n, False) # rest
             else rest))))"

definition restart_order ::
    "'k orch \<Rightarrow> kepler_config \<Rightarrow> bool \<Rightarrow> string list \<Rightarrow> (orch_error, string list) result" where
  "restart_order oc config no_deps selected =
     (if no_deps then Ok selected
      else bind_res (map_err (\<lambda>e. DaemonError (deps_error_text e)) (get_start_order (oc_partition_point oc) (kc_services config))) (\<lambda>order.
           Ok (filter (\<lambda>n. n \<in> set selected) order)))"

fun claim_lifecycles :: "(string \<rightharpoonup> bool) \<Rightarrow> restart_state list \<Rightarrow> string list \<Rightarrow> ('k, (string \<times> selected_lifecycle) list) prog" where
  "claim_lifecycles running states [] = Done []"
| "claim_lifecycles running states (n # ns) =
     Cmd (if running n = Some True then ClaimServiceRestart n else ClaimInactiveServiceRestart n states) (\<lambda>r.
     andThen (claim_lifecycles running states ns) (\<lambda>rest. Done (case r of
         RGeneration (Some s) \<Rightarrow> (n, if running n = Some True then RestartWith s else StartWith s) # rest
       | _ \<Rightarrow> rest)))"

text \<open>The stop phase of one running service; it ends early when the claim is gone.\<close>

definition stop_for_restart :: "string \<Rightarrow> 64 word \<Rightarrow> ('k, unit) prog" where
  "stop_for_restart n startup =
     andThen (onOk (ensure_service_startup n startup) (\<lambda>_.
       andThen (perform (SuppressWatcher n)) (\<lambda>_.
       onOk (get_service_context n) (\<lambda>ctx.
       andThen (perform (EmitEvent n (EvRestart ReasonManual))) (\<lambda>_.
       andThen (try_hook ctx n PreRestart) (\<lambda>_.
       onOk (ensure_service_startup n startup) (\<lambda>_.
       andThen (try_hook ctx n PreStop) (\<lambda>_.
       onOk (ensure_service_startup n startup) (\<lambda>_.
       andThen (apply_retention n ctx LcRestart) (\<lambda>_.
       andThen (stop_service n None True (static_grace_period (sc_service_config ctx))) (\<lambda>_.
       andThen (perform (CleanupCgroup n)) (\<lambda>_.
       andThen (try_hook ctx n PostStop) (\<lambda>_.
       andThen (revoke_matching_service_token_guard n (sc_token ctx)) (\<lambda>_.
       Done (Ok ())))))))))))))))
     (\<lambda>_. Done ())"

fun restart_results :: "(string \<times> (string, unit) result) list \<Rightarrow> ('k, string list \<times> string option) prog" where
  "restart_results [] = Done ([], None)"
| "restart_results ((n, r) # rs) = (case r of
      Inr _ \<Rightarrow> andThen (get_state n) (\<lambda>s. andThen (restart_results rs) (\<lambda>(restarted, err).
        Done (case s of
            Some st \<Rightarrow> if ss_status st \<in> {Skipped, Failed, Stopped, Restarting} then restarted else n # restarted
          | None \<Rightarrow> restarted, err)))
    | Inl e \<Rightarrow> andThen (perform (CleanupCgroup n)) (\<lambda>_. andThen (restart_results rs) (\<lambda>(restarted, err).
        Done (restarted, Some e))))"

definition running_phase :: "(string \<times> selected_lifecycle) list \<Rightarrow> (string \<times> 64 word) list" where
  "running_phase lifecycles = List.map_filter (\<lambda>(n, l). case l of RestartWith s \<Rightarrow> Some (n, s) | StartWith _ \<Rightarrow> None) lifecycles"

definition restart_services_with_states ::
    "'k orch \<Rightarrow> string list \<Rightarrow> bool \<Rightarrow> str_map option \<Rightarrow> str_map option \<Rightarrow> restart_state list \<Rightarrow> ('k, (orch_error, string) result) prog" where
  "restart_services_with_states oc services no_deps override_envs define_flags states =
     andThen (merge_settings override_envs define_flags) (\<lambda>_. Look (\<lambda>a. let config = ca_config a in
     onOk (Done (requested_services config services (Ok (hm_keys (kc_services config))))) (\<lambda>candidates.
     onOk (select_restarts (services = []) states (rev (remdups (rev candidates)))) (\<lambda>selected.
     if selected = [] then Done (Ok ''No eligible services to restart'')
     else onOk (Done (restart_order oc config no_deps (map fst selected))) (\<lambda>start_order.
     Act CreateEvaluator (\<lambda>ev. case ev of
       Inl e \<Rightarrow> Done (Err (ConfigError e))
     | Inr _ \<Rightarrow>
         andThen (send (SetStartupInProgress True)) (\<lambda>_.
         andThen (claim_lifecycles (map_of selected) states (rev start_order)) (\<lambda>lifecycles.
         andThen (send (SetStartupInProgress False)) (\<lambda>_.
         if lifecycles = [] then Done (Ok ''No eligible services to restart'')
         else andThen (for_each (\<lambda>(n, s). stop_for_restart n s) (running_phase lifecycles)) (\<lambda>_.
              andThen (if running_phase lifecycles \<noteq> [] then perform (SleepFor 500000000) else Done ()) (\<lambda>_.
              RunTasks no_deps (rev lifecycles) (\<lambda>results.
              andThen (restart_results results) (\<lambda>(restarted, err).
              Cmd IsConfigInitialized (\<lambda>initialized.
              onOk (post_startup_work config restarted (yes initialized)) (\<lambda>_.
              case err of
                Some e \<Rightarrow> Done (Err (DaemonError e))
              | None \<Rightarrow> Done (Ok (if restarted = [] then ''No services were restarted'' else [])))))))))))))))))"

subsection \<open>Restarts without a client\<close>

definition handle_file_change :: "'k orch \<Rightarrow> string \<Rightarrow> ('k, unit) prog" where
  "handle_file_change oc n = andThen (get_state n) (\<lambda>s. case s of
      Some st \<Rightarrow> if \<not> is_active (ss_status st) then Done ()
        else andThen (restart_single_service_with_reason oc n ReasonWatch) (\<lambda>_. Done ())
    | None \<Rightarrow> andThen (restart_single_service_with_reason oc n ReasonWatch) (\<lambda>_. Done ()))"

fun await_dependency :: "nat \<Rightarrow> services \<Rightarrow> string \<Rightarrow> dependency_config \<Rightarrow> ('k, unit) prog" where
  "await_dependency 0 svs d dc = Waits"
| "await_dependency (Suc rounds) svs d dc =
     (let again = AwaitChange (dc_timeout dc \<noteq> None) (\<lambda>w. case w of
            Changed \<Rightarrow> await_dependency rounds svs d dc | _ \<Rightarrow> Done ())
      in andThen (get_state d) (\<lambda>s1.
         if check_dependency_satisfied dc s1
         then andThen (get_state d) (\<lambda>s2.
              if (case (hm_get svs d, s2) of
                    (Some raw, Some s) \<Rightarrow> is_transient_satisfaction s (static_restart raw) | _ \<Rightarrow> False)
              then again else Done ())
         else again))"

definition propagate_to :: "'k orch \<Rightarrow> nat \<Rightarrow> string \<Rightarrow> string \<times> raw_service_config \<Rightarrow> ('k, unit) prog" where
  "propagate_to oc rounds restarted_service x = (case x of (n, raw) \<Rightarrow>
     if n = restarted_service \<or> \<not> should_restart_on_dependency (rs_depends_on raw) restarted_service then Done ()
     else Cmd (IsServiceRunning n) (\<lambda>r.
       if \<not> yes r then Done ()
       else andThen (stop_service n None False (static_grace_period raw)) (\<lambda>_.
            andThen (perform (CleanupCgroup n)) (\<lambda>_.
            Look (\<lambda>a.
            andThen (await_dependency rounds (kc_services (ca_config a)) restarted_service
                (case dep_get (rs_depends_on raw) restarted_service of Some dc \<Rightarrow> dc | None \<Rightarrow> dependency_config_default)) (\<lambda>_.
            andThen (restart_single_service_with_reason oc n (ReasonDependency restarted_service)) (\<lambda>_. Done ()))))))) "

definition propagate_restart :: "'k orch \<Rightarrow> nat \<Rightarrow> string \<Rightarrow> ('k, unit) prog" where
  "propagate_restart oc rounds restarted_service =
     Look (\<lambda>a. for_each (propagate_to oc rounds restarted_service) (kc_services (ca_config a)))"

definition handle_unhealthy_restart :: "'k orch \<Rightarrow> string \<Rightarrow> ('k, unit) prog" where
  "handle_unhealthy_restart oc n = Look (\<lambda>a. case hm_get (kc_services (ca_config a)) n of
      None \<Rightarrow> Done ()
    | Some raw \<Rightarrow>
        if \<not> should_restart_on_unhealthy (static_restart raw) then Done ()
        else Cmd (IsServiceRunning n) (\<lambda>r. if \<not> yes r then Done ()
             else andThen (restart_single_service_with_reason oc n ReasonUnhealthy) (\<lambda>_. Done ())))"

text \<open>One event of the event handler; a health event counts only while its check is current.\<close>

definition handle_service_event :: "'k orch \<Rightarrow> nat \<Rightarrow> string \<Rightarrow> service_event \<Rightarrow> 64 word option \<Rightarrow> ('k, unit) prog" where
  "handle_service_event oc rounds n event session =
     (let handle = (case event of
            EvRestart _ \<Rightarrow> propagate_restart oc rounds n
          | EvUnhealthy \<Rightarrow> handle_unhealthy_restart oc n
          | _ \<Rightarrow> Done ())
      in case session of
           None \<Rightarrow> handle
         | Some s \<Rightarrow> Cmd (IsHealthCheckCurrent n s) (\<lambda>r. if yes r then handle else Done ()))"

end
