(* ===== verification/Orchestrator_Logic.thy ===== *)
theory Orchestrator_Logic
  imports Orchestrator_Flows Actor_Startup
begin

text \<open>
  How tasks run, and how to reason about one of them while others run beside it. A step of a task is
  labelled with what it did and the answer it got; between two of its steps any command of another
  task may reach the actor. A monitor watches the labels: what the task may do in a state of the
  monitor, and the next state. \<open>safe\<close> says that a task passes a monitor whatever it is answered, as long as
  an invariant of the actor holds; the locale below shows that this covers every interleaving.
\<close>

subsection \<open>Steps\<close>

datatype 'k label =
    Seen config_actor
  | Sent Config_Actor.command reply
  | Acted task_act "(string, unit) result"
  | Evaluated eval_ctx "(string, resolution) result"
  | Minted "'k token_context" "(string, token_guard) result"
  | Spawned string command_spec "(string, process_info) result"
  | Woken wakeup
  | Ran "(string \<times> selected_lifecycle) list" "(string \<times> (string, unit) result) list"
  | Foreign Config_Actor.command reply

inductive task_step :: "('k, 'a) prog \<Rightarrow> config_actor \<Rightarrow> 'k label \<Rightarrow> ('k, 'a) prog \<Rightarrow> config_actor \<Rightarrow> bool" where
  seen: "task_step (Look k) a (Seen a) (k a) a"
| sent: "process_command io c a = (a', r) \<Longrightarrow> task_step (Cmd c k) a (Sent c r) (k r) a'"
| acted: "task_step (Act t k) a (Acted t r) (k r) a"
| evaluated: "task_step (Resolve ec u k) a (Evaluated ec r) (k r) a"
| minted: "(\<And>g. r = Ok g \<Longrightarrow> guard_token g \<noteq> None) \<Longrightarrow> task_step (NewToken ctx k) a (Minted ctx r) (k r) a"
| spawned: "task_step (Spawn n spec k) a (Spawned n spec r) (k r) a"
| woken: "(w = TimedOut \<Longrightarrow> timed) \<Longrightarrow> task_step (AwaitChange timed k) a (Woken w) (k w) a"
| ran: "set (map fst rs) = set (map fst ts) \<Longrightarrow> length rs = length ts \<Longrightarrow> task_step (RunTasks s ts k) a (Ran ts rs) (k rs) a"
| foreign: "process_command io c a = (a', r) \<Longrightarrow> task_step p a (Foreign c r) p a'"

fun own :: "'k label \<Rightarrow> bool" where
  "own (Foreign _ _) = False"
| "own _ = True"

inductive task_runs :: "('k, 'a) prog \<Rightarrow> config_actor \<Rightarrow> 'k label list \<Rightarrow> ('k, 'a) prog \<Rightarrow> config_actor \<Rightarrow> bool" where
  start: "task_runs p a [] p a"
| more: "task_runs p a tr p1 a1 \<Longrightarrow> task_step p1 a1 l p2 a2 \<Longrightarrow> task_runs p a (tr @ [l]) p2 a2"

text \<open>
  The daemon at work on a configuration: tasks of a set start at any time and step in any order, and
  code outside the orchestrator sends commands of its own. A trace records which task did what.
\<close>

inductive system_runs ::
    "('k, 'a) prog set \<Rightarrow> (Config_Actor.command \<Rightarrow> bool) \<Rightarrow> config_actor \<Rightarrow> (nat \<times> 'k label) list \<Rightarrow> ('k, 'a) prog list \<Rightarrow> config_actor \<Rightarrow> bool"
  for T E a where
  idle: "system_runs T E a [] [] a"
| launch: "system_runs T E a tr ps a1 \<Longrightarrow> p \<in> T \<Longrightarrow> system_runs T E a tr (ps @ [p]) a1"
| task: "system_runs T E a tr ps a1 \<Longrightarrow> i < length ps \<Longrightarrow> task_step (ps ! i) a1 l p a2 \<Longrightarrow> own l
    \<Longrightarrow> system_runs T E a (tr @ [(i, l)]) (ps[i := p]) a2"
| outside: "system_runs T E a tr ps a1 \<Longrightarrow> E c \<Longrightarrow> process_command io c a1 = (a2, r) \<Longrightarrow> system_runs T E a tr ps a2"

subsection \<open>Runs that compute\<close>

text \<open>One run of a task on its own, with the answers of the environment fixed.\<close>

record answers =
  an_io :: io
  an_act :: "task_act \<Rightarrow> (string, unit) result"
  an_resolve :: "eval_ctx \<Rightarrow> (string, resolution) result"
  an_token :: "(string, token) result"
  an_spawn :: "string \<Rightarrow> (string, process_info) result"
  an_wake :: wakeup
  an_task :: "string \<Rightarrow> (string, unit) result"

definition wake_answer :: "answers \<Rightarrow> bool \<Rightarrow> wakeup" where
  "wake_answer e timed = (if an_wake e = TimedOut \<and> \<not> timed then Changed else an_wake e)"

definition token_answer :: "answers \<Rightarrow> 'k token_context \<Rightarrow> (string, token_guard) result" where
  "token_answer e ctx = map_sum id (\<lambda>t. \<lparr>guard_token = Some t, guard_service = tc_service ctx\<rparr>) (an_token e)"

definition logged :: "'l \<Rightarrow> 'l list \<times> 'b \<Rightarrow> 'l list \<times> 'b" where
  "logged l x = (l # fst x, snd x)"

primrec play :: "answers \<Rightarrow> ('k, 'a) prog \<Rightarrow> config_actor \<Rightarrow> 'k label list \<times> ('k, 'a) prog \<times> config_actor" where
  "play e (Done x) a = ([], Done x, a)"
| "play e Waits a = ([], Waits, a)"
| "play e Panics a = ([], Panics, a)"
| "play e (Look k) a = logged (Seen a) (play e (k a) a)"
| "play e (Cmd c k) a = (case process_command (an_io e) c a of (a', r) \<Rightarrow> logged (Sent c r) (play e (k r) a'))"
| "play e (Act t k) a = (let r = an_act e t in logged (Acted t r) (play e (k r) a))"
| "play e (Resolve ec u k) a = (let r = an_resolve e ec in logged (Evaluated ec r) (play e (k r) a))"
| "play e (NewToken ctx k) a = (let r = token_answer e ctx in logged (Minted ctx r) (play e (k r) a))"
| "play e (Spawn n spec k) a = (let r = an_spawn e n in logged (Spawned n spec r) (play e (k r) a))"
| "play e (AwaitChange timed k) a = (let w = wake_answer e timed in logged (Woken w) (play e (k w) a))"
| "play e (RunTasks s ts k) a = (let rs = map (\<lambda>(n, _). (n, an_task e n)) ts in logged (Ran ts rs) (play e (k rs) a))"

lemma task_runs_Cons:
  assumes "task_runs p1 a1 tr p2 a2" "task_step p a l p1 a1"
  shows "task_runs p a (l # tr) p2 a2"
  using assms
proof (induction rule: task_runs.induct)
  case (start p1 a1)
  then show ?case using task_runs.more [OF task_runs.start, of p a l] by simp
next
  case (more p1 a1 tr p2 a2 l' p3 a3)
  then show ?case using task_runs.more [of p a "l # tr" p2 a2 l' p3 a3] by simp
qed

lemma task_runs_logged:
  assumes "task_step p a l p1 a1" "task_runs p1 a1 (fst x) (fst (snd x)) (snd (snd x)) \<and> list_all own (fst x)" "own l"
  shows "task_runs p a (fst (logged l x)) (fst (snd (logged l x))) (snd (snd (logged l x))) \<and> list_all own (fst (logged l x))"
  using assms by (auto simp: logged_def intro: task_runs_Cons)

lemma play_runs:
  "task_runs p a (fst (play e p a)) (fst (snd (play e p a))) (snd (snd (play e p a))) \<and> list_all own (fst (play e p a))"
proof (induction p arbitrary: a)
  case (Cmd c k)
  obtain a' r where c: "process_command (an_io e) c a = (a', r)" by (cases "process_command (an_io e) c a")
  show ?case using task_runs_logged [OF task_step.sent [OF c] Cmd [OF rangeI]] by (simp add: c)
next
  case (Look k)
  show ?case using task_runs_logged [OF task_step.seen Look [OF rangeI]] by simp
next
  case (Act t k)
  show ?case using task_runs_logged [OF task_step.acted Act [OF rangeI]] by (simp add: Let_def)
next
  case (Resolve ec u k)
  show ?case using task_runs_logged [OF task_step.evaluated Resolve [OF rangeI]] by (simp add: Let_def)
next
  case (NewToken ctx k)
  have "guard_token g \<noteq> None" if "token_answer e ctx = Ok g" for g
    using that by (cases "an_token e") (auto simp: token_answer_def)
  from task_runs_logged [OF task_step.minted [OF this] NewToken [OF rangeI]] show ?case by (simp add: Let_def)
next
  case (Spawn n spec k)
  show ?case using task_runs_logged [OF task_step.spawned Spawn [OF rangeI]] by (simp add: Let_def)
next
  case (AwaitChange timed k)
  have "timed" if "wake_answer e timed = TimedOut" using that by (auto simp: wake_answer_def split: if_splits)
  from task_runs_logged [OF task_step.woken [OF this] AwaitChange [OF rangeI]] show ?case by (simp add: Let_def)
next
  case (RunTasks s ts k)
  have "set (map fst (map (\<lambda>(n, _). (n, an_task e n)) ts)) = set (map fst ts)" by (force simp: split_def)
  from task_runs_logged [OF task_step.ran [OF this] RunTasks [OF rangeI]] show ?case by (simp add: Let_def)
qed (simp_all add: task_runs.start)

text \<open>Such a run as that of a system with one task.\<close>

lemma system_of_task:
  assumes "task_runs p a tr p' a'" "list_all own tr" "p \<in> T"
  shows "system_runs T E a (map (Pair 0) tr) [p'] a'"
  using assms
proof (induction rule: task_runs.induct)
  case (start p a)
  then show ?case using system_runs.launch [OF system_runs.idle] by fastforce
next
  case (more p a tr p1 a1 l p2 a2)
  then show ?case using system_runs.task [of T E a "map (Pair 0) tr" "[p1]" a1 0 l p2 a2] by simp
qed

lemmas play_system = system_of_task [OF conjunct1 [OF play_runs] conjunct2 [OF play_runs]]

text \<open>The tasks of a configuration, each with what it was started with.\<close>

datatype task =
    StartupOf string "64 word" bool bool
  | ManualRestartOf string "64 word" bool bool
  | ExitOf string "int option" "int option"
  | RespawnOf string
  | FileChangeOf string
  | EventOf string service_event "64 word option"
  | StartRequest "string list" bool "str_map option" "str_map option"
  | StopRequest "string list" bool "int option"
  | RestartRequest "string list" bool "str_map option" "str_map option" "restart_state list"

text \<open>Only that a task ends matters here, not its result.\<close>

definition ends :: "('k, 'a) prog \<Rightarrow> ('k, unit) prog" where
  "ends p = andThen p (\<lambda>_. Done ())"

fun task_prog :: "'k orch \<Rightarrow> nat \<Rightarrow> task \<Rightarrow> ('k, unit) prog" where
  "task_prog oc k (StartupOf n s skip no_deps) = ends (run_service_startup oc k n s skip no_deps)"
| "task_prog oc k (ManualRestartOf n s skip no_deps) = ends (run_manual_restart_startup oc k n s skip no_deps)"
| "task_prog oc k (ExitOf n code signal) = ends (handle_exit oc n code signal)"
| "task_prog oc k (RespawnOf n) = ends (respawn_single_service oc k n)"
| "task_prog oc k (FileChangeOf n) = handle_file_change oc n"
| "task_prog oc k (EventOf n event session) = handle_service_event oc k n event session"
| "task_prog oc k (StartRequest ns no_deps envs flags) = ends (start_services oc k ns no_deps envs flags)"
| "task_prog oc k (StopRequest ns clean signal) = ends (stop_services oc ns clean signal)"
| "task_prog oc k (RestartRequest ns no_deps envs flags states) =
     ends (restart_services_with_states oc ns no_deps envs flags states)"

lemma play_ends: "fst (play e (ends p) a) = fst (play e p a)"
  by (induction p arbitrary: a) (auto simp: ends_def logged_def Let_def split: prod.splits)

text \<open>
  For concrete runs: an owner with uid 7 under the strictest level, whose service depends on a running
  one and asks for the daemon's group 9 among others.
\<close>

definition strict_db :: os_db where
  "strict_db = \<lparr>
     user_from_name = (\<lambda>n. Ok (if n = ''u'' then Some \<lparr>pw_name = ''u'', pw_uid = 7, pw_gid = 7,
                                 pw_dir = ''/'', pw_shell = ''/bin/sh''\<rparr> else None)),
     user_from_uid = (\<lambda>u. Ok None),
     group_from_name = (\<lambda>n. Ok (if n = ''k'' then Some 9 else if n = ''v'' then Some 4 else None)),
     libc_getgrouplist = (\<lambda>n g len. Ok [g]),
     sysconf_ngroups_max = 8\<rparr>"

definition sample_orch :: "unit orch" where
  "sample_orch = \<lparr>oc_db = strict_db, oc_hardening = Strict, oc_kepler_gid = Some 9, oc_config_path = ''/k'',
     oc_config_dir = ''/'', oc_config_hardening = None, oc_owner_uid = Some 7, oc_owner_gid = Some 7,
     oc_permission_ceiling = Some {''start''}, oc_compile_authorizer = None, oc_socket_path = None,
     oc_token_hex = (\<lambda>_. ''ab''), oc_env_file = (\<lambda>_ _. Map.empty), oc_cgroup_path = (\<lambda>_. None), oc_join = (\<lambda>d p. p),
     oc_round = F64, oc_powi = (\<lambda>x _. x), oc_partition_point = (\<lambda>_ _. 0)\<rparr>"

definition sample_config :: kepler_config where
  "sample_config = \<lparr>kc_version = None, kc_lua = None, kc_kepler = None,
     kc_services = [(''w'', raw_service_config_default\<lparr>rs_depends_on := [DepSimple ''d'']\<rparr>), (''d'', raw_service_config_default)]\<rparr>"

definition sample_claimed :: config_actor where
  "sample_claimed = (new_actor sample_config
     [(''w'', service_state_default\<lparr>ss_status := Waiting\<rparr>), (''d'', service_state_default\<lparr>ss_status := Running\<rparr>)]
     True True True Map.empty Map.empty (Some 7))
     \<lparr>ca_startup_claims := [''w'' \<mapsto> 1], ca_startup_generations := [''w'' \<mapsto> 1], ca_startup_in_progress := True\<rparr>"

definition sample_answers :: answers where
  "sample_answers = \<lparr>an_io = sample_io, an_act = (\<lambda>_. Ok ()),
     an_resolve = (\<lambda>_. Ok \<lparr>re_config = (resolved_config_default restart_config_default)
        \<lparr>rc_command := [''/bin/w''], rc_user := Some ''u'', rc_groups := [''v'', ''k'']\<rparr>,
       re_env = Map.empty, re_env_file = Map.empty\<rparr>),
     an_token = Ok (Token [7]), an_spawn = (\<lambda>_. Ok \<lparr>pr_pid = Some 42, pr_started_at = 0, pr_handle = 3\<rparr>),
     an_wake = Changed, an_task = (\<lambda>_. Ok ())\<rparr>"

definition spawned_as :: "'k label list \<Rightarrow> (string \<times> string option \<times> string list) list" where
  "spawned_as tr = List.map_filter (\<lambda>l. case l of
     Spawned n spec _ \<Rightarrow> Some (n, cs_user spec, cs_groups spec) | _ \<Rightarrow> None) tr"

text \<open>The processes of a run, without the rest of its trace.\<close>

primrec spawns :: "answers \<Rightarrow> ('k, 'a) prog \<Rightarrow> config_actor \<Rightarrow> (string \<times> string option \<times> string list) list" where
  "spawns e (Done x) a = []"
| "spawns e Waits a = []"
| "spawns e Panics a = []"
| "spawns e (Look k) a = spawns e (k a) a"
| "spawns e (Cmd c k) a = (case process_command (an_io e) c a of (a', r) \<Rightarrow> spawns e (k r) a')"
| "spawns e (Act t k) a = spawns e (k (an_act e t)) a"
| "spawns e (Resolve ec u k) a = spawns e (k (an_resolve e ec)) a"
| "spawns e (NewToken ctx k) a = spawns e (k (token_answer e ctx)) a"
| "spawns e (Spawn n spec k) a = (n, cs_user spec, cs_groups spec) # spawns e (k (an_spawn e n)) a"
| "spawns e (AwaitChange timed k) a = spawns e (k (wake_answer e timed)) a"
| "spawns e (RunTasks s ts k) a = spawns e (k (map (\<lambda>(n, _). (n, an_task e n)) ts)) a"

lemma spawned_play: "spawned_as (fst (play e p a)) = spawns e p a"
  by (induction p arbitrary: a) (auto simp: logged_def Let_def spawned_as_def map_filter_simps split: prod.splits)

lemma spawned_as_set:
  "(n, u, gs) \<in> set (spawned_as tr) \<Longrightarrow> \<exists>spec r. Spawned n spec r \<in> set tr \<and> cs_user spec = u \<and> cs_groups spec = gs"
  by (induction tr) (force simp: spawned_as_def map_filter_simps split: label.splits)+

definition sample_trace :: "unit label list" where
  "sample_trace = fst (play sample_answers (run_service_startup sample_orch 1 ''w'' 1 False False) sample_claimed)"

lemma sample_spawns: "spawned_as sample_trace = [(''w'', Some ''u'', [''v''])]"
proof -
  have "spawns sample_answers (run_service_startup sample_orch 1 ''w'' 1 False False) sample_claimed =
    [(''w'', Some ''u'', [''v''])]" by code_simp
  then show ?thesis by (simp add: sample_trace_def spawned_play)
qed

lemma sample_spawned: "\<exists>spec r. Spawned ''w'' spec r \<in> set sample_trace \<and> cs_user spec = Some ''u'' \<and> cs_groups spec = [''v'']"
  using spawned_as_set [of "''w''" _ _ sample_trace] by (simp add: sample_spawns)

lemma sample_runs: "\<exists>p a. task_runs (run_service_startup sample_orch 1 ''w'' 1 False False) sample_claimed sample_trace p a"
  unfolding sample_trace_def using play_runs by blast

subsection \<open>Monitors\<close>

text \<open>The parameters are the invariant of the actor, what a state of the monitor allows, its next state,
  and what holds when the task ends.\<close>

primrec safe :: "(config_actor \<Rightarrow> bool) \<Rightarrow> ('g \<Rightarrow> 'k label \<Rightarrow> bool) \<Rightarrow> ('g \<Rightarrow> 'k label \<Rightarrow> 'g) \<Rightarrow> ('a \<Rightarrow> 'g \<Rightarrow> bool)
    \<Rightarrow> ('k, 'a) prog \<Rightarrow> 'g \<Rightarrow> bool" where
  "safe I A N Q (Done x) g = Q x g"
| "safe I A N Q Waits g = True"
| "safe I A N Q Panics g = True"
| "safe I A N Q (Look k) g = (\<forall>a. I a \<longrightarrow> A g (Seen a) \<and> safe I A N Q (k a) (N g (Seen a)))"
| "safe I A N Q (Cmd c k) g = (\<forall>io a a' r. I a \<and> process_command io c a = (a', r) \<longrightarrow>
     A g (Sent c r) \<and> safe I A N Q (k r) (N g (Sent c r)))"
| "safe I A N Q (Act t k) g = (\<forall>r. A g (Acted t r) \<and> safe I A N Q (k r) (N g (Acted t r)))"
| "safe I A N Q (Resolve ec u k) g = (\<forall>r. A g (Evaluated ec r) \<and> safe I A N Q (k r) (N g (Evaluated ec r)))"
| "safe I A N Q (NewToken ctx k) g = (\<forall>r. (\<forall>x. r = Ok x \<longrightarrow> guard_token x \<noteq> None) \<longrightarrow>
     A g (Minted ctx r) \<and> safe I A N Q (k r) (N g (Minted ctx r)))"
| "safe I A N Q (Spawn n spec k) g = (\<forall>r. A g (Spawned n spec r) \<and> safe I A N Q (k r) (N g (Spawned n spec r)))"
| "safe I A N Q (AwaitChange t k) g = (\<forall>w. (w = TimedOut \<longrightarrow> t) \<longrightarrow> A g (Woken w) \<and> safe I A N Q (k w) (N g (Woken w)))"
| "safe I A N Q (RunTasks s ts k) g = (\<forall>rs. A g (Ran ts rs) \<and> safe I A N Q (k rs) (N g (Ran ts rs)))"

lemma safe_andThen: "safe I A N Q (andThen p f) g \<longleftrightarrow> safe I A N (\<lambda>x g. safe I A N Q (f x) g) p g"
  by (induction p arbitrary: g) simp_all

lemma safe_mono:
  assumes "safe I A N Q p g" "\<And>x g. Q x g \<Longrightarrow> Q' x g"
  shows "safe I A N Q' p g"
  using assms(1) by (induction p arbitrary: g) (simp_all add: assms(2))

lemma safe_onOk:
  "safe I A N Q (onOk p f) g \<longleftrightarrow>
   safe I A N (\<lambda>r g. case r of Inl e \<Rightarrow> Q (Err e) g | Inr x \<Rightarrow> safe I A N Q (f x) g) p g"
  unfolding onOk_def safe_andThen by (rule arg_cong [where f = "\<lambda>q. safe I A N q p g"]) (auto simp: fun_eq_iff split: sum.splits)

text \<open>Whether the monitor allows a trace, and its state after it. Commands of others leave it as it is.\<close>

definition watch :: "('g \<Rightarrow> 'k label \<Rightarrow> 'g) \<Rightarrow> 'g \<Rightarrow> 'k label list \<Rightarrow> 'g" where
  "watch N g tr = foldl N g (filter own tr)"

definition allowed :: "('g \<Rightarrow> 'k label \<Rightarrow> bool) \<Rightarrow> ('g \<Rightarrow> 'k label \<Rightarrow> 'g) \<Rightarrow> 'g \<Rightarrow> 'k label list \<Rightarrow> bool" where
  "allowed A N g tr = (\<forall>pre l post. filter own tr = pre @ l # post \<longrightarrow> A (foldl N g pre) l)"

definition relies :: "(Config_Actor.command \<Rightarrow> bool) \<Rightarrow> 'k label list \<Rightarrow> bool" where
  "relies R tr = (\<forall>c r. Foreign c r \<in> set tr \<longrightarrow> R c)"

lemma allowed_snoc:
  assumes "allowed A N g tr" "own l \<Longrightarrow> A (watch N g tr) l"
  shows "allowed A N g (tr @ [l])"
  using assms by (auto simp: allowed_def watch_def append_eq_append_conv2 append_eq_Cons_conv Cons_eq_append_conv)

text \<open>What a monitored task needs from the actor: its own commands and those it relies on keep the invariant.\<close>

locale task_monitor =
  fixes I :: "config_actor \<Rightarrow> bool"
    and A :: "'g \<Rightarrow> 'k label \<Rightarrow> bool"
    and N :: "'g \<Rightarrow> 'k label \<Rightarrow> 'g"
    and R :: "Config_Actor.command \<Rightarrow> bool"
  assumes own_keeps: "I a \<Longrightarrow> A g (Sent c r) \<Longrightarrow> process_command io c a = (a', r) \<Longrightarrow> I a'"
    and others_keep: "I a \<Longrightarrow> R c \<Longrightarrow> process_command io c a = (a', r) \<Longrightarrow> I a'"
begin

lemma monitor_step:
  assumes "task_step p a l p' a'" "I a" "safe I A N Q p g" "\<And>c r. l = Foreign c r \<Longrightarrow> R c"
  shows "I a' \<and> (if own l then A g l \<and> safe I A N Q p' (N g l) else safe I A N Q p' g)"
  using assms
proof (cases rule: task_step.cases)
  case (sent io c r k)
  with assms(2,3) have "A g (Sent c r)" "safe I A N Q (k r) (N g (Sent c r))" by auto
  with sent own_keeps [OF assms(2)] show ?thesis by auto
next
  case (foreign io c r)
  with assms(4) others_keep [OF assms(2)] assms(3) show ?thesis by auto
qed (use assms in auto)

lemma monitor_runs:
  assumes "task_runs p a tr p' a'" "I a" "safe I A N Q p g" "relies R tr"
  shows "I a' \<and> allowed A N g tr \<and> safe I A N Q p' (watch N g tr)"
  using assms
proof (induction rule: task_runs.induct)
  case (start p a)
  then show ?case by (simp add: allowed_def watch_def)
next
  case (more p a tr p1 a1 l p2 a2)
  from more.prems have "relies R tr" "\<And>c r. l = Foreign c r \<Longrightarrow> R c" by (auto simp: relies_def)
  with more.IH more.prems have ih: "I a1" "allowed A N g tr" "safe I A N Q p1 (watch N g tr)" by auto
  from monitor_step [OF more.hyps(2) ih(1,3) \<open>\<And>c r. l = Foreign c r \<Longrightarrow> R c\<close>]
  show ?case using allowed_snoc [OF ih(2), of l] by (auto simp: watch_def split: if_splits)
qed

text \<open>All tasks of a system at once: each keeps the invariant that the others rely on.\<close>

lemma monitor_system:
  assumes "system_runs T R a tr ps a'" "I a" "\<And>p. p \<in> T \<Longrightarrow> \<exists>g. safe I A N Q p g"
  shows "I a' \<and> (\<forall>p \<in> set ps. \<exists>g. safe I A N Q p g) \<and> (\<forall>(i, l) \<in> set tr. \<exists>g. A g l)"
  using assms(1)
proof (induction rule: system_runs.induct)
  case (task tr ps a1 i l p a2)
  then obtain g where "safe I A N Q (ps ! i) g" by (meson nth_mem)
  moreover from \<open>own l\<close> have "\<And>c r. l = Foreign c r \<Longrightarrow> R c" by auto
  ultimately have "I a2" "A g l" "safe I A N Q p (N g l)"
    using monitor_step [OF task.hyps(3)] task.IH \<open>own l\<close> by (metis (full_types))+
  with task.IH show ?case by (auto dest!: set_update_subset_insert [THEN subsetD])
next
  case (outside tr ps a1 c io a2 r)
  with others_keep show ?case by blast
qed (use assms in auto)

end

end
