(* ===== verification/Orchestrator_Confinement.thy ===== *)
theory Orchestrator_Confinement
  imports Orchestrator_Logic Actor_Signals
begin

text \<open>
  What the tasks of the orchestrator guarantee in every interleaving: processes run only as users that
  passed the check against privilege escalation, and tokens stay within the ceiling of the configuration.
\<close>

subsection \<open>The resolved settings in the actor\<close>

lemma resolved_frame:
  "ca_resolved_configs (emit es a) = ca_resolved_configs a"
  "ca_resolved_configs (check_and_notify_ready a) = ca_resolved_configs a"
  "ca_resolved_configs (check_and_notify_quiescent io a) = ca_resolved_configs a"
  "ca_resolved_configs (saving io a) = ca_resolved_configs a"
  "ca_resolved_configs (snd (take_snapshot_if_needed io a)) = ca_resolved_configs a"
  "ca_resolved_configs (resave_snapshot io a) = ca_resolved_configs a"
  "ca_resolved_configs (notify_unhandled n st a) = ca_resolved_configs a"
  "ca_resolved_configs (set_state n s a) = ca_resolved_configs a"
  "ca_resolved_configs (update_state n f a) = ca_resolved_configs a"
  "ca_resolved_configs (cancel_health_check n a) = ca_resolved_configs a"
  "ca_resolved_configs (advance_generation n old st a) = ca_resolved_configs a"
  "ca_resolved_configs (snd (claim_startup n a)) = ca_resolved_configs a"
  "ca_resolved_configs (replace_health_task n h a) = ca_resolved_configs a"
  "ca_resolved_configs (snd (compute_quiescence io a)) = ca_resolved_configs a"
  by (simp_all add: emit_def check_and_notify_ready_def check_and_notify_quiescent_def compute_quiescence_def saving_def save_state_def
      take_snapshot_if_needed_def resave_snapshot_def notify_unhandled_def set_state_def update_state_def cancel_health_check_def
      advance_generation_def claim_startup_def replace_health_task_def Let_def split: option.splits sum.splits prod.splits)

lemma resolved_status:
  "ca_resolved_configs (recheck_signals io st a) = ca_resolved_configs a"
  "ca_resolved_configs (snd (set_service_status io n st a)) = ca_resolved_configs a"
  "ca_resolved_configs (snd (set_service_pid n pid t a)) = ca_resolved_configs a"
  "ca_resolved_configs (snd (record_process_exit n code signal a)) = ca_resolved_configs a"
  by (simp_all add: recheck_signals_def set_service_status_def set_service_pid_def record_process_exit_def resolved_frame Let_def
      split: option.splits)

lemma resolved_claims:
  "ca_resolved_configs (fst (claim_service_start io n a)) = ca_resolved_configs a"
  "ca_resolved_configs (fst (claim_service_restart io n a)) = ca_resolved_configs a"
  "ca_resolved_configs (fst (claim_inactive_service_restart io n states a)) = ca_resolved_configs a"
  "ca_resolved_configs (fst (transition_service_startup io n s st skip fail a)) = ca_resolved_configs a"
  "ca_resolved_configs (fst (set_service_status_with_reason io n st skip fail a)) = ca_resolved_configs a"
  "ca_resolved_configs (fst (register_service_instance io n pid t a)) = ca_resolved_configs a"
  "ca_resolved_configs (fst (handle_update_health_check io n i p r a)) = ca_resolved_configs a"
  "ca_resolved_configs (fst (begin_health_check n i a)) = ca_resolved_configs a"
  "ca_resolved_configs (fst (update_or_fail io n f a)) = ca_resolved_configs a"
  "ca_resolved_configs (fst (take_guard n a)) = ca_resolved_configs a"
  by (auto simp: claim_service_start_def claim_service_restart_def claim_inactive_service_restart_def transition_service_startup_def
      set_service_status_with_reason_def register_service_instance_def handle_update_health_check_def begin_health_check_def
      update_or_fail_def take_guard_def save_if_ok_def update_health_check_def resolved_frame resolved_status Let_def
      split: option.splits prod.splits sum.splits if_splits dest!: arg_cong [where f = "\<lambda>x. ca_resolved_configs (snd x)"])

lemma process_command_resolved:
  "\<forall>n rc. ca_resolved_configs (fst (process_command io c a)) n = Some rc \<longrightarrow>
     ca_resolved_configs a n = Some rc \<or> (\<exists>env dir vars. c = StoreResolvedConfig n rc env dir vars)"
  by (cases c) (auto simp: resolved_frame resolved_status resolved_claims save_if_ok_def Let_def
      split: prod.splits if_splits option.splits sum.splits dest!: arg_cong [where f = "\<lambda>x. ca_resolved_configs (snd x)"])

lemma process_command_config: "process_command io c a = (a', r) \<Longrightarrow> ca_config a' = ca_config a"
  using process_command_graph [of a io c] by (auto simp: graph_step_def graph_def)

subsection \<open>Confinement\<close>

definition user_checked :: "'k orch \<Rightarrow> string option \<Rightarrow> bool" where
  "user_checked oc u = (check_privilege_escalation (oc_db oc) (orch_effective_hardening oc) u (oc_owner_uid oc) = Ok ())"

definition settings_checked :: "'k orch \<Rightarrow> config_actor \<Rightarrow> bool" where
  "settings_checked oc a = (\<forall>n rc. ca_resolved_configs a n = Some rc \<longrightarrow> user_checked oc (rc_user rc))"

text \<open>Every command but one that stores settings whose user was not checked.\<close>

fun stores_checked :: "'k orch \<Rightarrow> Config_Actor.command \<Rightarrow> bool" where
  "stores_checked oc (StoreResolvedConfig _ rc _ _ _) = user_checked oc (rc_user rc)"
| "stores_checked oc _ = True"

fun confined :: "'k orch \<Rightarrow> unit \<Rightarrow> 'k label \<Rightarrow> bool" where
  "confined oc _ (Sent c _) = stores_checked oc c"
| "confined oc _ (Minted ctx _) = (tc_config_path ctx = oc_config_path oc \<and>
     (\<forall>ceiling. oc_permission_ceiling oc = Some ceiling \<longrightarrow> tc_allow ctx \<subseteq> ceiling))"
| "confined oc _ (Spawned _ spec _) = (user_checked oc (cs_user spec) \<and>
     (\<forall>kgid g. oc_kepler_gid oc = Some kgid \<longrightarrow> g \<in> set (cs_groups spec) \<longrightarrow> resolve_group (oc_db oc) g \<noteq> Ok kgid))"
| "confined oc _ _ = True"

lemma settings_checked_step:
  assumes "settings_checked oc a" "stores_checked oc c" "process_command io c a = (a', r)"
  shows "settings_checked oc a'"
  using assms process_command_resolved [where io = io and c = c and a = a]
  by (fastforce simp: settings_checked_def)

interpretation confinement: task_monitor "settings_checked oc" "confined oc" "\<lambda>_ _. ()" "stores_checked oc" for oc :: "'k orch"
  by unfold_locales (auto intro: settings_checked_step)

definition gives :: "'k orch \<Rightarrow> ('a \<Rightarrow> bool) \<Rightarrow> ('k, 'a) prog \<Rightarrow> bool" where
  "gives oc Q p = safe (settings_checked oc) (confined oc) (\<lambda>_ _. ()) (\<lambda>x _. Q x) p ()"

abbreviation tame :: "'k orch \<Rightarrow> ('k, 'a) prog \<Rightarrow> bool" where
  "tame oc \<equiv> gives oc (\<lambda>_. True)"

lemma gives_basic:
  "Q x \<Longrightarrow> gives oc Q (Done x)" "gives oc Q Waits" "gives oc Q Panics"
  "(\<And>a. settings_checked oc a \<Longrightarrow> gives oc Q (k1 a)) \<Longrightarrow> gives oc Q (Look k1)"
  "stores_checked oc c \<Longrightarrow> (\<And>r. gives oc Q (k2 r)) \<Longrightarrow> gives oc Q (Cmd c k2)"
  "(\<And>r. gives oc Q (k3 r)) \<Longrightarrow> gives oc Q (Act t k3)"
  "(\<And>r. gives oc Q (k4 r)) \<Longrightarrow> gives oc Q (Resolve ec u k4)"
  "(\<And>w. gives oc Q (k5 w)) \<Longrightarrow> gives oc Q (AwaitChange b k5)"
  "(\<And>rs. gives oc Q (k6 rs)) \<Longrightarrow> gives oc Q (RunTasks b ts k6)"
  by (simp_all add: gives_def)

lemma gives_andThen:
  assumes "gives oc P p" "\<And>x. P x \<Longrightarrow> gives oc Q (f x)"
  shows "gives oc Q (andThen p f)"
  using assms unfolding gives_def safe_andThen by (auto intro: safe_mono)

lemma gives_onOk:
  assumes "gives oc (\<lambda>r. case r of Inl _ \<Rightarrow> True | Inr x \<Rightarrow> P x) p" "\<And>e. Q (Err e)" "\<And>x. P x \<Longrightarrow> gives oc Q (f x)"
  shows "gives oc Q (onOk p f)"
  unfolding onOk_def using assms by (auto intro!: gives_andThen [OF assms(1)] gives_basic split: sum.splits)

lemma tame_andThen: "tame oc p \<Longrightarrow> (\<And>x. gives oc Q (f x)) \<Longrightarrow> gives oc Q (andThen p f)"
  by (rule gives_andThen)

lemma tame_onOk: "tame oc p \<Longrightarrow> (\<And>e. Q (Err e)) \<Longrightarrow> (\<And>x. gives oc Q (f x)) \<Longrightarrow> gives oc Q (onOk p f)"
  using gives_onOk [of oc "\<lambda>_. True" p Q f] by (simp add: gives_def split_def case_sum_expand_Inr_pointfree)

lemma gives_case:
  "(b \<Longrightarrow> gives oc Q p) \<Longrightarrow> (\<not> b \<Longrightarrow> gives oc Q q) \<Longrightarrow> gives oc Q (if b then p else q)"
  "(o1 = None \<Longrightarrow> gives oc Q p) \<Longrightarrow> (\<And>x. o1 = Some x \<Longrightarrow> gives oc Q (f1 x)) \<Longrightarrow> gives oc Q (case o1 of None \<Rightarrow> p | Some x \<Rightarrow> f1 x)"
  "(\<And>e. r1 = Inl e \<Longrightarrow> gives oc Q (f2 e)) \<Longrightarrow> (\<And>x. r1 = Inr x \<Longrightarrow> gives oc Q (f3 x)) \<Longrightarrow>
     gives oc Q (case r1 of Inl e \<Rightarrow> f2 e | Inr x \<Rightarrow> f3 x)"
  "(\<And>x y. gives oc Q (f4 x y)) \<Longrightarrow> gives oc Q (case z of (x, y) \<Rightarrow> f4 x y)"
  by (simp_all split: option.splits sum.splits prod.splits)

lemmas tame_rules = gives_basic tame_andThen tame_onOk gives_case

lemma tame_small [simp]:
  "stores_checked oc c \<Longrightarrow> tame oc (send c)" "tame oc (perform t)" "tame oc (get_state n)"
  "tame oc (run_service_hook ctx n h)" "tame oc (try_hook ctx n h)" "tame oc (apply_retention n ctx ev)"
  "tame oc (ensure_service_startup n s)" "tame oc (revoke_matching_service_token_guard n tok)" "tame oc (back_off oc' n ctx)"
  by (auto simp: send_def perform_def get_state_def run_service_hook_def try_hook_def apply_retention_def ensure_service_startup_def
      revoke_matching_service_token_guard_def back_off_def intro!: tame_rules split: option.splits reply.splits)

lemma tame_for_each: "(\<And>x. tame oc (f x)) \<Longrightarrow> tame oc (for_each f xs)"
  by (induction xs) (auto intro!: tame_rules)

subsection \<open>Every task is confined\<close>

definition ctx_checked :: "'k orch \<Rightarrow> service_context \<Rightarrow> bool" where
  "ctx_checked oc ctx = (\<forall>rc. sc_resolved_config ctx = Some rc \<longrightarrow> user_checked oc (rc_user rc))"

lemma context_checked:
  "settings_checked oc a \<Longrightarrow> build_service_context a n = Some ctx \<Longrightarrow> ctx_checked oc ctx"
  by (auto simp: build_service_context_def settings_checked_def ctx_checked_def split: option.splits bind_splits)

abbreviation gives_context :: "'k orch \<Rightarrow> ('k, ('e, service_context) result) prog \<Rightarrow> bool" where
  "gives_context oc \<equiv> gives oc (\<lambda>r. case r of Inl _ \<Rightarrow> True | Inr ctx \<Rightarrow> ctx_checked oc ctx)"

lemma get_service_context_checked: "gives_context oc (get_service_context n)"
  by (auto simp: get_service_context_def ok_or_def intro!: tame_rules context_checked split: option.splits)

lemma tame_dep_infos: "tame oc (dep_infos deps)"
  by (induction deps rule: dep_infos.induct) (auto intro!: tame_rules)

lemma tame_resolve_and_store: "tame oc (resolve_and_store oc n raw f)"
  unfolding resolve_and_store_def by (auto intro!: tame_rules tame_dep_infos simp: user_checked_def)

lemma tame_of: "gives oc Q p \<Longrightarrow> tame oc p"
  unfolding gives_def by (rule safe_mono) simp_all

lemma re_resolve_checked: "gives_context oc (re_resolve_service oc n code)"
  unfolding re_resolve_service_def
  by (auto intro!: tame_onOk tame_resolve_and_store get_service_context_checked intro: tame_of [OF get_service_context_checked])

lemma tame_token: "tame oc (create_service_token_guard_for_operation oc n rc s)"
proof -
  have new: "tame oc (NewToken ctx k)"
    if "token_context_of oc n perms = Some (Ok ctx)" "\<And>r. tame oc (k r)" for perms ctx k
    using that by (auto simp: gives_def token_context_of_def token_allow_def bind_res_Ok_iff Let_def
        split: sum.splits option.splits prod.splits)
  show ?thesis
    unfolding create_service_token_guard_for_operation_def by (auto intro!: tame_rules new)
qed

lemma tame_wait:
  "tame oc (wait_for_dependency k svs n s d dc)"
  by (induction k svs n s d dc rule: wait_for_dependency.induct)
     (auto simp: Let_def intro!: tame_rules split: wakeup.splits)

lemma tame_waits [simp]: "tame oc (wait_for_dependencies k n s deps)"
proof -
  have "tame oc (wait_each k svs n s ds)" for svs ds
    by (induction ds) (auto intro!: tame_rules tame_wait)
  then show ?thesis by (auto simp: wait_for_dependencies_def intro!: tame_rules)
qed

lemma prepare_checked:
  "gives oc (\<lambda>r. case r of Inl _ \<Rightarrow> True | Inr p \<Rightarrow> (case p of None \<Rightarrow> True | Some ctx \<Rightarrow> ctx_checked oc ctx))
     (prepare_service_launch oc k n s st skip no_deps)"
  unfolding prepare_service_launch_def
  by (auto intro!: gives_onOk [OF get_service_context_checked] tame_rules tame_resolve_and_store)

lemma tame_spawn:
  assumes "ctx_checked oc ctx"
  shows "tame oc (spawn_service_with_token_guard oc n ctx token)"
proof -
  have new: "tame oc (Spawn m (spawn_spec oc config raw ctx rc n token) k)"
    if "sc_resolved_config ctx = Some rc" "\<And>r. tame oc (k r)" for m config raw rc k
    using that assms effective_groups_no_kepler
    by (auto simp: gives_def spawn_spec_def with_all_options_def Let_def ctx_checked_def)
  show ?thesis
    unfolding spawn_service_with_token_guard_def spawn_process_def
    by (auto intro!: tame_rules new split: reply.splits)
qed

lemma tame_auxiliary [simp]: "tame oc (spawn_auxiliary_tasks n ctx i)"
  unfolding spawn_auxiliary_tasks_def by (auto intro!: tame_rules)

lemma tame_start_process: "ctx_checked oc ctx \<Longrightarrow> tame oc (start_service_process oc n s ctx)"
  unfolding start_service_process_def
  by (auto intro!: tame_rules tame_spawn tame_token split: reply.splits)

lemma tame_launch_result [simp]: "tame oc (handle_service_launch_result n s r)"
  unfolding handle_service_launch_result_def
  by (auto intro!: tame_rules split: orch_error.splits)

lemma tame_startups [simp]:
  "tame oc (execute_service_startup oc k n s skip no_deps)"
  "tame oc (run_service_startup oc k n s skip no_deps)"
  "tame oc (run_manual_restart_startup oc k n s skip no_deps)"
proof -
  show *: "tame oc (execute_service_startup oc k n s skip no_deps)"
    unfolding execute_service_startup_def
    by (rule gives_onOk [OF prepare_checked]) (auto intro!: tame_rules tame_start_process)
  show "tame oc (run_service_startup oc k n s skip no_deps)"
    unfolding run_service_startup_def by (intro tame_andThen *) simp
  show "tame oc (run_manual_restart_startup oc k n s skip no_deps)"
    unfolding run_manual_restart_startup_def
    by (auto intro!: gives_onOk [OF prepare_checked] tame_rules tame_start_process split: reply.splits)
qed

lemma tame_start_single [simp]: "tame oc (start_single_service_with_evaluator oc k n skip no_deps)"
  unfolding start_single_service_with_evaluator_def by (auto intro!: tame_rules split: reply.splits)

lemma tame_stop_service [simp]: "tame oc (stop_service n sig quiet grace)"
  unfolding stop_service_def by (auto intro!: tame_rules split: reply.splits)

lemma tame_stop_services [simp]: "tame oc (stop_services oc' ns clean sig)"
proof -
  have one: "tame oc (stop_one sig n)" for sig n
    unfolding stop_one_def by (auto simp: Let_def intro!: tame_rules)
  have pass: "tame oc (stop_pass sig ms)" for sig ms
    by (induction ms) (auto intro!: tame_rules one)
  have active: "tame oc (any_active ms)" for ms
    by (induction ms) (auto intro!: tame_rules)
  have passes: "tame oc (stop_passes k m sig ms)" for k m sig ms
    by (induction k m sig ms rule: stop_passes.induct) (auto intro!: tame_rules pass active)
  have "tame oc (cleanable ms)" for ms
    by (induction ms) (auto intro!: tame_rules)
  then have "tame oc (run_cleanup_hooks ms)" for ms
    unfolding run_cleanup_hooks_def cleanup_hook_def by (auto intro!: tame_rules tame_for_each)
  with passes show ?thesis
    unfolding stop_services_def by (auto simp: Let_def intro!: tame_rules tame_for_each)
qed

lemma tame_restart_phase [simp]: "tame oc (execute_restart_start_phase oc n)"
  unfolding execute_restart_start_phase_def
  by (auto intro!: gives_onOk [OF re_resolve_checked] tame_rules tame_spawn tame_token)

lemma tame_restart_single [simp]: "tame oc (restart_single_service_with_reason oc n reason)"
  unfolding restart_single_service_with_reason_def
  by (auto intro!: tame_rules intro: tame_of [OF get_service_context_checked] split: orch_error.splits)

lemma tame_handle_exit [simp]: "tame oc (handle_exit oc n code sig)"
proof -
  have "tame oc (restart_after_exit oc n ctx code)" for ctx
    unfolding restart_after_exit_def
    by (auto intro!: gives_onOk [OF re_resolve_checked] tame_rules tame_spawn tame_token)
  then show ?thesis
    unfolding handle_exit_def by (auto intro!: tame_rules)
qed

lemma tame_start_services [simp]: "tame oc (start_services oc k ns no_deps envs flags)"
proof -
  have named: "tame oc (start_named oc k no_deps ms)" for ms
    by (induction ms) (auto intro!: tame_rules split: orch_error.splits)
  have claims: "tame oc (claim_each ms)" for ms
    by (induction ms) (auto intro!: tame_rules)
  have "tame oc (any_needs_starting ms)" for ms
    by (induction ms) (auto intro!: tame_rules)
  moreover have "tame oc (post_startup_work config started i)" for config started i
    unfolding post_startup_work_def by (auto intro!: tame_rules split: reply.splits)
  moreover have "tame oc (merge_settings envs flags)"
    unfolding merge_settings_def by (auto intro!: tame_rules)
  ultimately show ?thesis
    unfolding start_services_def by (auto simp: Let_def intro!: tame_rules tame_for_each named claims)
qed

lemma tame_restart_services [simp]: "tame oc (restart_services_with_states oc ns no_deps envs flags states)"
proof -
  have select: "tame oc (select_restarts b states ms)" for b ms
    by (induction ms) (auto intro!: tame_rules)
  have claims: "tame oc (claim_lifecycles running states ms)" for running ms
    by (induction ms) (auto intro!: tame_rules)
  have results: "tame oc (restart_results rs)" for rs
    by (induction rs rule: restart_results.induct) (auto intro!: tame_rules)
  have stops: "tame oc (stop_for_restart n s)" for n s
    unfolding stop_for_restart_def by (auto intro!: tame_rules intro: tame_of [OF get_service_context_checked])
  have "tame oc (post_startup_work config started i)" for config started i
    unfolding post_startup_work_def by (auto intro!: tame_rules split: reply.splits)
  moreover have "tame oc (merge_settings envs flags)"
    unfolding merge_settings_def by (auto intro!: tame_rules)
  ultimately show ?thesis
    unfolding restart_services_with_states_def
    by (auto simp: Let_def intro!: tame_rules tame_for_each select claims results stops)
qed

lemma tame_events [simp]: "tame oc (handle_service_event oc k n event session)" "tame oc (handle_file_change oc n)"
proof -
  have "tame oc (await_dependency k svs d dc)" for k svs d dc
    by (induction k svs d dc rule: await_dependency.induct) (auto simp: Let_def intro!: tame_rules split: wakeup.splits)
  then have "tame oc (propagate_to oc k m x)" for m x
    unfolding propagate_to_def by (auto intro!: tame_rules)
  then have "tame oc (propagate_restart oc k n)"
    unfolding propagate_restart_def by (auto intro!: tame_rules tame_for_each)
  moreover have "tame oc (handle_unhealthy_restart oc n)"
    unfolding handle_unhealthy_restart_def by (auto intro!: tame_rules)
  ultimately show "tame oc (handle_service_event oc k n event session)"
    unfolding handle_service_event_def by (auto simp: Let_def intro!: tame_rules split: service_event.splits)
  show "tame oc (handle_file_change oc n)"
    unfolding handle_file_change_def by (auto intro!: tame_rules)
qed

lemma task_tame: "tame oc (task_prog oc k t)"
  by (cases t) (auto simp: ends_def respawn_single_service_def intro!: tame_rules)

text \<open>Code outside the orchestrator never stores settings.\<close>

fun stores_none :: "Config_Actor.command \<Rightarrow> bool" where
  "stores_none (StoreResolvedConfig _ _ _ _ _) = False"
| "stores_none _ = True"

lemma stores_none_checked: "stores_none c \<Longrightarrow> stores_checked oc c"
  by (cases c) simp_all

lemma system_mono: "system_runs T E a tr ps a' \<Longrightarrow> (\<And>c. E c \<Longrightarrow> E' c) \<Longrightarrow> system_runs T E' a tr ps a'"
  by (induction rule: system_runs.induct) (auto intro: system_runs.intros)



end
