(* ===== verification/Orchestrator_Startup.thy ===== *)
theory Orchestrator_Startup
  imports Orchestrator_Confinement
begin

text \<open>
  A startup and its claim. Whatever other tasks do meanwhile, a startup of a service works on that service
  only, changes its status only under the claim until its process runs, and starts the process only
  directly after the actor confirmed the claim and after it has seen each dependency satisfied.
\<close>

subsection \<open>The monitor\<close>

text \<open>The state of the monitor is what the task has done so far.\<close>

definition has_spawned :: "'k label list \<Rightarrow> bool" where
  "has_spawned h = (\<exists>n spec r. Spawned n spec r \<in> set h)"

definition claim_checked :: "string \<Rightarrow> 64 word \<Rightarrow> 'k label list \<Rightarrow> bool" where
  "claim_checked n s h = (\<exists>h1 looks. h = h1 @ Sent (GetServiceStartup n) (RGeneration (Some s)) # map Seen looks)"

definition dep_seen :: "string \<Rightarrow> dependency_config \<Rightarrow> 'k label list \<Rightarrow> bool" where
  "dep_seen d dc h = (\<exists>a. Seen a \<in> set h \<and> check_dependency_satisfied dc (hm_get (ca_services a) d))"

definition deps_seen :: "kepler_config \<Rightarrow> string \<Rightarrow> 'k label list \<Rightarrow> bool" where
  "deps_seen config n h = (\<forall>raw. hm_get (kc_services config) n = Some raw \<longrightarrow>
     (\<forall>(d, dc) \<in> set (dep_iter (rs_depends_on raw)). dep_seen d dc h))"

text \<open>The commands of a startup; some only once there is a process.\<close>

fun startup_command :: "string \<Rightarrow> 64 word \<Rightarrow> bool \<Rightarrow> Config_Actor.command \<Rightarrow> bool" where
  "startup_command n s started (GetServiceStartup m) = (m = n)"
| "startup_command n s started (IsServiceInitialized m) = (m = n)"
| "startup_command n s started (TransitionServiceStartup m s' _ _ _) = (m = n \<and> s' = s)"
| "startup_command n s started (StoreStartupTokenGuard m s' _) = (m = n \<and> s' = s)"
| "startup_command n s started (TakeMatchingTokenGuard m _) = (m = n)"
| "startup_command n s started (StoreResolvedConfig m _ _ _ _) = (m = n)"
| "startup_command n s started (IncrementRestartCount m) = (m = n)"
| "startup_command n s started (RegisterServiceInstance m _ _) = (m = n \<and> started)"
| "startup_command n s started (StoreProcessHandle m _) = (m = n \<and> started)"
| "startup_command n s started (SetServiceStatus m st) = (m = n \<and> st = Running \<and> started)"
| "startup_command n s started (MarkServiceInitialized m) = (m = n \<and> started)"
| "startup_command _ _ _ _ = False"

fun startup_ok :: "kepler_config \<Rightarrow> string \<Rightarrow> 64 word \<Rightarrow> bool \<Rightarrow> 'k label list \<Rightarrow> 'k label \<Rightarrow> bool" where
  "startup_ok config n s no_deps h (Spawned m _ _) =
     (m = n \<and> claim_checked n s h \<and> \<not> has_spawned h \<and> (\<not> no_deps \<longrightarrow> deps_seen config n h))"
| "startup_ok config n s no_deps h (Sent c _) = startup_command n s (has_spawned h) c"
| "startup_ok config n s no_deps h (Minted ctx _) = (tc_service ctx = n)"
| "startup_ok config n s no_deps h (Ran _ _) = False"
| "startup_ok config n s no_deps h _ = True"

abbreviation record_label :: "'k label list \<Rightarrow> 'k label \<Rightarrow> 'k label list" where
  "record_label h l \<equiv> h @ [l]"

definition on_config :: "kepler_config \<Rightarrow> config_actor \<Rightarrow> bool" where
  "on_config config a = (ca_config a = config)"

interpretation startup: task_monitor "on_config config" "startup_ok config n s no_deps" record_label "\<lambda>_. True"
  for config n s no_deps
  by unfold_locales (simp_all add: on_config_def process_command_config)

abbreviation starts ::
    "kepler_config \<Rightarrow> string \<Rightarrow> 64 word \<Rightarrow> bool \<Rightarrow> ('a \<Rightarrow> 'k label list \<Rightarrow> bool) \<Rightarrow> ('k, 'a) prog \<Rightarrow> 'k label list \<Rightarrow> bool" where
  "starts config n s no_deps \<equiv> safe (on_config config) (startup_ok config n s no_deps) record_label"

text \<open>What follows a point of the history without a new process.\<close>

definition extends :: "'k label list \<Rightarrow> 'k label list \<Rightarrow> bool" where
  "extends h h' = (\<exists>t. h' = h @ t \<and> \<not> has_spawned t)"

lemma has_spawned_simps [simp]:
  "\<not> has_spawned []" "has_spawned (h @ h') \<longleftrightarrow> has_spawned h \<or> has_spawned h'"
  "has_spawned [Spawned n spec r]" "\<not> has_spawned [Seen a]" "\<not> has_spawned [Sent c rep]" "\<not> has_spawned [Acted t ar]"
  "\<not> has_spawned [Evaluated ec er]" "\<not> has_spawned [Minted ctx mr]" "\<not> has_spawned [Woken w]"
  by (auto simp: has_spawned_def)

lemma extends_refl [simp]: "extends h h"
  by (simp add: extends_def)

lemma extends_spawned: "extends h h' \<Longrightarrow> has_spawned h' \<longleftrightarrow> has_spawned h"
  by (auto simp: extends_def)

lemma extends_label: "extends (h @ [l]) h' \<Longrightarrow> \<not> has_spawned [l] \<Longrightarrow> extends h h'"
  by (auto simp: extends_def has_spawned_def)

lemma extends_trans: "extends h h1 \<Longrightarrow> extends h1 h2 \<Longrightarrow> extends h h2"
  by (auto simp: extends_def)

lemma dep_seen_extends: "dep_seen d dc h \<Longrightarrow> extends h h' \<Longrightarrow> dep_seen d dc h'"
  by (auto simp: dep_seen_def extends_def)

lemma deps_seen_extends: "deps_seen config n h \<Longrightarrow> extends h h' \<Longrightarrow> deps_seen config n h'"
  unfolding deps_seen_def by (blast intro: dep_seen_extends)

lemma starts_mono:
  assumes "starts config n s nd Q p h" "\<And>x h'. Q x h' \<Longrightarrow> Q' x h'"
  shows "starts config n s nd Q' p h"
  using assms by (rule safe_mono)

lemma starts_andThen:
  assumes "starts config n s nd P p h" "\<And>x h'. P x h' \<Longrightarrow> starts config n s nd Q (f x) h'"
  shows "starts config n s nd Q (andThen p f) h"
  unfolding safe_andThen using assms by (rule safe_mono)

lemma starts_onOk:
  assumes "starts config n s nd P p h" "\<And>e h'. P (Err e) h' \<Longrightarrow> Q (Err e) h'"
    "\<And>x h'. P (Ok x) h' \<Longrightarrow> starts config n s nd Q (f x) h'"
  shows "starts config n s nd Q (onOk p f) h"
  unfolding safe_onOk by (rule safe_mono [OF assms(1)]) (auto intro: assms split: sum.splits)

subsection \<open>Parts that start nothing\<close>

text \<open>A part that may run with the commands for a running process, or without them, and starts nothing.\<close>

definition quiet :: "kepler_config \<Rightarrow> string \<Rightarrow> 64 word \<Rightarrow> bool \<Rightarrow> bool \<Rightarrow> ('k, 'a) prog \<Rightarrow> bool" where
  "quiet config n s nd b p = (\<forall>h. (b \<longrightarrow> has_spawned h) \<longrightarrow> starts config n s nd (\<lambda>_ h'. extends h h') p h)"

lemma startup_command_mono: "startup_command n s b c \<Longrightarrow> (b \<Longrightarrow> b') \<Longrightarrow> startup_command n s b' c"
  by (cases c) auto

lemma quiet_from:
  assumes "quiet config n s nd b p" "b \<longrightarrow> has_spawned h" "\<And>h2. extends h h2 \<Longrightarrow> extends h0 h2"
  shows "starts config n s nd (\<lambda>_ h'. extends h0 h') p h"
proof (rule starts_mono)
  show "starts config n s nd (\<lambda>_ h'. extends h h') p h" using assms by (simp add: quiet_def)
qed (rule assms(3))

lemma quiet_step:
  assumes "\<not> has_spawned [l]" "quiet config n s nd b p" "b \<longrightarrow> has_spawned h"
  shows "starts config n s nd (\<lambda>_ h'. extends h h') p (h @ [l])"
  using assms by (auto intro: quiet_from extends_label)

lemma quiet_basic:
  "quiet config n s nd b (Done x)" "quiet config n s nd b Waits" "quiet config n s nd b Panics"
  "(\<And>a. on_config config a \<Longrightarrow> quiet config n s nd b (k1 a)) \<Longrightarrow> quiet config n s nd b (Look k1)"
  "startup_command n s b c \<Longrightarrow> (\<And>r. quiet config n s nd b (k2 r)) \<Longrightarrow> quiet config n s nd b (Cmd c k2)"
  "(\<And>r. quiet config n s nd b (k3 r)) \<Longrightarrow> quiet config n s nd b (Act t k3)"
  "(\<And>r. quiet config n s nd b (k4 r)) \<Longrightarrow> quiet config n s nd b (Resolve ec u k4)"
  "(\<And>w. quiet config n s nd b (k5 w)) \<Longrightarrow> quiet config n s nd b (AwaitChange timed k5)"
  "tc_service ctx = n \<Longrightarrow> (\<And>r. quiet config n s nd b (k6 r)) \<Longrightarrow> quiet config n s nd b (NewToken ctx k6)"
  unfolding quiet_def [where p = "Done x"] quiet_def [where p = Waits] quiet_def [where p = Panics]
    quiet_def [where p = "Look k1"] quiet_def [where p = "Cmd c k2"] quiet_def [where p = "Act t k3"]
    quiet_def [where p = "Resolve ec u k4"] quiet_def [where p = "AwaitChange timed k5"] quiet_def [where p = "NewToken ctx k6"]
  by (auto intro!: quiet_step [where b = b] intro: startup_command_mono)

lemma quiet_andThen:
  assumes "quiet config n s nd b p" "\<And>x. quiet config n s nd b (f x)"
  shows "quiet config n s nd b (andThen p f)"
  unfolding quiet_def
proof (intro allI impI)
  fix h :: "'a label list" assume h: "b \<longrightarrow> has_spawned h"
  show "starts config n s nd (\<lambda>_ h'. extends h h') (andThen p f) h"
  proof (rule starts_andThen)
    show "starts config n s nd (\<lambda>_ h'. extends h h') p h" using assms(1) h by (simp add: quiet_def)
    show "starts config n s nd (\<lambda>_ h'. extends h h') (f x) h'" if "extends h h'" for x h'
      using h that by (intro quiet_from [OF assms(2)]) (auto simp: extends_spawned intro: extends_trans)
  qed
qed

lemma quiet_case:
  "(c \<Longrightarrow> quiet config n s nd b p) \<Longrightarrow> (\<not> c \<Longrightarrow> quiet config n s nd b q) \<Longrightarrow> quiet config n s nd b (if c then p else q)"
  "(o1 = None \<Longrightarrow> quiet config n s nd b p) \<Longrightarrow> (\<And>x. o1 = Some x \<Longrightarrow> quiet config n s nd b (f1 x)) \<Longrightarrow>
     quiet config n s nd b (case o1 of None \<Rightarrow> p | Some x \<Rightarrow> f1 x)"
  "(\<And>e. r1 = Inl e \<Longrightarrow> quiet config n s nd b (f2 e)) \<Longrightarrow> (\<And>x. r1 = Inr x \<Longrightarrow> quiet config n s nd b (f3 x)) \<Longrightarrow>
     quiet config n s nd b (case r1 of Inl e \<Rightarrow> f2 e | Inr x \<Rightarrow> f3 x)"
  by (simp_all split: option.splits sum.splits)

lemma quiet_onOk:
  assumes "quiet config n s nd b p" "\<And>x. quiet config n s nd b (f x)"
  shows "quiet config n s nd b (onOk p f)"
  unfolding onOk_def using assms by (intro quiet_andThen quiet_case quiet_basic)

lemmas quiet_rules = quiet_basic quiet_andThen quiet_onOk quiet_case

lemma quiet_starts:
  "quiet config n s nd b p \<Longrightarrow> (b \<Longrightarrow> has_spawned h) \<Longrightarrow> starts config n s nd (\<lambda>_ h'. extends h h') p h"
  by (simp add: quiet_def)

lemma quiet_small [simp]:
  "quiet config n s nd b (perform t)" "quiet config n s nd b (get_state m)" "quiet config n s nd b (run_service_hook ctx m hook)"
  "quiet config n s nd b (try_hook ctx m hook)" "quiet config n s nd b (apply_retention m ctx ev)"
  "quiet config n s nd b (ensure_service_startup n s)" "quiet config n s nd b (revoke_matching_service_token_guard n tok)"
  "quiet config n s nd b (get_service_context m)"
  by (auto simp: perform_def get_state_def run_service_hook_def try_hook_def apply_retention_def ensure_service_startup_def
      revoke_matching_service_token_guard_def get_service_context_def intro!: quiet_rules split: reply.splits)

lemma quiet_parts [simp]:
  "quiet config n s nd b (resolve_and_store oc n raw f)"
  "quiet config n s nd b (create_service_token_guard_for_operation oc n rc (Some s))"
  "quiet config n s nd b (spawn_auxiliary_tasks m ctx i)" "quiet config n s nd b (handle_service_launch_result n s r)"
proof -
  have "quiet config n s nd b (dep_infos deps)" for deps
    by (induction deps rule: dep_infos.induct) (auto intro!: quiet_rules)
  then show "quiet config n s nd b (resolve_and_store oc n raw f)"
    unfolding resolve_and_store_def by (auto intro!: quiet_rules)
  have "tc_service ctx = n" if "token_context_of oc n perms = Some (Ok ctx)" for perms ctx
    using that by (auto simp: token_context_of_def bind_res_Ok_iff Let_def split: sum.splits option.splits prod.splits)
  then show "quiet config n s nd b (create_service_token_guard_for_operation oc n rc (Some s))"
    unfolding create_service_token_guard_for_operation_def by (auto intro!: quiet_rules)
  show "quiet config n s nd b (spawn_auxiliary_tasks m ctx i)"
    unfolding spawn_auxiliary_tasks_def by (auto intro!: quiet_rules)
  show "quiet config n s nd b (handle_service_launch_result n s r)"
    unfolding handle_service_launch_result_def by (auto intro!: quiet_rules split: orch_error.splits)
qed

subsection \<open>Waiting\<close>

definition waited :: "string \<Rightarrow> dependency_config \<Rightarrow> 'k label list \<Rightarrow> ('e, 'a) result \<Rightarrow> 'k label list \<Rightarrow> bool" where
  "waited d dc h r h' = (extends h h' \<and> (\<forall>x. r = Ok x \<longrightarrow> dep_seen d dc h'))"

lemma waited_from: "extends h h1 \<Longrightarrow> waited d dc h1 r h2 \<Longrightarrow> waited d dc h r h2"
  by (auto simp: waited_def intro: extends_trans)

lemma extends_looks [simp]: "extends h h1 \<Longrightarrow> \<not> has_spawned t \<Longrightarrow> extends h (h1 @ t)"
  by (auto simp: extends_def)

lemma has_spawned_Cons [simp]: "has_spawned (Seen a # t) = has_spawned t"
  by (simp add: has_spawned_def)

lemma waited_simps [simp]:
  "waited d dc h (Err e) h' = extends h h'" "waited d dc h (Ok x) h' = (extends h h' \<and> dep_seen d dc h')"
  by (auto simp: waited_def)

lemma dep_seen_Cons [simp]: "dep_seen d dc (Seen a # t) \<longleftrightarrow> check_dependency_satisfied dc (hm_get (ca_services a) d) \<or> dep_seen d dc t"
  by (auto simp: dep_seen_def)

lemma dep_seen_snoc [simp]: "dep_seen d dc (h @ t) \<longleftrightarrow> dep_seen d dc h \<or> dep_seen d dc t"
  by (auto simp: dep_seen_def)

lemma wait_again:
  assumes "\<And>h. starts config n s nd (waited d dc h) (f ()) h"
  shows "starts config n s nd (waited d dc h) (onOk (ensure_service_startup n s) (\<lambda>_. AwaitChange timed (\<lambda>w. case w of
      Changed \<Rightarrow> f () | ChannelClosed \<Rightarrow> Done (Err e1) | TimedOut \<Rightarrow> Done (Err e2)))) h"
proof (rule starts_onOk)
  have again: "starts config n s nd (waited d dc h) (f ()) h2" if "extends h h2" for h2
    using assms waited_from [OF that] by (rule starts_mono)
  show "starts config n s nd (\<lambda>_ h'. extends h h') (ensure_service_startup n s) h"
    by (rule quiet_starts [where b = False]) simp_all
  show "starts config n s nd (waited d dc h) (AwaitChange timed (\<lambda>w. case w of
      Changed \<Rightarrow> f () | ChannelClosed \<Rightarrow> Done (Err e1) | TimedOut \<Rightarrow> Done (Err e2))) h'" if "extends h h'" for h'
    using that again by (auto split: wakeup.splits)
qed simp

lemma wait_for_dependency_seen:
  fixes h :: "'k label list"
  shows "starts config n s nd (waited d dc h) (wait_for_dependency k svs n s d dc) h"
proof (induction k arbitrary: h)
  case (Suc k)
  define again :: "('k, (orch_error, unit) result) prog" where
    "again = onOk (ensure_service_startup n s) (\<lambda>_. AwaitChange (dc_timeout dc \<noteq> None) (\<lambda>w. case w of
       Changed \<Rightarrow> wait_for_dependency k svs n s d dc | ChannelClosed \<Rightarrow> Done (Err (StartupCancelled n))
     | TimedOut \<Rightarrow> Done (Err (DependencyTimeout n d (dc_condition dc)))))"
  have "starts config n s nd (waited d dc h1) again h1" for h1
    unfolding again_def by (rule wait_again) (rule Suc.IH)
  then have again: "starts config n s nd (waited d dc h) again h1" if "extends h h1" for h1
    by (rule starts_mono) (rule waited_from [OF that])
  show ?case
    unfolding wait_for_dependency.simps Let_def again_def [symmetric]
  proof (rule starts_onOk)
    show "starts config n s nd (\<lambda>_ h'. extends h h') (ensure_service_startup n s) h"
      by (rule quiet_starts [where b = False]) simp_all
  qed (auto simp: get_state_def intro!: again split: option.splits)
qed simp

lemma wait_for_dependencies_seen:
  fixes h :: "'k label list"
  shows "starts config n s nd (\<lambda>r h'. extends h h' \<and> (\<forall>x. r = Ok x \<longrightarrow> (\<forall>(d, dc) \<in> set (dep_iter deps). dep_seen d dc h')))
    (wait_for_dependencies k n s deps) h"
proof -
  have each: "starts config n s nd (\<lambda>r h'. extends h h' \<and> (\<forall>x. r = Ok x \<longrightarrow> (\<forall>(d, dc) \<in> set ds. dep_seen d dc h'))) (wait_each k svs n s ds) h"
    for h :: "'k label list" and svs ds
  proof (induction ds arbitrary: h)
    case (Cons x ds)
    obtain d dc where x: "x = (d, dc)" by (cases x)
    show ?case
      unfolding x wait_each.simps
    proof (rule starts_onOk [OF wait_for_dependency_seen])
      show "starts config n s nd (\<lambda>r h'. extends h h' \<and> (\<forall>x. r = Ok x \<longrightarrow> (\<forall>(d, dc) \<in> set ((d, dc) # ds). dep_seen d dc h')))
        (wait_each k svs n s ds) h1" if "waited d dc h (Ok u) h1" for h1 and u :: unit
        using Cons.IH [of h1] that by (auto elim!: starts_mono intro: extends_trans dep_seen_extends)
    qed simp
  qed simp
  have "starts config n s nd (\<lambda>r h'. extends h h' \<and> (\<forall>x. r = Ok x \<longrightarrow> (\<forall>(d, dc) \<in> set (dep_iter deps). dep_seen d dc h')))
    (wait_each k svs n s (dep_iter deps)) (h @ [Seen a])" for svs a
    using each [of "h @ [Seen a]" "dep_iter deps" svs] by (rule starts_mono) (auto dest: extends_label)
  then show ?thesis unfolding wait_for_dependencies_def by simp
qed

subsection \<open>The startup\<close>

definition prepared :: "kepler_config \<Rightarrow> string \<Rightarrow> bool \<Rightarrow> 'k label list \<Rightarrow> ('e, 'a) result \<Rightarrow> 'k label list \<Rightarrow> bool" where
  "prepared config n nd h r h' = (extends h h' \<and> (\<forall>x. r = Ok x \<longrightarrow> \<not> nd \<longrightarrow> deps_seen config n h'))"

lemma quiet_prepared:
  assumes "quiet config n s nd False p" "extends h h1" "\<not> nd \<longrightarrow> deps_seen config n h1"
  shows "starts config n s nd (prepared config n nd h) p h1"
proof (rule starts_mono)
  show "starts config n s nd (\<lambda>_ h'. extends h1 h') p h1" using assms(1) by (rule quiet_starts) simp
qed (use assms in \<open>auto simp: prepared_def intro: extends_trans deps_seen_extends\<close>)

lemma get_service_context_config:
  "starts config n s nd (\<lambda>r h'. extends h h' \<and> (\<forall>ctx. r = Ok ctx \<longrightarrow> hm_get (kc_services config) n = Some (sc_service_config ctx)))
     (get_service_context n) h"
  by (auto simp: get_service_context_def ok_or_def build_service_context_def on_config_def split: option.splits bind_splits)

lemma prepare_seen:
  fixes h :: "'k label list"
  shows "starts config n s nd (prepared config n nd h) (prepare_service_launch oc k n s st skip nd) h"
proof -
  let ?rest = "\<lambda>ctx. Cmd (TransitionServiceStartup n s st None None) (\<lambda>r.
     if \<not> yes r then Done (Err (StartupCancelled n))
     else onOk (resolve_and_store oc n (sc_service_config ctx) (\<lambda>state. Option.bind state ss_exit_code)) (\<lambda>resolved.
          onOk (get_service_context n) (\<lambda>ctx.
          onOk (ensure_service_startup n s) (\<lambda>_.
          if \<not> skip \<and> rc_condition resolved = Some False
          then Cmd (TransitionServiceStartup n s Skipped (Some ''`if` condition evaluated to false'') None) (\<lambda>r.
               if \<not> yes r then Done (Err (StartupCancelled n))
               else andThen (apply_retention n ctx LcSkipped) (\<lambda>_. Done (Ok None)))
          else Done (Ok (Some ctx))))))"
  have rest: "quiet config n s nd False (?rest ctx)" for ctx
    by (auto intro!: quiet_rules)
  have deps: "starts config n s nd (\<lambda>r h'. extends h h' \<and> (\<forall>x. r = Ok x \<longrightarrow> \<not> nd \<longrightarrow> deps_seen config n h'))
     (if \<not> nd then wait_for_dependencies k n s (rs_depends_on (sc_service_config ctx)) else Done (Ok ())) h2"
    if "extends h h2" "hm_get (kc_services config) n = Some (sc_service_config ctx)" for h2 :: "'k label list" and ctx
    using wait_for_dependencies_seen [where h = h2 and config = config and n = n and s = s and nd = nd and k = k
        and deps = "rs_depends_on (sc_service_config ctx)"] that
    by (auto simp: deps_seen_def elim!: starts_mono intro: extends_trans)
  show ?thesis
    unfolding prepare_service_launch_def
  proof (rule starts_onOk)
    show "starts config n s nd (\<lambda>_ h'. extends h h') (ensure_service_startup n s) h"
      by (rule quiet_starts [where b = False]) simp_all
  next
    fix u h1 assume "extends h h1"
    show "starts config n s nd (prepared config n nd h) (onOk (get_service_context n) (\<lambda>ctx.
      onOk (if \<not> nd then wait_for_dependencies k n s (rs_depends_on (sc_service_config ctx)) else Done (Ok ())) (\<lambda>_. ?rest ctx))) h1"
      using \<open>extends h h1\<close>
      by (intro starts_onOk [OF get_service_context_config] starts_onOk [OF deps] quiet_prepared [OF rest])
         (auto simp: prepared_def intro: extends_trans)
  qed (simp add: prepared_def)
qed

definition can_spawn :: "kepler_config \<Rightarrow> string \<Rightarrow> bool \<Rightarrow> 'k label list \<Rightarrow> bool" where
  "can_spawn config n nd h = (\<not> has_spawned h \<and> (\<not> nd \<longrightarrow> deps_seen config n h))"

lemma can_spawn_extends: "can_spawn config n nd h \<Longrightarrow> extends h h' \<Longrightarrow> can_spawn config n nd h'"
  by (auto simp: can_spawn_def extends_spawned intro: deps_seen_extends)

lemma quiet_then:
  assumes "quiet config n s nd False p" "can_spawn config n nd h"
    "\<And>x h'. can_spawn config n nd h' \<Longrightarrow> starts config n s nd (\<lambda>_ _. True) (f x) h'"
  shows "starts config n s nd (\<lambda>_ _. True) (andThen p f) h"
  using quiet_starts [OF assms(1)] by (rule starts_andThen) (use assms can_spawn_extends in blast)+

lemma quiet_thenOk:
  assumes "quiet config n s nd False p" "can_spawn config n nd h"
    "\<And>x h'. can_spawn config n nd h' \<Longrightarrow> starts config n s nd (\<lambda>_ _. True) (f x) h'"
  shows "starts config n s nd (\<lambda>_ _. True) (onOk p f) h"
  unfolding onOk_def using assms by (intro quiet_then) (auto split: sum.splits)

lemma quiet_runs: "quiet config n s nd False p \<Longrightarrow> starts config n s nd (\<lambda>_ _. True) p h"
  by (rule starts_mono [OF quiet_starts [where b = False]]) simp_all

lemma quiet_after: "quiet config n s nd True p \<Longrightarrow> has_spawned h \<Longrightarrow> starts config n s nd (\<lambda>_ h'. has_spawned h') p h"
  by (rule starts_mono [OF quiet_starts]) (simp_all add: extends_spawned)

lemma ensure_checked:
  "starts config n s nd (\<lambda>r h'. extends h h' \<and> (\<forall>x. r = Ok x \<longrightarrow> claim_checked n s h')) (ensure_service_startup n s) h"
proof -
  have "r = RGeneration (Some s)" if "granted r = Some s" for r using that by (cases r) simp_all
  then show ?thesis
    by (auto simp: ensure_service_startup_def claim_checked_def extends_def intro: exI [of _ "[]"])
qed

lemma claim_checked_look: "claim_checked n s h \<Longrightarrow> claim_checked n s (h @ [Seen a])"
  unfolding claim_checked_def by (metis append.assoc append_Cons list.simps(8,9) map_append)

lemma can_spawn_look: "can_spawn config n nd h \<Longrightarrow> can_spawn config n nd (h @ [Seen a])"
  by (erule can_spawn_extends) simp

definition spawned_if_ok :: "('e, 'a) result \<Rightarrow> 'k label list \<Rightarrow> bool" where
  "spawned_if_ok r h' = (\<forall>x. r = Ok x \<longrightarrow> has_spawned h')"

lemma spawn_spawned:
  assumes "can_spawn config n nd h" "claim_checked n s h"
  shows "starts config n s nd spawned_if_ok (spawn_service_with_token_guard oc n ctx token) h"
proof -
  have ok: "startup_ok config n s nd (h @ [Seen a]) (Spawned n spec r)" for a spec r
    using can_spawn_look [OF assms(1), of a] claim_checked_look [OF assms(2), of a] by (simp add: can_spawn_def)
  have failed: "starts config n s nd spawned_if_ok
      (andThen (perform (CleanupCgroup n)) (\<lambda>_. andThen (revoke_matching_service_token_guard n token) (\<lambda>_. Done (Err e)))) h1" for e h1
  proof -
    have "starts config n s nd (\<lambda>_ _. True) (andThen (perform (CleanupCgroup n)) (\<lambda>_. revoke_matching_service_token_guard n token)) h1"
      by (intro quiet_runs quiet_rules) simp_all
    then show ?thesis unfolding safe_andThen by (rule safe_mono) (auto simp: spawned_if_ok_def elim!: safe_mono)
  qed
  define fin :: "(string, process_info \<times> 64 word) result \<Rightarrow> ('a, (orch_error, 64 word) result) prog" where
    "fin r = (case r of
          Inl e \<Rightarrow> andThen (perform (CleanupCgroup n)) (\<lambda>_.
            andThen (revoke_matching_service_token_guard n token) (\<lambda>_. Done (Err (SpawnFailed e))))
        | Inr (p, instance) \<Rightarrow> Cmd (StoreProcessHandle n (pr_handle p)) (\<lambda>_.
            Cmd (SetServiceStatus n Running) (\<lambda>_. Done (Ok instance))))" for r
  have "quiet config n s nd True (fin r)" for r
    unfolding fin_def by (auto intro!: quiet_rules split: prod.splits)
  moreover define reg :: "(string, process_info) result \<Rightarrow> ('a, (string, process_info \<times> 64 word) result) prog" where
    "reg r = (case r of
        Inl e \<Rightarrow> Done (Err e)
      | Inr p \<Rightarrow> Cmd (RegisterServiceInstance n (pr_pid p) (pr_started_at p)) (\<lambda>r. case r of
          RInstance (Inr instance) \<Rightarrow> Done (Ok (p, instance))
        | _ \<Rightarrow> Act (AbandonProcess n) (\<lambda>_. Done (Err (''Service not found: '' @ n)))))" for r
  moreover have "quiet config n s nd True (reg r)" for r
    unfolding reg_def by (auto intro!: quiet_rules split: reply.splits)
  ultimately have "quiet config n s nd True (andThen (reg r) fin)" for r
    by (intro quiet_andThen)
  then have after: "starts config n s nd spawned_if_ok (andThen (reg r) fin) h1" if "has_spawned h1" for r h1
    using starts_mono [OF quiet_after [of config n s nd "andThen (reg r) fin", OF _ that]] by (simp add: spawned_if_ok_def)
  show ?thesis
    unfolding spawn_service_with_token_guard_def spawn_process_def fin_def [symmetric] reg_def [symmetric]
    using ok
    by (auto simp del: startup_ok.simps intro!: after split: option.splits) (auto simp: fin_def failed spawned_if_ok_def)
qed

abbreviation runs :: "kepler_config \<Rightarrow> string \<Rightarrow> 64 word \<Rightarrow> bool \<Rightarrow> ('k, 'a) prog \<Rightarrow> 'k label list \<Rightarrow> bool" where
  "runs config n s nd \<equiv> starts config n s nd (\<lambda>_ _. True)"

lemma ensure_then:
  assumes "can_spawn config n nd h" "\<And>e. quiet config n s nd False (f (Err e))"
    and ok: "\<And>u h2. can_spawn config n nd h2 \<Longrightarrow> claim_checked n s h2 \<Longrightarrow> runs config n s nd (f (Ok u)) h2"
  shows "runs config n s nd (andThen (ensure_service_startup n s) f) h"
proof (rule starts_andThen [OF ensure_checked])
  show "runs config n s nd (f r) h2" if "extends h h2 \<and> (\<forall>x. r = Ok x \<longrightarrow> claim_checked n s h2)" for r h2
    using that can_spawn_extends [OF assms(1)] by (cases r) (auto intro: quiet_runs [OF assms(2)] ok)
qed

lemma start_service_process_runs:
  assumes "can_spawn config n nd h"
  shows "starts config n s nd (\<lambda>_ _. True) (start_service_process oc n s ctx) h"
proof -
  have spawn: "runs config n s nd (onOk (spawn_service_with_token_guard oc n ctx token) f) h1"
    if "can_spawn config n nd h1" "claim_checked n s h1" "\<And>i. quiet config n s nd True (f i)" for token h1 f
    using spawn_spawned [OF that(1,2)]
    by (rule starts_onOk) (auto simp: spawned_if_ok_def intro: starts_mono [OF quiet_after [OF that(3)]])
  have cmd: "runs config n s nd (Cmd (IsServiceInitialized n) k) h1"
    if "can_spawn config n nd h1" "\<And>r h2. can_spawn config n nd h2 \<Longrightarrow> runs config n s nd (k r) h2" for h1 k
    using that can_spawn_extends [OF that(1), of "h1 @ [Sent c r]" for c r] by simp
  show ?thesis
    unfolding start_service_process_def
    apply (rule quiet_thenOk [OF _ assms])
     apply simp
    apply (split option.split, intro conjI allI impI)
     apply simp
    apply (rule cmd, assumption)
    apply (rule quiet_then, simp, assumption)
    apply (rule quiet_thenOk, simp, assumption)
    apply (rule quiet_then, simp, assumption)
    apply (split sum.split, intro conjI allI impI)
     apply (auto intro!: quiet_runs quiet_rules) []
    apply (rule quiet_then, simp, assumption)
    apply (rule ensure_then, assumption)
     apply (auto intro!: quiet_rules) []
    apply simp
    apply (rule spawn, assumption, assumption)
    apply (auto intro!: quiet_rules split: reply.splits)
    done
qed

lemma can_spawn_act: "can_spawn config n nd (h @ [Acted t r])" if "can_spawn config n nd h"
  using that by (rule can_spawn_extends) simp

lemma prepared_can_spawn: "\<not> has_spawned h \<Longrightarrow> prepared config n nd h (Ok x) h' \<Longrightarrow> can_spawn config n nd h'"
  by (auto simp: prepared_def can_spawn_def extends_spawned)

lemma startup_runs:
  assumes "\<not> has_spawned h"
  shows "runs config n s nd (run_service_startup oc k n s skip nd) h"
    and "runs config n s nd (run_manual_restart_startup oc k n s skip nd) h"
proof -
  have rest: "runs config n s nd (onOk (start_service_process oc n s ctx) f) h1"
    if "can_spawn config n nd h1" "\<And>i. quiet config n s nd False (f i)" for h1 ctx and f :: "64 word \<Rightarrow> ('a, (orch_error, unit) result) prog"
    using start_service_process_runs [OF that(1)] by (rule starts_onOk) (auto intro: quiet_runs that(2))
  have prep: "runs config n s nd (onOk (prepare_service_launch oc k n s st skip nd) f) h1"
    if "\<not> has_spawned h1" "\<And>x h2. can_spawn config n nd h2 \<Longrightarrow> runs config n s nd (f x) h2"
    for st h1 and f :: "service_context option \<Rightarrow> ('a, (orch_error, unit) result) prog"
    using prepare_seen by (rule starts_onOk) (auto intro: that(2) prepared_can_spawn [OF that(1)])
  show "runs config n s nd (run_service_startup oc k n s skip nd) h"
    unfolding run_service_startup_def execute_service_startup_def
  proof (rule starts_andThen [OF prep [OF assms]])
    show "runs config n s nd (case x of None \<Rightarrow> Done (Ok ()) | Some ctx \<Rightarrow>
        andThen (perform (ClearOutputs n)) (\<lambda>_. onOk (start_service_process oc n s ctx) (\<lambda>instance.
          andThen (spawn_auxiliary_tasks n ctx instance) (\<lambda>_. Done (Ok ()))))) h2"
      if "can_spawn config n nd h2" for x h2
      using that by (cases x) (auto intro!: quiet_then [OF _ that] rest quiet_rules)
  qed (auto intro: quiet_runs)
  have "\<not> has_spawned (h @ [Sent c r])" for c r using assms by simp
  then have inc: "runs config n s nd (Cmd (IncrementRestartCount n) f) h1"
    if "\<not> has_spawned h1" "\<And>r h2. \<not> has_spawned h2 \<Longrightarrow> runs config n s nd (f r) h2" for h1 f
    using that by simp
  show "runs config n s nd (run_manual_restart_startup oc k n s skip nd) h"
    unfolding run_manual_restart_startup_def
  proof (rule starts_andThen)
    show "runs config n s nd (onOk (ensure_service_startup n s) (\<lambda>_. Cmd (IncrementRestartCount n) (\<lambda>r. case r of
          RDone (Inr _) \<Rightarrow>
            onOk (prepare_service_launch oc k n s Restarting skip nd) (\<lambda>prepared. case prepared of
              None \<Rightarrow> Done (Ok ())
            | Some ctx \<Rightarrow> Act (ClearProcessOutputs n) (\<lambda>r. case r of
                Inl e \<Rightarrow> Done (Err (DaemonError e))
              | Inr _ \<Rightarrow>
                  onOk (start_service_process oc n s ctx) (\<lambda>instance.
                  andThen (try_hook ctx n PostRestart) (\<lambda>_.
                  andThen (spawn_auxiliary_tasks n ctx instance) (\<lambda>_. Done (Ok ()))))))
        | _ \<Rightarrow> Done (Err (DaemonError (''Service not found: '' @ n)))))) h"
    proof (rule starts_onOk [OF quiet_starts [where b = False]])
    qed (auto intro!: inc prep rest quiet_rules simp: extends_spawned assms can_spawn_act split: reply.splits sum.splits option.splits)
  qed (auto intro: quiet_runs)
qed

text \<open>
  C3. A startup and its claim. In every run of a startup or a manual restart of a service \<open>n\<close> under the claim
  \<open>s\<close>, whatever commands of other tasks arrive in between: the task starts at most one process, that of \<open>n\<close>; the
  actor has just confirmed the claim, and nothing but reading the actor lies between; unless the request
  ignores dependencies, the task has seen every dependency of the service satisfied; its commands
  name only \<open>n\<close>, and those that change its status carry the claim, except the one that reports the
  running process; its token is for \<open>n\<close>.
\<close>

theorem startup_under_claim:
  assumes "task_runs p a tr p' a'"
    and "p = run_service_startup oc rounds n s skip no_deps \<or> p = run_manual_restart_startup oc rounds n s skip no_deps"
    and "filter own tr = before @ l # later"
  shows "(\<forall>m spec r. l = Spawned m spec r \<longrightarrow> m = n \<and> claim_checked n s before \<and> \<not> has_spawned before \<and>
       (\<not> no_deps \<longrightarrow> deps_seen (ca_config a) n before)) \<and>
    (\<forall>c r. l = Sent c r \<longrightarrow> startup_command n s (has_spawned before) c) \<and>
    (\<forall>ctx r. l = Minted ctx r \<longrightarrow> tc_service ctx = n)"
proof -
  have "runs (ca_config a) n s no_deps p []"
    using assms(2) startup_runs [of "[]"] by auto
  then have "allowed (startup_ok (ca_config a) n s no_deps) record_label [] tr"
    using startup.monitor_runs [OF assms(1)] by (auto simp: on_config_def relies_def)
  moreover have "foldl record_label h xs = h @ xs" for h xs :: "'a label list"
    by (induction xs arbitrary: h) simp_all
  ultimately have "startup_ok (ca_config a) n s no_deps before l"
    using assms(3) by (simp add: allowed_def)
  then show ?thesis by auto
qed

theorem startup_under_claim_witness:
  "\<exists>before spec r later p a. task_runs (run_service_startup sample_orch 1 ''w'' 1 False False) sample_claimed
      (before @ Spawned ''w'' spec r # later) p a \<and>
    claim_checked ''w'' 1 before \<and> dep_seen ''d'' dependency_config_default before"
proof -
  obtain p a where run: "task_runs (run_service_startup sample_orch 1 ''w'' 1 False False) sample_claimed sample_trace p a"
    using sample_runs by blast
  obtain spec r where "Spawned ''w'' spec r \<in> set sample_trace" using sample_spawned by blast
  then obtain before later where tr: "sample_trace = before @ Spawned ''w'' spec r # later" by (meson split_list)
  have "list_all own sample_trace" using play_runs by (auto simp: sample_trace_def)
  then have "filter own sample_trace = before @ Spawned ''w'' spec r # later" by (simp add: tr list_all_iff filter_id_conv)
  from startup_under_claim [OF run disjI1 [OF refl] this]
  have "claim_checked ''w'' 1 before" "deps_seen (ca_config sample_claimed) ''w'' before" by auto
  moreover from this(2) have "dep_seen ''d'' dependency_config_default before"
    by (simp add: deps_seen_def sample_claimed_def new_actor_def sample_config_def hm_get_def dep_iter_def)
  ultimately show ?thesis using run unfolding tr by blast
qed

end
