(* ===== verification/Orchestrator_Halt.thy ===== *)
theory Orchestrator_Halt
  imports Orchestrator_Logic Deps_Order
begin

text \<open>
  An explicit stop on its own. While no other task works on the configuration, \<open>stop_services\<close> ends, leaves
  every requested service inactive, signals exactly the processes of the active ones, each once, and
  dependents before their dependencies.
\<close>

subsection \<open>Tasks that run alone\<close>

text \<open>The task ends, with a postcondition on what it did, its result and the actor; it neither panics nor waits for ever.\<close>

primrec alone :: "('k label list \<Rightarrow> 'a \<Rightarrow> config_actor \<Rightarrow> bool) \<Rightarrow> ('k, 'a) prog \<Rightarrow> 'k label list \<Rightarrow> config_actor \<Rightarrow> bool" where
  "alone Q (Done x) h a = Q h x a"
| "alone Q Waits h a = False"
| "alone Q Panics h a = False"
| "alone Q (Look k) h a = alone Q (k a) (h @ [Seen a]) a"
| "alone Q (Cmd c k) h a = (\<forall>io a' r. process_command io c a = (a', r) \<longrightarrow> alone Q (k r) (h @ [Sent c r]) a')"
| "alone Q (Act t k) h a = (\<forall>r. alone Q (k r) (h @ [Acted t r]) a)"
| "alone Q (Resolve ec u k) h a = (\<forall>r. alone Q (k r) (h @ [Evaluated ec r]) a)"
| "alone Q (NewToken ctx k) h a = (\<forall>r. alone Q (k r) (h @ [Minted ctx r]) a)"
| "alone Q (Spawn n spec k) h a = (\<forall>r. alone Q (k r) (h @ [Spawned n spec r]) a)"
| "alone Q (AwaitChange t k) h a = (\<forall>w. alone Q (k w) (h @ [Woken w]) a)"
| "alone Q (RunTasks s ts k) h a = (\<forall>rs. alone Q (k rs) (h @ [Ran ts rs]) a)"

lemma alone_andThen: "alone Q (andThen p f) h a = alone (\<lambda>h x a. alone Q (f x) h a) p h a"
  by (induction p arbitrary: h a) simp_all

lemma alone_mono:
  assumes "alone Q p h a" "\<And>h x a. Q h x a \<Longrightarrow> Q' h x a"
  shows "alone Q' p h a"
  using assms(1) by (induction p arbitrary: h a) (simp_all add: assms(2))

lemma alone_then:
  assumes "alone P p h a" "\<And>h x a. P h x a \<Longrightarrow> alone Q (f x) h a"
  shows "alone Q (andThen p f) h a"
  unfolding alone_andThen using assms by (rule alone_mono)

lemma alone_step:
  assumes "task_step p a l p' a'" "own l" "alone Q p h a"
  shows "alone Q p' (h @ [l]) a'"
  using assms by (cases rule: task_step.cases) auto

lemma alone_runs:
  assumes "task_runs p a tr p' a'" "list_all own tr" "alone Q p h a"
  shows "alone Q p' (h @ tr) a'"
  using assms
proof (induction rule: task_runs.induct)
  case (more p a tr p1 a1 l p2 a2)
  from alone_step [OF more.hyps(2), of Q "h @ tr"] more show ?case by simp
qed simp

subsection \<open>What a stop looks at\<close>

text \<open>The statuses and processes the actor holds, and the signals a history sent.\<close>

definition view :: "config_actor \<Rightarrow> (string \<rightharpoonup> service_status) \<times> (string \<rightharpoonup> nat)" where
  "view a = (status_of a, ca_processes a)"

definition signalled :: "'k label list \<Rightarrow> (nat \<times> int) list" where
  "signalled h = List.map_filter (\<lambda>l. case l of Acted (Terminate p s _) _ \<Rightarrow> Some (p, s) | _ \<Rightarrow> None) h"

lemma signalled_simps [simp]:
  "signalled [] = []" "signalled (h @ h') = signalled h @ signalled h'"
  "signalled [Seen a] = []" "signalled [Sent c r] = []" "signalled [Acted (Terminate p s g) ar] = [(p, s)]"
  by (simp_all add: signalled_def map_filter_def)

fun signals :: "task_act \<Rightarrow> bool" where
  "signals (Terminate _ _ _) = True"
| "signals _ = False"

lemma signalled_other [simp]: "\<not> signals t \<Longrightarrow> signalled [Acted t r] = []"
  by (cases t) (simp_all add: signalled_def map_filter_def)

lemma signalled_Cons [simp]:
  "signalled (Seen a # h) = signalled h" "signalled (Sent c r # h) = signalled h"
  "\<not> signals t \<Longrightarrow> signalled (Acted t ar # h) = signalled h"
  using signalled_other [of t ar] signalled_simps(2) [of "[Acted t ar]" h] by (simp_all add: signalled_def map_filter_def)

lemma processes_frame [simp]:
  "ca_processes (emit es a) = ca_processes a" "ca_processes (check_and_notify_ready a) = ca_processes a"
  "ca_processes (check_and_notify_quiescent io a) = ca_processes a" "ca_processes (saving io a) = ca_processes a"
  "ca_processes (notify_unhandled n st a) = ca_processes a" "ca_processes (recheck_signals io st a) = ca_processes a"
  "ca_processes (set_state n s a) = ca_processes a" "ca_processes (cancel_health_check n a) = ca_processes a"
  "ca_processes (advance_generation n old st a) = ca_processes a"
  by (simp_all add: emit_def check_and_notify_ready_def check_and_notify_quiescent_def compute_quiescence_def saving_def save_state_def
      notify_unhandled_def recheck_signals_def set_state_def cancel_health_check_def advance_generation_def Let_def
      split: option.splits sum.splits)

lemma services_frame [simp]:
  "ca_services (emit es a) = ca_services a" "ca_services (check_and_notify_ready a) = ca_services a"
  "ca_services (check_and_notify_quiescent io a) = ca_services a" "ca_services (saving io a) = ca_services a"
  "ca_services (notify_unhandled n st a) = ca_services a" "ca_services (recheck_signals io st a) = ca_services a"
  "ca_services (set_state n s a) = hm_set (ca_services a) n s" "ca_services (cancel_health_check n a) = ca_services a"
  "ca_services (advance_generation n old st a) = ca_services a"
  by (simp_all add: emit_def check_and_notify_ready_def check_and_notify_quiescent_def compute_quiescence_def saving_def save_state_def
      notify_unhandled_def recheck_signals_def set_state_def cancel_health_check_def advance_generation_def Let_def
      split: option.splits sum.splits)

lemma hm_get_contains: "hm_get m k = Some v \<Longrightarrow> hm_contains m k"
  by (force simp: hm_get_def hm_contains_def hm_keys_def dest: map_of_SomeD)

lemma view_status:
  assumes "process_command io (SetServiceStatus n st) a = (a', r)"
  shows "view a' = (if status_of a n = None then view a else ((status_of a)(n \<mapsto> st), ca_processes a))"
  using assms
  by (auto simp: view_def save_if_ok_def set_service_status_def status_of_def Let_def hm_get_set fun_eq_iff enter_status_def
      dest: hm_get_contains split: option.splits if_splits prod.splits)

lemma view_same:
  assumes "process_command io c a = (a', r)"
    and "c = CancelTaskHandle n \<or> c = SetServicePid n pid t \<or> c = ResetRestartCount n \<or> c = TakeMatchingTokenGuard n tok"
  shows "view a' = view a"
proof -
  have "view (fst (process_command io c a)) = view a"
    using assms(2)
    by (auto simp: view_def save_if_ok_def set_service_pid_def update_or_fail_def take_guard_def status_of_def hm_get_set fun_eq_iff
        split: option.splits prod.splits)
  then show ?thesis using assms(1) by simp
qed

lemma view_remove:
  assumes "process_command io (RemoveProcessHandle n) a = (a', r)"
  shows "view a' = (status_of a, (ca_processes a)(n := None)) \<and> r = RHandle (ca_processes a n)"
  using assms by (auto simp: view_def status_of_def)

text \<open>Parts that change nothing of this.\<close>

definition idle :: "('k, 'a) prog \<Rightarrow> bool" where
  "idle p = (\<forall>h a. alone (\<lambda>h' _ a'. signalled h' = signalled h \<and> view a' = view a) p h a)"

lemma idle_at:
  "idle p \<Longrightarrow> signalled h = sg \<Longrightarrow> view a = v \<Longrightarrow> alone (\<lambda>h' _ a'. signalled h' = sg \<and> view a' = v) p h a"
  by (auto simp: idle_def)

lemma idle_case:
  "(b \<Longrightarrow> idle p) \<Longrightarrow> (\<not> b \<Longrightarrow> idle q) \<Longrightarrow> idle (if b then p else q)"
  "(o1 = None \<Longrightarrow> idle p) \<Longrightarrow> (\<And>x. o1 = Some x \<Longrightarrow> idle (f1 x)) \<Longrightarrow> idle (case o1 of None \<Rightarrow> p | Some x \<Rightarrow> f1 x)"
  by (simp_all split: option.splits)

lemma idle_steps:
  "idle (Done x)" "(\<And>a. idle (k1 a)) \<Longrightarrow> idle (Look k1)" "\<not> signals t \<Longrightarrow> (\<And>r. idle (k2 r)) \<Longrightarrow> idle (Act t k2)"
  unfolding idle_def [where p = "Done x"] idle_def [where p = "Look k1"] idle_def [where p = "Act t k2"]
  by (auto intro!: idle_at)

lemma idle_cmd:
  assumes "c = CancelTaskHandle n \<or> c = SetServicePid n pid t \<or> c = ResetRestartCount n \<or> c = TakeMatchingTokenGuard n tok"
    and "\<And>r. idle (k r)"
  shows "idle (Cmd c k)"
  unfolding idle_def [where p = "Cmd c k"] using view_same [OF _ assms(1)] by (auto intro!: idle_at assms(2))

lemma idle_andThen:
  assumes "idle p" "\<And>x. idle (f x)"
  shows "idle (andThen p f)"
  unfolding idle_def [where p = "andThen p f"]
proof (intro allI)
  fix h a
  show "alone (\<lambda>h' _ a'. signalled h' = signalled h \<and> view a' = view a) (andThen p f) h a"
    using idle_at [OF assms(1) refl refl] by (rule alone_then) (use assms(2) in \<open>auto intro: idle_at\<close>)
qed

lemmas idle_rules = idle_steps idle_case idle_andThen

lemma idle_small [simp]:
  "\<not> signals t \<Longrightarrow> idle (perform t)" "idle (get_state n)" "idle (try_hook ctx n hook)"
  "idle (revoke_matching_service_token_guard n tok)" "idle (send (ResetRestartCount n))"
  "idle (send (CancelTaskHandle n))" "idle (send (SetServicePid n pid st))"
  by (auto simp: perform_def get_state_def try_hook_def run_service_hook_def revoke_matching_service_token_guard_def send_def
      intro!: idle_rules idle_cmd split: reply.splits option.splits)

subsection \<open>Stopping one service\<close>

definition active_in :: "(string \<rightharpoonup> service_status) \<Rightarrow> string \<Rightarrow> bool" where
  "active_in S n = (case S n of Some st \<Rightarrow> is_active st | None \<Rightarrow> False)"

lemma is_active_state_view: "is_active_state (hm_get (ca_services a) n) = active_in (fst (view a)) n"
  by (simp add: is_active_state_def active_in_def view_def status_of_def split: option.splits)

definition signal_of :: "int option \<Rightarrow> (string \<rightharpoonup> nat) \<Rightarrow> string \<Rightarrow> (nat \<times> int) list" where
  "signal_of signal P n = (case P n of Some p \<Rightarrow> [(p, case signal of Some s \<Rightarrow> s | None \<Rightarrow> 15)] | None \<Rightarrow> [])"

definition reached :: "(nat \<times> int) list \<Rightarrow> (string \<rightharpoonup> service_status) \<times> (string \<rightharpoonup> nat) \<Rightarrow> 'k label list \<Rightarrow> config_actor \<Rightarrow> bool" where
  "reached sg v h a = (signalled h = sg \<and> view a = v)"

lemma idle_reached: "idle p \<Longrightarrow> reached sg v h a \<Longrightarrow> alone (\<lambda>h _ a. reached sg v h a) p h a"
  unfolding reached_def by (rule idle_at) simp_all

lemma idle_then:
  assumes "idle p" "reached sg v h a" "\<And>x h a. reached sg v h a \<Longrightarrow> alone Q (f x) h a"
  shows "alone Q (andThen p f) h a"
  using idle_at [OF assms(1)] assms(2) by (intro alone_then [where P = "\<lambda>h _ a. reached sg v h a"]) (auto simp: reached_def assms(3))

lemma status_then:
  assumes "reached sg (S, P) h a" "S n \<noteq> None" "\<And>h a. reached sg (S(n \<mapsto> st), P) h a \<Longrightarrow> alone Q (f ()) h a"
  shows "alone Q (andThen (send (SetServiceStatus n st)) f) h a"
  using assms(1,2) view_status [of _ n st a] by (auto simp: send_def reached_def view_def intro!: assms(3))

lemma stop_service_alone:
  assumes "reached sg (S, P) h a" "S n \<noteq> None"
  shows "alone (\<lambda>h _ a. reached (sg @ signal_of signal P n) (S(n \<mapsto> Stopped), P(n := None)) h a) (stop_service n signal False grace) h a"
proof -
  have finish: "alone (\<lambda>h _ a. reached sg' (S(n \<mapsto> Stopped), P(n := None)) h a)
      (andThen (send (CancelTaskHandle n)) (\<lambda>_. andThen (perform (CancelWatcher n)) (\<lambda>_.
       andThen (send (SetServiceStatus n Stopped)) (\<lambda>_. send (SetServicePid n None None))))) h1 a1"
    if "reached sg' (S(n \<mapsto> Stopping), P(n := None)) h1 a1" for sg' h1 a1
  proof -
    have pid: "alone (\<lambda>h _ a. reached sg' (S(n \<mapsto> Stopped), P(n := None)) h a) (send (SetServicePid n None None)) h2 a2"
      if "reached sg' (S(n \<mapsto> Stopped), P(n := None)) h2 a2" for h2 a2
      using that by (rule idle_reached [rotated]) simp
    have "alone (\<lambda>h _ a. reached sg' (S(n \<mapsto> Stopped), P(n := None)) h a)
        (andThen (send (SetServiceStatus n Stopped)) (\<lambda>_. send (SetServicePid n None None))) h2 a2"
      if "reached sg' (S(n \<mapsto> Stopping), P(n := None)) h2 a2" for h2 a2
      using that by (rule status_then) (simp_all add: pid)
    then show ?thesis
      using that by (intro idle_then [where sg = sg' and v = "(S(n \<mapsto> Stopping), P(n := None))" and p = "send (CancelTaskHandle n)"]
        idle_then [where sg = sg' and v = "(S(n \<mapsto> Stopping), P(n := None))" and p = "perform (CancelWatcher n)"]) simp_all
  qed
  have remove: "alone Q (Cmd (RemoveProcessHandle n) k) h1 a1"
    if "reached sg (S(n \<mapsto> Stopping), P) h1 a1" "\<And>h2 a2. reached sg (S(n \<mapsto> Stopping), P(n := None)) h2 a2 \<Longrightarrow> alone Q (k (RHandle (P n))) h2 a2"
    for Q :: "'a label list \<Rightarrow> unit \<Rightarrow> config_actor \<Rightarrow> bool" and k h1 a1
    using that(1) view_remove [of _ n a1] by (auto simp: reached_def view_def intro!: that(2))
  have terminate: "alone Q (andThen (case RHandle (P n) of
         RHandle (Some h) \<Rightarrow> perform (Terminate h (case signal of Some s \<Rightarrow> s | None \<Rightarrow> 15) grace) | _ \<Rightarrow> Done ()) f) h1 a1"
    if "reached sg v h1 a1" "\<And>h2 a2. reached (sg @ signal_of signal P n) v h2 a2 \<Longrightarrow> alone Q (f ()) h2 a2" 
    for Q :: "'a label list \<Rightarrow> unit \<Rightarrow> config_actor \<Rightarrow> bool" and f v h1 a1
    using that(1) by (auto simp: reached_def perform_def signal_of_def intro!: that(2) split: option.splits)
  show ?thesis
    unfolding stop_service_def simp_thms if_True
    using assms(1) by (intro status_then [where S = S and n = n, OF _ assms(2)] remove terminate finish)
qed

lemma stop_one_alone:
  assumes "reached sg (S, P) h a"
  shows "alone (\<lambda>h x a. x = active_in S n \<and> (if active_in S n
      then reached (sg @ signal_of signal P n) (S(n \<mapsto> Stopped), P(n := None)) h a
      else reached sg (S, P) h a)) (stop_one signal n) h a"
proof (cases "active_in S n")
  case True
  then have some: "S n \<noteq> None" by (auto simp: active_in_def split: option.splits)
  have rest: "alone (\<lambda>h x a. x \<and> reached sg' v h a)
      (andThen (perform (CleanupCgroup n)) (\<lambda>_.
       andThen (case ctx of Some c \<Rightarrow> try_hook c n PostStop | None \<Rightarrow> Done ()) (\<lambda>_.
       andThen (send (ResetRestartCount n)) (\<lambda>_.
       andThen (revoke_matching_service_token_guard n (Option.bind ctx sc_token)) (\<lambda>_. Done True))))) h1 a1"
    if "reached sg' v h1 a1" for sg' v h1 a1 ctx
    using that
    by (intro idle_then [where sg = sg' and v = v and p = "perform (CleanupCgroup n)"]
        idle_then [where sg = sg' and v = v and p = "case ctx of Some c \<Rightarrow> try_hook c n PostStop | None \<Rightarrow> Done ()"]
        idle_then [where sg = sg' and v = v and p = "send (ResetRestartCount n)"]
        idle_then [where sg = sg' and v = v and p = "revoke_matching_service_token_guard n (Option.bind ctx sc_token)"])
      (auto intro!: idle_rules)
  have stop: "alone (\<lambda>h x a. x \<and> reached (sg @ signal_of signal P n) (S(n \<mapsto> Stopped), P(n := None)) h a)
      (andThen (stop_service n signal False grace) (\<lambda>_. andThen (perform (CleanupCgroup n)) (\<lambda>_.
       andThen (case ctx of Some c \<Rightarrow> try_hook c n PostStop | None \<Rightarrow> Done ()) (\<lambda>_.
       andThen (send (ResetRestartCount n)) (\<lambda>_.
       andThen (revoke_matching_service_token_guard n (Option.bind ctx sc_token)) (\<lambda>_. Done True)))))) h1 a1"
    if "reached sg (S, P) h1 a1" for h1 a1 ctx grace
    using stop_service_alone [OF that some] by (rule alone_then) (rule rest)
  have pre: "idle (case ctx of Some c \<Rightarrow> try_hook c n PreStop | None \<Rightarrow> Done ())" for ctx
    by (auto intro: idle_rules)
  have first: "alone Q (andThen (perform (EmitEvent n EvStop)) f) h1 a1 = (\<forall>r. alone Q (f ()) (h1 @ [Acted (EmitEvent n EvStop) r]) a1)"
    for Q :: "'a label list \<Rightarrow> bool \<Rightarrow> config_actor \<Rightarrow> bool" and f h1 a1
    by (simp add: perform_def)
  have "reached sg (S, P) (h @ [Seen a, Acted (EmitEvent n EvStop) r, Seen a]) a" for r
    using assms by (simp add: reached_def)
  note from_hook = idle_then [OF pre this stop]
  show ?thesis
    using True assms unfolding stop_one_def
    by (simp add: get_state_def is_active_state_view reached_def [of _ _ h] Let_def first) (intro allI, rule from_hook)
next
  case False
  then show ?thesis
    using assms by (simp add: stop_one_def get_state_def reached_def is_active_state_view)
qed

subsection \<open>Stopping all\<close>

definition signals_of :: "int option \<Rightarrow> (string \<rightharpoonup> nat) \<Rightarrow> string list \<Rightarrow> (nat \<times> int) list" where
  "signals_of signal P ns = concat (map (signal_of signal P) ns)"

definition halted :: "(string \<rightharpoonup> service_status) \<Rightarrow> string list \<Rightarrow> string \<rightharpoonup> service_status" where
  "halted S ns = (\<lambda>n. if n \<in> set ns \<and> active_in S n then Some Stopped else S n)"

definition dropped :: "(string \<rightharpoonup> service_status) \<Rightarrow> (string \<rightharpoonup> nat) \<Rightarrow> string list \<Rightarrow> string \<rightharpoonup> nat" where
  "dropped S P ns = (\<lambda>n. if n \<in> set ns \<and> active_in S n then None else P n)"

lemma stop_pass_alone:
  fixes h :: "'k label list"
  assumes "reached sg (S, P) h a" "distinct ns"
  shows "alone (\<lambda>h x a. x = filter (active_in S) ns \<and>
      reached (sg @ signals_of signal P (filter (active_in S) ns)) (halted S ns, dropped S P ns) h a) (stop_pass signal ns) h a"
  using assms
proof (induction ns arbitrary: sg S P h a)
  case Nil
  then show ?case by (simp add: signals_of_def halted_def dropped_def)
next
  case (Cons n ns)
  let ?S = "if active_in S n then S(n \<mapsto> Stopped) else S" and ?P = "if active_in S n then P(n := None) else P"
  let ?sg = "sg @ (if active_in S n then signal_of signal P n else [])"
  have act: "filter (active_in ?S) ns = filter (active_in S) ns" "\<And>m. m \<in> set ns \<Longrightarrow> ?P m = P m"
    using Cons.prems(2) by (auto simp: active_in_def intro!: filter_cong split: if_splits)
  have sig: "signals_of signal ?P (filter (active_in S) ns) = signals_of signal P (filter (active_in S) ns)"
    unfolding signals_of_def using act(2) by (intro arg_cong [where f = concat] map_cong) (auto simp: signal_of_def)
  have view: "halted ?S ns = halted S (n # ns)" "dropped ?S ?P ns = dropped S P (n # ns)"
    using Cons.prems(2) by (auto simp: halted_def dropped_def active_in_def is_active_def is_running_def fun_eq_iff split: option.splits)
  have one: "alone (\<lambda>h x a. x = active_in S n \<and> reached ?sg (?S, ?P) h a) (stop_one signal n) h a"
    using stop_one_alone [OF Cons.prems(1), of n signal] by (rule alone_mono) (auto split: if_splits)
  show ?case
    unfolding stop_pass.simps
  proof (rule alone_then [OF one])
    fix h1 :: "'k label list" and x a1 assume r: "x = active_in S n \<and> reached ?sg (?S, ?P) h1 a1"
    then have "alone (\<lambda>h y a. y = filter (active_in S) ns \<and>
        reached (?sg @ signals_of signal P (filter (active_in S) ns)) (halted S (n # ns), dropped S P (n # ns)) h a) (stop_pass signal ns) h1 a1"
      using Cons.IH [of ?sg ?S ?P h1 a1] Cons.prems(2) unfolding act(1) sig view by simp
    then show "alone (\<lambda>h x a. x = filter (active_in S) (n # ns) \<and>
        reached (sg @ signals_of signal P (filter (active_in S) (n # ns))) (halted S (n # ns), dropped S P (n # ns)) h a)
      (andThen (stop_pass signal ns) (\<lambda>rest. Done (if x then n # rest else rest))) h1 a1"
      by (rule alone_then) (use r in \<open>auto simp: signals_of_def split: if_splits\<close>)
  qed
qed

lemma none_active:
  assumes "\<And>n. n \<in> set ns \<Longrightarrow> \<not> active_in S n"
  shows "filter (active_in S) ns = []" "halted S ns = S" "dropped S P ns = P"
  using assms by (auto simp: halted_def dropped_def fun_eq_iff filter_empty_conv)

lemma any_active_none:
  assumes "reached sg (S, P) h a" "\<And>n. n \<in> set ns \<Longrightarrow> \<not> active_in S n"
  shows "alone (\<lambda>h x a. \<not> x \<and> reached sg (S, P) h a) (any_active ns) h a"
  using assms
proof (induction ns arbitrary: h)
  case (Cons n ns)
  moreover have "reached sg (S, P) (h @ [Seen a]) a" using Cons.prems(1) by (simp add: reached_def)
  ultimately show ?case by (simp add: get_state_def is_active_state_view reached_def)
qed simp

lemma stop_passes_idle:
  assumes "reached sg (S, P) h a" "distinct ns" "\<And>n. n \<in> set ns \<Longrightarrow> \<not> active_in S n"
  shows "alone (\<lambda>h x a. x = [] \<and> reached sg (S, P) h a) (stop_passes left pass signal ns) h a"
  using assms(1)
proof (induction left arbitrary: pass h a)
  case (Suc left)
  have pass: "alone (\<lambda>h x a. x = [] \<and> reached sg (S, P) h a) (stop_pass signal ns) h a"
    using stop_pass_alone [OF Suc.prems assms(2), of signal] by (simp add: none_active [OF assms(3)] signals_of_def)
  have settle: "alone (\<lambda>h x a. x = [] \<and> reached sg (S, P) h a)
      (andThen (perform (SleepFor 200000000)) (\<lambda>_. andThen (any_active ns) (\<lambda>active.
         if active then stop_passes left (Suc pass) signal ns else Done []))) h1 a1" if "reached sg (S, P) h1 a1" for h1 a1
  proof (rule idle_then [OF _ that])
    show "alone (\<lambda>h x a. x = [] \<and> reached sg (S, P) h a) (andThen (any_active ns) (\<lambda>active.
         if active then stop_passes left (Suc pass) signal ns else Done [])) h2 a2" if "reached sg (S, P) h2 a2" for h2 a2
      using any_active_none [OF that assms(3)] by (rule alone_then) auto
  qed simp
  show ?case
    unfolding stop_passes.simps using pass by (rule alone_then) (auto simp: settle)
qed simp

lemma halted_inactive: "n \<in> set ns \<Longrightarrow> \<not> active_in (halted S ns) n"
  by (auto simp: halted_def active_in_def is_active_def is_running_def split: option.splits)

lemma stop_passes_alone:
  assumes "reached sg (S, P) h a" "distinct ns"
  shows "alone (\<lambda>h x a. x = filter (active_in S) ns \<and>
      reached (sg @ signals_of signal P (filter (active_in S) ns)) (halted S ns, dropped S P ns) h a)
    (stop_passes (length ns) 0 signal ns) h a"
proof (cases ns)
  case Nil
  then show ?thesis using assms(1) by (simp add: signals_of_def halted_def dropped_def)
next
  case (Cons m ms)
  let ?Q = "\<lambda>h x a. x = filter (active_in S) ns \<and>
      reached (sg @ signals_of signal P (filter (active_in S) ns)) (halted S ns, dropped S P ns) h a"
  have again: "alone ?Q (andThen (stop_passes (length ms) 1 signal ns) (\<lambda>rest. Done (filter (active_in S) ns @ rest))) h1 a1"
    if "reached (sg @ signals_of signal P (filter (active_in S) ns)) (halted S ns, dropped S P ns) h1 a1" for h1 a1
    using stop_passes_idle [OF that assms(2) halted_inactive] by (rule alone_then) auto
  show ?thesis
    unfolding Cons list.size add_Suc_right stop_passes.simps
    unfolding Cons [symmetric]
    using stop_pass_alone [OF assms, of signal] by (rule alone_then) (use again in auto)
qed

definition stop_post ::
    "bool \<Rightarrow> int option \<Rightarrow> string list \<Rightarrow> (string \<rightharpoonup> service_status) \<Rightarrow> (string \<rightharpoonup> nat) \<Rightarrow> 'k label list \<Rightarrow> (orch_error, string) result \<Rightarrow> config_actor \<Rightarrow> bool" where
  "stop_post clean signal ns S P h r a = (r = Ok (stop_message clean (filter (active_in S) ns)) \<and>
     reached (signals_of signal P (filter (active_in S) ns)) (halted S ns, dropped S P ns) h a)"

lemma idle_for_each: "(\<And>x. idle (f x)) \<Longrightarrow> idle (for_each f xs)"
  by (induction xs) (auto intro: idle_rules)

lemma idle_cleanup: "idle (run_cleanup_hooks ns)"
proof -
  have "idle (cleanable ns)" by (induction ns) (auto intro!: idle_rules)
  then show ?thesis
    unfolding run_cleanup_hooks_def cleanup_hook_def by (auto intro!: idle_rules idle_for_each)
qed

lemma stop_services_alone:
  assumes "requested_services (ca_config a) services (get_stop_order (oc_partition_point oc) (kc_services (ca_config a))) = Ok ns" "distinct ns"
  shows "alone (stop_post clean signal ns (status_of a) (ca_processes a)) (stop_services oc services clean signal) [] a"
proof -
  let ?S = "status_of a" and ?P = "ca_processes a"
  let ?sg = "signals_of signal ?P (filter (active_in ?S) ns)" and ?v = "(halted ?S ns, dropped ?S ?P ns)"
  let ?stopped = "filter (active_in ?S) ns"
  have tidy: "idle (if services = [] \<and> clean then run_cleanup_hooks ns else Done ())"
    "idle (if \<not> (clean \<and> services = []) then for_each (\<lambda>n. if clears_on_stop config clean n then perform (ClearServiceLogs n) else Done ())
       (if services = [] then ns else ?stopped) else Done ())"
    "idle (if services = [] \<and> clean then andThen (perform RevokeForConfig) (\<lambda>_. andThen (perform UnloadConfig) (\<lambda>_. perform RemoveStateDir))
       else Done ())" for config
    by (auto intro!: idle_rules idle_for_each idle_cleanup)
  have start: "reached [] (?S, ?P) [Seen a] a" by (simp add: reached_def view_def)
  have quiet: "idle (if clean \<and> services = [] then perform DiscardLogs else Done ())" by (auto intro!: idle_rules)
  show ?thesis
    unfolding stop_services_def Let_def alone.simps assms(1) sum.case append_Nil
  proof (rule idle_then [OF quiet start], rule alone_then [OF stop_passes_alone [OF _ assms(2)]], assumption)
    fix h x b assume r: "x = ?stopped \<and> reached ([] @ ?sg) ?v h b"
    then show "alone (stop_post clean signal ns ?S ?P)
      (andThen (if services = [] \<and> clean then run_cleanup_hooks ns else Done ()) (\<lambda>_.
       andThen (if \<not> (clean \<and> services = []) then for_each (\<lambda>n. if clears_on_stop (ca_config a) clean n then perform (ClearServiceLogs n) else Done ())
           (if services = [] then ns else x) else Done ()) (\<lambda>_.
       andThen (if services = [] \<and> clean then andThen (perform RevokeForConfig) (\<lambda>_. andThen (perform UnloadConfig) (\<lambda>_. perform RemoveStateDir))
           else Done ()) (\<lambda>_. Done (Ok (stop_message clean x)))))) h b"
      by (elim conjE, hypsubst) (rule idle_then [OF tidy(1)], simp, rule idle_then [OF tidy(2)], assumption,
        rule idle_then [OF tidy(3)], assumption, simp add: stop_post_def)
  qed
qed

lemma requested_order:
  assumes "requested_services config services (get_stop_order pp (kc_services config)) = Ok ns"
    and "hm_wf (kc_services config)" "distinct services"
  shows "distinct ns"
    and "services = [] \<Longrightarrow> i < j \<Longrightarrow> j < length ns \<Longrightarrow> ns ! i \<notin> set (service_deps (kc_services config) (ns ! j))"
proof -
  have order: "distinct ns \<and> (\<forall>i < length ns. set (service_deps (kc_services config) (rev ns ! i)) \<subseteq> set (take i (rev ns)))"
    if "services = []"
  proof -
    from that assms(1) have "get_stop_order pp (kc_services config) = Ok ns"
      by (cases "get_stop_order pp (kc_services config)") (auto simp: requested_services_def map_err_def)
    then obtain order where "topological_sort pp (kc_services config) = Ok order" "ns = rev order"
      by (auto simp: get_stop_order_def bind_res_Ok_iff)
    with start_order_facts [OF assms(2), of pp order] show ?thesis by (simp add: get_start_order_def)
  qed
  then show "distinct ns" using assms by (auto simp: requested_services_def split: if_splits option.splits)
  assume empty: "services = []" and ij: "i < j" "j < length ns"
  from order [OF empty] have "set (service_deps (kc_services config) (rev ns ! (length ns - Suc j))) \<subseteq> set (take (length ns - Suc j) (rev ns))"
    using ij by simp
  then have "set (service_deps (kc_services config) (ns ! j)) \<subseteq> set (drop (Suc j) ns)"
    using ij by (simp add: rev_nth take_rev)
  moreover have "ns ! i \<notin> set (drop (Suc j) ns)"
    using order [OF empty] ij by (auto simp: in_set_conv_nth nth_eq_iff_index_eq)
  ultimately show "ns ! i \<notin> set (service_deps (kc_services config) (ns ! j))" by blast
qed

lemma play_final: "(\<exists>x. fst (snd (play e p a)) = Done x) \<or> fst (snd (play e p a)) = Waits \<or> fst (snd (play e p a)) = Panics"
  by (induction p arbitrary: a) (auto simp: logged_def Let_def split: prod.splits)

text \<open>A task that keeps the conditions of a run on its own can always be run to its end.\<close>

lemma alone_ends:
  assumes "alone Q p h a"
  shows "\<exists>tr r a'. task_runs p a tr (Done r) a' \<and> list_all own tr"
proof -
  let ?x = "play sample_answers p a"
  have x: "task_runs p a (fst ?x) (fst (snd ?x)) (snd (snd ?x))" "list_all own (fst ?x)" using play_runs by blast+
  then have "alone Q (fst (snd ?x)) (h @ fst ?x) (snd (snd ?x))" using alone_runs assms by blast
  then obtain r where "fst (snd ?x) = Done r" using play_final [of sample_answers p a] by auto
  then show ?thesis using x by metis
qed

text \<open>
  C8. A stop on its own. Without other tasks, \<open>stop_services\<close> never panics or waits for ever: from
  every point of a run it comes to an end, and there it reports exactly the requested services that were active; each requested service is then inactive and
  every other one has the status it had; the processes of the active ones, and no others, have been
  signalled, once each, in the order of the request; and the order for a whole configuration has
  every service before those it depends on.
\<close>

theorem stop_halts:
  assumes "task_runs (stop_services oc services clean signal) a tr p a'" "list_all own tr"
    and "requested_services (ca_config a) services (get_stop_order (oc_partition_point oc) (kc_services (ca_config a))) = Ok ns"
    and "hm_wf (kc_services (ca_config a))" "distinct services"
  shows "p \<noteq> Waits \<and> p \<noteq> Panics \<and> (\<exists>tr' r a''. task_runs p a' tr' (Done r) a'' \<and> list_all own tr') \<and> (\<forall>r. p = Done r \<longrightarrow>
      (let stopped = filter (\<lambda>n. is_active_state (hm_get (ca_services a) n)) ns
       in r = Ok (stop_message clean stopped) \<and>
          (\<forall>n \<in> set ns. \<not> is_active_state (hm_get (ca_services a') n)) \<and>
          (\<forall>n. n \<notin> set ns \<longrightarrow> status_of a' n = status_of a n) \<and>
          signalled tr = signals_of signal (ca_processes a) stopped)) \<and>
    (services = [] \<longrightarrow> (\<forall>i j. i < j \<longrightarrow> j < length ns \<longrightarrow> ns ! i \<notin> set (service_deps (kc_services (ca_config a)) (ns ! j))))"
proof -
  note order = requested_order [OF assms(3,4,5)]
  have at_end: "alone (stop_post clean signal ns (status_of a) (ca_processes a)) p tr a'"
    using alone_runs [OF assms(1,2) stop_services_alone [OF assms(3) order(1)]] by simp
  have active: "is_active_state (hm_get (ca_services b) n) = active_in (status_of b) n" for b n
    by (simp add: is_active_state_view view_def)
  from at_end have "p \<noteq> Waits" "p \<noteq> Panics" by auto
  moreover have "\<exists>tr' r a''. task_runs p a' tr' (Done r) a'' \<and> list_all own tr'" using alone_ends [OF at_end] .
  moreover have "r = Ok (stop_message clean (filter (active_in (status_of a)) ns)) \<and>
      status_of a' = halted (status_of a) ns \<and> signalled tr = signals_of signal (ca_processes a) (filter (active_in (status_of a)) ns)"
    if "p = Done r" for r
    using at_end that by (simp add: stop_post_def reached_def view_def)
  ultimately show ?thesis
    using order(2) halted_inactive by (auto simp: active Let_def) (auto simp: halted_def)
qed

definition sample_running :: config_actor where
  "sample_running = (new_actor sample_config
     [(''w'', service_state_default\<lparr>ss_status := Healthy\<rparr>), (''d'', service_state_default\<lparr>ss_status := Running\<rparr>)]
     True True True Map.empty Map.empty (Some 7))\<lparr>ca_processes := [''w'' \<mapsto> 3, ''d'' \<mapsto> 4]\<rparr>"

lemma sample_stop_order: "get_stop_order (oc_partition_point sample_orch) (kc_services sample_config) = Ok [''w'', ''d'']"
  by code_simp

theorem stop_halts_witness:
  "\<exists>tr a'. task_runs (stop_services sample_orch [] False None) sample_running tr (Done (Ok ''Stopped services: w, d'')) a' \<and>
    signalled tr = [(3, 15), (4, 15)] \<and> \<not> is_active_state (hm_get (ca_services a') ''w'')"
proof -
  let ?x = "play sample_answers (stop_services sample_orch [] False None) sample_running"
  have config: "ca_config sample_running = sample_config" by (simp add: sample_running_def new_actor_def)
  have wf: "hm_wf (kc_services (ca_config sample_running))"
    by (simp add: config sample_config_def hm_wf_def hm_keys_def)
  have req: "requested_services (ca_config sample_running) [] (get_stop_order (oc_partition_point sample_orch)
      (kc_services (ca_config sample_running))) = Ok [''w'', ''d'']"
    by (simp add: config requested_services_def sample_stop_order map_err_def)
  have active: "filter (\<lambda>n. is_active_state (hm_get (ca_services sample_running) n)) [''w'', ''d''] = [''w'', ''d'']"
    by (simp add: sample_running_def new_actor_def hm_get_def is_active_state_def is_active_def is_running_def)
  have msg: "stop_message False [''w'', ''d''] = ''Stopped services: w, d''" by code_simp
  have sig: "signals_of None (ca_processes sample_running) [''w'', ''d''] = [(3, 15), (4, 15)]"
    by (simp add: sample_running_def signals_of_def signal_of_def)
  have run: "task_runs (stop_services sample_orch [] False None) sample_running (fst ?x) (fst (snd ?x)) (snd (snd ?x))"
    "list_all own (fst ?x)" using play_runs by blast+
  note all = stop_halts [OF run req wf, unfolded active Let_def msg sig]
  then obtain r where r: "fst (snd ?x) = Done r"
    using play_final [of sample_answers "stop_services sample_orch [] False None" sample_running] by auto
  with all have "r = Ok ''Stopped services: w, d''" "signalled (fst ?x) = [(3, 15), (4, 15)]"
    "\<not> is_active_state (hm_get (ca_services (snd (snd ?x))) ''w'')" by auto
  with run(1) r show ?thesis by metis
qed

end
