(* ===== verification/Config_Validate.thy ===== *)
theory Config_Validate
  imports Deps_Order Permissions Auth
begin

text \<open>
  The check of a configuration that has been read (\<^verbatim>\<open>KeplerConfig::validate\<close> in
  \<^verbatim>\<open>config/mod.rs\<close>): names, commands, dependencies, restart and output settings, rights, log
  retention and health checks of every service, then the access rules and the global logs. All
  problems are collected and reported together.
\<close>

subsection \<open>Problems\<close>

datatype config_problem =
    EmptyServiceName
  | InvalidServiceName string
  | CommandAndRun string
  | NeitherCommandNorRun string
  | DependsOnUndefined string string
  | RestartProblem string restart_error
  | OutputNeedsNoRestart string
  | OutputsNeedNoRestart string
  | AllowProblem string rights_error
  | HardeningProblem string string
  | RetentionProblem string retention_error
  | HealthCommandAndRun string
  | HealthNeitherCommandNorRun string
  | AliasesProblem rights_error
  | UserRuleProblem string rights_error
  | GroupRuleProblem string rights_error
  | GlobalRetentionProblem retention_error

definition service_name_char :: "char \<Rightarrow> bool" where
  "service_name_char c = (97 \<le> (of_char c :: nat) \<and> (of_char c :: nat) \<le> 122 \<or> is_ascii_digit c \<or> c = CHR ''_'' \<or> c = CHR ''-'')"

definition validate_service_name :: "string \<Rightarrow> (config_problem, unit) result" where
  "validate_service_name name =
     (if name = [] then Err EmptyServiceName
      else if \<not> list_all service_name_char name then Err (InvalidServiceName name)
      else Ok ())"

text \<open>\<^verbatim>\<open>if let Err(e) = r { errors.push(f(e)) }\<close>\<close>

definition problem :: "('e \<Rightarrow> config_problem) \<Rightarrow> ('e, 'a) result \<Rightarrow> config_problem list" where
  "problem f r = (case r of Inl e \<Rightarrow> [f e] | Inr _ \<Rightarrow> [])"

definition one_of :: "bool \<Rightarrow> bool \<Rightarrow> config_problem \<Rightarrow> config_problem \<Rightarrow> config_problem list" where
  "one_of a b both neither = (if a \<and> b then [both] else if \<not> a \<and> \<not> b then [neither] else [])"

subsection \<open>Services\<close>

definition output_problems :: "string \<Rightarrow> raw_service_config \<Rightarrow> config_problem list" where
  "output_problems name raw =
     (let is_restart_no = is_no (policy (static_restart raw)) in
      (if as_static (rs_output raw) = Some (Some True) \<and> \<not> is_restart_no then [OutputNeedsNoRestart name] else []) @
      (if Option.bind (as_static (rs_outputs raw)) (\<lambda>x. x) \<noteq> None \<and> \<not> is_restart_no then [OutputsNeedNoRestart name] else []))"

definition permission_problems :: "string \<Rightarrow> raw_service_config \<Rightarrow> config_problem list" where
  "permission_problems name raw = (case rs_permissions raw of
      None \<Rightarrow> []
    | Some permissions \<Rightarrow>
        problem (AllowProblem name) (validate_rights (perm_allow permissions) []) @
        (case perm_hardening permissions of
           Some h \<Rightarrow> problem (\<lambda>_. HardeningProblem name h) (hardening_from_str h)
         | None \<Rightarrow> []))"

definition retention_problems :: "(retention_error \<Rightarrow> config_problem) \<Rightarrow> log_config option \<Rightarrow> config_problem list" where
  "retention_problems f logs = (case Option.bind logs log_retention_cfg of
      Some retention \<Rightarrow> problem f (retention_validate retention)
    | None \<Rightarrow> [])"

definition healthcheck_problems :: "string \<Rightarrow> raw_service_config \<Rightarrow> config_problem list" where
  "healthcheck_problems name raw = (case Option.bind (as_static (rs_healthcheck raw)) (\<lambda>h. h) of
      Some hc \<Rightarrow> one_of (hc_has_command hc) (hc_has_run hc) (HealthCommandAndRun name) (HealthNeitherCommandNorRun name)
    | None \<Rightarrow> [])"

definition service_problems :: "services \<Rightarrow> string \<times> raw_service_config \<Rightarrow> config_problem list" where
  "service_problems svs = (\<lambda>(name, raw).
     problem (\<lambda>e. e) (validate_service_name name) @
     one_of (has_command raw) (has_run raw) (CommandAndRun name) (NeitherCommandNorRun name) @
     map (DependsOnUndefined name) (filter (\<lambda>d. \<not> hm_contains svs d) (names (rs_depends_on raw))) @
     problem (RestartProblem name) (restart_validate (static_restart raw)) @
     output_problems name raw @
     permission_problems name raw @
     retention_problems (RetentionProblem name) (Option.bind (as_static (rs_logs raw)) (\<lambda>l. l)) @
     healthcheck_problems name raw)"

text \<open>The filters on exit codes that are only warned about: their condition does not look at them.\<close>

definition ineffective_exit_codes :: "raw_service_config \<Rightarrow> string list" where
  "ineffective_exit_codes raw = map fst (filter (\<lambda>(_, dep_config).
     dc_exit_code dep_config \<noteq> [] \<and> dc_condition dep_config \<notin> {ServiceFailed, ServiceStopped}) (dep_iter (rs_depends_on raw)))"

subsection \<open>The whole configuration\<close>

definition acl_problems :: "acl_config \<Rightarrow> config_problem list" where
  "acl_problems acl =
     problem AliasesProblem (validate_user_aliases (acl_aliases acl)) @
     concat (map (\<lambda>(key, rule). problem (UserRuleProblem key) (validate_rights (rule_allow rule) (acl_aliases acl))) (acl_users acl)) @
     concat (map (\<lambda>(key, rule). problem (GroupRuleProblem key) (validate_rights (rule_allow rule) (acl_aliases acl))) (acl_groups acl))"

definition config_problems :: "kepler_config \<Rightarrow> config_problem list" where
  "config_problems c =
     concat (map (service_problems (kc_services c)) (kc_services c)) @
     (case Option.bind (kc_kepler c) kg_acl of Some acl \<Rightarrow> acl_problems acl | None \<Rightarrow> []) @
     retention_problems GlobalRetentionProblem (global_logs c)"

definition validate :: "kepler_config \<Rightarrow> (config_problem list, unit) result" where
  "validate c = (let errors = config_problems c in if errors \<noteq> [] then Err errors else Ok ())"

subsection \<open>What the check guarantees\<close>

lemma problem_nil [simp]: "problem f r = [] \<longleftrightarrow> is_ok r"
  by (cases r) (simp_all add: problem_def)

lemma one_of_nil [simp]: "one_of a b x y = [] \<longleftrightarrow> a \<noteq> b"
  by (simp add: one_of_def)

lemma validate_Ok_iff: "validate c = Ok () \<longleftrightarrow> config_problems c = []"
  by (simp add: validate_def Let_def)

lemma is_ok_unit: "is_ok (r :: ('e, unit) result) \<longleftrightarrow> r = Ok ()"
  by (cases r) simp_all

lemma validated_service:
  assumes "validate c = Ok ()" "(n, raw) \<in> set (kc_services c)"
  shows "service_problems (kc_services c) (n, raw) = []"
  using assms by (auto simp: validate_Ok_iff config_problems_def)

lemma validated_name:
  assumes "validate c = Ok ()" "(n, raw) \<in> set (kc_services c)"
  shows "n \<noteq> []" "list_all service_name_char n"
  using validated_service [OF assms]
  by (auto simp: service_problems_def validate_service_name_def split: if_splits)

lemma validated_command:
  assumes "validate c = Ok ()" "(n, raw) \<in> set (kc_services c)"
  shows "has_command raw \<noteq> has_run raw"
  using validated_service [OF assms] by (simp add: service_problems_def)

lemma validated_deps:
  assumes "validate c = Ok ()" "hm_wf (kc_services c)"
  shows "deps_closed (kc_services c)"
proof -
  have "list_all (hm_contains (kc_services c)) (names (rs_depends_on raw))" if "(n, raw) \<in> set (kc_services c)" for n raw
    using validated_service [OF assms(1) that] by (auto simp: service_problems_def filter_empty_conv list_all_iff)
  then show ?thesis
    by (auto simp: deps_closed_def list_all_iff hm_keys_entry service_deps_entry [OF assms(2)])
qed

lemma validated_permissions:
  assumes "validate c = Ok ()" "(n, raw) \<in> set (kc_services c)" "rs_permissions raw = Some p"
  shows "is_ok (expand_allow (perm_allow p) [])" "\<And>h. perm_hardening p = Some h \<Longrightarrow> is_ok (hardening_from_str h)"
proof -
  have v: "permission_problems n raw = []" using validated_service [OF assms(1,2)] by (simp add: service_problems_def)
  then have "validate_rights (perm_allow p) [] = Ok ()" by (simp add: permission_problems_def assms(3) is_ok_unit)
  then show "is_ok (expand_allow (perm_allow p) [])"
    using validated_allow_expands [of "[]" "perm_allow p"] by (simp add: hm_wf_def hm_keys_def validate_user_aliases_def)
  show "is_ok (hardening_from_str h)" if "perm_hardening p = Some h" for h
    using v that by (simp add: permission_problems_def assms(3))
qed

lemma validated_acl:
  assumes "validate c = Ok ()" "Option.bind (kc_kepler c) kg_acl = Some acl" "hm_wf (acl_aliases acl)"
    and "(k, rule) \<in> set (acl_users acl) \<union> set (acl_groups acl)"
  shows "is_ok (expand_allow (rule_allow rule) (acl_aliases acl))"
proof -
  have "acl_problems acl = []" using assms(1,2) by (simp add: validate_Ok_iff config_problems_def)
  then have "validate_user_aliases (acl_aliases acl) = Ok ()" "validate_rights (rule_allow rule) (acl_aliases acl) = Ok ()"
    using assms(4) by (auto simp: acl_problems_def is_ok_unit)
  then show ?thesis using validated_allow_expands [OF assms(3)] by simp
qed

text \<open>A name that passes has no separator of a path, and is none of the directories a path can name.\<close>

lemma service_name_char_plain: "service_name_char x \<Longrightarrow> x \<noteq> CHR ''/'' \<and> x \<noteq> CHR ''.''"
  by (auto simp: service_name_char_def is_ascii_digit_def)

end
