(* ===== verification/Config_Load.thy ===== *)
theory Config_Load
  imports Config_Validate Orchestrator_Start
begin

text \<open>
  From the file to the settings of a process (\<^verbatim>\<open>config/mod.rs\<close>). \<open>load\<close> reads a configuration:
  limits and version, the global Lua block, the \<^verbatim>\<open>kepler\<close> section, the services with their eager
  fields, then the check of \<^verbatim>\<open>Config_Validate\<close>. \<open>resolve_service\<close> evaluates the settings of one
  service before it starts.

  Parameters are the Lua interpreter (with \<open>'env\<close> its environment tables and \<open>'l\<close> its state), the
  YAML parser and the derived deserializers, version constraints, and the file system. The \<^verbatim>\<open>hooks\<close>
  and the path of the env file, which the evaluation copies, are not part of the records.
\<close>

subsection \<open>Parameters\<close>

record ('f, 'env, 'l) lua_vm =
  vm_new :: "(string, 'l) result"
  vm_load_inline :: "string \<Rightarrow> 'l \<Rightarrow> (string, 'l) result"
  vm_evaluator :: "eval_ctx \<Rightarrow> ('f, 'env, 'l) lua_evaluator"
    \<comment> \<open>an environment table for the context, its sub-table of variables not frozen\<close>
  vm_mutable_table :: "eval_ctx \<Rightarrow> 'l \<Rightarrow> (string, 'env \<times> 'l) result"
  vm_raw_set :: "'env \<Rightarrow> string \<Rightarrow> string \<Rightarrow> 'l \<Rightarrow> (string, 'l) result"

datatype io_failure = IoNotFound | IoOther string

record ('f, 'v) loader =
  ld_metadata :: "(io_failure, nat) result"
  ld_read :: "(io_failure, string) result"
  ld_yaml :: "string \<Rightarrow> (string, 'f yaml) result"
  ld_version_req :: "string \<Rightarrow> (string, 'v \<Rightarrow> bool) result"
  ld_daemon_version :: "(string, 'v) result"
  ld_kepler :: "'f yaml \<Rightarrow> (string, kepler_global_config) result"
  ld_service :: "'f yaml \<Rightarrow> (string, raw_service_config) result"

record 'f serde =
  sv_string :: "'f yaml \<Rightarrow> (string, string) result"
  sv_string_opt :: "'f yaml \<Rightarrow> (string, string option) result"
  sv_path_opt :: "'f yaml \<Rightarrow> (string, string option) result"
  sv_strings :: "'f yaml \<Rightarrow> (string, string config_value list) result"
  sv_bool_opt :: "'f yaml \<Rightarrow> (string, bool option) result"
  sv_nat_opt :: "'f yaml \<Rightarrow> (string, nat option) result"
  sv_f64 :: "'f yaml \<Rightarrow> (string, f64) result"
  sv_healthcheck :: "'f yaml \<Rightarrow> (string, health_check option) result"
  sv_limits :: "'f yaml \<Rightarrow> (string, resource_limits option) result"
  sv_restart :: "'f yaml \<Rightarrow> (string, restart_config) result"
  sv_logs :: "'f yaml \<Rightarrow> (string, log_config option) result"

record host_files =
  hf_is_relative :: "string \<Rightarrow> bool"
  hf_join :: "string \<Rightarrow> string \<Rightarrow> string"
  hf_exists :: "string \<Rightarrow> bool"
    \<comment> \<open>the items of an env file, in its order, as the parser of such files yields them\<close>
  hf_dotenv :: "string \<Rightarrow> (string, (string, string \<times> string) result list) result"

subsection \<open>Reading a file\<close>

datatype load_error =
    ConfigNotFound
  | LoadInternal string
  | ConfigTooLarge nat
  | ConfigParse string
  | RootNotMapping
  | VersionNotString
  | InvalidVersionConstraint string string
  | VersionMismatch string
  | LuaBlockError string
  | LoadLuaError lua_error
  | ServicesNotMapping
  | UnknownRootField string
  | ServiceNameNotString
  | TaggedDependsOn string string
  | DynamicDependsOn string
  | ServiceFieldError string string
  | ConfigErrors "config_problem list"

definition MAX_CONFIG_FILE_SIZE :: nat where "MAX_CONFIG_FILE_SIZE = 10 * 1024 * 1024"

fun io_error :: "io_failure \<Rightarrow> load_error" where
  "io_error IoNotFound = ConfigNotFound"
| "io_error (IoOther e) = LoadInternal e"

text \<open>\<^verbatim>\<open>Mapping::remove\<close>: the last entry takes the place of the removed one.\<close>

definition ymap_remove :: "('f yaml \<times> 'f yaml) list \<Rightarrow> string \<Rightarrow> 'f yaml option \<times> ('f yaml \<times> 'f yaml) list" where
  "ymap_remove m key =
     (let pre = takeWhile (\<lambda>p. fst p \<noteq> YString key) m in
      case dropWhile (\<lambda>p. fst p \<noteq> YString key) m of
        [] \<Rightarrow> (None, m)
      | (k, v) # rest \<Rightarrow> (Some v, pre @ (if rest = [] then [] else last rest # butlast rest)))"

fun replace_mapping :: "'f yaml \<Rightarrow> ('f yaml \<times> 'f yaml) list \<Rightarrow> 'f yaml" where
  "replace_mapping (YMapping _) m = YMapping m"
| "replace_mapping (YTagged tag v) m = YTagged tag (replace_mapping v m)"
| "replace_mapping v m = v"

definition config_version :: "'f yaml option \<Rightarrow> (load_error, string option) result" where
  "config_version val = (case val of
      None \<Rightarrow> Ok None
    | Some (YString s) \<Rightarrow> Ok (Some s)
    | Some YNull \<Rightarrow> Ok None
    | Some _ \<Rightarrow> Err VersionNotString)"

text \<open>A constraint that begins with a digit asks for exactly that version.\<close>

definition check_version :: "('f, 'v) loader \<Rightarrow> string option \<Rightarrow> (load_error, unit) result" where
  "check_version ld version = (case version of
      None \<Rightarrow> Ok ()
    | Some constraint \<Rightarrow>
        let trimmed = trim constraint;
            req_str = (case trimmed of c # _ \<Rightarrow> if is_ascii_digit c then CHR ''='' # trimmed else trimmed | [] \<Rightarrow> trimmed)
        in bind_res (map_err (InvalidVersionConstraint constraint) (ld_version_req ld req_str)) (\<lambda>matches.
           bind_res (map_err LoadInternal (ld_daemon_version ld)) (\<lambda>daemon_version.
           if \<not> matches daemon_version then Err (VersionMismatch constraint) else Ok ())))"

text \<open>The evaluator of a load has the global Lua block loaded, as has the one made by \<^verbatim>\<open>create_lua_evaluator\<close>.\<close>

definition new_evaluator :: "('f, 'env, 'l) lua_vm \<Rightarrow> string option \<Rightarrow> (load_error, 'l) result" where
  "new_evaluator vm lua = bind_res (map_err LoadInternal (vm_new vm)) (\<lambda>l. case lua of
      None \<Rightarrow> Ok l
    | Some code \<Rightarrow> map_err LuaBlockError (vm_load_inline vm code l))"

definition create_lua_evaluator :: "('f, 'env, 'l) lua_vm \<Rightarrow> kepler_config \<Rightarrow> (load_error, 'l) result" where
  "create_lua_evaluator vm c = bind_res (map_err LoadInternal (vm_new vm)) (\<lambda>l. case kc_lua c of
      None \<Rightarrow> Ok l
    | Some code \<Rightarrow> map_err LoadInternal (vm_load_inline vm code l))"

text \<open>While the file is read, expressions see only the environment of the caller.\<close>

definition load_ctx :: "string \<Rightarrow> env_map \<Rightarrow> eval_ctx" where
  "load_ctx name sys_env = \<lparr>ec_name = name, ec_env_file = Map.empty, ec_env = sys_env, ec_initialized = None,
     ec_restart_count = None, ec_restart_count_since_healthy = None, ec_exit_code = None, ec_status = None,
     ec_deps = [], ec_owner = None, ec_hardening = HNone, ec_kepler_env = sys_env, ec_kepler_flags = Map.empty,
     ec_kepler_env_denied = False\<rparr>"

definition process_lua_scripts ::
    "('f, 'env, 'l) lua_vm \<Rightarrow> env_map \<Rightarrow> 'f yaml \<Rightarrow> 'l \<Rightarrow> (lua_error, 'f yaml \<times> 'l) result" where
  "process_lua_scripts vm sys_env value l = (case value of
      YMapping m \<Rightarrow> (case map_of m (YString ''kepler'') of
          Some (YMapping kepler_map) \<Rightarrow> (case map_of kepler_map (YString ''logs'') of
              Some logs_value \<Rightarrow>
                bind_res (evaluate_value_tree (vm_evaluator vm (load_ctx [] sys_env)) logs_value ''kepler.logs'' l)
                  (\<lambda>(logs', l'). Ok (YMapping (ymap_insert m (YString ''kepler'')
                      (YMapping (ymap_insert kepler_map (YString ''logs'') logs'))), l'))
            | None \<Rightarrow> Ok (value, l))
        | _ \<Rightarrow> Ok (value, l))
    | _ \<Rightarrow> Ok (value, l))"

subsection \<open>The eager fields of a service\<close>

definition expand_env_file ::
    "('f, 'env, 'l) lua_vm \<Rightarrow> env_map \<Rightarrow> ('f yaml \<times> 'f yaml) list \<Rightarrow> 'l \<Rightarrow>
     (load_error, ('f yaml \<times> 'f yaml) list \<times> 'l) result" where
  "expand_env_file vm sys_env mapping l =
     (case Option.bind (map_of mapping (YString ''env_file'')) yaml_as_str of
        Some ef \<Rightarrow>
          if contains_sub ''${{'' ef then
            (let ev = vm_evaluator vm (load_ctx [] sys_env) in
             bind_res (map_err LoadLuaError (map_err EnvBuildError (prepare_env ev l))) (\<lambda>(env, l1).
             bind_res (map_err LoadLuaError (evaluate_tokens_to_string ef ev env ''env_file'' l1)) (\<lambda>(expanded, l2).
             Ok (ymap_insert mapping (YString ''env_file'') (YString expanded), l2))))
          else Ok (mapping, l)
      | None \<Rightarrow> Ok (mapping, l))"

fun evaluate_dep_configs ::
    "('f, 'env, 'l) lua_evaluator \<Rightarrow> string \<Rightarrow> ('f yaml \<times> 'f yaml) list \<Rightarrow> 'l \<Rightarrow>
     (lua_error, ('f yaml \<times> 'f yaml) list \<times> 'l) result" where
  "evaluate_dep_configs ev field_path [] l = Ok ([], l)"
| "evaluate_dep_configs ev field_path ((k, config_val) # m) l =
     bind_res (if yaml_as_mapping config_val \<noteq> None then evaluate_value_tree ev config_val field_path l
               else Ok (config_val, l)) (\<lambda>(v, l1).
     bind_res (evaluate_dep_configs ev field_path m l1) (\<lambda>(m', l2). Ok ((k, v) # m', l2)))"

fun evaluate_dep_list ::
    "('f, 'env, 'l) lua_evaluator \<Rightarrow> string \<Rightarrow> 'f yaml list \<Rightarrow> 'l \<Rightarrow> (lua_error, 'f yaml list \<times> 'l) result" where
  "evaluate_dep_list ev field_path [] l = Ok ([], l)"
| "evaluate_dep_list ev field_path (entry # xs) l =
     bind_res (case entry of
         YMapping em \<Rightarrow> bind_res (evaluate_dep_configs ev field_path em l) (\<lambda>(m, l1). Ok (YMapping m, l1))
       | _ \<Rightarrow> Ok (entry, l)) (\<lambda>(x, l1).
     bind_res (evaluate_dep_list ev field_path xs l1) (\<lambda>(xs', l2). Ok (x # xs', l2)))"

text \<open>The names of dependencies are static; only the settings of a dependency are evaluated.\<close>

definition expand_depends_on ::
    "('f, 'env, 'l) lua_vm \<Rightarrow> env_map \<Rightarrow> string \<Rightarrow> ('f yaml \<times> 'f yaml) list \<Rightarrow> 'l \<Rightarrow>
     (load_error, ('f yaml \<times> 'f yaml) list \<times> 'l) result" where
  "expand_depends_on vm sys_env name mapping l =
     (let key = YString ''depends_on''; field_path = name @ ''.depends_on'';
          ev = vm_evaluator vm (load_ctx name sys_env);
          put = (\<lambda>r. bind_res (map_err LoadLuaError r) (\<lambda>(v, l1). Ok (ymap_insert mapping key v, l1)))
      in case map_of mapping key of
           None \<Rightarrow> Ok (mapping, l)
         | Some (YTagged tag _) \<Rightarrow> Err (TaggedDependsOn field_path tag)
         | Some (YString s) \<Rightarrow> if contains_sub ''${{'' s then Err (DynamicDependsOn field_path) else Ok (mapping, l)
         | Some (YMapping dep_map) \<Rightarrow> put (bind_res (evaluate_dep_configs ev field_path dep_map l) (\<lambda>(m, l1). Ok (YMapping m, l1)))
         | Some (YSequence seq) \<Rightarrow> put (bind_res (evaluate_dep_list ev field_path seq l) (\<lambda>(xs, l1). Ok (YSequence xs, l1)))
         | Some _ \<Rightarrow> Ok (mapping, l))"

definition expand_service ::
    "('f, 'env, 'l) lua_vm \<Rightarrow> env_map \<Rightarrow> string \<Rightarrow> 'f yaml \<Rightarrow> 'l \<Rightarrow> (load_error, 'f yaml \<times> 'l) result" where
  "expand_service vm sys_env name v l = (case yaml_as_mapping v of
      None \<Rightarrow> Ok (v, l)
    | Some mapping \<Rightarrow>
        bind_res (expand_env_file vm sys_env mapping l) (\<lambda>(mapping1, l1).
        bind_res (expand_depends_on vm sys_env name mapping1 l1) (\<lambda>(mapping2, l2).
        Ok (replace_mapping v mapping2, l2))))"

definition hm_insert :: "('k, 'v) hmap \<Rightarrow> 'k \<Rightarrow> 'v \<Rightarrow> ('k, 'v) hmap" where
  "hm_insert m k v = (if hm_contains m k then hm_set m k v else m @ [(k, v)])"

definition load_service ::
    "('f, 'v) loader \<Rightarrow> ('f, 'env, 'l) lua_vm \<Rightarrow> env_map \<Rightarrow> services \<times> 'l \<Rightarrow> 'f yaml \<times> 'f yaml \<Rightarrow>
     (load_error, services \<times> 'l) result" where
  "load_service ld vm sys_env = (\<lambda>(services, l) (key, v).
     bind_res (ok_or ServiceNameNotString (yaml_as_str key)) (\<lambda>name.
     bind_res (expand_service vm sys_env name v l) (\<lambda>(v', l').
     bind_res (map_err (ServiceFieldError name) (ld_service ld v')) (\<lambda>raw_config.
     Ok (hm_insert services name raw_config, l')))))"

text \<open>A key that is no string passes the check for unknown fields.\<close>

definition check_root_fields :: "('f yaml \<times> 'f yaml) list \<Rightarrow> (load_error, unit) result" where
  "check_root_fields m = try_fold (\<lambda>_ p. case yaml_as_str (fst p) of
      Some key \<Rightarrow> Err (UnknownRootField key) | None \<Rightarrow> Ok ()) () m"

text \<open>From the \<^verbatim>\<open>kepler\<close> section on.\<close>

definition load_sections ::
    "('f, 'v) loader \<Rightarrow> ('f, 'env, 'l) lua_vm \<Rightarrow> env_map \<Rightarrow> string option \<Rightarrow> string option \<Rightarrow>
     ('f yaml \<times> 'f yaml) list \<Rightarrow> 'l \<Rightarrow> (load_error, kepler_config) result" where
  "load_sections ld vm sys_env version lua m l =
     (let (kepler_value, m1) = ymap_remove m ''kepler'' in
      bind_res (case kepler_value of
         None \<Rightarrow> Ok None
       | Some v \<Rightarrow> bind_res (map_err ConfigParse (ld_kepler ld v)) (\<lambda>k. Ok (Some k))) (\<lambda>kepler.
      let (services_value, m2) = ymap_remove m1 ''services'' in
      bind_res (ok_or ServicesNotMapping (yaml_as_mapping (unwrap_or services_value (YMapping [])))) (\<lambda>services_mapping.
      bind_res (check_root_fields m2) (\<lambda>_.
      bind_res (try_fold (load_service ld vm sys_env) ([], l) services_mapping) (\<lambda>(services, l').
      let config = \<lparr>kc_version = version, kc_lua = lua, kc_kepler = kepler, kc_services = services\<rparr> in
      bind_res (map_err ConfigErrors (validate config)) (\<lambda>_. Ok config))))))"

definition load ::
    "('f, 'v) loader \<Rightarrow> ('f, 'env, 'l) lua_vm \<Rightarrow> env_map \<Rightarrow> (load_error, kepler_config) result" where
  "load ld vm sys_env =
     bind_res (map_err io_error (ld_metadata ld)) (\<lambda>len.
     if len > MAX_CONFIG_FILE_SIZE then Err (ConfigTooLarge len) else
     bind_res (map_err io_error (ld_read ld)) (\<lambda>contents.
     bind_res (map_err ConfigParse (ld_yaml ld contents)) (\<lambda>root.
     bind_res (ok_or RootNotMapping (yaml_as_mapping root)) (\<lambda>m0.
     let (version_value, m1) = ymap_remove m0 ''version'' in
     bind_res (config_version version_value) (\<lambda>version.
     bind_res (check_version ld version) (\<lambda>_.
     let (lua_value, m2) = ymap_remove m1 ''lua''; lua = Option.bind lua_value yaml_as_str in
     bind_res (new_evaluator vm lua) (\<lambda>l.
     bind_res (if contains_sub ''!lua'' contents \<or> contains_sub ''${{'' contents
               then map_err LoadLuaError (process_lua_scripts vm sys_env (replace_mapping root m2) l)
               else Ok (replace_mapping root m2, l)) (\<lambda>(root', l').
     bind_res (ok_or RootNotMapping (yaml_as_mapping root')) (\<lambda>m3.
     load_sections ld vm sys_env version lua m3 l')))))))))"

subsection \<open>What a loaded configuration is\<close>

lemma hm_set_keys: "hm_keys (hm_set m k v) = hm_keys m"
  by (auto simp: hm_keys_def hm_set_def)

lemma hm_insert_wf: "hm_wf m \<Longrightarrow> hm_wf (hm_insert m k v)"
  by (simp add: hm_insert_def hm_wf_def hm_contains_def hm_set_keys) (simp add: hm_keys_def)

lemma hm_wf_Nil: "hm_wf []"
  by (simp add: hm_wf_def hm_keys_def)

lemma load_services_wf:
  assumes "try_fold (load_service ld vm sys_env) (svs, l) ps = Ok (svs', l')" "hm_wf svs"
  shows "hm_wf svs'"
  using assms
proof (induction ps arbitrary: svs l)
  case (Cons p ps)
  obtain svs1 l1 where s: "load_service ld vm sys_env (svs, l) p = Ok (svs1, l1)"
      "try_fold (load_service ld vm sys_env) (svs1, l1) ps = Ok (svs', l')"
    using Cons.prems(1) by (auto split: sum.splits)
  have "hm_wf svs1"
    using s(1) Cons.prems(2) by (auto simp: load_service_def bind_res_Ok_iff hm_insert_wf split: prod.splits)
  then show ?case using Cons.IH s(2) by blast
qed simp

text \<open>A configuration comes out of \<^const>\<open>load\<close> only through the check.\<close>

lemma load_sections_OkD:
  assumes "load_sections ld vm sys_env version lua m l = Ok c"
  shows "validate c = Ok ()" "hm_wf (kc_services c)" "\<And>k. kc_kepler c = Some k \<Longrightarrow> \<exists>v. ld_kepler ld v = Ok k"
  using assms
  by (auto simp: load_sections_def bind_res_Ok_iff case_prod_beta Let_def
      dest!: load_services_wf [OF _ hm_wf_Nil] split: option.splits)

lemma load_OkD:
  assumes "load ld vm sys_env = Ok c"
  obtains version lua m l where "load_sections ld vm sys_env version lua m l = Ok c"
  using assms by (auto simp: load_def bind_res_Ok_iff Let_def case_prod_beta split: if_splits)

lemma validated_token:
  assumes "validate c = Ok ()" "(n, raw) \<in> set (kc_services c)" "rs_permissions raw = Some p"
  shows "is_ok (token_allow oc p)" "is_ok (token_max_hardening oc p)"
  using validated_permissions [OF assms]
  by (auto simp: token_allow_def token_max_hardening_def is_ok_iff split: option.splits)

text \<open>
  C10. A configuration that loads is well formed for everything that later uses it, whatever the
  file, the parser and the Lua code do: service names are distinct, not empty and free of path
  separators and dots; every service has exactly one of \<^verbatim>\<open>command\<close> and \<^verbatim>\<open>run\<close>; the start order can
  fail only on a cycle; making the token of a service fails neither on its rights nor on its
  hardening level; the rights of every access rule expand. The access lists have distinct keys, as
  hash maps have.
\<close>

theorem load_well_formed:
  assumes "load ld vm sys_env = Ok c"
    and "\<And>v k acl. ld_kepler ld v = Ok k \<Longrightarrow> kg_acl k = Some acl \<Longrightarrow> hm_wf (acl_aliases acl)"
  shows "hm_wf (kc_services c) \<and>
    (\<forall>(n, raw) \<in> set (kc_services c). n \<noteq> [] \<and> CHR ''/'' \<notin> set n \<and> CHR ''.'' \<notin> set n \<and>
        has_command raw \<noteq> has_run raw \<and>
        (\<forall>p oc. rs_permissions raw = Some p \<longrightarrow> is_ok (token_allow oc p) \<and> is_ok (token_max_hardening oc p))) \<and>
    is_ok (get_start_order pp (kc_services c)) = acyclic (dep_rel (kc_services c)) \<and>
    (\<forall>acl. Option.bind (kc_kepler c) kg_acl = Some acl \<longrightarrow>
        (\<forall>(k, rule) \<in> set (acl_users acl) \<union> set (acl_groups acl). is_ok (expand_allow (rule_allow rule) (acl_aliases acl))))"
proof -
  obtain version lua m l where s: "load_sections ld vm sys_env version lua m l = Ok c" using assms(1) by (rule load_OkD)
  note c = load_sections_OkD [OF s]
  have "n \<noteq> [] \<and> CHR ''/'' \<notin> set n \<and> CHR ''.'' \<notin> set n \<and> has_command raw \<noteq> has_run raw"
    if "(n, raw) \<in> set (kc_services c)" for n raw
    using validated_name [OF c(1) that] validated_command [OF c(1) that] service_name_char_plain
    by (auto simp: list_all_iff)
  moreover have "is_ok (token_allow oc p) \<and> is_ok (token_max_hardening oc p)"
    if "(n, raw) \<in> set (kc_services c)" "rs_permissions raw = Some p" for n raw p and oc :: "'g orch"
    using validated_token [OF c(1) that] by blast
  moreover have "is_ok (get_start_order pp (kc_services c)) = acyclic (dep_rel (kc_services c))"
    using topological_sort_Ok_iff [OF c(2)] validated_deps [OF c(1,2)] by (simp add: get_start_order_def)
  moreover have "is_ok (expand_allow (rule_allow rule) (acl_aliases acl))"
    if "Option.bind (kc_kepler c) kg_acl = Some acl" "(k, rule) \<in> set (acl_users acl) \<union> set (acl_groups acl)" for acl k rule
    using validated_acl [OF c(1) that(1) _ that(2)] that(1) c(3) assms(2) by (auto simp: bind_eq_Some_conv)
  ultimately show ?thesis using c(2) by blast
qed

text \<open>A file with two services, the second after the first.\<close>

definition idle_vm :: "(unit, unit, unit) lua_vm" where
  "idle_vm = \<lparr>vm_new = Ok (), vm_load_inline = (\<lambda>_ _. Ok ()),
     vm_evaluator = (\<lambda>_. \<lparr>prepare_env = (\<lambda>_. Ok ((), ())), eval_inline_expr_with_env = (\<lambda>_ _ _ _. Ok (LuaNil, ())),
       eval_with_env = (\<lambda>_ _ _ _. Ok (LuaNil, ())), show_number = (\<lambda>_. []), lossy_string = (\<lambda>s. s)\<rparr>),
     vm_mutable_table = (\<lambda>_ _. Ok ((), ())), vm_raw_set = (\<lambda>_ _ _ _. Ok ())\<rparr>"

definition sample_raw :: "depends_on \<Rightarrow> raw_service_config" where
  "sample_raw deps = raw_service_config_default\<lparr>rs_run := Static (Some ''true''), rs_depends_on := deps,
     rs_permissions := Some \<lparr>perm_allow = [''status''], perm_hardening = Some ''strict'', perm_authorize = None\<rparr>\<rparr>"

definition sample_loader :: "(unit, unit) loader" where
  "sample_loader = \<lparr>ld_metadata = Ok 40, ld_read = Ok ''services: {db: , web: true}'',
     ld_yaml = (\<lambda>_. Ok (YMapping [(YString ''services'', YMapping [(YString ''db'', YNull), (YString ''web'', YBool True)])])),
     ld_version_req = (\<lambda>_. Ok (\<lambda>_. True)), ld_daemon_version = Ok (), ld_kepler = (\<lambda>_. Err ''unused''),
     ld_service = (\<lambda>v. Ok (sample_raw (if v = YNull then [] else [DepSimple ''db''])))\<rparr>"

definition sample_loaded :: kepler_config where
  "sample_loaded = \<lparr>kc_version = None, kc_lua = None, kc_kepler = None,
     kc_services = [(''db'', sample_raw []), (''web'', sample_raw [DepSimple ''db''])]\<rparr>"

lemma sample_sections:
  "load_sections sample_loader idle_vm Map.empty None None
     [(YString ''services'', YMapping [(YString ''db'', YNull), (YString ''web'', YBool True)])] () =
   Ok sample_loaded"
  by code_simp

lemma sample_load:
  "load sample_loader idle_vm Map.empty = Ok sample_loaded"
proof -
  have "\<not> contains_sub ''!lua'' ''services: {db: , web: true}''" "\<not> contains_sub ''${{'' ''services: {db: , web: true}''"
    by code_simp+
  then show ?thesis
    using sample_sections
    by (simp add: load_def sample_loader_def idle_vm_def ymap_remove_def config_version_def check_version_def
        new_evaluator_def MAX_CONFIG_FILE_SIZE_def)
qed

theorem load_well_formed_witness:
  "load sample_loader idle_vm Map.empty = Ok sample_loaded \<and> length (kc_services sample_loaded) = 2 \<and>
     hm_wf (kc_services sample_loaded) \<and>
     is_ok (get_start_order std_partition_point (kc_services sample_loaded)) = acyclic (dep_rel (kc_services sample_loaded))"
proof -
  have "hm_wf (acl_aliases acl)" if "ld_kepler sample_loader v = Ok k" for v k and acl :: acl_config
    using that by (simp add: sample_loader_def)
  then have "hm_wf (kc_services sample_loaded) \<and>
      is_ok (get_start_order std_partition_point (kc_services sample_loaded)) = acyclic (dep_rel (kc_services sample_loaded))"
    using load_well_formed [OF sample_load, where pp = std_partition_point] by blast
  moreover have "length (kc_services sample_loaded) = 2" by (simp add: sample_loaded_def)
  ultimately show ?thesis using sample_load by blast
qed

end
