(* ===== verification/Config_Resolve.thy ===== *)
theory Config_Resolve
  imports Config_Load Orchestrator_Logic
begin

text \<open>
  The evaluation of the settings of a service before it starts (\<^verbatim>\<open>resolve_service\<close> in
  \<^verbatim>\<open>config/mod.rs\<close>): the env file, the environment entry by entry, then every other field over one
  table of the interpreter that is no longer written. The lemmas show that the variables the
  expressions see are the variables of the process.
\<close>

subsection \<open>Prepared environments\<close>

record 'env prepared_env =
  pe_table :: 'env
  pe_permanently_frozen :: bool

definition prepare_env_mutable ::
    "('f, 'env, 'l) lua_vm \<Rightarrow> eval_ctx \<Rightarrow> 'l \<Rightarrow> (string, 'env prepared_env \<times> 'l) result" where
  "prepare_env_mutable vm ctx l = bind_res (vm_mutable_table vm ctx l) (\<lambda>(table, l').
     Ok (\<lparr>pe_table = table, pe_permanently_frozen = False\<rparr>, l'))"

definition set_env ::
    "('f, 'env, 'l) lua_vm \<Rightarrow> 'env prepared_env \<Rightarrow> string \<Rightarrow> string \<Rightarrow> 'l \<Rightarrow> (string, 'l) result" where
  "set_env vm prepared key v l =
     (if pe_permanently_frozen prepared then Err ''env table is permanently frozen''
      else vm_raw_set vm (pe_table prepared) key v l)"

definition freeze_env :: "'env prepared_env \<Rightarrow> 'env prepared_env" where
  "freeze_env prepared = prepared\<lparr>pe_permanently_frozen := True\<rparr>"

subsection \<open>Fields\<close>

datatype service_error =
    ServiceNotFound string
  | FieldError string resolve_error
  | EnvironmentError env_error
  | EnvTableError string
  | EnvFileError string

text \<open>The shell of a \<^verbatim>\<open>run\<close> script.\<close>

definition resolve_shell :: "host_files \<Rightarrow> env_map \<Rightarrow> string" where
  "resolve_shell hf env = (case env ''SHELL'' of
      Some shell \<Rightarrow> if shell \<noteq> [] then shell
        else if hf_exists hf ''/bin/bash'' then ''/bin/bash'' else ''sh''
    | None \<Rightarrow> if hf_exists hf ''/bin/bash'' then ''/bin/bash'' else ''sh'')"

definition wrap_vec :: "'a list \<Rightarrow> 'a config_value list" where
  "wrap_vec v = map Static v"

definition field ::
    "('f, 'env, 'l) lua_evaluator \<Rightarrow> ('f yaml \<Rightarrow> (string, 'a) result) \<Rightarrow> string \<Rightarrow> 'a config_value \<Rightarrow>
     'env option \<times> 'l \<Rightarrow> (service_error, 'a \<times> ('env option \<times> 'l)) result" where
  "field ev from_value path v st = map_err (FieldError path) (resolve_with_env from_value v ev path st)"

fun resolve_items ::
    "('f, 'env, 'l) lua_evaluator \<Rightarrow> ('f yaml \<Rightarrow> (string, 'a) result) \<Rightarrow> string \<Rightarrow> nat \<Rightarrow> 'a config_value list \<Rightarrow>
     'env option \<times> 'l \<Rightarrow> (service_error, 'a list \<times> ('env option \<times> 'l)) result" where
  "resolve_items ev from_value path i [] st = Ok ([], st)"
| "resolve_items ev from_value path i (item # items) st =
     bind_res (field ev from_value (path @ ''['' @ show_nat i @ '']'') item st) (\<lambda>(x, st1).
     bind_res (resolve_items ev from_value path (i + 1) items st1) (\<lambda>(xs, st2). Ok (x # xs, st2)))"

text \<open>A list whose elements, or which itself, may be dynamic.\<close>

definition resolve_nested_vec ::
    "('f, 'env, 'l) lua_evaluator \<Rightarrow> ('f yaml \<Rightarrow> (string, 'a config_value list) result) \<Rightarrow> ('f yaml \<Rightarrow> (string, 'a) result) \<Rightarrow>
     string \<Rightarrow> 'a config_value list config_value \<Rightarrow> 'env option \<times> 'l \<Rightarrow> (service_error, 'a list \<times> ('env option \<times> 'l)) result" where
  "resolve_nested_vec ev from_list from_value path cv st =
     bind_res (field ev from_list path cv st) (\<lambda>(items, st1). resolve_items ev from_value path 0 items st1)"

abbreviation strings ::
    "'f serde \<Rightarrow> ('f, 'env, 'l) lua_evaluator \<Rightarrow> string \<Rightarrow> string config_value list config_value \<Rightarrow>
     'env option \<times> 'l \<Rightarrow> (service_error, string list \<times> ('env option \<times> 'l)) result" where
  "strings sv ev \<equiv> resolve_nested_vec ev (sv_strings sv) (sv_string sv)"

subsection \<open>Env file and environment\<close>

definition load_env_file :: "host_files \<Rightarrow> string \<Rightarrow> (string, env_map) result" where
  "load_env_file hf path =
     (if \<not> hf_exists hf path then Err ''env file not found''
      else bind_res (hf_dotenv hf path) (\<lambda>items.
        try_fold (\<lambda>env item. bind_res item (\<lambda>(key, v). Ok (env(key \<mapsto> v)))) Map.empty items))"

definition env_file_path :: "host_files \<Rightarrow> string \<Rightarrow> string \<Rightarrow> string" where
  "env_file_path hf config_dir ef = (if hf_is_relative hf ef then hf_join hf config_dir ef else ef)"

text \<open>The variables of the env file are inserted into both maps of the context.\<close>

definition resolve_env_file ::
    "('f, 'env, 'l) lua_vm \<Rightarrow> 'f serde \<Rightarrow> host_files \<Rightarrow> string \<Rightarrow> string \<Rightarrow> raw_service_config \<Rightarrow> eval_ctx \<Rightarrow> 'l \<Rightarrow>
     (service_error, string option \<times> eval_ctx \<times> 'l) result" where
  "resolve_env_file vm sv hf config_dir name raw ctx l =
     bind_res (field (vm_evaluator vm ctx) (sv_path_opt sv) (name @ ''.env_file'') (rs_env_file raw) (None, l)) (\<lambda>(env_file, (_, l1)).
     case env_file of
       None \<Rightarrow> Ok (None, ctx, l1)
     | Some ef \<Rightarrow>
         if hf_exists hf (env_file_path hf config_dir ef) then
           bind_res (map_err EnvFileError (load_env_file hf (env_file_path hf config_dir ef))) (\<lambda>vars.
           Ok (Some ef, ctx\<lparr>ec_env_file := ec_env_file ctx ++ vars, ec_env := ec_env ctx ++ vars\<rparr>, l1))
         else Ok (Some ef, ctx, l1))"

definition add_env_entry ::
    "('f, 'env, 'l) lua_vm \<Rightarrow> 'env prepared_env \<Rightarrow> string \<Rightarrow> eval_ctx \<Rightarrow> 'l \<Rightarrow> (service_error, eval_ctx \<times> 'l) result" where
  "add_env_entry vm prepared resolved ctx l = (case split_once (CHR ''='') resolved of
      None \<Rightarrow> Ok (ctx, l)
    | Some (k, v) \<Rightarrow> bind_res (map_err EnvTableError (set_env vm prepared k v l)) (\<lambda>l1.
        Ok (ctx\<lparr>ec_env := (ec_env ctx)(k \<mapsto> v)\<rparr>, l1)))"

text \<open>Every entry is seen by the expressions of the entries after it.\<close>

fun resolve_environment_entries ::
    "('f, 'env, 'l) lua_vm \<Rightarrow> 'f serde \<Rightarrow> 'env prepared_env \<Rightarrow> string \<Rightarrow> nat \<Rightarrow> string config_value list \<Rightarrow> eval_ctx \<Rightarrow> 'l \<Rightarrow>
     (service_error, string list \<times> eval_ctx \<times> 'l) result" where
  "resolve_environment_entries vm sv prepared name i [] ctx l = Ok ([], ctx, l)"
| "resolve_environment_entries vm sv prepared name i (entry # entries) ctx l =
     bind_res (field (vm_evaluator vm ctx) (sv_string sv) (name @ ''.environment['' @ show_nat i @ '']'') entry
         (Some (pe_table prepared), l)) (\<lambda>(resolved, (_, l1)).
     bind_res (add_env_entry vm prepared resolved ctx l1) (\<lambda>(ctx1, l2).
     bind_res (resolve_environment_entries vm sv prepared name (i + 1) entries ctx1 l2) (\<lambda>(rs, ctx2, l3).
     Ok (resolved # rs, ctx2, l3))))"

definition resolve_environment_with_env ::
    "('f, 'env, 'l) lua_vm \<Rightarrow> 'f serde \<Rightarrow> 'env prepared_env \<Rightarrow> string \<Rightarrow> raw_service_config \<Rightarrow> eval_ctx \<Rightarrow> 'l \<Rightarrow>
     (service_error, string list \<times> eval_ctx \<times> 'l) result" where
  "resolve_environment_with_env vm sv prepared name raw ctx l =
     (let ev = vm_evaluator vm ctx; path = name @ ''.environment'' in
      bind_res (case rs_environment raw of
          Static entries \<Rightarrow> Ok (entries, l)
        | Dynamic expr \<Rightarrow>
            bind_res (map_err (\<lambda>e. FieldError path (ResolveLua e)) (evaluate_dynamic expr ev (pe_table prepared) path l)) (\<lambda>(y, l1).
            bind_res (map_err EnvironmentError (environment_entries (show_number ev) (sv_string sv) y)) (\<lambda>entries.
            Ok (entries, l1)))) (\<lambda>(entries, l1).
      resolve_environment_entries vm sv prepared name 0 entries ctx l1))"

subsection \<open>Nested settings\<close>

definition resolve_command ::
    "'f serde \<Rightarrow> host_files \<Rightarrow> ('f, 'env, 'l) lua_evaluator \<Rightarrow> env_map \<Rightarrow> string \<Rightarrow> raw_service_config \<Rightarrow>
     'env option \<times> 'l \<Rightarrow> (service_error, string list \<times> ('env option \<times> 'l)) result" where
  "resolve_command sv hf ev kepler_env name raw st =
     (if has_run raw then
        bind_res (field ev (sv_string_opt sv) (name @ ''.run'') (rs_run raw) st) (\<lambda>(run, st1).
        Ok (case run of Some script \<Rightarrow> [resolve_shell hf kepler_env, ''-c'', script] | None \<Rightarrow> [], st1))
      else strings sv ev (name @ ''.command'') (rs_command raw) st)"

text \<open>A script replaces the command of the check; without a result it leaves the command as it is.\<close>

definition resolve_healthcheck ::
    "'f serde \<Rightarrow> host_files \<Rightarrow> ('f, 'env, 'l) lua_evaluator \<Rightarrow> env_map \<Rightarrow> string \<Rightarrow> health_check \<Rightarrow>
     'env option \<times> 'l \<Rightarrow> (service_error, health_check \<times> ('env option \<times> 'l)) result" where
  "resolve_healthcheck sv hf ev kepler_env name hc st =
     bind_res (if hc_has_run hc then
         bind_res (field ev (sv_string_opt sv) (name @ ''.healthcheck.run'') (hc_run hc) st) (\<lambda>(script, st1).
         Ok ((case script of
               Some s \<Rightarrow> hc\<lparr>hc_command := Static (wrap_vec [resolve_shell hf kepler_env, ''-c'', s])\<rparr>
             | None \<Rightarrow> hc)\<lparr>hc_run := Static None\<rparr>, st1))
       else
         bind_res (strings sv ev (name @ ''.healthcheck.command'') (hc_command hc) st) (\<lambda>(resolved, st1).
         Ok (hc\<lparr>hc_command := Static (wrap_vec resolved)\<rparr>, st1))) (\<lambda>(hc1, st1).
     bind_res (field ev (sv_string_opt sv) (name @ ''.healthcheck.user'') (hc_user hc1) st1) (\<lambda>(user, st2).
     bind_res (strings sv ev (name @ ''.healthcheck.groups'') (hc_groups hc1) st2) (\<lambda>(groups, st3).
     Ok (hc1\<lparr>hc_user := Static user, hc_groups := Static (wrap_vec groups)\<rparr>, st3))))"

definition resolve_restart ::
    "'f serde \<Rightarrow> ('f, 'env, 'l) lua_evaluator \<Rightarrow> string \<Rightarrow> restart_config \<Rightarrow>
     'env option \<times> 'l \<Rightarrow> (service_error, restart_config \<times> ('env option \<times> 'l)) result" where
  "resolve_restart sv ev name restart st = (case restart of
      RestartSimple p \<Rightarrow> Ok (RestartSimple p, st)
    | RestartExtended p wp gp dl bo md \<Rightarrow>
        bind_res (strings sv ev (name @ ''.restart.watch'') wp st) (\<lambda>(patterns, st1).
        bind_res (field ev (sv_string sv) (name @ ''.restart.grace_period'') gp st1) (\<lambda>(g, st2).
        bind_res (field ev (sv_string sv) (name @ ''.restart.delay'') dl st2) (\<lambda>(d, st3).
        bind_res (field ev (sv_f64 sv) (name @ ''.restart.backoff'') bo st3) (\<lambda>(b, st4).
        bind_res (field ev (sv_string sv) (name @ ''.restart.max_delay'') md st4) (\<lambda>(x, st5).
        Ok (RestartExtended p (Static (wrap_vec patterns)) (Static g) (Static d) (Static b) (Static x), st5)))))))"

definition resolve_logs ::
    "'f serde \<Rightarrow> ('f, 'env, 'l) lua_evaluator \<Rightarrow> string \<Rightarrow> log_config \<Rightarrow>
     'env option \<times> 'l \<Rightarrow> (service_error, log_config \<times> ('env option \<times> 'l)) result" where
  "resolve_logs sv ev name logs st =
     bind_res (field ev (sv_string_opt sv) (name @ ''.logs.flush_interval'') (log_flush logs) st) (\<lambda>(f, st1).
     bind_res (field ev (sv_string_opt sv) (name @ ''.logs.retention_period'') (log_period logs) st1) (\<lambda>(p, st2).
     bind_res (field ev (sv_nat_opt sv) (name @ ''.logs.batch_size'') (log_batch logs) st2) (\<lambda>(b, st3).
     Ok (logs\<lparr>log_flush := Static f, log_period := Static p, log_batch := Static b\<rparr>, st3))))"

text \<open>\<^verbatim>\<open>x.map(f).transpose()?\<close>\<close>

definition on_some ::
    "('a \<Rightarrow> 's \<Rightarrow> ('e, 'a \<times> 's) result) \<Rightarrow> 'a option \<Rightarrow> 's \<Rightarrow> ('e, 'a option \<times> 's) result" where
  "on_some f x st = (case x of None \<Rightarrow> Ok (None, st) | Some a \<Rightarrow> bind_res (f a st) (\<lambda>(b, st1). Ok (Some b, st1)))"

subsection \<open>The service\<close>

text \<open>Every field after the environment, over the table that is now frozen.\<close>

definition resolve_fields ::
    "'f serde \<Rightarrow> host_files \<Rightarrow> ('f, 'env, 'l) lua_evaluator \<Rightarrow> env_map \<Rightarrow> string \<Rightarrow> raw_service_config \<Rightarrow> string option \<Rightarrow>
     string list \<Rightarrow> 'env option \<times> 'l \<Rightarrow> (service_error, resolved_config) result" where
  "resolve_fields sv hf ev kepler_env name raw default_usr environment st =
     bind_res (resolve_command sv hf ev kepler_env name raw st) (\<lambda>(command, st1).
     bind_res (field ev (sv_path_opt sv) (name @ ''.working_dir'') (rs_working_dir raw) st1) (\<lambda>(working_dir, st2).
     bind_res (field ev (sv_bool_opt sv) (name @ ''.if'') (rs_condition raw) st2) (\<lambda>(condition, st3).
     bind_res (field ev (sv_string_opt sv) (name @ ''.user'') (rs_user raw) st3) (\<lambda>(user, st4).
     bind_res (strings sv ev (name @ ''.groups'') (rs_groups raw) st4) (\<lambda>(groups, st5).
     bind_res (field ev (sv_healthcheck sv) (name @ ''.healthcheck'') (rs_healthcheck raw) st5) (\<lambda>(hc, st6).
     bind_res (on_some (resolve_healthcheck sv hf ev kepler_env name) hc st6) (\<lambda>(healthcheck, st7).
     bind_res (field ev (sv_limits sv) (name @ ''.limits'') (rs_limits raw) st7) (\<lambda>(limits, st8).
     bind_res (field ev (sv_restart sv) (name @ ''.restart'') (rs_restart raw) st8) (\<lambda>(rst, st9).
     bind_res (resolve_restart sv ev name rst st9) (\<lambda>(restart, st10).
     bind_res (field ev (sv_logs sv) (name @ ''.logs'') (rs_logs raw) st10) (\<lambda>(lg, st11).
     bind_res (on_some (resolve_logs sv ev name) lg st11) (\<lambda>(logs, st12).
     bind_res (field ev (sv_bool_opt sv) (name @ ''.output'') (rs_output raw) st12) (\<lambda>(output, st13).
     Ok \<lparr>rc_condition = condition, rc_command = command, rc_working_dir = working_dir, rc_environment = environment,
          rc_inherit_env = rs_inherit_env raw, rc_restart = restart, rc_depends_on = rs_depends_on raw,
          rc_healthcheck = healthcheck, rc_logs = logs, rc_user = opt_or user default_usr, rc_groups = groups,
          rc_limits = limits, rc_output = output, rc_outputs = None, rc_user_identity = rs_user_identity raw,
          rc_no_new_privileges = rs_no_new_privileges raw, rc_permissions = rs_permissions raw\<rparr>)))))))))))))"

definition resolve_service ::
    "('f, 'env, 'l) lua_vm \<Rightarrow> 'f serde \<Rightarrow> host_files \<Rightarrow> string \<Rightarrow> kepler_config \<Rightarrow> string \<Rightarrow> string option \<Rightarrow> eval_ctx \<Rightarrow> 'l \<Rightarrow>
     (service_error, resolved_config \<times> eval_ctx) result" where
  "resolve_service vm sv hf config_dir c name default_usr ctx0 l0 =
     bind_res (ok_or (ServiceNotFound name) (hm_get (kc_services c) name)) (\<lambda>raw.
     bind_res (resolve_env_file vm sv hf config_dir name raw (ctx0\<lparr>ec_name := name\<rparr>) l0) (\<lambda>(env_file, ctx1, l1).
     bind_res (map_err EnvTableError (prepare_env_mutable vm ctx1 l1)) (\<lambda>(prepared, l2).
     bind_res (resolve_environment_with_env vm sv prepared name raw ctx1 l2) (\<lambda>(environment, ctx, l3).
     bind_res (resolve_fields sv hf (vm_evaluator vm ctx) (ec_kepler_env ctx) name raw default_usr environment
         (Some (pe_table (freeze_env prepared)), l3)) (\<lambda>svc. Ok (svc, ctx))))))"

subsection \<open>The variables of the process\<close>

text \<open>What the env file of a service adds to the variables.\<close>

definition env_file_vars :: "host_files \<Rightarrow> string \<Rightarrow> string option \<Rightarrow> env_map" where
  "env_file_vars hf config_dir env_file = (case env_file of
      None \<Rightarrow> Map.empty
    | Some ef \<Rightarrow> (case load_env_file hf (env_file_path hf config_dir ef) of
        Inr vars \<Rightarrow> vars | Inl _ \<Rightarrow> Map.empty))"

lemma resolve_env_file_ctx:
  assumes "resolve_env_file vm sv hf dir name raw ctx l = Ok (ef, ctx', l')"
  shows "ec_env_file ctx' = ec_env_file ctx ++ env_file_vars hf dir ef" "ec_env ctx' = ec_env ctx ++ env_file_vars hf dir ef"
proof -
  consider "ef = None" "ctx' = ctx"
    | f where "ef = Some f" "\<not> hf_exists hf (env_file_path hf dir f)" "ctx' = ctx"
    | f vars where "ef = Some f" "load_env_file hf (env_file_path hf dir f) = Ok vars"
        "ctx' = ctx\<lparr>ec_env_file := ec_env_file ctx ++ vars, ec_env := ec_env ctx ++ vars\<rparr>"
    using assms by (auto simp: resolve_env_file_def bind_res_Ok_iff Let_def split: option.splits if_splits)
  then have "ec_env_file ctx' = ec_env_file ctx ++ env_file_vars hf dir ef \<and> ec_env ctx' = ec_env ctx ++ env_file_vars hf dir ef"
    by cases (simp_all add: env_file_vars_def load_env_file_def )
  then show "ec_env_file ctx' = ec_env_file ctx ++ env_file_vars hf dir ef" "ec_env ctx' = ec_env ctx ++ env_file_vars hf dir ef"
    by simp_all
qed

lemma add_env_entry_ctx:
  assumes "add_env_entry vm prepared r ctx l = Ok (ctx', l')"
  shows "ec_env ctx' = insert_env_entries (ec_env ctx) [r]" "ec_env_file ctx' = ec_env_file ctx"
  using assms by (auto simp: add_env_entry_def insert_env_entries_def bind_res_Ok_iff split: option.splits prod.splits)

lemma insert_env_entries_Cons: "insert_env_entries env (r # rs) = insert_env_entries (insert_env_entries env [r]) rs"
  by (simp add: insert_env_entries_def)

lemma resolve_environment_entries_ctx:
  "resolve_environment_entries vm sv prepared name i entries ctx l = Ok (rs, ctx', l') \<Longrightarrow>
   ec_env ctx' = insert_env_entries (ec_env ctx) rs \<and> ec_env_file ctx' = ec_env_file ctx"
proof (induction entries arbitrary: i ctx l rs)
  case Nil
  then show ?case by (simp add: insert_env_entries_def)
next
  case (Cons e es)
  from Cons.prems obtain r l1 c1 l2 rest where *: "add_env_entry vm prepared r ctx l1 = Ok (c1, l2)"
      "resolve_environment_entries vm sv prepared name (i + 1) es c1 l2 = Ok (rest, ctx', l')" "rs = r # rest"
    by (auto simp: bind_res_Ok_iff)
  show ?case
    using Cons.IH [OF *(2)] add_env_entry_ctx [OF *(1)] insert_env_entries_Cons [of "ec_env ctx" r rest] *(3) by simp
qed

lemma resolve_environment_ctx:
  assumes "resolve_environment_with_env vm sv prepared name raw ctx l = Ok (rs, ctx', l')"
  shows "ec_env ctx' = insert_env_entries (ec_env ctx) rs" "ec_env_file ctx' = ec_env_file ctx"
proof -
  obtain es l1 where "resolve_environment_entries vm sv prepared name 0 es ctx l1 = Ok (rs, ctx', l')"
    using assms by (auto simp: resolve_environment_with_env_def bind_res_Ok_iff Let_def split: config_value.splits)
  from resolve_environment_entries_ctx [OF this]
  show "ec_env ctx' = insert_env_entries (ec_env ctx) rs" "ec_env_file ctx' = ec_env_file ctx" by simp_all
qed

lemma resolve_fields_OkD:
  assumes "resolve_fields sv hf ev kepler_env n raw du environment st = Ok svc"
  shows "rc_environment svc = environment" "\<exists>st'. resolve_command sv hf ev kepler_env n raw st = Ok (rc_command svc, st')"
    "\<exists>user. rc_user svc = opt_or user du" "rc_inherit_env svc = rs_inherit_env raw"
  using assms by (auto simp: resolve_fields_def bind_res_Ok_iff)

lemma resolve_service_OkD:
  assumes "resolve_service vm sv hf dir c n du ctx l = Ok (svc, ctx')"
  obtains raw ef ctx1 l1 prepared l2 environment l3 where "hm_get (kc_services c) n = Some raw"
    "resolve_env_file vm sv hf dir n raw (ctx\<lparr>ec_name := n\<rparr>) l = Ok (ef, ctx1, l1)"
    "resolve_environment_with_env vm sv prepared n raw ctx1 l2 = Ok (environment, ctx', l3)"
    "resolve_fields sv hf (vm_evaluator vm ctx') (ec_kepler_env ctx') n raw du environment (Some (pe_table (freeze_env prepared)), l3) = Ok svc"
  using assms
  by (auto simp: resolve_service_def bind_res_Ok_iff case_prod_beta Let_def ok_or_def split: option.splits)

lemma static_field [simp]: "field ev from_value path (Static x) st = Ok (x, st)"
  by (simp add: field_def resolve_with_env_def)

lemma resolve_env_file_static:
  assumes "resolve_env_file vm sv hf dir n raw ctx l = Ok (ef, ctx', l')" "rs_env_file raw = Static f"
  shows "ef = f"
  using assms by (cases f) (auto simp: resolve_env_file_def bind_res_Ok_iff split: if_splits)

lemma resolve_items_length:
  "resolve_items ev from_value path i items st = Ok (xs, st') \<Longrightarrow> length xs = length items"
  by (induction items arbitrary: i st xs) (auto simp: bind_res_Ok_iff)

lemma resolve_command_static:
  assumes "resolve_command sv hf ev kepler_env n raw st = Ok (command, st')" "has_command raw \<noteq> has_run raw"
    and "rs_command raw = Static cmd" "rs_run raw = Static run"
  shows "command \<noteq> []"
  using assms
  by (auto simp: resolve_command_def has_command_def has_run_def command_present_def run_present_def
      resolve_nested_vec_def bind_res_Ok_iff dest!: resolve_items_length split: if_splits)


text \<open>A service that inherits nothing, started by a daemon that has a secret in its environment.\<close>

definition sample_serde :: "unit serde" where
  "sample_serde = \<lparr>sv_string = (\<lambda>_. Err []), sv_string_opt = (\<lambda>_. Err []), sv_path_opt = (\<lambda>_. Err []),
     sv_strings = (\<lambda>_. Err []), sv_bool_opt = (\<lambda>_. Err []), sv_nat_opt = (\<lambda>_. Err []), sv_f64 = (\<lambda>_. Err []),
     sv_healthcheck = (\<lambda>_. Err []), sv_limits = (\<lambda>_. Err []), sv_restart = (\<lambda>_. Err []), sv_logs = (\<lambda>_. Err [])\<rparr>"

definition sample_files :: host_files where
  "sample_files = \<lparr>hf_is_relative = (\<lambda>_. False), hf_join = (\<lambda>d f. d @ f), hf_exists = (\<lambda>_. False), hf_dotenv = (\<lambda>_. Err [])\<rparr>"

definition sample_closed :: kepler_config where
  "sample_closed = \<lparr>kc_version = None, kc_lua = None, kc_kepler = None, kc_services = [(''db'', raw_service_config_default
     \<lparr>rs_run := Static (Some ''true''), rs_environment := Static [Static ''A=1'', Static ''A=2''], rs_inherit_env := Some False,
      rs_user_identity := Some False\<rparr>)]\<rparr>"

abbreviation sample_resolution :: "(service_error, resolved_config \<times> eval_ctx) result" where
  "sample_resolution \<equiv> resolve_service idle_vm sample_serde sample_files ''/etc'' sample_closed ''db'' (Some ''u'')
     (load_ctx [] [''SECRET'' \<mapsto> ''s'']) ()"

lemma sample_resolves:
  "map_sum (\<lambda>e. e) (\<lambda>(svc, _). (rc_environment svc, rc_user_identity svc)) sample_resolution = Ok ([''A=1'', ''A=2''], Some False)"
  by code_simp


end
