(* ===== verification/Connection.thy ===== *)
theory Connection
  imports Request_Gate "HOL-Library.Sublist"
begin

text \<open>
  A connection between a client and the daemon (\<^verbatim>\<open>kepler-protocol\<close>: \<^verbatim>\<open>protocol.rs\<close>, \<^verbatim>\<open>client.rs\<close>,
  \<^verbatim>\<open>server.rs\<close>): frames with a length in front, many requests at once told apart by a number, and on
  both sides a task that reads and a task that writes. Requests, responses and events are not
  looked at and are type variables; their binary format is a parameter. The two byte streams, the
  channels in front of them and the running handlers are parts of one state, and every step of every
  task is a step of that state, in any order; each side can go away at any point, in the middle of a
  frame too.
\<close>

subsection \<open>Frames\<close>

type_synonym bytes = "8 word list"

definition MAX_MESSAGE_SIZE :: nat where "MAX_MESSAGE_SIZE = 10 * 1024 * 1024"

text \<open>\<^verbatim>\<open>(size as u32).to_be_bytes()\<close>\<close>

definition to_be_bytes :: "nat \<Rightarrow> bytes" where
  "to_be_bytes n = map (\<lambda>i. word_of_nat (n div 256 ^ i)) [3, 2, 1, 0]"

definition from_be_bytes :: "bytes \<Rightarrow> nat" where
  "from_be_bytes bs = foldl (\<lambda>a b. a * 256 + unat b) 0 bs"

record 'q envelope =
  en_id :: "64 word"
  en_request :: 'q
  en_token :: "bytes option"

datatype ('r, 'e) server_message = Response "64 word" 'r | Event "64 word" 'e

fun message_id :: "('r, 'e) server_message \<Rightarrow> 64 word" where
  "message_id (Response i _) = i"
| "message_id (Event i _) = i"

text \<open>The serializer of envelopes and of messages.\<close>

record ('q, 'r, 'e) codec =
  cd_envelope_size :: "'q envelope \<Rightarrow> (string, nat) result"
  cd_put_envelope :: "'q envelope \<Rightarrow> (string, bytes) result"
  cd_get_envelope :: "bytes \<Rightarrow> (string, 'q envelope) result"
  cd_message_size :: "('r, 'e) server_message \<Rightarrow> (string, nat) result"
  cd_put_message :: "('r, 'e) server_message \<Rightarrow> (string, bytes) result"
  cd_get_message :: "bytes \<Rightarrow> (string, ('r, 'e) server_message) result"

datatype protocol_error = EncodeError string | MessageTooLarge | DecodeError string

definition encode_envelope :: "('q, 'r, 'e) codec \<Rightarrow> 'q envelope \<Rightarrow> (protocol_error, bytes) result" where
  "encode_envelope cd envelope =
     bind_res (map_err EncodeError (cd_envelope_size cd envelope)) (\<lambda>size.
     if size > MAX_MESSAGE_SIZE then Err MessageTooLarge
     else bind_res (map_err EncodeError (cd_put_envelope cd envelope)) (\<lambda>payload. Ok (to_be_bytes size @ payload)))"

definition decode_envelope :: "('q, 'r, 'e) codec \<Rightarrow> bytes \<Rightarrow> (protocol_error, 'q envelope) result" where
  "decode_envelope cd bs = map_err DecodeError (cd_get_envelope cd bs)"

definition encode_server_message :: "('q, 'r, 'e) codec \<Rightarrow> ('r, 'e) server_message \<Rightarrow> (protocol_error, bytes) result" where
  "encode_server_message cd msg =
     bind_res (map_err EncodeError (cd_message_size cd msg)) (\<lambda>size.
     bind_res (map_err EncodeError (cd_put_message cd msg)) (\<lambda>payload. Ok (to_be_bytes size @ payload)))"

definition decode_server_message :: "('q, 'r, 'e) codec \<Rightarrow> bytes \<Rightarrow> (protocol_error, ('r, 'e) server_message) result" where
  "decode_server_message cd bs = map_err DecodeError (cd_get_message cd bs)"

text \<open>
  \<^verbatim>\<open>read_exact\<close> of the length and of the payload, from the bytes that have been written and not
  been read: \<open>Incomplete\<close> as long as it waits. The server looks at the length first.
\<close>

datatype frame_read = Incomplete | TooLarge nat | Frame bytes bytes

definition read_frame :: "bytes \<Rightarrow> frame_read" where
  "read_frame s =
     (if length s < 4 then Incomplete
      else let msg_len = from_be_bytes (take 4 s) in
        if length s < 4 + msg_len then Incomplete else Frame (take msg_len (drop 4 s)) (drop (4 + msg_len) s))"

definition read_request_frame :: "bytes \<Rightarrow> frame_read" where
  "read_request_frame s =
     (if length s < 4 then Incomplete
      else let msg_len = from_be_bytes (take 4 s) in
        if msg_len > MAX_MESSAGE_SIZE then TooLarge msg_len else read_frame s)"

subsection \<open>The client\<close>

text \<open>
  The requests that wait are those with an entry in \<^verbatim>\<open>pending\<close>; \<open>cl_answers\<close> and \<open>cl_events\<close> are
  what went through the senders of such entries.
\<close>

record ('r, 'e) client =
  cl_next_id :: "64 word"
  cl_connected :: bool
  cl_pending :: "64 word list"
  cl_answers :: "(64 word \<times> 'r) list"
  cl_events :: "(64 word \<times> 'e) list"

definition client_connect :: "('r, 'e) client" where
  "client_connect = \<lparr>cl_next_id = 1, cl_connected = True, cl_pending = [], cl_answers = [], cl_events = []\<rparr>"

text \<open>\<^verbatim>\<open>send_request\<close> after it found the connection open. The entry is made before the envelope is encoded.\<close>

definition register_request ::
    "('q, 'r, 'e) codec \<Rightarrow> bytes option \<Rightarrow> 'q \<Rightarrow> ('r, 'e) client \<Rightarrow> 'q envelope \<times> (protocol_error, bytes) result \<times> ('r, 'e) client" where
  "register_request cd token request c =
     (let envelope = \<lparr>en_id = cl_next_id c, en_request = request, en_token = token\<rparr> in
      (envelope, encode_envelope cd envelope,
       c\<lparr>cl_next_id := cl_next_id c + 1, cl_pending := List.insert (cl_next_id c) (cl_pending c)\<rparr>))"

datatype client_error = Disconnected | ProtocolFailed protocol_error

definition send_request ::
    "('q, 'r, 'e) codec \<Rightarrow> bytes option \<Rightarrow> 'q \<Rightarrow> ('r, 'e) client \<Rightarrow> (client_error, bytes) result \<times> ('r, 'e) client" where
  "send_request cd token request c =
     (if \<not> cl_connected c then (Err Disconnected, c)
      else case register_request cd token request c of (_, r, c') \<Rightarrow> (map_err ProtocolFailed r, c'))"

fun receive_message :: "('r, 'e) server_message \<Rightarrow> ('r, 'e) client \<Rightarrow> ('r, 'e) client" where
  "receive_message (Response i response) c =
     (if i \<in> set (cl_pending c)
      then c\<lparr>cl_pending := removeAll i (cl_pending c), cl_answers := cl_answers c @ [(i, response)]\<rparr> else c)"
| "receive_message (Event i event) c =
     (if i \<in> set (cl_pending c) then c\<lparr>cl_events := cl_events c @ [(i, event)]\<rparr> else c)"

definition client_disconnect :: "('r, 'e) client \<Rightarrow> ('r, 'e) client" where
  "client_disconnect c = c\<lparr>cl_connected := False, cl_pending := []\<rparr>"

subsection \<open>Both sides\<close>

text \<open>
  Client side: requests past the check of the connection (\<open>w_starting\<close>), futures that were not
  polled, the channel to the writer and the stream to the server. Server side: the handlers that run,
  the channel to its writer and the stream back. The last four fields record what happened: the
  envelopes made, those handed to the writer, those taken up by the server, and the messages that
  entered the server's channel and that left the stream at the client.
\<close>

record ('q, 'r, 'e) world =
  w_client :: "('r, 'e) client"
  w_starting :: "'q list"
  w_futures :: "('q envelope \<times> bytes) list"
  w_sending :: bool
  w_out :: "bytes list"
  w_up :: bytes
  w_reading :: bool
  w_rejected :: bool
  w_tasks :: "'q envelope list"
  w_writing :: bool
  w_back :: "bytes list"
  w_down :: bytes
  w_issued :: "'q envelope list"
  w_queued :: "'q envelope list"
  w_spawned :: "'q envelope list"
  w_pushed :: "('r, 'e) server_message list"
  w_consumed :: "('r, 'e) server_message list"

definition world_init :: "('q, 'r, 'e) world" where
  "world_init = \<lparr>w_client = client_connect, w_starting = [], w_futures = [], w_sending = True, w_out = [], w_up = [],
     w_reading = True, w_rejected = False, w_tasks = [], w_writing = True, w_back = [], w_down = [], w_issued = [],
     w_queued = [], w_spawned = [], w_pushed = [], w_consumed = []\<rparr>"

text \<open>A message for the client: lost if it cannot be encoded or the writer is gone.\<close>

definition push :: "('q, 'r, 'e) codec \<Rightarrow> ('r, 'e) server_message \<Rightarrow> ('q, 'r, 'e) world \<Rightarrow> ('q, 'r, 'e) world" where
  "push cd msg w = (case encode_server_message cd msg of
      Inr bs \<Rightarrow> if w_writing w then w\<lparr>w_back := w_back w @ [bs], w_pushed := w_pushed w @ [msg]\<rparr> else w
    | Inl _ \<Rightarrow> w)"

text \<open>A frame arrives at the server: a handler starts, or the client learns that nothing could be read.\<close>

definition accept_payload ::
    "('q, 'r, 'e) codec \<Rightarrow> (string \<Rightarrow> 'r) \<Rightarrow> bytes \<Rightarrow> ('q, 'r, 'e) world \<Rightarrow> ('q, 'r, 'e) world" where
  "accept_payload cd error_response payload w = (case decode_envelope cd payload of
      Inr env \<Rightarrow> w\<lparr>w_tasks := w_tasks w @ [env], w_spawned := w_spawned w @ [env]\<rparr>
    | Inl _ \<Rightarrow> push cd (Response 0 (error_response ''Invalid request format'')) w)"

definition consume_payload :: "('q, 'r, 'e) codec \<Rightarrow> bytes \<Rightarrow> ('q, 'r, 'e) world \<Rightarrow> ('q, 'r, 'e) world" where
  "consume_payload cd payload w = (case decode_server_message cd payload of
      Inr msg \<Rightarrow> w\<lparr>w_client := receive_message msg (w_client w), w_consumed := w_consumed w @ [msg]\<rparr>
    | Inl _ \<Rightarrow> w)"

text \<open>\<open>H q peer r\<close>: the handler can answer the request \<open>q\<close> of \<open>peer\<close> with \<open>r\<close>.\<close>

definition request_peer :: "peer_credentials \<Rightarrow> 'q envelope \<Rightarrow> peer_credentials" where
  "request_peer peer env = peer\<lparr>pc_token := en_token env\<rparr>"

inductive conn_step ::
    "('q, 'r, 'e) codec \<Rightarrow> (string \<Rightarrow> 'r) \<Rightarrow> ('q \<Rightarrow> peer_credentials \<Rightarrow> 'r \<Rightarrow> bool) \<Rightarrow> peer_credentials \<Rightarrow> bytes option \<Rightarrow>
     ('q, 'r, 'e) world \<Rightarrow> ('q, 'r, 'e) world \<Rightarrow> bool"
  for cd error_response H peer token where
  check: "cl_connected (w_client w) \<Longrightarrow>
    conn_step cd error_response H peer token w (w\<lparr>w_starting := q # w_starting w\<rparr>)"
| register: "q \<in> set (w_starting w) \<Longrightarrow> register_request cd token q (w_client w) = (env, r, c) \<Longrightarrow>
    conn_step cd error_response H peer token w (w\<lparr>w_client := c, w_starting := remove1 q (w_starting w), w_issued := w_issued w @ [env],
      w_futures := w_futures w @ (case r of Inr bs \<Rightarrow> [(env, bs)] | Inl _ \<Rightarrow> [])\<rparr>)"
| poll: "(env, bs) \<in> set (w_futures w) \<Longrightarrow> w_sending w \<Longrightarrow>
    conn_step cd error_response H peer token w (w\<lparr>w_futures := remove1 (env, bs) (w_futures w), w_out := w_out w @ [bs], w_queued := w_queued w @ [env]\<rparr>)"
| write_up: "w_out w = bs # out \<Longrightarrow> w_sending w \<Longrightarrow>
    conn_step cd error_response H peer token w (w\<lparr>w_out := out, w_up := w_up w @ bs\<rparr>)"
| cut_up: "conn_step cd error_response H peer token w (w\<lparr>w_sending := False, w_out := [], w_up := take k (w_up w)\<rparr>)"
| serve: "w_reading w \<Longrightarrow> read_request_frame (w_up w) = Frame payload rest \<Longrightarrow>
    conn_step cd error_response H peer token w (accept_payload cd error_response payload (w\<lparr>w_up := rest\<rparr>))"
| reject: "w_reading w \<Longrightarrow> read_request_frame (w_up w) = TooLarge n \<Longrightarrow>
    conn_step cd error_response H peer token w
      ((push cd (Response 0 (error_response ''Request exceeds maximum message size'')) w)\<lparr>w_reading := False, w_rejected := True\<rparr>)"
| stop_reading: "conn_step cd error_response H peer token w (w\<lparr>w_reading := False\<rparr>)"
| emit: "env \<in> set (w_spawned w) \<Longrightarrow>
    conn_step cd error_response H peer token w (push cd (Event (en_id env) e) w)"
| answer: "env \<in> set (w_tasks w) \<Longrightarrow> H (en_request env) (request_peer peer env) r \<Longrightarrow>
    conn_step cd error_response H peer token w (push cd (Response (en_id env) r) (w\<lparr>w_tasks := remove1 env (w_tasks w)\<rparr>))"
| write_down: "w_back w = bs # back \<Longrightarrow> w_writing w \<Longrightarrow>
    conn_step cd error_response H peer token w (w\<lparr>w_back := back, w_down := w_down w @ bs\<rparr>)"
| cut_down: "conn_step cd error_response H peer token w (w\<lparr>w_reading := False, w_writing := False, w_back := [], w_down := take k (w_down w)\<rparr>)"
| receive: "cl_connected (w_client w) \<Longrightarrow> read_frame (w_down w) = Frame payload rest \<Longrightarrow>
    conn_step cd error_response H peer token w (consume_payload cd payload (w\<lparr>w_down := rest\<rparr>))"
| disconnect: "cl_connected (w_client w) \<Longrightarrow>
    conn_step cd error_response H peer token w (w\<lparr>w_client := client_disconnect (w_client w)\<rparr>)"

inductive conn_reaches ::
    "('q, 'r, 'e) codec \<Rightarrow> (string \<Rightarrow> 'r) \<Rightarrow> ('q \<Rightarrow> peer_credentials \<Rightarrow> 'r \<Rightarrow> bool) \<Rightarrow> peer_credentials \<Rightarrow> bytes option \<Rightarrow>
     ('q, 'r, 'e) world \<Rightarrow> bool"
  for cd error_response H peer token where
  connect: "conn_reaches cd error_response H peer token world_init"
| advance: "conn_reaches cd error_response H peer token w \<Longrightarrow> conn_step cd error_response H peer token w w' \<Longrightarrow>
    conn_reaches cd error_response H peer token w'"

subsection \<open>Frames on a stream\<close>

lemma from_be_bytes_to_be_bytes: "from_be_bytes (to_be_bytes n) = n mod 2 ^ 32"
proof -
  have "n mod 2 ^ 32 = n mod 256 + 256 * (n div 256 mod 256 + 256 * (n div 65536 mod 256 + 256 * (n div 16777216 mod 256)))"
    using mod_mult2_eq [of n 256 16777216] mod_mult2_eq [of "n div 256" 256 65536] mod_mult2_eq [of "n div 65536" 256 256]
    by (simp add: div_mult2_eq [symmetric])
  then show ?thesis by (simp add: from_be_bytes_def to_be_bytes_def unat_of_nat algebra_simps)
qed

lemma length_to_be_bytes [simp]: "length (to_be_bytes n) = 4"
  by (simp add: to_be_bytes_def)

text \<open>A message of \<open>2 ^ 32\<close> bytes is announced as an empty one.\<close>

lemma length_truncated: "from_be_bytes (to_be_bytes (2 ^ 32)) = 0"
  by (simp add: from_be_bytes_to_be_bytes)

lemma read_frame_prefix:
  assumes "prefix s (to_be_bytes (length p) @ p @ after)" "length p < 2 ^ 32" "read_frame s = Frame p' rest"
  shows "p' = p" "s = to_be_bytes (length p) @ p @ rest"
proof -
  obtain z where z: "to_be_bytes (length p) @ p @ after = s @ z" using assms(1) by (auto simp: prefix_def)
  have four: "4 \<le> length s" using assms(3) by (auto simp: read_frame_def split: if_splits)
  then have h: "take 4 s = to_be_bytes (length p)"
    using arg_cong [OF z, of "take 4"] by simp
  have d: "drop 4 s @ z = p @ after" using arg_cong [OF z, of "drop 4"] four by simp
  have n: "from_be_bytes (take 4 s) = length p" using assms(2) by (simp add: h from_be_bytes_to_be_bytes)
  then have r: "length p \<le> length (drop 4 s)" "p' = take (length p) (drop 4 s)" "rest = drop (4 + length p) s"
    using assms(3) by (auto simp: read_frame_def Let_def split: if_splits)
  then show "p' = p" using arg_cong [OF d, of "take (length p)"] by simp
  then have "drop 4 s = p @ rest" using r by (metis append_take_drop_id drop_drop add.commute)
  then show "s = to_be_bytes (length p) @ p @ rest" by (metis append_take_drop_id h)
qed

text \<open>
  A stream with the channel in front of it carries the frames of \<open>xs\<close>: all of them as long as the
  writer is there, an initial part of their bytes after it has gone.
\<close>

definition carried :: "('x \<Rightarrow> bytes) \<Rightarrow> bool \<Rightarrow> bytes \<Rightarrow> bytes list \<Rightarrow> 'x list \<Rightarrow> bool" where
  "carried f writing s queue xs =
     (if writing then s @ concat queue = concat (map f xs) else queue = [] \<and> prefix s (concat (map f xs)))"

lemma carried_put: "carried f True s queue xs \<Longrightarrow> carried f True s (queue @ [f x]) (xs @ [x])"
  by (simp add: carried_def)

lemma carried_write: "carried f True s (b # queue) xs \<Longrightarrow> carried f True (s @ b) queue xs"
  by (simp add: carried_def)

lemma carried_prefix: "carried f writing s queue xs \<Longrightarrow> prefix s (concat (map f xs))"
  by (auto simp: carried_def prefix_def split: if_splits) metis

lemma carried_cut:
  assumes "carried f writing s queue xs"
  shows "carried f False (take k s) [] xs"
  using prefix_order.trans [OF take_is_prefix carried_prefix [OF assms]] by (simp add: carried_def)

lemma carried_empty:
  assumes "carried f True [] [] xs" "\<And>x. x \<in> set xs \<Longrightarrow> f x \<noteq> []"
  shows "xs = []"
  using assms by (cases xs) (auto simp: carried_def)

lemma carried_read:
  assumes "carried f writing s queue xs" "read_frame s = Frame p rest"
    and "\<And>x. x \<in> set xs \<Longrightarrow> f x = to_be_bytes (length (payload x)) @ payload x \<and> length (payload x) < 2 ^ 32"
  obtains x ys where "xs = x # ys" "p = payload x" "carried f writing rest queue ys"
proof (cases xs)
  case Nil
  then have "s = []" using carried_prefix [OF assms(1)] by simp
  then show thesis using assms(2) by (simp add: read_frame_def)
next
  case (Cons x ys)
  have x: "f x = to_be_bytes (length (payload x)) @ payload x" "length (payload x) < 2 ^ 32"
    using assms(3) [of x] Cons by auto
  have "prefix s (to_be_bytes (length (payload x)) @ payload x @ concat (map f ys))"
    using carried_prefix [OF assms(1)] by (simp add: Cons x(1))
  note r = read_frame_prefix [OF this x(2) assms(2)]
  then have "carried f writing rest queue ys" using assms(1) by (auto simp: carried_def Cons x(1) split: if_splits)
  then show thesis using that Cons r(1) by blast
qed

text \<open>What is documented of the serializer: sizes are exact and what was written can be read.\<close>

definition codec_ok :: "('q, 'r, 'e) codec \<Rightarrow> bool" where
  "codec_ok cd =
     ((\<forall>env n bs. cd_envelope_size cd env = Ok n \<longrightarrow> cd_put_envelope cd env = Ok bs \<longrightarrow> length bs = n) \<and>
      (\<forall>env bs. cd_put_envelope cd env = Ok bs \<longrightarrow> cd_get_envelope cd bs = Ok env) \<and>
      (\<forall>msg n bs. cd_message_size cd msg = Ok n \<longrightarrow> cd_put_message cd msg = Ok bs \<longrightarrow> length bs = n) \<and>
      (\<forall>msg bs. cd_put_message cd msg = Ok bs \<longrightarrow> cd_get_message cd bs = Ok msg))"

text \<open>Messages of the server have no limit; only those below 4 GiB can be framed.\<close>

definition messages_fit :: "('q, 'r, 'e) codec \<Rightarrow> bool" where
  "messages_fit cd = (\<forall>msg n. cd_message_size cd msg = Ok n \<longrightarrow> n < 2 ^ 32)"

definition env_frame :: "('q, 'r, 'e) codec \<Rightarrow> 'q envelope \<Rightarrow> bytes" where
  "env_frame cd env = (case encode_envelope cd env of Inr bs \<Rightarrow> bs | Inl _ \<Rightarrow> [])"

definition env_payload :: "('q, 'r, 'e) codec \<Rightarrow> 'q envelope \<Rightarrow> bytes" where
  "env_payload cd env = (case cd_put_envelope cd env of Inr bs \<Rightarrow> bs | Inl _ \<Rightarrow> [])"

definition msg_frame :: "('q, 'r, 'e) codec \<Rightarrow> ('r, 'e) server_message \<Rightarrow> bytes" where
  "msg_frame cd msg = (case encode_server_message cd msg of Inr bs \<Rightarrow> bs | Inl _ \<Rightarrow> [])"

definition msg_payload :: "('q, 'r, 'e) codec \<Rightarrow> ('r, 'e) server_message \<Rightarrow> bytes" where
  "msg_payload cd msg = (case cd_put_message cd msg of Inr bs \<Rightarrow> bs | Inl _ \<Rightarrow> [])"

lemma env_frame_payload:
  assumes "codec_ok cd" "is_ok (encode_envelope cd env)"
  shows "env_frame cd env = to_be_bytes (length (env_payload cd env)) @ env_payload cd env"
    "length (env_payload cd env) \<le> MAX_MESSAGE_SIZE" "decode_envelope cd (env_payload cd env) = Ok env"
proof -
  obtain n bs where n: "cd_envelope_size cd env = Ok n" "n \<le> MAX_MESSAGE_SIZE" "cd_put_envelope cd env = Ok bs"
    using assms(2) by (auto simp: encode_envelope_def is_ok_iff bind_res_Ok_iff split: if_splits)
  then have l: "length bs = n" "cd_get_envelope cd bs = Ok env" using assms(1) by (auto simp: codec_ok_def)
  show "env_frame cd env = to_be_bytes (length (env_payload cd env)) @ env_payload cd env"
    "length (env_payload cd env) \<le> MAX_MESSAGE_SIZE" "decode_envelope cd (env_payload cd env) = Ok env"
    using n l by (simp_all add: env_frame_def env_payload_def encode_envelope_def decode_envelope_def)
qed

lemma msg_frame_payload:
  assumes "codec_ok cd" "messages_fit cd" "is_ok (encode_server_message cd msg)"
  shows "msg_frame cd msg = to_be_bytes (length (msg_payload cd msg)) @ msg_payload cd msg"
    "length (msg_payload cd msg) < 2 ^ 32" "decode_server_message cd (msg_payload cd msg) = Ok msg"
proof -
  obtain n bs where n: "cd_message_size cd msg = Ok n" "cd_put_message cd msg = Ok bs"
    using assms(3) by (auto simp: encode_server_message_def is_ok_iff bind_res_Ok_iff)
  then have l: "length bs = n" "cd_get_message cd bs = Ok msg" "n < 2 ^ 32"
    using assms(1,2) by (auto simp: codec_ok_def messages_fit_def)
  show "msg_frame cd msg = to_be_bytes (length (msg_payload cd msg)) @ msg_payload cd msg"
    "length (msg_payload cd msg) < 2 ^ 32" "decode_server_message cd (msg_payload cd msg) = Ok msg"
    using n l by (simp_all add: msg_frame_def msg_payload_def encode_server_message_def decode_server_message_def)
qed

end
