(* ===== verification/Connection_Safety.thy ===== *)
theory Connection_Safety
  imports Connection "HOL-Library.Multiset"
begin

text \<open>
  What a connection keeps, in every order of the steps of both sides: numbers of requests are used
  once, frames arrive whole and in order, every response comes from the handler of the request it is
  given to, and events of a request arrive in the order in which they were sent.
\<close>

subsection \<open>Invariants of a connection\<close>

definition response_ids :: "('r, 'e) server_message list \<Rightarrow> 64 word list" where
  "response_ids ms = concat (map (\<lambda>m. case m of Response i _ \<Rightarrow> [i] | Event _ _ \<Rightarrow> []) ms)"

definition events_of :: "64 word \<Rightarrow> ('r, 'e) server_message list \<Rightarrow> 'e list" where
  "events_of i ms = concat (map (\<lambda>m. case m of Event j e \<Rightarrow> if j = i then [e] else [] | Response _ _ \<Rightarrow> []) ms)"

definition events_for :: "64 word \<Rightarrow> (64 word \<times> 'e) list \<Rightarrow> 'e list" where
  "events_for i evs = map snd (filter (\<lambda>p. fst p = i) evs)"

lemma response_ids_simps [simp]: "response_ids [] = []" "response_ids (ms @ ns) = response_ids ms @ response_ids ns"
    "response_ids [Response i r] = [i]" "response_ids [Event i e] = []"
  by (simp_all add: response_ids_def)

lemma events_of_simps [simp]: "events_of i [] = []" "events_of i (ms @ ns) = events_of i ms @ events_of i ns"
    "events_of i [Response j r] = []" "events_of i [Event j e] = (if j = i then [e] else [])"
  by (simp_all add: events_of_def)

lemma events_for_simps [simp]: "events_for i [] = []" "events_for i (es @ fs) = events_for i es @ events_for i fs"
    "events_for i [(j, e)] = (if j = i then [e] else [])"
  by (simp_all add: events_for_def)

lemma response_ids_id: "i \<in> set (response_ids ms) \<Longrightarrow> \<exists>r. Response i r \<in> set ms"
  by (auto simp: response_ids_def split: server_message.splits)

lemma events_of_none: "(\<And>m. m \<in> set ms \<Longrightarrow> message_id m \<noteq> i) \<Longrightarrow> events_of i ms = []"
  by (fastforce simp: events_of_def split: server_message.splits)

definition ids_inv :: "bytes option \<Rightarrow> ('q, 'r, 'e) world \<Rightarrow> bool" where
  "ids_inv token w =
     ((\<forall>k < length (w_issued w). en_id (w_issued w ! k) = word_of_nat (Suc k)) \<and>
      cl_next_id (w_client w) = word_of_nat (Suc (length (w_issued w))) \<and>
      (\<forall>env \<in> set (w_issued w). en_token env = token))"

definition up_inv :: "('q, 'r, 'e) codec \<Rightarrow> ('q, 'r, 'e) world \<Rightarrow> bool" where
  "up_inv cd w =
     (mset (w_queued w) + mset (map fst (w_futures w)) = mset (filter (\<lambda>env. is_ok (encode_envelope cd env)) (w_issued w)) \<and>
      (\<forall>(env, bs) \<in> set (w_futures w). bs = env_frame cd env) \<and>
      (\<exists>es. w_queued w = w_spawned w @ es \<and> carried (env_frame cd) (w_sending w) (w_up w) (w_out w) es))"

definition server_inv ::
    "('q, 'r, 'e) codec \<Rightarrow> ('q \<Rightarrow> peer_credentials \<Rightarrow> 'r \<Rightarrow> bool) \<Rightarrow> peer_credentials \<Rightarrow> ('q, 'r, 'e) world \<Rightarrow> bool" where
  "server_inv cd H peer w =
     ((\<forall>i r. Response i r \<in> set (w_pushed w) \<longrightarrow>
         (\<exists>env \<in> set (w_spawned w). en_id env = i \<and> H (en_request env) (request_peer peer env) r)) \<and>
      (\<forall>i e. Event i e \<in> set (w_pushed w) \<longrightarrow> i \<in> en_id ` set (w_spawned w)) \<and>
      distinct (response_ids (w_pushed w) @ map en_id (w_tasks w)) \<and> set (w_tasks w) \<subseteq> set (w_spawned w) \<and>
      (w_writing w \<longrightarrow> (\<forall>msg. is_ok (encode_server_message cd msg)) \<longrightarrow>
         en_id ` set (w_spawned w) \<subseteq> set (response_ids (w_pushed w)) \<union> en_id ` set (w_tasks w)) \<and>
      \<not> w_rejected w)"

definition down_inv :: "('q, 'r, 'e) codec \<Rightarrow> ('q, 'r, 'e) world \<Rightarrow> bool" where
  "down_inv cd w =
     ((\<forall>m \<in> set (w_pushed w). is_ok (encode_server_message cd m)) \<and>
      (\<exists>ms. w_pushed w = w_consumed w @ ms \<and> carried (msg_frame cd) (w_writing w) (w_down w) (w_back w) ms))"

definition client_inv :: "('q, 'r, 'e) world \<Rightarrow> bool" where
  "client_inv w =
     (set (cl_pending (w_client w)) \<subseteq> en_id ` set (w_issued w) \<and>
      set (cl_pending (w_client w)) \<inter> set (response_ids (w_consumed w)) = {} \<and>
      (\<forall>i r. (i, r) \<in> set (cl_answers (w_client w)) \<longrightarrow> Response i r \<in> set (w_consumed w)) \<and>
      distinct (map fst (cl_answers (w_client w))) \<and>
      set (map fst (cl_answers (w_client w))) \<subseteq> set (response_ids (w_consumed w)) \<and>
      (cl_connected (w_client w) \<longrightarrow>
         en_id ` set (w_issued w) \<subseteq> set (cl_pending (w_client w)) \<union> set (map fst (cl_answers (w_client w)))) \<and>
      (\<forall>i. prefix (events_for i (cl_events (w_client w))) (events_of i (w_consumed w))) \<and>
      (\<forall>i. i \<in> set (cl_pending (w_client w)) \<longrightarrow> events_for i (cl_events (w_client w)) = events_of i (w_consumed w)))"

lemma push_simps [simp]:
  "w_client (push cd m w) = w_client w" "w_starting (push cd m w) = w_starting w" "w_futures (push cd m w) = w_futures w"
  "w_sending (push cd m w) = w_sending w" "w_out (push cd m w) = w_out w" "w_up (push cd m w) = w_up w"
  "w_reading (push cd m w) = w_reading w" "w_rejected (push cd m w) = w_rejected w" "w_tasks (push cd m w) = w_tasks w"
  "w_writing (push cd m w) = w_writing w" "w_down (push cd m w) = w_down w" "w_issued (push cd m w) = w_issued w"
  "w_queued (push cd m w) = w_queued w" "w_spawned (push cd m w) = w_spawned w" "w_consumed (push cd m w) = w_consumed w"
  by (simp_all add: push_def split: sum.splits)

lemma push_cases:
  obtains "push cd m w = w" "\<not> (w_writing w \<and> is_ok (encode_server_message cd m))"
  | "w_writing w" "is_ok (encode_server_message cd m)"
    "w_back (push cd m w) = w_back w @ [msg_frame cd m]" "w_pushed (push cd m w) = w_pushed w @ [m]"
  by (cases "encode_server_message cd m") (auto simp: push_def msg_frame_def split: if_splits)

lemma consumed_ids:
  assumes "server_inv cd H peer w" "down_inv cd w" "m \<in> set (w_consumed w)"
  shows "message_id m \<in> en_id ` set (w_spawned w)"
  using assms by (cases m) (fastforce simp: server_inv_def down_inv_def)+

lemma sent_issued:
  assumes "up_inv cd w" "env \<in> set (w_queued w) \<union> fst ` set (w_futures w)"
  shows "env \<in> set (w_issued w)" "is_ok (encode_envelope cd env)"
proof -
  have "env \<in># mset (w_queued w) + mset (map fst (w_futures w))" using assms(2) by auto
  then have "env \<in># mset (filter (\<lambda>env. is_ok (encode_envelope cd env)) (w_issued w))"
    using assms(1) unfolding up_inv_def by metis
  then show "env \<in> set (w_issued w)" "is_ok (encode_envelope cd env)" by simp_all
qed

lemma spawned_queued: "up_inv cd w \<Longrightarrow> set (w_spawned w) \<subseteq> set (w_queued w)"
  by (auto simp: up_inv_def)

lemma id_word_inj: "(word_of_nat (Suc k) :: 64 word) = word_of_nat (Suc l) \<longleftrightarrow> k = l" if "k < 2 ^ 64 - 1" "l < 2 ^ 64 - 1"
  using that by (simp add: word_of_nat_eq_iff take_bit_nat_eq_self del: of_nat_Suc)

lemma issued_distinct:
  assumes "ids_inv token w" "length (w_issued w) < 2 ^ 64 - 1"
  shows "distinct (map en_id (w_issued w))" "cl_next_id (w_client w) \<notin> en_id ` set (w_issued w)"
proof -
  have id: "en_id (w_issued w ! k) = word_of_nat (Suc k)" if "k < length (w_issued w)" for k
    using assms(1) that by (simp add: ids_inv_def)
  show "distinct (map en_id (w_issued w))"
    using assms(2) by (auto simp: distinct_conv_nth id id_word_inj simp del: of_nat_Suc)
  show "cl_next_id (w_client w) \<notin> en_id ` set (w_issued w)"
  proof
    assume "cl_next_id (w_client w) \<in> en_id ` set (w_issued w)"
    then obtain k where "k < length (w_issued w)" "(word_of_nat (Suc (length (w_issued w))) :: 64 word) = word_of_nat (Suc k)"
      using assms(1) id by (metis ids_inv_def imageE in_set_conv_nth)
    then show False using id_word_inj [of "length (w_issued w)" k] assms(2) by simp
  qed
qed

lemma accept_simps [simp]:
  "w_client (accept_payload cd er p w) = w_client w" "w_futures (accept_payload cd er p w) = w_futures w"
  "w_sending (accept_payload cd er p w) = w_sending w" "w_out (accept_payload cd er p w) = w_out w"
  "w_up (accept_payload cd er p w) = w_up w" "w_rejected (accept_payload cd er p w) = w_rejected w"
  "w_writing (accept_payload cd er p w) = w_writing w" "w_down (accept_payload cd er p w) = w_down w"
  "w_issued (accept_payload cd er p w) = w_issued w" "w_queued (accept_payload cd er p w) = w_queued w"
  "w_consumed (accept_payload cd er p w) = w_consumed w"
  by (simp_all add: accept_payload_def split: sum.splits)

lemma consume_simps [simp]:
  "w_futures (consume_payload cd p w) = w_futures w" "w_sending (consume_payload cd p w) = w_sending w"
  "w_out (consume_payload cd p w) = w_out w" "w_up (consume_payload cd p w) = w_up w"
  "w_rejected (consume_payload cd p w) = w_rejected w" "w_tasks (consume_payload cd p w) = w_tasks w"
  "w_writing (consume_payload cd p w) = w_writing w" "w_back (consume_payload cd p w) = w_back w"
  "w_down (consume_payload cd p w) = w_down w" "w_issued (consume_payload cd p w) = w_issued w"
  "w_queued (consume_payload cd p w) = w_queued w" "w_spawned (consume_payload cd p w) = w_spawned w"
  "w_pushed (consume_payload cd p w) = w_pushed w"
  by (simp_all add: consume_payload_def split: sum.splits)

lemma receive_next_id [simp]: "cl_next_id (receive_message m c) = cl_next_id c" "cl_connected (receive_message m c) = cl_connected c"
  by (cases m; simp)+

lemma consume_next_id [simp]: "cl_next_id (w_client (consume_payload cd p w)) = cl_next_id (w_client w)"
  by (simp add: consume_payload_def split: sum.splits)

text \<open>The next frame of a request, and of a message, is the one that was sent first.\<close>

lemma request_frame_read: "read_request_frame s = Frame p rest \<Longrightarrow> read_frame s = Frame p rest"
  by (auto simp: read_request_frame_def Let_def split: if_splits)

lemma next_request:
  assumes "codec_ok cd" "up_inv cd w" "read_request_frame (w_up w) = Frame p rest"
  obtains env es where "w_queued w = w_spawned w @ env # es" "decode_envelope cd p = Ok env"
    "carried (env_frame cd) (w_sending w) rest (w_out w) es"
proof -
  obtain xs where xs: "w_queued w = w_spawned w @ xs" "carried (env_frame cd) (w_sending w) (w_up w) (w_out w) xs"
    using assms(2) by (auto simp: up_inv_def)
  have ok: "is_ok (encode_envelope cd x)" if "x \<in> set xs" for x using sent_issued(2) [OF assms(2), of x] that xs(1) by simp
  have "env_frame cd x = to_be_bytes (length (env_payload cd x)) @ env_payload cd x \<and> length (env_payload cd x) < 2 ^ 32"
    if "x \<in> set xs" for x
    using env_frame_payload [OF assms(1) ok [OF that]] by (simp add: MAX_MESSAGE_SIZE_def)
  from carried_read [OF xs(2) request_frame_read [OF assms(3)] this]
  obtain env es where "xs = env # es" "p = env_payload cd env" "carried (env_frame cd) (w_sending w) rest (w_out w) es" by blast
  then show thesis using that xs(1) env_frame_payload(3) [OF assms(1) ok, of env] by simp
qed

lemma never_too_large:
  assumes "codec_ok cd" "up_inv cd w"
  shows "read_request_frame (w_up w) \<noteq> TooLarge n"
proof
  assume large: "read_request_frame (w_up w) = TooLarge n"
  obtain xs where xs: "w_queued w = w_spawned w @ xs" "carried (env_frame cd) (w_sending w) (w_up w) (w_out w) xs"
    using assms(2) by (auto simp: up_inv_def)
  have four: "4 \<le> length (w_up w)" "from_be_bytes (take 4 (w_up w)) > MAX_MESSAGE_SIZE"
    using large by (auto simp: read_request_frame_def read_frame_def Let_def split: if_splits)
  obtain z where z: "concat (map (env_frame cd) xs) = w_up w @ z" using carried_prefix [OF xs(2)] by (auto simp: prefix_def)
  with four(1) obtain x ys where c: "xs = x # ys" by (cases xs) auto
  have "is_ok (encode_envelope cd x)" using sent_issued(2) [OF assms(2), of x] xs(1) c by simp
  note x = env_frame_payload [OF assms(1) this]
  have "take 4 (w_up w) = to_be_bytes (length (env_payload cd x))"
    using arg_cong [OF z, of "take 4"] four(1) by (simp add: c x(1))
  then show False using four(2) x(2) by (simp add: from_be_bytes_to_be_bytes MAX_MESSAGE_SIZE_def)
qed

lemma next_message:
  assumes "codec_ok cd" "messages_fit cd" "down_inv cd w" "read_frame (w_down w) = Frame p rest"
  obtains m ms where "w_pushed w = w_consumed w @ m # ms" "decode_server_message cd p = Ok m"
    "carried (msg_frame cd) (w_writing w) rest (w_back w) ms"
proof -
  obtain xs where xs: "w_pushed w = w_consumed w @ xs" "carried (msg_frame cd) (w_writing w) (w_down w) (w_back w) xs"
    using assms(3) by (auto simp: down_inv_def)
  have ok: "is_ok (encode_server_message cd x)" if "x \<in> set xs" for x using assms(3) that xs(1) by (simp add: down_inv_def)
  have "msg_frame cd x = to_be_bytes (length (msg_payload cd x)) @ msg_payload cd x \<and> length (msg_payload cd x) < 2 ^ 32"
    if "x \<in> set xs" for x
    using msg_frame_payload [OF assms(1,2) ok [OF that]] by simp
  from carried_read [OF xs(2) assms(4) this]
  obtain m ms where "xs = m # ms" "p = msg_payload cd m" "carried (msg_frame cd) (w_writing w) rest (w_back w) ms" by blast
  then show thesis using that xs(1) msg_frame_payload(3) [OF assms(1,2) ok, of m] by simp
qed

lemma step_ids:
  assumes "conn_step cd er H peer token w w'" "ids_inv token w"
  shows "ids_inv token w'"
  using assms
proof (cases rule: conn_step.cases)
  case (register q env r c)
  then show ?thesis using assms(2) by (auto simp: ids_inv_def register_request_def Let_def nth_append less_Suc_eq)
qed (auto simp: ids_inv_def client_disconnect_def)

lemma env_frame_ok: "encode_envelope cd env = Ok bs \<Longrightarrow> env_frame cd env = bs"
  by (simp add: env_frame_def)

lemma mset_fst_remove1: "(x, y) \<in> set ps \<Longrightarrow> mset (map fst ps) = mset (x # map fst (remove1 (x, y) ps))"
  by (induction ps) auto

lemma step_up:
  assumes "conn_step cd er H peer token w w'" "codec_ok cd" "up_inv cd w"
  shows "up_inv cd w'"
  using assms(1)
proof (cases rule: conn_step.cases)
  case (register q env r c)
  then show ?thesis
    using assms(3) by (cases r) (auto simp: up_inv_def register_request_def Let_def is_ok_def env_frame_ok)
next
  case (poll env bs)
  have "bs = env_frame cd env" using assms(3) poll(2) by (auto simp: up_inv_def)
  moreover have "mset (map fst (w_futures w)) = mset (env # map fst (remove1 (env, bs) (w_futures w)))"
    using poll(2) by (rule mset_fst_remove1)
  ultimately show ?thesis
    using assms(3) poll by (auto simp: up_inv_def carried_put dest: subsetD [OF set_remove1_subset])
next
  case (serve p rest)
  from next_request [OF assms(2,3) serve(3)] obtain env es where
    "w_queued w = w_spawned w @ env # es" "decode_envelope cd p = Ok env" "carried (env_frame cd) (w_sending w) rest (w_out w) es" .
  then show ?thesis using assms(3) serve(1) by (auto simp: up_inv_def accept_payload_def)
next
  case (write_up bs out)
  then show ?thesis using assms(3) by (auto simp: up_inv_def carried_write)
next
  case (cut_up k)
  then show ?thesis using assms(3) by (auto simp: up_inv_def dest: carried_cut)
qed (use assms(3) in \<open>auto simp: up_inv_def\<close>)

lemma spawn_fresh:
  assumes "ids_inv token w" "length (w_issued w) < 2 ^ 64 - 1" "up_inv cd w" "server_inv cd H peer w"
    and "w_queued w = w_spawned w @ env # es"
  shows "en_id env \<notin> set (response_ids (w_pushed w)) \<union> en_id ` set (w_tasks w)"
proof -
  have "distinct (map en_id (filter (\<lambda>env. is_ok (encode_envelope cd env)) (w_issued w)))"
    using issued_distinct(1) [OF assms(1,2)] by (simp add: distinct_map_filter)
  moreover have "mset (map en_id (w_queued w @ map fst (w_futures w))) =
      mset (map en_id (filter (\<lambda>env. is_ok (encode_envelope cd env)) (w_issued w)))"
    using assms(3) unfolding up_inv_def by (simp only: mset_map mset_append)
  ultimately have "distinct (map en_id (w_queued w @ map fst (w_futures w)))" by (metis mset_eq_imp_distinct_iff)
  then have "en_id env \<notin> en_id ` set (w_spawned w)" by (auto simp: assms(5))
  moreover have "i \<in> en_id ` set (w_spawned w)" if "i \<in> set (response_ids (w_pushed w))" for i
    using response_ids_id [OF that] assms(4) unfolding server_inv_def by blast
  moreover have "set (w_tasks w) \<subseteq> set (w_spawned w)" using assms(4) by (simp add: server_inv_def)
  ultimately show ?thesis by blast
qed

lemma distinct_map_remove1: "distinct (map f xs) \<Longrightarrow> distinct (map f (remove1 x xs))"
  by (induction xs) (auto dest: subsetD [OF set_remove1_subset])

lemma image_remove1: "distinct (map f xs) \<Longrightarrow> x \<in> set xs \<Longrightarrow> f ` set (remove1 x xs) = f ` set xs - {f x}"
  by (induction xs) auto

lemma server_invI:
  assumes "\<And>i r. Response i r \<in> set (w_pushed w) \<Longrightarrow> \<exists>env \<in> set (w_spawned w). en_id env = i \<and> H (en_request env) (request_peer peer env) r"
    and "\<And>i e. Event i e \<in> set (w_pushed w) \<Longrightarrow> i \<in> en_id ` set (w_spawned w)"
    and "distinct (response_ids (w_pushed w) @ map en_id (w_tasks w))" "set (w_tasks w) \<subseteq> set (w_spawned w)"
    and "w_writing w \<Longrightarrow> \<forall>msg. is_ok (encode_server_message cd msg) \<Longrightarrow>
      en_id ` set (w_spawned w) \<subseteq> set (response_ids (w_pushed w)) \<union> en_id ` set (w_tasks w)"
    and "\<not> w_rejected w"
  shows "server_inv cd H peer w"
  using assms unfolding server_inv_def by blast

lemma server_invD:
  assumes "server_inv cd H peer w"
  shows "Response i r \<in> set (w_pushed w) \<Longrightarrow> \<exists>env \<in> set (w_spawned w). en_id env = i \<and> H (en_request env) (request_peer peer env) r"
    and "Event i e \<in> set (w_pushed w) \<Longrightarrow> i \<in> en_id ` set (w_spawned w)"
    and "distinct (response_ids (w_pushed w) @ map en_id (w_tasks w))" "set (w_tasks w) \<subseteq> set (w_spawned w)"
    and "w_writing w \<Longrightarrow> \<forall>msg. is_ok (encode_server_message cd msg) \<Longrightarrow>
      en_id ` set (w_spawned w) \<subseteq> set (response_ids (w_pushed w)) \<union> en_id ` set (w_tasks w)"
    and "\<not> w_rejected w"
  using assms unfolding server_inv_def by blast+

lemma server_inv_answer:
  assumes "server_inv cd H peer w" "env \<in> set (w_tasks w)" "H (en_request env) (request_peer peer env) r"
  shows "server_inv cd H peer (push cd (Response (en_id env) r) (w\<lparr>w_tasks := remove1 env (w_tasks w)\<rparr>))" (is "server_inv _ _ _ (push _ ?m ?w)")
proof -
  note i = server_invD [OF assms(1)]
  have d: "distinct (map en_id (w_tasks w))" and s: "env \<in> set (w_spawned w)" and t: "en_id env \<notin> set (response_ids (w_pushed w))"
    using i(3,4) assms(2) by auto
  note r = distinct_map_remove1 [OF d, of env] image_remove1 [OF d assms(2)]
  have sub: "set (remove1 env (w_tasks w)) \<subseteq> set (w_spawned w)" using i(4) set_remove1_subset by fast
  show ?thesis
  proof (cases rule: push_cases [of cd ?m ?w])
    case 1
    have "distinct (response_ids (w_pushed w) @ map en_id (remove1 env (w_tasks w)))" using i(3) r by auto
    then show ?thesis unfolding 1(1) using i sub 1(2) by (intro server_invI) auto
  next
    case 2
    have "distinct (response_ids (w_pushed w @ [?m]) @ map en_id (remove1 env (w_tasks w)))" using i(3) r t by auto
    moreover have "en_id ` set (w_spawned w) \<subseteq> set (response_ids (w_pushed w @ [?m])) \<union> en_id ` set (remove1 env (w_tasks w))"
      if "\<forall>msg. is_ok (encode_server_message cd msg)"
      using i(5) that 2(1) r(2) by auto
    ultimately show ?thesis using i(1,2,6) sub s assms(3) by (intro server_invI) (auto simp: 2(4))
  qed
qed

lemma server_inv_emit:
  assumes "server_inv cd H peer w" "env \<in> set (w_spawned w)"
  shows "server_inv cd H peer (push cd (Event (en_id env) e) w)"
proof (cases rule: push_cases [of cd "Event (en_id env) e" w])
  case 2
  then show ?thesis using server_invD [OF assms(1)] assms(2) by (intro server_invI) auto
qed (simp add: assms(1))

lemma step_server:
  assumes "conn_step cd er H peer token w w'" "codec_ok cd" "ids_inv token w" "length (w_issued w) < 2 ^ 64 - 1"
    and "up_inv cd w" "server_inv cd H peer w"
  shows "server_inv cd H peer w'"
  using assms(1)
proof (cases rule: conn_step.cases)
  case (serve p rest)
  from next_request [OF assms(2,5) serve(3)] obtain env es where
    q: "w_queued w = w_spawned w @ env # es" "decode_envelope cd p = Ok env" .
  show ?thesis
    using assms(6) spawn_fresh [OF assms(3,4,5,6) q(1)] serve(1) by (auto simp: server_inv_def accept_payload_def q(2))
next
  case (answer env r)
  then show ?thesis using server_inv_answer [OF assms(6)] by simp
next
  case (emit env e)
  then show ?thesis using server_inv_emit [OF assms(6)] by simp
qed (use assms(6) never_too_large [OF assms(2,5)] in \<open>simp_all add: server_inv_def\<close>)

lemma down_inv_push: "down_inv cd w \<Longrightarrow> down_inv cd (push cd m w)"
  by (cases rule: push_cases [of cd m w]) (auto simp: down_inv_def carried_put)

lemma step_down:
  assumes "conn_step cd er H peer token w w'" "codec_ok cd" "messages_fit cd" "up_inv cd w" "down_inv cd w"
  shows "down_inv cd w'"
  using assms(1)
proof (cases rule: conn_step.cases)
  case (serve p rest)
  from next_request [OF assms(2,4) serve(3)] obtain env where "decode_envelope cd p = Ok env" .
  then show ?thesis using assms(5) serve(1) by (simp add: down_inv_def accept_payload_def)
next
  case (answer env r)
  have "down_inv cd (w\<lparr>w_tasks := remove1 env (w_tasks w)\<rparr>)" using assms(5) by (simp add: down_inv_def)
  then show ?thesis using down_inv_push answer(1) by simp
next
  case (emit env e)
  then show ?thesis using down_inv_push [OF assms(5)] by simp
next
  case (receive p rest)
  from next_message [OF assms(2,3,5) receive(3)] obtain m ms where
    "w_pushed w = w_consumed w @ m # ms" "decode_server_message cd p = Ok m" "carried (msg_frame cd) (w_writing w) rest (w_back w) ms" .
  then show ?thesis using assms(5) receive(1) by (auto simp: down_inv_def consume_payload_def)
next
  case (write_down bs rest)
  then show ?thesis using assms(5) by (auto simp: down_inv_def carried_write)
next
  case (cut_down k)
  then show ?thesis using assms(5) by (auto simp: down_inv_def dest: carried_cut)
qed (use assms(5) never_too_large [OF assms(2,4)] in \<open>auto simp: down_inv_def\<close>)

lemma client_invI:
  assumes "set (cl_pending (w_client w)) \<subseteq> en_id ` set (w_issued w)"
    and "set (cl_pending (w_client w)) \<inter> set (response_ids (w_consumed w)) = {}"
    and "\<And>i r. (i, r) \<in> set (cl_answers (w_client w)) \<Longrightarrow> Response i r \<in> set (w_consumed w)"
    and "distinct (map fst (cl_answers (w_client w)))"
    and "set (map fst (cl_answers (w_client w))) \<subseteq> set (response_ids (w_consumed w))"
    and "cl_connected (w_client w) \<Longrightarrow>
      en_id ` set (w_issued w) \<subseteq> set (cl_pending (w_client w)) \<union> set (map fst (cl_answers (w_client w)))"
    and "\<And>i. prefix (events_for i (cl_events (w_client w))) (events_of i (w_consumed w))"
    and "\<And>i. i \<in> set (cl_pending (w_client w)) \<Longrightarrow> events_for i (cl_events (w_client w)) = events_of i (w_consumed w)"
  shows "client_inv w"
  unfolding client_inv_def by (intro conjI allI impI assms)

lemma client_invD:
  assumes "client_inv w"
  shows "set (cl_pending (w_client w)) \<subseteq> en_id ` set (w_issued w)"
    and "set (cl_pending (w_client w)) \<inter> set (response_ids (w_consumed w)) = {}"
    and "(i, r) \<in> set (cl_answers (w_client w)) \<Longrightarrow> Response i r \<in> set (w_consumed w)"
    and "distinct (map fst (cl_answers (w_client w)))"
    and "set (map fst (cl_answers (w_client w))) \<subseteq> set (response_ids (w_consumed w))"
    and "cl_connected (w_client w) \<Longrightarrow>
      en_id ` set (w_issued w) \<subseteq> set (cl_pending (w_client w)) \<union> set (map fst (cl_answers (w_client w)))"
    and "prefix (events_for i (cl_events (w_client w))) (events_of i (w_consumed w))"
    and "i \<in> set (cl_pending (w_client w)) \<Longrightarrow> events_for i (cl_events (w_client w)) = events_of i (w_consumed w)"
  using assms by (simp_all only: client_inv_def)

lemma new_id_unused:
  assumes "ids_inv token w" "length (w_issued w) < 2 ^ 64 - 1" "up_inv cd w" "server_inv cd H peer w" "down_inv cd w"
  shows "events_of (cl_next_id (w_client w)) (w_consumed w) = []" "cl_next_id (w_client w) \<notin> set (response_ids (w_consumed w))"
proof -
  have fresh: "message_id m \<noteq> cl_next_id (w_client w)" if m: "m \<in> set (w_consumed w)" for m
  proof -
    obtain env where "env \<in> set (w_spawned w)" "message_id m = en_id env" using consumed_ids [OF assms(4,5) m] by auto
    moreover from this(1) have "env \<in> set (w_issued w)" using spawned_queued [OF assms(3)] sent_issued(1) [OF assms(3)] by blast
    ultimately show ?thesis using issued_distinct(2) [OF assms(1,2)] by (metis imageI)
  qed
  then show "events_of (cl_next_id (w_client w)) (w_consumed w) = []" by (rule events_of_none)
  show "cl_next_id (w_client w) \<notin> set (response_ids (w_consumed w))"
  proof
    assume "cl_next_id (w_client w) \<in> set (response_ids (w_consumed w))"
    then obtain r where "Response (cl_next_id (w_client w)) r \<in> set (w_consumed w)" using response_ids_id by blast
    then show False using fresh by fastforce
  qed
qed

lemma client_inv_register:
  assumes "ids_inv token w" "length (w_issued w) < 2 ^ 64 - 1" "up_inv cd w" "server_inv cd H peer w" "down_inv cd w" "client_inv w"
    and "register_request cd token q (w_client w) = (env, r, c)"
  shows "client_inv (w\<lparr>w_client := c, w_starting := ss, w_issued := w_issued w @ [env], w_futures := fs\<rparr>)"
proof -
  let ?i = "cl_next_id (w_client w)"
  note inv = client_invD [OF assms(6)]
  have c: "en_id env = ?i" "c = (w_client w)\<lparr>cl_next_id := ?i + 1, cl_pending := List.insert ?i (cl_pending (w_client w))\<rparr>"
    using assms(7) by (auto simp: register_request_def Let_def)
  note new = new_id_unused [OF assms(1-5)]
  have none: "events_for ?i (cl_events (w_client w)) = []" using inv(7) [of ?i] new(1) by simp
  show ?thesis
    using inv new none by (intro client_invI) (auto simp: c)
qed

lemma client_inv_response:
  assumes "client_inv w" "i \<in> set (cl_pending (w_client w))"
  shows "client_inv (w\<lparr>w_down := s,
    w_client := (w_client w)\<lparr>cl_pending := removeAll i (cl_pending (w_client w)), cl_answers := cl_answers (w_client w) @ [(i, r)]\<rparr>,
    w_consumed := w_consumed w @ [Response i r]\<rparr>)"
proof (rule client_invI, goal_cases)
  case 4
  have "i \<notin> set (map fst (cl_answers (w_client w)))" using client_invD(2,5) [OF assms(1)] assms(2) by blast
  then show ?case using client_invD(4) [OF assms(1)] by auto
next
  case 6
  then show ?case using client_invD(6) [OF assms(1)] by auto
qed (use client_invD [OF assms(1)] in \<open>auto dest: prefix_order.trans\<close>)

lemma client_inv_ignored:
  assumes "client_inv w" "message_id m \<notin> set (cl_pending (w_client w))"
  shows "client_inv (w\<lparr>w_down := s, w_consumed := w_consumed w @ [m]\<rparr>)"
proof (rule client_invI, goal_cases)
  case (7 i)
  then show ?case using client_invD(7) [OF assms(1), of i] by simp
next
  case (8 i)
  then show ?case using client_invD(8) [OF assms(1), of i] assms(2) by (cases m) auto
qed (use client_invD [OF assms(1)] assms(2) in \<open>cases m; auto\<close>)+

lemma client_inv_event:
  assumes "client_inv w" "i \<in> set (cl_pending (w_client w))"
  shows "client_inv (w\<lparr>w_down := s, w_client := (w_client w)\<lparr>cl_events := cl_events (w_client w) @ [(i, e)]\<rparr>,
    w_consumed := w_consumed w @ [Event i e]\<rparr>)"
proof (rule client_invI, goal_cases)
  case (7 j)
  then show ?case using client_invD(7,8) [OF assms(1), of j] assms(2) by (cases "i = j") auto
qed (use client_invD [OF assms(1)] in auto)

lemma client_inv_receive:
  assumes "client_inv w"
  shows "client_inv (w\<lparr>w_down := s, w_client := receive_message m (w_client w), w_consumed := w_consumed w @ [m]\<rparr>)"
proof (cases "message_id m \<in> set (cl_pending (w_client w))")
  case True
  then show ?thesis using client_inv_response [OF assms] client_inv_event [OF assms] by (cases m) simp_all
next
  case False
  then show ?thesis using client_inv_ignored [OF assms] by (cases m) simp_all
qed

lemma step_client:
  assumes "conn_step cd er H peer token w w'" "codec_ok cd" "messages_fit cd" "ids_inv token w" "length (w_issued w) < 2 ^ 64 - 1"
    and "up_inv cd w" "server_inv cd H peer w" "down_inv cd w" "client_inv w"
  shows "client_inv w'"
  using assms(1)
proof (cases rule: conn_step.cases)
  case (register q env r c)
  then show ?thesis using client_inv_register [OF assms(4-9)] by simp
next
  case (receive p rest)
  from next_message [OF assms(2,3,8) receive(3)] obtain m where "decode_server_message cd p = Ok m" .
  then show ?thesis using client_inv_receive [OF assms(9)] receive(1) by (simp add: consume_payload_def)
next
  case disconnect
  then show ?thesis using client_invD [OF assms(9)] by (intro client_invI) (simp_all add: client_disconnect_def)
qed (use assms(9) in \<open>simp_all add: client_inv_def\<close>)

lemma issued_grows: "conn_step cd er H peer token w w' \<Longrightarrow> length (w_issued w) \<le> length (w_issued w')"
  by (induction rule: conn_step.induct) auto

lemma reached_inv:
  assumes "conn_reaches cd er H peer token w" "codec_ok cd" "messages_fit cd" "length (w_issued w) < 2 ^ 64 - 1"
  shows "ids_inv token w \<and> up_inv cd w \<and> server_inv cd H peer w \<and> down_inv cd w \<and> client_inv w"
  using assms
proof (induction rule: conn_reaches.induct)
  case connect
  show ?case
    by (simp add: ids_inv_def up_inv_def server_inv_def down_inv_def client_inv_def world_init_def client_connect_def carried_def)
next
  case (advance w w')
  have "length (w_issued w) < 2 ^ 64 - 1" using issued_grows [OF advance.hyps(2)] advance.prems(3) by simp
  then show ?case
    using advance step_ids step_up step_server step_down step_client by metis
qed

lemma env_frame_nonempty: "is_ok (encode_envelope cd env) \<Longrightarrow> env_frame cd env \<noteq> []"
  by (auto simp: env_frame_def encode_envelope_def is_ok_iff bind_res_Ok_iff to_be_bytes_def split: if_splits)

lemma msg_frame_nonempty: "is_ok (encode_server_message cd m) \<Longrightarrow> msg_frame cd m \<noteq> []"
  by (auto simp: msg_frame_def encode_server_message_def is_ok_iff bind_res_Ok_iff to_be_bytes_def)

text \<open>Nothing is left anywhere on the way and nobody has gone.\<close>

definition drained :: "('q, 'r, 'e) world \<Rightarrow> bool" where
  "drained w = (cl_connected (w_client w) \<and> w_futures w = [] \<and> w_sending w \<and> w_out w = [] \<and> w_up w = [] \<and> w_tasks w = [] \<and>
     w_writing w \<and> w_back w = [] \<and> w_down w = [])"

lemma drained_answered:
  assumes "up_inv cd w" "server_inv cd H peer w" "down_inv cd w" "client_inv w" "drained w"
    and "\<forall>msg. is_ok (encode_server_message cd msg)" "env \<in> set (w_issued w)" "is_ok (encode_envelope cd env)"
  shows "en_id env \<in> fst ` set (cl_answers (w_client w))"
proof -
  have d: "cl_connected (w_client w)" "w_futures w = []" "w_sending w" "w_out w = []" "w_up w = []" "w_tasks w = []"
    "w_writing w" "w_back w = []" "w_down w = []" using assms(5) by (simp_all add: drained_def)
  have "mset (w_queued w) = mset (filter (\<lambda>env. is_ok (encode_envelope cd env)) (w_issued w))"
    using assms(1) d(2) by (simp add: up_inv_def)
  then have q: "env \<in> set (w_queued w)" using assms(7,8) mset_eq_setD by fastforce
  obtain es where es: "w_queued w = w_spawned w @ es" "carried (env_frame cd) True [] [] es"
    using assms(1) d unfolding up_inv_def by auto
  have "env_frame cd x \<noteq> []" if "x \<in> set es" for x
    using sent_issued(2) [OF assms(1), of x] that es(1) env_frame_nonempty by simp
  then have "es = []" using carried_empty [OF es(2)] by blast
  then have "en_id env \<in> set (response_ids (w_pushed w))"
    using q es(1) server_invD(5) [OF assms(2) d(7) assms(6)] d(6) by auto
  moreover obtain ms where ms: "w_pushed w = w_consumed w @ ms" "carried (msg_frame cd) True [] [] ms"
    using assms(3) d unfolding down_inv_def by auto
  have "ms = []" using carried_empty [OF ms(2)] msg_frame_nonempty assms(6) by blast
  ultimately have "en_id env \<notin> set (cl_pending (w_client w))" using client_invD(2) [OF assms(4)] ms(1) by auto
  then show ?thesis using client_invD(6) [OF assms(4) d(1)] assms(7) by auto
qed


text \<open>A format for one kind of request: its number in unary.\<close>

definition unary_codec :: "(unit, unit, unit) codec" where
  "unary_codec =
     (let small = (\<lambda>i :: 64 word. unat i < 100); unary = (\<lambda>i :: 64 word. replicate (unat i) (0 :: 8 word));
          env_ok = (\<lambda>env. small (en_id env) \<and> en_token env = None);
          bytes_of = (\<lambda>m. case m of Response i _ \<Rightarrow> 0 # unary i | Event i _ \<Rightarrow> 1 # unary i)
      in \<lparr>cd_envelope_size = (\<lambda>env. if env_ok env then Ok (unat (en_id env)) else Err []),
          cd_put_envelope = (\<lambda>env. if env_ok env then Ok (unary (en_id env)) else Err []),
          cd_get_envelope = (\<lambda>bs. Ok \<lparr>en_id = word_of_nat (length bs), en_request = (), en_token = None\<rparr>),
          cd_message_size = (\<lambda>m. if small (message_id m) then Ok (length (bytes_of m)) else Err []),
          cd_put_message = (\<lambda>m. if small (message_id m) then Ok (bytes_of m) else Err []),
          cd_get_message = (\<lambda>bs. Ok ((if hd bs = 0 then Response else Event) (word_of_nat (length bs - 1)) ()))\<rparr>)"

lemma unary_codec_ok: "codec_ok unary_codec" "messages_fit unary_codec"
  by (auto simp: codec_ok_def messages_fit_def unary_codec_def Let_def split: if_splits server_message.splits)

text \<open>One request on its way there and back.\<close>

definition sample_envelope :: "unit envelope" where
  "sample_envelope = \<lparr>en_id = 1, en_request = (), en_token = None\<rparr>"

lemma sample_frames:
  "encode_envelope unary_codec sample_envelope = Ok [0, 0, 0, 1, 0]"
  "encode_server_message unary_codec (Response 1 ()) = Ok [0, 0, 0, 2, 0, 0]"
  "decode_envelope unary_codec [0] = Ok sample_envelope"
  "decode_server_message unary_codec [0, 0] = Ok (Response 1 ())"
  by (simp_all add: encode_envelope_def encode_server_message_def decode_envelope_def decode_server_message_def unary_codec_def
      sample_envelope_def to_be_bytes_def MAX_MESSAGE_SIZE_def Let_def)

lemma sample_reads:
  "read_request_frame [0, 0, 0, 1, 0] = Frame [0] []" "read_frame [0, 0, 0, 2, 0, 0] = Frame [0, 0] []"
  by (simp_all add: read_request_frame_def read_frame_def from_be_bytes_def MAX_MESSAGE_SIZE_def)

definition sample_end :: "(unit, unit, unit) world" where
  "sample_end = world_init\<lparr>w_client := \<lparr>cl_next_id = 2, cl_connected = True, cl_pending = [], cl_answers = [(1, ())], cl_events = []\<rparr>,
     w_issued := [sample_envelope], w_queued := [sample_envelope], w_spawned := [sample_envelope],
     w_pushed := [Response 1 ()], w_consumed := [Response 1 ()]\<rparr>"

lemma sample_exchange: "conn_reaches unary_codec (\<lambda>_. ()) (\<lambda>_ _ _. True) peer None sample_end"
proof -
  let ?R = "conn_reaches unary_codec (\<lambda>_. ()) (\<lambda>_ _ _. True) peer None"
  note go = conn_reaches.advance [of unary_codec "\<lambda>_. ()" "\<lambda>_ _ _. True" peer None]
  let ?c = "\<lparr>cl_next_id = 2, cl_connected = True, cl_pending = [1], cl_answers = [], cl_events = []\<rparr>"
  let ?w2 = "world_init\<lparr>w_client := ?c, w_issued := [sample_envelope], w_futures := [(sample_envelope, [0, 0, 0, 1, 0])]\<rparr>"
  let ?w4 = "world_init\<lparr>w_client := ?c, w_issued := [sample_envelope], w_queued := [sample_envelope], w_up := [0, 0, 0, 1, 0]\<rparr>"
  let ?w5 = "world_init\<lparr>w_client := ?c, w_issued := [sample_envelope], w_queued := [sample_envelope],
    w_tasks := [sample_envelope], w_spawned := [sample_envelope]\<rparr>"
  let ?w7 = "world_init\<lparr>w_client := ?c, w_issued := [sample_envelope], w_queued := [sample_envelope],
    w_spawned := [sample_envelope], w_pushed := [Response 1 ()], w_down := [0, 0, 0, 2, 0, 0]\<rparr>"
  have w1: "?R (world_init\<lparr>w_starting := [()]\<rparr>)"
    using go [OF conn_reaches.connect conn_step.check, of "()"] by (simp add: world_init_def client_connect_def)
  have r: "register_request unary_codec None () client_connect = (sample_envelope, Ok [0, 0, 0, 1, 0], ?c)"
    using sample_frames(1) by (simp add: register_request_def client_connect_def sample_envelope_def List.insert_def)
  have w2: "?R ?w2"
    using go [OF w1 conn_step.register [of "()" _ _ _ sample_envelope "Ok [0, 0, 0, 1, 0]" ?c]] r by (simp add: world_init_def)
  have w3: "?R (?w2\<lparr>w_futures := [], w_out := [[0, 0, 0, 1, 0]], w_queued := [sample_envelope]\<rparr>)"
    using go [OF w2 conn_step.poll [of sample_envelope "[0, 0, 0, 1, 0]"]] by (simp add: world_init_def)
  have w4: "?R ?w4"
    using go [OF w3 conn_step.write_up [of _ "[0, 0, 0, 1, 0]" "[]"]] by (simp add: world_init_def)
  have w5: "?R ?w5"
    using go [OF w4 conn_step.serve [of _ "[0]" "[]"]] by (simp add: world_init_def sample_reads accept_payload_def sample_frames)
  have w6: "?R (?w5\<lparr>w_tasks := [], w_back := [[0, 0, 0, 2, 0, 0]], w_pushed := [Response 1 ()]\<rparr>)"
    using go [OF w5 conn_step.answer [of sample_envelope _ _ _ "()"]]
    by (simp add: world_init_def push_def sample_frames sample_envelope_def)
  have w7: "?R ?w7"
    using go [OF w6 conn_step.write_down [of _ "[0, 0, 0, 2, 0, 0]" "[]"]] by (simp add: world_init_def)
  show ?thesis
    using go [OF w7 conn_step.receive [of _ "[0, 0]" "[]"]]
    by (simp add: world_init_def sample_reads consume_payload_def sample_frames sample_end_def)
qed

definition sample_peer :: peer_credentials where
  "sample_peer = \<lparr>pc_token = None, pc_uid = 7, pc_gid = 7\<rparr>"


subsection \<open>Requests that wait for ever\<close>

text \<open>
  The check of the connection and the entry of a request are not one step: a request that passed the
  check while the reader came to its end is entered afterwards and stays so for ever.
\<close>

lemma late_request_waits:
  assumes "conn_step cd er H peer token w w'" "\<not> cl_connected (w_client w)" "i \<in> set (cl_pending (w_client w))"
  shows "\<not> cl_connected (w_client w') \<and> i \<in> set (cl_pending (w_client w')) \<and> cl_answers (w_client w') = cl_answers (w_client w)"
  using assms by (cases rule: conn_step.cases) (auto simp: register_request_def Let_def)

lemma late_request_reachable:
  "\<exists>w. conn_reaches cd er H peer token w \<and> \<not> cl_connected (w_client w) \<and> cl_pending (w_client w) = [1]"
proof -
  note go = conn_reaches.advance [of cd er H peer token]
  have w1: "conn_reaches cd er H peer token (world_init\<lparr>w_starting := [q]\<rparr>)" for q
    using go [OF conn_reaches.connect conn_step.check, of q] by (simp add: world_init_def client_connect_def)
  have w2: "conn_reaches cd er H peer token (world_init\<lparr>w_starting := [q], w_client := client_disconnect client_connect\<rparr>)" for q
    using go [OF w1 conn_step.disconnect, of q] by (simp add: world_init_def client_connect_def)
  obtain env r c where "register_request cd token undefined (client_disconnect client_connect) = (env, r, c)" by (metis prod_cases3)
  then show ?thesis
    using go [OF w2 conn_step.register [of undefined _ _ _ env r c], of undefined]
    by (fastforce simp: world_init_def client_connect_def client_disconnect_def register_request_def Let_def List.insert_def)
qed

text \<open>A request too large to be sent is refused, and its entry is not taken back.\<close>

lemma refused_request_stays:
  assumes "cl_connected c" "send_request cd token q c = (Err e, c')"
  shows "cl_next_id c \<in> set (cl_pending c')"
  using assms by (auto simp: send_request_def register_request_def Let_def)

end
