(* ===== verification/Spec2Isabelle.thy ===== *)
theory Spec2Isabelle
  imports Durations Deps_Order Deps_Conditions Privileges Acl Actor_Signals Request_Safety Log_Paging Orchestrator_Startup Orchestrator_Halt Config_Resolve Connection_Safety
begin

text \<open>
  A verification development for kepler, a process orchestrator written in Rust.
\<close>

end
